(* ===== verification/Ngx_Prelude.thy ===== *)
theory Ngx_Prelude
  imports Main "HOL-Library.Word"
begin

text \<open>
  Shared vocabulary of the development: the machine types of the build
  configuration (a 64-bit little-endian target, \<open>objs/ngx_auto_config.h\<close>), the
  return codes of \<open>src/core/ngx_core.h\<close> and \<open>src/http/ngx_http_request.h\<close>, the
  character constants of the sources as bytes, the character classes the parsers test
  with the same C idiom, and generic lemmas on lists and bytes.
\<close>

unbundle bit_operations_syntax

named_theorems ngx_defs \<open>definitions of small character predicates and helpers\<close>

type_synonym byte = "8 word"
type_synonym u32 = "32 word"
type_synonym u64 = "64 word"

text \<open>An \<open>ngx_str_t\<close> is the byte sequence its \<open>data\<close> and \<open>len\<close> delimit.\<close>

type_synonym ngx_str = "byte list"

section \<open>Return codes\<close>

datatype ngx_rc =
    NGX_OK | NGX_ERROR | NGX_AGAIN | NGX_BUSY | NGX_DONE | NGX_DECLINED | NGX_ABORT
  | NGX_HTTP_PARSE_HEADER_DONE
  | NGX_HTTP_PARSE_INVALID_METHOD
  | NGX_HTTP_PARSE_INVALID_REQUEST
  | NGX_HTTP_PARSE_INVALID_VERSION
  | NGX_HTTP_PARSE_INVALID_09_METHOD
  | NGX_HTTP_PARSE_INVALID_HEADER

section \<open>Limits of the build configuration\<close>

definition NGX_MAX_INT_T_VALUE :: int where
  "NGX_MAX_INT_T_VALUE = 9223372036854775807"

definition NGX_MAX_SIZE_T_VALUE :: int where
  "NGX_MAX_SIZE_T_VALUE = 9223372036854775807"

definition NGX_MAX_OFF_T_VALUE :: int where
  "NGX_MAX_OFF_T_VALUE = 9223372036854775807"

definition NGX_MAX_TIME_T_VALUE :: int where
  "NGX_MAX_TIME_T_VALUE = 9223372036854775807"

lemmas ngx_limits =
  NGX_MAX_INT_T_VALUE_def NGX_MAX_SIZE_T_VALUE_def NGX_MAX_OFF_T_VALUE_def
  NGX_MAX_TIME_T_VALUE_def

section \<open>Character constants\<close>

abbreviation (input) ch_nul :: byte where "ch_nul \<equiv> 0x00"
abbreviation (input) ch_bs :: byte where "ch_bs \<equiv> 0x08"
abbreviation (input) ch_tab :: byte where "ch_tab \<equiv> 0x09"
abbreviation (input) ch_lf :: byte where "ch_lf \<equiv> 0x0a"
abbreviation (input) ch_ff :: byte where "ch_ff \<equiv> 0x0c"
abbreviation (input) ch_cr :: byte where "ch_cr \<equiv> 0x0d"
abbreviation (input) ch_sp :: byte where "ch_sp \<equiv> 0x20"
abbreviation (input) ch_excl :: byte where "ch_excl \<equiv> 0x21"
abbreviation (input) ch_quot :: byte where "ch_quot \<equiv> 0x22"
abbreviation (input) ch_hash :: byte where "ch_hash \<equiv> 0x23"
abbreviation (input) ch_dollar :: byte where "ch_dollar \<equiv> 0x24"
abbreviation (input) ch_pct :: byte where "ch_pct \<equiv> 0x25"
abbreviation (input) ch_amp :: byte where "ch_amp \<equiv> 0x26"
abbreviation (input) ch_apos :: byte where "ch_apos \<equiv> 0x27"
abbreviation (input) ch_lpar :: byte where "ch_lpar \<equiv> 0x28"
abbreviation (input) ch_rpar :: byte where "ch_rpar \<equiv> 0x29"
abbreviation (input) ch_star :: byte where "ch_star \<equiv> 0x2a"
abbreviation (input) ch_plus :: byte where "ch_plus \<equiv> 0x2b"
abbreviation (input) ch_comma :: byte where "ch_comma \<equiv> 0x2c"
abbreviation (input) ch_dash :: byte where "ch_dash \<equiv> 0x2d"
abbreviation (input) ch_dot :: byte where "ch_dot \<equiv> 0x2e"
abbreviation (input) ch_slash :: byte where "ch_slash \<equiv> 0x2f"
abbreviation (input) ch_colon :: byte where "ch_colon \<equiv> 0x3a"
abbreviation (input) ch_semi :: byte where "ch_semi \<equiv> 0x3b"
abbreviation (input) ch_lt :: byte where "ch_lt \<equiv> 0x3c"
abbreviation (input) ch_eq :: byte where "ch_eq \<equiv> 0x3d"
abbreviation (input) ch_gt :: byte where "ch_gt \<equiv> 0x3e"
abbreviation (input) ch_quest :: byte where "ch_quest \<equiv> 0x3f"
abbreviation (input) ch_lbr :: byte where "ch_lbr \<equiv> 0x5b"
abbreviation (input) ch_bslash :: byte where "ch_bslash \<equiv> 0x5c"
abbreviation (input) ch_rbr :: byte where "ch_rbr \<equiv> 0x5d"
abbreviation (input) ch_under :: byte where "ch_under \<equiv> 0x5f"
abbreviation (input) ch_tilde :: byte where "ch_tilde \<equiv> 0x7e"
abbreviation (input) ch_0 :: byte where "ch_0 \<equiv> 0x30"
abbreviation (input) ch_1 :: byte where "ch_1 \<equiv> 0x31"
abbreviation (input) ch_2 :: byte where "ch_2 \<equiv> 0x32"
abbreviation (input) ch_3 :: byte where "ch_3 \<equiv> 0x33"
abbreviation (input) ch_4 :: byte where "ch_4 \<equiv> 0x34"
abbreviation (input) ch_5 :: byte where "ch_5 \<equiv> 0x35"
abbreviation (input) ch_6 :: byte where "ch_6 \<equiv> 0x36"
abbreviation (input) ch_7 :: byte where "ch_7 \<equiv> 0x37"
abbreviation (input) ch_8 :: byte where "ch_8 \<equiv> 0x38"
abbreviation (input) ch_9 :: byte where "ch_9 \<equiv> 0x39"
abbreviation (input) ch_A :: byte where "ch_A \<equiv> 0x41"
abbreviation (input) ch_B :: byte where "ch_B \<equiv> 0x42"
abbreviation (input) ch_C :: byte where "ch_C \<equiv> 0x43"
abbreviation (input) ch_D :: byte where "ch_D \<equiv> 0x44"
abbreviation (input) ch_E :: byte where "ch_E \<equiv> 0x45"
abbreviation (input) ch_F :: byte where "ch_F \<equiv> 0x46"
abbreviation (input) ch_G :: byte where "ch_G \<equiv> 0x47"
abbreviation (input) ch_H :: byte where "ch_H \<equiv> 0x48"
abbreviation (input) ch_I :: byte where "ch_I \<equiv> 0x49"
abbreviation (input) ch_J :: byte where "ch_J \<equiv> 0x4a"
abbreviation (input) ch_K :: byte where "ch_K \<equiv> 0x4b"
abbreviation (input) ch_L :: byte where "ch_L \<equiv> 0x4c"
abbreviation (input) ch_M :: byte where "ch_M \<equiv> 0x4d"
abbreviation (input) ch_N :: byte where "ch_N \<equiv> 0x4e"
abbreviation (input) ch_O :: byte where "ch_O \<equiv> 0x4f"
abbreviation (input) ch_P :: byte where "ch_P \<equiv> 0x50"
abbreviation (input) ch_Q :: byte where "ch_Q \<equiv> 0x51"
abbreviation (input) ch_R :: byte where "ch_R \<equiv> 0x52"
abbreviation (input) ch_S :: byte where "ch_S \<equiv> 0x53"
abbreviation (input) ch_T :: byte where "ch_T \<equiv> 0x54"
abbreviation (input) ch_U :: byte where "ch_U \<equiv> 0x55"
abbreviation (input) ch_V :: byte where "ch_V \<equiv> 0x56"
abbreviation (input) ch_W :: byte where "ch_W \<equiv> 0x57"
abbreviation (input) ch_X :: byte where "ch_X \<equiv> 0x58"
abbreviation (input) ch_Y :: byte where "ch_Y \<equiv> 0x59"
abbreviation (input) ch_Z :: byte where "ch_Z \<equiv> 0x5a"
abbreviation (input) ch_a :: byte where "ch_a \<equiv> 0x61"
abbreviation (input) ch_b :: byte where "ch_b \<equiv> 0x62"
abbreviation (input) ch_c :: byte where "ch_c \<equiv> 0x63"
abbreviation (input) ch_d :: byte where "ch_d \<equiv> 0x64"
abbreviation (input) ch_e :: byte where "ch_e \<equiv> 0x65"
abbreviation (input) ch_f :: byte where "ch_f \<equiv> 0x66"
abbreviation (input) ch_g :: byte where "ch_g \<equiv> 0x67"
abbreviation (input) ch_h :: byte where "ch_h \<equiv> 0x68"
abbreviation (input) ch_i :: byte where "ch_i \<equiv> 0x69"
abbreviation (input) ch_j :: byte where "ch_j \<equiv> 0x6a"
abbreviation (input) ch_k :: byte where "ch_k \<equiv> 0x6b"
abbreviation (input) ch_l :: byte where "ch_l \<equiv> 0x6c"
abbreviation (input) ch_m :: byte where "ch_m \<equiv> 0x6d"
abbreviation (input) ch_n :: byte where "ch_n \<equiv> 0x6e"
abbreviation (input) ch_o :: byte where "ch_o \<equiv> 0x6f"
abbreviation (input) ch_p :: byte where "ch_p \<equiv> 0x70"
abbreviation (input) ch_q :: byte where "ch_q \<equiv> 0x71"
abbreviation (input) ch_r :: byte where "ch_r \<equiv> 0x72"
abbreviation (input) ch_s :: byte where "ch_s \<equiv> 0x73"
abbreviation (input) ch_t :: byte where "ch_t \<equiv> 0x74"
abbreviation (input) ch_u :: byte where "ch_u \<equiv> 0x75"
abbreviation (input) ch_v :: byte where "ch_v \<equiv> 0x76"
abbreviation (input) ch_w :: byte where "ch_w \<equiv> 0x77"
abbreviation (input) ch_x :: byte where "ch_x \<equiv> 0x78"
abbreviation (input) ch_y :: byte where "ch_y \<equiv> 0x79"
abbreviation (input) ch_z :: byte where "ch_z \<equiv> 0x7a"

section \<open>Character classes\<close>

definition is_digit :: "byte \<Rightarrow> bool" where
  [ngx_defs]: "is_digit ch \<longleftrightarrow> ch_0 \<le> ch \<and> ch \<le> ch_9"

definition is_upper :: "byte \<Rightarrow> bool" where
  [ngx_defs]: "is_upper ch \<longleftrightarrow> ch_A \<le> ch \<and> ch \<le> ch_Z"

text \<open>The idiom \<open>c = (u_char) (ch | 0x20); c >= 'a' && c <= 'z'\<close>.\<close>

definition is_alpha :: "byte \<Rightarrow> bool" where
  [ngx_defs]: "is_alpha ch \<longleftrightarrow> (let c = ch OR 0x20 in ch_a \<le> c \<and> c \<le> ch_z)"

text \<open>
  The idiom of every hexadecimal reader of the sources: a decimal digit gives
  \<open>ch - '0'\<close>, otherwise \<open>c = ch | 0x20\<close> in \<open>'a'..'f'\<close> gives \<open>c - 'a' + 10\<close>,
  otherwise the character is rejected.
\<close>

definition hex_digit :: "byte \<Rightarrow> byte option" where
  "hex_digit ch =
     (if is_digit ch then Some (ch - ch_0)
      else let c = ch OR 0x20 in
        if ch_a \<le> c \<and> c \<le> ch_f then Some (c - ch_a + 10) else None)"

definition ngx_tolower :: "byte \<Rightarrow> byte" where
  "ngx_tolower c = (if ch_A \<le> c \<and> c \<le> ch_Z then c OR 0x20 else c)"

definition ngx_toupper :: "byte \<Rightarrow> byte" where
  "ngx_toupper c = (if ch_a \<le> c \<and> c \<le> ch_z then c AND NOT 0x20 else c)"

text \<open>A byte test against a 256-bit map: \<open>tbl[ch >> 5] & (1U << (ch & 0x1f))\<close>.\<close>

definition bitmap_test :: "u32 list \<Rightarrow> byte \<Rightarrow> bool" where
  "bitmap_test tbl ch \<longleftrightarrow>
     (tbl ! unat (drop_bit 5 ch)) AND push_bit (unat (ch AND 0x1f)) 1 \<noteq> 0"

text \<open>The bytes between two pointers.\<close>

definition slice :: "'a list \<Rightarrow> nat \<Rightarrow> nat \<Rightarrow> 'a list" where
  "slice mem p q = take (q - p) (drop p mem)"

text \<open>
  Comparison of the bytes at a pointer with a literal, byte by byte: the macros
  \<open>ngx_str3_cmp\<close> .. \<open>ngx_str9cmp\<close> of \<open>src/http/ngx_http_parse.c\<close>, and
  \<open>ngx_strncmp (p, "literal", n) == 0\<close> for a literal of \<open>n\<close> characters.
\<close>

fun str_cmp :: "byte list \<Rightarrow> nat \<Rightarrow> byte list \<Rightarrow> bool" where
  "str_cmp mem m [] = True"
| "str_cmp mem m (c # cs) = (mem ! m = c \<and> str_cmp mem (Suc m) cs)"

section \<open>Generic lemmas\<close>

lemma length_slice [simp]: "q \<le> length mem \<Longrightarrow> length (slice mem p q) = q - p"
  by (simp add: slice_def)

lemma slice_snoc: "p \<le> q \<Longrightarrow> q < length mem \<Longrightarrow> slice mem p (Suc q) = slice mem p q @ [mem ! q]"
  by (simp add: slice_def Suc_diff_le take_Suc_conv_app_nth)

lemma slice_Cons: "p < q \<Longrightarrow> q \<le> length mem \<Longrightarrow> slice mem p q = mem ! p # slice mem (Suc p) q"
proof -
  assume "p < q" "q \<le> length mem"
  then have "drop p mem = mem ! p # drop (Suc p) mem" "q - p = Suc (q - Suc p)"
    by (simp_all add: Cons_nth_drop_Suc)
  then show ?thesis by (simp add: slice_def)
qed

lemma slice_empty [simp]: "slice mem p p = []"
  by (simp add: slice_def)

lemma str_cmp_slice:
  "m + length cs \<le> length mem \<Longrightarrow> str_cmp mem m cs \<longleftrightarrow> slice mem m (m + length cs) = cs"
proof (induction cs arbitrary: m)
  case Nil
  then show ?case by simp
next
  case (Cons c cs)
  then have "slice mem m (m + length (c # cs)) = mem ! m # slice mem (Suc m) (Suc m + length cs)"
    by (simp add: slice_def flip: Cons_nth_drop_Suc)
  with Cons show ?case by auto
qed

lemma str_cmp_take: "m + length cs \<le> k \<Longrightarrow> str_cmp (take k mem) m cs = str_cmp mem m cs"
  by (induction cs arbitrary: m) auto

text \<open>A property of bytes is checked on the 256 of them.\<close>

lemma byte_all_iff: "(\<forall>b::byte. P b) \<longleftrightarrow> list_all (\<lambda>n. P (word_of_nat n)) [0..<256]"
proof -
  have "P b" if "list_all (\<lambda>n. P (word_of_nat n)) [0..<256]" for b :: byte
  proof -
    have "unat b < 2 ^ LENGTH(8)" by (rule unsigned_less)
    then have "unat b < 256" by simp
    then have "unat b \<in> set [0..<256]" by simp
    with that have "P (word_of_nat (unat b))" unfolding list_all_iff by blast
    then show ?thesis by simp
  qed
  then show ?thesis by (auto simp: list_all_iff)
qed

lemma byte_allI: "list_all (\<lambda>n. P (word_of_nat n)) [0..<256] \<Longrightarrow> P (b::byte)"
  using byte_all_iff [of P] by blast

lemma unat_byte_less [simp]: "unat (b::byte) < 256"
proof -
  have "unat b < 2 ^ LENGTH(8)" by (rule unsigned_less)
  then show ?thesis by simp
qed

text \<open>The map test reads one bit of the table.\<close>

lemma bitmap_test_bit: "bitmap_test tbl ch \<longleftrightarrow> bit (tbl ! (unat ch div 32)) (unat ch mod 32)"
proof -
  have 1: "unat (drop_bit 5 ch) = unat ch div 32" by (simp add: drop_bit_eq_div unat_div)
  have "ch AND 0x1f = take_bit 5 ch" by (simp add: take_bit_eq_mask mask_eq_exp_minus_1)
  then have 2: "unat (ch AND 0x1f) = unat ch mod 32"
    by (simp add: take_bit_eq_mod unat_mod)
  have "x AND push_bit n 1 \<noteq> 0 \<longleftrightarrow> bit x n" for x :: u32 and n
    unfolding bit_eq_iff [of "x AND push_bit n 1" 0] by (auto simp: bit_simps dest: bit_imp_le_length)
  then show ?thesis unfolding bitmap_test_def 1 2 .
qed

lemma hex_digit_le: "hex_digit ch = Some d \<Longrightarrow> d \<le> 15"
  unfolding hex_digit_def is_digit_def Let_def
  by (auto split: if_splits simp: word_le_nat_alt unat_sub_if' unat_word_ariths)

lemma nth_take_Suc [simp]: "i \<le> p \<Longrightarrow> take (Suc p) xs ! i = xs ! i"
  by simp

end
