(* ===== verification/Byte_Machine.thy ===== *)
theory Byte_Machine
  imports Ngx_Prelude
begin

text \<open>
  The loop every incremental parser of \<open>src/http/ngx_http_parse.c\<close> has:
  \<open>for (p = b->pos; p < b->last; p++) { ch = *p; switch (state) ... }\<close>.
  A parser is a step function over the memory, the position and its local state; the
  loop, its resumption after \<open>NGX_AGAIN\<close> and its invariants are proved here once.
  Memory is the byte list of the client header buffer; pointers are positions in it.
\<close>

section \<open>One iteration and the loop\<close>

text \<open>
  \<open>Next s\<close>: \<open>break\<close> out of the switch, the loop goes on.
  \<open>Stop k rc s\<close>: \<open>goto done\<close>, the call returns \<open>rc\<close> with \<open>b->pos = p + k\<close>.
  \<open>Fail rc s\<close>: \<open>return\<close> of an error, \<open>b->pos\<close> is not written.
\<close>

datatype 's step = Next 's | Stop nat ngx_rc 's | Fail ngx_rc 's

datatype 's outcome = Again nat 's | Stopped nat ngx_rc 's | Failed ngx_rc 's

type_synonym 's stepper = "byte list \<Rightarrow> nat \<Rightarrow> 's \<Rightarrow> 's step"

function scan :: "'s stepper \<Rightarrow> byte list \<Rightarrow> nat \<Rightarrow> nat \<Rightarrow> 's \<Rightarrow> 's outcome" where
  "scan f mem p lim s =
     (if p < lim then
        (case f mem p s of
           Next s' \<Rightarrow> scan f mem (Suc p) lim s'
         | Stop k rc s' \<Rightarrow> Stopped (p + k) rc s'
         | Fail rc s' \<Rightarrow> Failed rc s')
      else Again p s)"
  by pat_completeness auto
termination
  by (relation "measure (\<lambda>(f, mem, p, lim, s). lim - p)") auto

declare scan.simps [simp del]

lemma scan_end [simp]: "\<not> p < lim \<Longrightarrow> scan f mem p lim s = Again p s"
  by (simp add: scan.simps)

lemma scan_Next: "p < lim \<Longrightarrow> f mem p s = Next s' \<Longrightarrow>
    scan f mem p lim s = scan f mem (Suc p) lim s'"
  by (simp add: scan.simps [of f mem p])

lemma scan_Stop: "p < lim \<Longrightarrow> f mem p s = Stop k rc s' \<Longrightarrow>
    scan f mem p lim s = Stopped (p + k) rc s'"
  by (simp add: scan.simps [of f mem p])

lemma scan_Fail: "p < lim \<Longrightarrow> f mem p s = Fail rc s' \<Longrightarrow>
    scan f mem p lim s = Failed rc s'"
  by (simp add: scan.simps [of f mem p])

lemma scan_Again_pos: "scan f mem p lim s = Again p' s' \<Longrightarrow> p \<le> lim \<Longrightarrow> p' = lim"
proof (induction f mem p lim s rule: scan.induct)
  case (1 f mem p lim s)
  then show ?case
    by (cases "p < lim"; cases "f mem p s")
      (auto simp: scan.simps [of f mem p])
qed

lemma scan_Stopped_at:
  "scan f mem p lim s = Stopped q rc s' \<Longrightarrow>
   \<exists>p' s1 k. p \<le> p' \<and> p' < lim \<and> f mem p' s1 = Stop k rc s' \<and> q = p' + k"
proof (induction f mem p lim s rule: scan.induct)
  case (1 f mem p lim s)
  show ?case
  proof (cases "f mem p s")
    case (Next s1)
    with "1.prems" have "p < lim" "scan f mem (Suc p) lim s1 = Stopped q rc s'"
      by (auto simp: scan.simps [of f mem p] split: if_splits)
    then show ?thesis using "1.IH" Next by (meson Suc_leD)
  next
    case (Stop k rc' s1)
    with 1 show ?thesis by (cases "p < lim") (auto simp: scan.simps [of f mem p])
  next
    case (Fail rc' s1)
    with 1 show ?thesis by (cases "p < lim") (auto simp: scan.simps [of f mem p])
  qed
qed

lemma scan_Failed_at:
  "scan f mem p lim s = Failed rc s' \<Longrightarrow>
   \<exists>p' s1. p \<le> p' \<and> p' < lim \<and> f mem p' s1 = Fail rc s'"
proof (induction f mem p lim s rule: scan.induct)
  case (1 f mem p lim s)
  show ?case
  proof (cases "f mem p s")
    case (Next s1)
    with "1.prems" have "p < lim" "scan f mem (Suc p) lim s1 = Failed rc s'"
      by (auto simp: scan.simps [of f mem p] split: if_splits)
    then show ?thesis using "1.IH" Next by (meson Suc_leD)
  next
    case (Stop k rc' s1)
    with 1 show ?thesis by (cases "p < lim") (auto simp: scan.simps [of f mem p])
  next
    case (Fail rc' s1)
    with 1 show ?thesis by (cases "p < lim") (auto simp: scan.simps [of f mem p])
  qed
qed

text \<open>The loop may be cut at any position.\<close>

lemma scan_split:
  "p \<le> m \<Longrightarrow> m \<le> lim \<Longrightarrow>
   scan f mem p lim s =
     (case scan f mem p m s of Again q s' \<Rightarrow> scan f mem q lim s' | r \<Rightarrow> r)"
proof (induction f mem p m s rule: scan.induct)
  case (1 f mem p m s)
  show ?case
  proof (cases "p < m")
    case False
    with "1.prems" show ?thesis by simp
  next
    case True
    with "1.prems" have "p < lim" by simp
    with True "1.IH" "1.prems" show ?thesis
      by (simp add: scan.simps [of f mem p] split: step.split)
  qed
qed

text \<open>Running through \<open>n\<close> iterations that keep a property of the position and state.\<close>

lemma scan_through:
  assumes "Q p s" and "p + n \<le> lim"
    and "\<And>q s. Q q s \<Longrightarrow> p \<le> q \<Longrightarrow> q < p + n \<Longrightarrow> \<exists>s'. f mem q s = Next s' \<and> Q (Suc q) s'"
  shows "\<exists>s'. Q (p + n) s' \<and> scan f mem p lim s = scan f mem (p + n) lim s'"
  using assms
proof (induction n arbitrary: p s)
  case 0
  then show ?case by auto
next
  case (Suc n)
  from Suc.prems(3) [of p s] Suc.prems(1) obtain s1 where s1: "f mem p s = Next s1" "Q (Suc p) s1"
    by auto
  then have "\<exists>s'. Q (Suc p + n) s' \<and> scan f mem (Suc p) lim s1 = scan f mem (Suc p + n) lim s'"
    using Suc.prems by (intro Suc.IH) auto
  then show ?case using s1(1) Suc.prems(2) by (auto simp: scan_Next)
qed

text \<open>A given number of iterations, none of which leaves the loop.\<close>

primrec run :: "'s stepper \<Rightarrow> byte list \<Rightarrow> nat \<Rightarrow> nat \<Rightarrow> 's \<Rightarrow> 's option" where
  "run f mem p 0 s = Some s"
| "run f mem p (Suc n) s = (case f mem p s of Next s' \<Rightarrow> run f mem (Suc p) n s' | _ \<Rightarrow> None)"

lemma run_numeral [simp]:
  "run f mem p (numeral k) s =
     (case f mem p s of Next s' \<Rightarrow> run f mem (Suc p) (pred_numeral k) s' | _ \<Rightarrow> None)"
  by (simp add: numeral_eq_Suc)

lemma scan_run:
  "run f mem p n s = Some s' \<Longrightarrow> p + n \<le> lim \<Longrightarrow> scan f mem p lim s = scan f mem (p + n) lim s'"
  by (induction n arbitrary: p s) (auto simp: scan_Next split: step.splits)

section \<open>Feeding bytes to a step that looks at the current byte only\<close>

fun feed :: "(byte \<Rightarrow> 's \<Rightarrow> 's step) \<Rightarrow> byte list \<Rightarrow> 's \<Rightarrow> 's option" where
  "feed g [] s = Some s"
| "feed g (c # cs) s = (case g c s of Next s' \<Rightarrow> feed g cs s' | _ \<Rightarrow> None)"

lemma feed_append:
  "feed g (xs @ ys) s = (case feed g xs s of Some s' \<Rightarrow> feed g ys s' | None \<Rightarrow> None)"
  by (induction xs arbitrary: s) (auto split: step.split)

lemma scan_feed:
  assumes "feed g xs s = Some s'" and "p + length xs \<le> lim"
    and "drop p mem = xs @ rest"
  shows "scan (\<lambda>mem p. g (mem ! p)) mem p lim s =
    scan (\<lambda>mem p. g (mem ! p)) mem (p + length xs) lim s'"
  using assms
proof (induction xs arbitrary: p s)
  case Nil
  then show ?case by simp
next
  case (Cons x xs)
  then obtain s1 where s1: "g x s = Next s1" "feed g xs s1 = Some s'"
    by (auto split: step.splits)
  have p: "mem ! p = x" "drop (Suc p) mem = xs @ rest"
    using Cons.prems(3) by (metis nth_via_drop append_Cons, metis drop_Suc tl_drop append_Cons list.sel(3))
  then show ?case
    using Cons.IH [OF s1(2), of "Suc p"] Cons.prems s1(1)
    by (simp add: scan.simps [of _ mem p])
qed

section \<open>Interface of an incremental parser\<close>

text \<open>
  The law an incremental parser promises: one iteration at position \<open>p\<close> reads no byte
  beyond \<open>p\<close>. The bytes after \<open>b->last\<close> have not been received yet, so this is
  both the memory safety of the iteration and what makes resumption possible.
\<close>

locale incremental =
  fixes f :: "'s stepper"
  assumes causal: "p < length mem \<Longrightarrow> f (take (Suc p) mem) p s = f mem p s"
begin

lemma causal_prefix:
  assumes "p < length mem"
  shows "f (mem @ more) p s = f mem p s"
proof -
  have "f (mem @ more) p s = f (take (Suc p) (mem @ more)) p s"
    using assms causal [of p "mem @ more" s] by simp
  also have "take (Suc p) (mem @ more) = take (Suc p) mem" using assms by simp
  finally show ?thesis using assms by (simp add: causal)
qed

lemma scan_prefix: "lim \<le> length mem \<Longrightarrow> scan f (mem @ more) p lim s = scan f mem p lim s"
proof (induction "lim - p" arbitrary: p s)
  case 0
  then show ?case by simp
next
  case (Suc n)
  then have "p < lim" "p < length mem" by simp_all
  with Suc show ?case
    by (simp add: scan.simps [of f _ p] causal_prefix split: step.split)
qed

text \<open>
  A read that ends inside the line and a second read that brings the rest give what one
  read of the whole gives, wherever the boundary falls.
\<close>

lemma scan_resume:
  assumes "p \<le> length mem"
  shows "scan f (mem @ more) p (length (mem @ more)) s =
     (case scan f mem p (length mem) s of
        Again q s' \<Rightarrow> scan f (mem @ more) q (length (mem @ more)) s'
      | r \<Rightarrow> r)"
  using assms scan_split [of p "length mem" "length (mem @ more)" f "mem @ more" s]
  by (simp add: scan_prefix)

end

section \<open>Interface of a parser with an invariant\<close>

text \<open>
  \<open>inv mem p s\<close> holds before the iteration at \<open>p\<close>; \<open>post mem p s\<close> holds where an
  iteration at \<open>p\<close> stops with a result.
\<close>

locale invariant_machine =
  fixes f :: "'s stepper"
    and inv :: "byte list \<Rightarrow> nat \<Rightarrow> 's \<Rightarrow> bool"
    and post :: "byte list \<Rightarrow> nat \<Rightarrow> ngx_rc \<Rightarrow> 's \<Rightarrow> bool"
  assumes step_inv: "inv mem p s \<Longrightarrow> p < length mem \<Longrightarrow> f mem p s = Next s' \<Longrightarrow>
      inv mem (Suc p) s'"
    and step_post: "inv mem p s \<Longrightarrow> p < length mem \<Longrightarrow> f mem p s = Stop k rc s' \<Longrightarrow>
      post mem (p + k) rc s'"
begin

lemma scan_inv:
  assumes "inv mem p s" and "lim \<le> length mem"
  shows "(\<forall>q s'. scan f mem p lim s = Again q s' \<longrightarrow> inv mem q s') \<and>
    (\<forall>q rc s'. scan f mem p lim s = Stopped q rc s' \<longrightarrow> post mem q rc s')"
  using assms
proof (induction "lim - p" arbitrary: p s)
  case 0
  then show ?case by simp
next
  case (Suc n)
  then have p: "p < lim" "p < length mem" by simp_all
  show ?case
  proof (cases "f mem p s")
    case (Next s')
    then have "inv mem (Suc p) s'" using Suc.prems p by (blast intro: step_inv)
    moreover have "n = lim - Suc p" using Suc.hyps(2) by simp
    ultimately show ?thesis
      using Suc.hyps(1) [of "Suc p" s'] Suc.prems(2) p Next by (simp add: scan_Next)
  next
    case (Stop k rc s')
    then show ?thesis using Suc.prems p step_post by (simp add: scan_Stop)
  next
    case (Fail rc s')
    then show ?thesis using p by (simp add: scan_Fail)
  qed
qed

lemma scan_Again: "inv mem p s \<Longrightarrow> lim \<le> length mem \<Longrightarrow>
    scan f mem p lim s = Again q s' \<Longrightarrow> inv mem q s'"
  using scan_inv by blast

lemma scan_Stopped: "inv mem p s \<Longrightarrow> lim \<le> length mem \<Longrightarrow>
    scan f mem p lim s = Stopped q rc s' \<Longrightarrow> post mem q rc s'"
  using scan_inv by blast

end

end
