(* ===== verification/Ngx_Atoi.thy ===== *)
theory Ngx_Atoi
  imports Ngx_Prelude
begin

text \<open>
  The number readers of \<open>src/core/ngx_string.c\<close>: \<open>ngx_atoi\<close>, \<open>ngx_atosz\<close>,
  \<open>ngx_atoof\<close>, \<open>ngx_atotm\<close>, \<open>ngx_atofp\<close> and \<open>ngx_hextoi\<close>. The arguments
  \<open>(line, n)\<close> are the byte list of length \<open>n\<close>; the return value \<open>NGX_ERROR\<close> is
  \<open>None\<close>. Values are \<open>int\<close>: the theorems below show that every value a reader
  computes is within the signed type of the source, so no overflow occurs.
\<close>

section \<open>The code\<close>

definition digit_val :: "byte \<Rightarrow> int" where
  "digit_val ch = uint ch - 48"

text \<open>The loop the four decimal readers share, with the cut-off test of the source.\<close>

fun ato_loop :: "int \<Rightarrow> int \<Rightarrow> byte list \<Rightarrow> int \<Rightarrow> int option" where
  "ato_loop cutoff cutlim [] val = Some val"
| "ato_loop cutoff cutlim (ch # line) val =
     (if ch < ch_0 \<or> ch > ch_9 then None
      else if val \<ge> cutoff \<and> (val > cutoff \<or> digit_val ch > cutlim) then None
      else ato_loop cutoff cutlim line (val * 10 + digit_val ch))"

definition ngx_atoi :: "byte list \<Rightarrow> int option" where
  "ngx_atoi line =
     (if line = [] then None
      else ato_loop (NGX_MAX_INT_T_VALUE div 10) (NGX_MAX_INT_T_VALUE mod 10) line 0)"

definition ngx_atosz :: "byte list \<Rightarrow> int option" where
  "ngx_atosz line =
     (if line = [] then None
      else ato_loop (NGX_MAX_SIZE_T_VALUE div 10) (NGX_MAX_SIZE_T_VALUE mod 10) line 0)"

definition ngx_atoof :: "byte list \<Rightarrow> int option" where
  "ngx_atoof line =
     (if line = [] then None
      else ato_loop (NGX_MAX_OFF_T_VALUE div 10) (NGX_MAX_OFF_T_VALUE mod 10) line 0)"

definition ngx_atotm :: "byte list \<Rightarrow> int option" where
  "ngx_atotm line =
     (if line = [] then None
      else ato_loop (NGX_MAX_TIME_T_VALUE div 10) (NGX_MAX_TIME_T_VALUE mod 10) line 0)"

text \<open>
  \<open>ngx_atofp\<close>: the first loop returns the value and what is left of \<open>point\<close>, the
  second one appends the missing zeros.
\<close>

fun atofp_loop :: "int \<Rightarrow> int \<Rightarrow> byte list \<Rightarrow> int \<Rightarrow> nat \<Rightarrow> bool \<Rightarrow> (int \<times> nat) option" where
  "atofp_loop cutoff cutlim [] val point dot = Some (val, point)"
| "atofp_loop cutoff cutlim (ch # line) val point dot =
     (if point = 0 then None
      else if ch = ch_dot then
        (if dot then None else atofp_loop cutoff cutlim line val point True)
      else if ch < ch_0 \<or> ch > ch_9 then None
      else if val \<ge> cutoff \<and> (val > cutoff \<or> digit_val ch > cutlim) then None
      else atofp_loop cutoff cutlim line (val * 10 + digit_val ch)
             (if dot then point - 1 else point) dot)"

fun atofp_pad :: "int \<Rightarrow> int \<Rightarrow> nat \<Rightarrow> int option" where
  "atofp_pad cutoff val 0 = Some val"
| "atofp_pad cutoff val (Suc point) =
     (if val > cutoff then None else atofp_pad cutoff (val * 10) point)"

definition ngx_atofp :: "byte list \<Rightarrow> nat \<Rightarrow> int option" where
  "ngx_atofp line point =
     (if line = [] then None
      else let cutoff = NGX_MAX_INT_T_VALUE div 10; cutlim = NGX_MAX_INT_T_VALUE mod 10 in
        case atofp_loop cutoff cutlim line 0 point False of
          None \<Rightarrow> None
        | Some (val, point') \<Rightarrow> atofp_pad cutoff val point')"

fun hextoi_loop :: "int \<Rightarrow> byte list \<Rightarrow> int \<Rightarrow> int option" where
  "hextoi_loop cutoff [] val = Some val"
| "hextoi_loop cutoff (ch # line) val =
     (if val > cutoff then None
      else case hex_digit ch of
             Some d \<Rightarrow> hextoi_loop cutoff line (val * 16 + uint d)
           | None \<Rightarrow> None)"

definition ngx_hextoi :: "byte list \<Rightarrow> int option" where
  "ngx_hextoi line =
     (if line = [] then None else hextoi_loop (NGX_MAX_INT_T_VALUE div 16) line 0)"

section \<open>Reference values of digit strings\<close>

definition dec_val :: "byte list \<Rightarrow> int" where
  "dec_val ds = foldl (\<lambda>v d. v * 10 + digit_val d) 0 ds"

definition hex_val :: "byte list \<Rightarrow> int" where
  "hex_val ds = foldl (\<lambda>v d. v * 16 + (case hex_digit d of Some x \<Rightarrow> uint x | None \<Rightarrow> 0)) 0 ds"

definition is_hex :: "byte \<Rightarrow> bool" where
  "is_hex ch \<longleftrightarrow> hex_digit ch \<noteq> None"

lemma not_digit_iff: "(ch < ch_0 \<or> ch > ch_9) \<longleftrightarrow> \<not> is_digit ch"
  by (auto simp: is_digit_def)

lemma digit_val_bounds: "is_digit ch \<Longrightarrow> 0 \<le> digit_val ch \<and> digit_val ch \<le> 9"
  by (auto simp: is_digit_def digit_val_def word_le_def)

lemma hex_digit_bounds: "hex_digit ch = Some d \<Longrightarrow> 0 \<le> uint d \<and> uint d \<le> 15"
  using hex_digit_le [of ch d] by (simp add: word_le_def)

text \<open>Reading more digits never makes a value smaller.\<close>

lemma foldl_dec_ge:
  "0 \<le> v \<Longrightarrow> \<forall>d \<in> set ds. is_digit d \<Longrightarrow> v \<le> foldl (\<lambda>v d. v * 10 + digit_val d) v ds"
proof (induction ds arbitrary: v)
  case Nil
  then show ?case by simp
next
  case (Cons d ds)
  from Cons.prems have "0 \<le> digit_val d" by (simp add: digit_val_bounds)
  with Cons.prems have "v \<le> v * 10 + digit_val d" "0 \<le> v * 10 + digit_val d" by simp_all
  then show ?case using Cons.IH [of "v * 10 + digit_val d"] Cons.prems by force
qed

lemma foldl_hex_ge:
  "0 \<le> v \<Longrightarrow>
   v \<le> foldl (\<lambda>v d. v * 16 + (case hex_digit d of Some x \<Rightarrow> uint x | None \<Rightarrow> 0)) v ds"
proof (induction ds arbitrary: v)
  case Nil
  then show ?case by simp
next
  case (Cons d ds)
  have "0 \<le> (case hex_digit d of Some x \<Rightarrow> uint x | None \<Rightarrow> 0)" by (simp split: option.split)
  with Cons.prems have
    "v \<le> v * 16 + (case hex_digit d of Some x \<Rightarrow> uint x | None \<Rightarrow> 0)"
    "0 \<le> v * 16 + (case hex_digit d of Some x \<Rightarrow> uint x | None \<Rightarrow> 0)" by simp_all
  then show ?case
    using Cons.IH [of "v * 16 + (case hex_digit d of Some x \<Rightarrow> uint x | None \<Rightarrow> 0)"] by force
qed

section \<open>The cut-off test is exact\<close>

lemma cutoff_iff:
  fixes limit val d :: int
  assumes "0 \<le> d" "d \<le> 9"
  shows "(val \<ge> limit div 10 \<and> (val > limit div 10 \<or> d > limit mod 10)) \<longleftrightarrow>
    limit < val * 10 + d"
  using assms by presburger

lemma ato_loop_spec:
  assumes "0 \<le> val" "val \<le> limit"
  shows "ato_loop (limit div 10) (limit mod 10) line val =
    (let v = foldl (\<lambda>v d. v * 10 + digit_val d) val line in
     if (\<forall>d \<in> set line. is_digit d) \<and> v \<le> limit then Some v else None)"
  using assms
proof (induction line arbitrary: val)
  case Nil
  then show ?case by simp
next
  case (Cons ch line)
  let ?v = "val * 10 + digit_val ch"
  show ?case
  proof (cases "is_digit ch")
    case False
    then show ?thesis by (simp add: not_digit_iff)
  next
    case True
    then have d: "0 \<le> digit_val ch" "digit_val ch \<le> 9" by (simp_all add: digit_val_bounds)
    show ?thesis
    proof (cases "?v \<le> limit")
      case True
      with d Cons.prems Cons.IH [of ?v] \<open>is_digit ch\<close> show ?thesis
        by (simp add: not_digit_iff cutoff_iff [OF d] Let_def)
    next
      case False
      have "0 \<le> ?v" using d Cons.prems by simp
      with False have "\<forall>d \<in> set line. is_digit d \<Longrightarrow>
          limit < foldl (\<lambda>v d. v * 10 + digit_val d) ?v line"
        using foldl_dec_ge [of ?v line] by linarith
      with False \<open>is_digit ch\<close> show ?thesis
        by (auto simp: not_digit_iff cutoff_iff [OF d] Let_def)
    qed
  qed
qed

section \<open>The contract of a decimal reader\<close>

locale decimal_reader =
  fixes reader :: "byte list \<Rightarrow> int option" and limit :: int
  assumes reader_code: "reader line =
      (if line = [] then None else ato_loop (limit div 10) (limit mod 10) line 0)"
    and limit_nonneg: "0 \<le> limit"
begin

lemma reader_spec:
  "reader line =
     (if line \<noteq> [] \<and> (\<forall>d \<in> set line. is_digit d) \<and> dec_val line \<le> limit
      then Some (dec_val line) else None)"
  using ato_loop_spec [of 0 limit line] limit_nonneg
  by (simp add: reader_code dec_val_def Let_def)

lemma reader_bounds: "reader line = Some v \<Longrightarrow> 0 \<le> v \<and> v \<le> limit"
  using foldl_dec_ge [of 0 line] by (auto simp: reader_spec dec_val_def split: if_splits)

end

interpretation atoi: decimal_reader ngx_atoi NGX_MAX_INT_T_VALUE
  by unfold_locales (simp_all add: ngx_atoi_def ngx_limits)

interpretation atosz: decimal_reader ngx_atosz NGX_MAX_SIZE_T_VALUE
  by unfold_locales (simp_all add: ngx_atosz_def ngx_limits)

interpretation atoof: decimal_reader ngx_atoof NGX_MAX_OFF_T_VALUE
  by unfold_locales (simp_all add: ngx_atoof_def ngx_limits)

interpretation atotm: decimal_reader ngx_atotm NGX_MAX_TIME_T_VALUE
  by unfold_locales (simp_all add: ngx_atotm_def ngx_limits)

section \<open>Hexadecimal numbers\<close>

lemma hextoi_loop_spec:
  assumes "0 \<le> val" "val \<le> 16 * c + 15" "0 \<le> c"
  shows "hextoi_loop c line val =
    (let v = foldl (\<lambda>v d. v * 16 + (case hex_digit d of Some x \<Rightarrow> uint x | None \<Rightarrow> 0)) val line in
     if (\<forall>d \<in> set line. is_hex d) \<and> v \<le> 16 * c + 15 then Some v else None)"
  using assms
proof (induction line arbitrary: val)
  case Nil
  then show ?case by simp
next
  case (Cons ch line)
  show ?case
  proof (cases "hex_digit ch")
    case None
    then show ?thesis by (simp add: is_hex_def)
  next
    case (Some d)
    then have d: "0 \<le> uint d" "uint d \<le> 15" using hex_digit_bounds by blast+
    show ?thesis
    proof (cases "val \<le> c")
      case True
      then have "val * 16 + uint d \<le> 16 * c + 15" using d by simp
      moreover have "0 \<le> val * 16 + uint d" using d Cons.prems by simp
      ultimately show ?thesis using True Some Cons.IH Cons.prems
        by (simp add: is_hex_def Let_def)
    next
      case False
      then have "16 * c + 15 < val * 16 + uint d" using d by linarith
      moreover have "0 \<le> val * 16 + uint d" using d Cons.prems by simp
      ultimately show ?thesis using False Some foldl_hex_ge [of "val * 16 + uint d" line]
        by (simp add: is_hex_def Let_def)
    qed
  qed
qed

lemma hextoi_spec:
  "ngx_hextoi line =
     (if line \<noteq> [] \<and> (\<forall>d \<in> set line. is_hex d) \<and> hex_val line \<le> NGX_MAX_INT_T_VALUE
      then Some (hex_val line) else None)"
  using hextoi_loop_spec [of 0 "NGX_MAX_INT_T_VALUE div 16" line]
  by (simp add: ngx_hextoi_def hex_val_def ngx_limits Let_def)

section \<open>Fixed-point numbers\<close>

lemma atofp_pad_spec:
  assumes "0 \<le> val" "val \<le> limit"
  shows "atofp_pad (limit div 10) val point =
    (if val * 10 ^ point \<le> limit then Some (val * 10 ^ point) else None)"
  using assms
proof (induction point arbitrary: val)
  case 0
  then show ?case by simp
next
  case (Suc point)
  show ?case
  proof (cases "val > limit div 10")
    case True
    then have "limit < val * 10" by presburger
    moreover have "val * 10 * 1 \<le> val * 10 * 10 ^ point"
      using Suc.prems by (intro mult_left_mono) simp_all
    ultimately have "limit < val * 10 ^ Suc point" by (simp add: mult.assoc)
    with True show ?thesis by simp
  next
    case False
    then have "val * 10 \<le> limit" by presburger
    with False Suc.IH [of "val * 10"] Suc.prems show ?thesis by (simp add: mult.assoc)
  qed
qed

lemma atofp_loop_digits:
  assumes "0 \<le> val" "val \<le> limit" "\<forall>d \<in> set ds. is_digit d"
    and "if dot then length ds \<le> point else 0 < point"
    and "foldl (\<lambda>v d. v * 10 + digit_val d) val ds \<le> limit"
  shows "atofp_loop (limit div 10) (limit mod 10) (ds @ rest) val point dot =
    atofp_loop (limit div 10) (limit mod 10) rest
      (foldl (\<lambda>v d. v * 10 + digit_val d) val ds)
      (if dot then point - length ds else point) dot"
  using assms
proof (induction ds arbitrary: val point)
  case Nil
  then show ?case by simp
next
  case (Cons ch ds)
  let ?v = "val * 10 + digit_val ch"
  have d: "0 \<le> digit_val ch" "digit_val ch \<le> 9" using Cons.prems digit_val_bounds by auto
  then have v0: "0 \<le> ?v" using Cons.prems by simp
  have v1: "?v \<le> limit" using foldl_dec_ge [OF v0, of ds] Cons.prems by simp
  have ch: "ch \<noteq> ch_dot" "\<not> (ch < ch_0 \<or> ch > ch_9)" "point \<noteq> 0"
    using Cons.prems by (auto simp: not_digit_iff is_digit_def split: if_splits)
  have "atofp_loop (limit div 10) (limit mod 10) (ds @ rest) ?v (if dot then point - 1 else point) dot =
    atofp_loop (limit div 10) (limit mod 10) rest
      (foldl (\<lambda>v d. v * 10 + digit_val d) ?v ds)
      (if dot then (if dot then point - 1 else point) - length ds else (if dot then point - 1 else point)) dot"
    using Cons.prems by (intro Cons.IH v0 v1) (auto split: if_splits)
  then show ?case using ch v1 by (auto simp: cutoff_iff [OF d])
qed

text \<open>
  A number with \<open>length fs\<close> digits after the point, read with \<open>point\<close> digits of
  precision, is exact, or \<open>NGX_ERROR\<close> where the scaled value does not fit.
\<close>

lemma atofp_exact:
  assumes digits: "\<forall>d \<in> set (ds @ fs). is_digit d" and prec: "length fs \<le> point" "0 < point"
    and fit: "dec_val (ds @ fs) \<le> NGX_MAX_INT_T_VALUE"
  shows "ngx_atofp (ds @ ch_dot # fs) point =
    (let v = dec_val (ds @ fs) * 10 ^ (point - length fs) in
     if v \<le> NGX_MAX_INT_T_VALUE then Some v else None)"
proof -
  let ?L = "NGX_MAX_INT_T_VALUE"
  have L: "0 \<le> ?L" by (simp add: ngx_limits)
  have dv: "dec_val (ds @ fs) = foldl (\<lambda>v d. v * 10 + digit_val d) (dec_val ds) fs"
    by (simp add: dec_val_def)
  have v0: "0 \<le> dec_val ds" using foldl_dec_ge [of 0 ds] digits by (auto simp: dec_val_def)
  have v1: "dec_val ds \<le> ?L" using foldl_dec_ge [OF v0, of fs] digits fit dv by auto
  have w0: "0 \<le> dec_val (ds @ fs)" using foldl_dec_ge [OF v0, of fs] digits v0 dv by auto
  have "atofp_loop (?L div 10) (?L mod 10) (ds @ ch_dot # fs) 0 point False =
      atofp_loop (?L div 10) (?L mod 10) (ch_dot # fs) (dec_val ds) point False"
    using atofp_loop_digits [of 0 ?L ds False point "ch_dot # fs"] digits prec v1 L
    by (simp add: dec_val_def)
  also have "\<dots> = atofp_loop (?L div 10) (?L mod 10) (fs @ []) (dec_val ds) point True"
    using prec by simp
  also have "\<dots> = Some (dec_val (ds @ fs), point - length fs)"
    using atofp_loop_digits [of "dec_val ds" ?L fs True point "[]"] digits prec v0 v1 fit dv
    by simp
  finally show ?thesis
    using atofp_pad_spec [OF w0 fit] by (simp add: ngx_atofp_def Let_def)
qed


section \<open>Properties\<close>

text \<open>What a decimal reader promises: the value of a non-empty digit string that fits.\<close>

definition dec_read :: "int \<Rightarrow> byte list \<Rightarrow> int option" where
  "dec_read limit line =
     (if line \<noteq> [] \<and> list_all is_digit line \<and> dec_val line \<le> limit
      then Some (dec_val line) else None)"

definition hex_read :: "int \<Rightarrow> byte list \<Rightarrow> int option" where
  "hex_read limit line =
     (if line \<noteq> [] \<and> list_all is_hex line \<and> hex_val line \<le> limit
      then Some (hex_val line) else None)"

text \<open>
  The decimal readers \<open>ngx_atoi\<close>, \<open>ngx_atosz\<close>, \<open>ngx_atoof\<close> and
  \<open>ngx_atotm\<close> compute exactly the decimal value of the line: they return it for every
  non-empty line of digits whose value fits the result type, however many leading zeros
  the line has, and \<open>NGX_ERROR\<close> for every other line; the cut-off test rejects no value
  that fits and lets none overflow.
\<close>

theorem decimal_readers_exact:
  "ngx_atoi line = dec_read NGX_MAX_INT_T_VALUE line \<and>
   ngx_atosz line = dec_read NGX_MAX_SIZE_T_VALUE line \<and>
   ngx_atoof line = dec_read NGX_MAX_OFF_T_VALUE line \<and>
   ngx_atotm line = dec_read NGX_MAX_TIME_T_VALUE line"
  by (simp add: dec_read_def list_all_iff atoi.reader_spec atosz.reader_spec
      atoof.reader_spec atotm.reader_spec)

text \<open>
  \<open>ngx_hextoi\<close> returns the hexadecimal value of a non-empty line of hexadecimal
  digits (of either case) exactly when it fits \<open>ngx_int_t\<close>; otherwise it returns
  the error code \<open>NGX_ERROR\<close> instead.
\<close>

theorem hextoi_exact: "ngx_hextoi line = hex_read NGX_MAX_INT_T_VALUE line"
  by (simp add: hextoi_spec hex_read_def list_all_iff)

text \<open>
  \<open>ngx_atofp\<close> reads a fixed-point number exactly: for digits \<open>ds\<close>, a point and at
  most \<open>point\<close> fraction digits \<open>fs\<close>, the result is the number scaled by
  \<open>10 ^ point\<close>, or \<open>NGX_ERROR\<close> where the scaled value exceeds the largest
  \<open>ngx_int_t\<close>.
\<close>

theorem atofp_scaled:
  assumes "list_all is_digit (ds @ fs)" "length fs \<le> point" "0 < point"
    and "dec_val (ds @ fs) \<le> NGX_MAX_INT_T_VALUE"
  shows "ngx_atofp (ds @ ch_dot # fs) point =
    (let v = dec_val (ds @ fs) * 10 ^ (point - length fs) in
     if v \<le> NGX_MAX_INT_T_VALUE then Some v else None)"
  using assms by (intro atofp_exact) (auto simp: list_all_iff)

text \<open>The example of the source comment: \<open>ngx_atofp("10.5", 4, 2)\<close> is 1050.\<close>

theorem atofp_scaled_witness:
  "ngx_atofp ([ch_1, ch_0] @ ch_dot # [ch_5]) 2 = Some 1050"
proof -
  have v: "dec_val ([ch_1, ch_0] @ [ch_5]) = 105" by (simp add: dec_val_def digit_val_def)
  have "list_all is_digit ([ch_1, ch_0] @ [ch_5])" by (simp add: is_digit_def)
  moreover have "length [ch_5] \<le> 2" "0 < (2::nat)" by simp_all
  moreover have "dec_val ([ch_1, ch_0] @ [ch_5]) \<le> NGX_MAX_INT_T_VALUE"
    unfolding v by (simp add: ngx_limits)
  ultimately have "ngx_atofp ([ch_1, ch_0] @ ch_dot # [ch_5]) 2 =
      (let v = dec_val ([ch_1, ch_0] @ [ch_5]) * 10 ^ (2 - length [ch_5]) in
       if v \<le> NGX_MAX_INT_T_VALUE then Some v else None)"
    by (rule atofp_scaled)
  then show ?thesis unfolding v by (simp add: ngx_limits Let_def)
qed

end
