(* ===== verification/Ngx_Sprintf.thy ===== *)
theory Ngx_Sprintf
  imports Ngx_Atoi
begin

text \<open>
  The formatter of \<open>src/core/ngx_string.c\<close>: \<open>ngx_vslprintf\<close>, its helpers
  \<open>ngx_sprintf_num\<close> and \<open>ngx_sprintf_str\<close>, and the three wrappers. The output
  buffer is the list of the bytes written so far together with its capacity
  \<open>last - buf\<close>; a variadic argument is a register slot or a string. A conversion
  whose argument does not have the kind the format asks for, a read beyond a string, a
  format that ends inside a conversion and the floating point conversion \<open>%f\<close> have
  no value in the model (\<open>None\<close>).
\<close>

section \<open>Numbers\<close>

definition hex_lower :: "byte list" where
  "hex_lower = [ch_0, ch_1, ch_2, ch_3, ch_4, ch_5, ch_6, ch_7, ch_8, ch_9,
     ch_a, ch_b, ch_c, ch_d, ch_e, ch_f]"

definition hex_upper :: "byte list" where
  "hex_upper = [ch_0, ch_1, ch_2, ch_3, ch_4, ch_5, ch_6, ch_7, ch_8, ch_9,
     ch_A, ch_B, ch_C, ch_D, ch_E, ch_F]"

text \<open>\<open>do { *--p = n % 10 + '0'; } while (n /= 10);\<close>, the digits written backwards.\<close>

fun dec_loop :: "nat \<Rightarrow> byte list \<Rightarrow> byte list" where
  "dec_loop n acc =
     (let acc' = (word_of_nat (n mod 10) + ch_0) # acc
      in if n div 10 = 0 then acc' else dec_loop (n div 10) acc')"

declare dec_loop.simps [simp del]

text \<open>\<open>do { *--p = hex[ui64 & 0xf]; } while (ui64 >>= 4);\<close>\<close>

function hex_loop :: "byte list \<Rightarrow> u64 \<Rightarrow> byte list \<Rightarrow> byte list" where
  "hex_loop tbl ui64 acc =
     (let acc' = tbl ! unat (ui64 AND 0xf) # acc; rest = drop_bit 4 ui64
      in if rest = 0 then acc' else hex_loop tbl rest acc')"
  by pat_completeness auto
termination
proof (relation "measure (\<lambda>(tbl, ui64, acc). unat ui64)", goal_cases)
  case 1
  show ?case by simp
next
  case (2 tbl ui64 acc acc' rest)
  from 2 have "ui64 \<noteq> 0" by auto
  then have "0 < unat ui64" by (simp add: unat_gt_0)
  then have "unat ui64 div 16 < unat ui64" by simp
  then show ?case using 2(2) by (simp add: drop_bit_eq_div unat_div)
qed

declare hex_loop.simps [simp del]

text \<open>The digits \<open>p .. temp + NGX_INT64_LEN\<close> of \<open>ngx_sprintf_num\<close>.\<close>

definition num_digits :: "u64 \<Rightarrow> nat \<Rightarrow> byte list" where
  "num_digits ui64 hexadecimal =
     (if hexadecimal = 0 then
        (if ui64 \<le> 0xffffffff then dec_loop (unat (ucast ui64 :: u32)) []
         else dec_loop (unat ui64) [])
      else if hexadecimal = 1 then hex_loop hex_lower ui64 []
      else hex_loop hex_upper ui64 [])"

definition ngx_sprintf_num ::
  "nat \<Rightarrow> byte list \<Rightarrow> u64 \<Rightarrow> byte \<Rightarrow> nat \<Rightarrow> u64 \<Rightarrow> byte list" where
  "ngx_sprintf_num cap buf ui64 zero hexadecimal width =
     (let p = num_digits ui64 hexadecimal;
          pad = min (unat width - length p) (cap - length buf);
          buf = buf @ replicate pad zero;
          len = (if length buf + length p > cap then cap - length buf else length p)
      in buf @ take len p)"

section \<open>Strings\<close>

text \<open>\<open>while (*src && buf < last)\<close>: \<open>None\<close> is a read beyond the end of the object.\<close>

fun cstr_copy :: "nat \<Rightarrow> byte list \<Rightarrow> byte list option" where
  "cstr_copy room [] = None"
| "cstr_copy room (c # src) =
     (if c = 0 \<or> room = 0 then Some [] else map_option ((#) c) (cstr_copy (room - 1) src))"

text \<open>\<open>while (*src && buf < last - 1)\<close>, two characters per byte.\<close>

fun cstr_hex :: "byte list \<Rightarrow> nat \<Rightarrow> byte list \<Rightarrow> byte list option" where
  "cstr_hex tbl room [] = None"
| "cstr_hex tbl room (c # src) =
     (if c = 0 \<or> room \<le> 1 then Some []
      else map_option (\<lambda>r. tbl ! unat (drop_bit 4 c) # tbl ! unat (c AND 0xf) # r)
             (cstr_hex tbl (room - 2) src))"

text \<open>\<open>while (len-- && buf < last - 1)\<close>.\<close>

fun nstr_hex :: "byte list \<Rightarrow> nat \<Rightarrow> nat \<Rightarrow> byte list \<Rightarrow> byte list option" where
  "nstr_hex tbl room 0 src = Some []"
| "nstr_hex tbl room (Suc len) src =
     (if room \<le> 1 then Some []
      else case src of
             [] \<Rightarrow> None
           | c # src' \<Rightarrow>
               map_option (\<lambda>r. tbl ! unat (drop_bit 4 c) # tbl ! unat (c AND 0xf) # r)
                 (nstr_hex tbl (room - 2) len src'))"

definition ngx_sprintf_str ::
  "nat \<Rightarrow> byte list \<Rightarrow> byte list \<Rightarrow> u64 \<Rightarrow> nat \<Rightarrow> byte list option" where
  "ngx_sprintf_str cap buf src len hexadecimal =
     (let room = cap - length buf;
          tbl = (if hexadecimal = 1 then hex_lower else hex_upper)
      in map_option ((@) buf)
        (if hexadecimal = 0 then
           (if len = - 1 then cstr_copy room src
            else let n = min room (unat len)
                 in if n \<le> length src then Some (take n src) else None)
         else if len = - 1 then cstr_hex tbl room src
         else nstr_hex tbl room (unat len) src))"

section \<open>Conversions\<close>

datatype fmt_arg = Arg_int u64 | Arg_str ngx_str | Arg_cstr "byte list"

record fmt_spec =
  fs_zero :: byte
  fs_width :: u64
  fs_sign :: bool
  fs_hex :: nat
  fs_max_width :: bool
  fs_frac_width :: u64
  fs_slen :: u64

text \<open>\<open>while (*fmt >= '0' && *fmt <= '9') n = n * 10 + (*fmt++ - '0');\<close>\<close>

fun fmt_number :: "byte list \<Rightarrow> u64 \<Rightarrow> u64 \<times> byte list" where
  "fmt_number [] n = (n, [])"
| "fmt_number (c # fmt) n =
     (if is_digit c then fmt_number fmt (n * 10 + (ucast c - 48)) else (n, c # fmt))"

fun fmt_flags :: "byte list \<Rightarrow> fmt_arg list \<Rightarrow> fmt_spec \<Rightarrow>
    (byte list \<times> fmt_arg list \<times> fmt_spec) option" where
  "fmt_flags [] args sp = Some ([], args, sp)"
| "fmt_flags (c # fmt) args sp =
     (if c = ch_u then fmt_flags fmt args (sp\<lparr>fs_sign := False\<rparr>)
      else if c = ch_m then fmt_flags fmt args (sp\<lparr>fs_max_width := True\<rparr>)
      else if c = ch_X then fmt_flags fmt args (sp\<lparr>fs_hex := 2, fs_sign := False\<rparr>)
      else if c = ch_x then fmt_flags fmt args (sp\<lparr>fs_hex := 1, fs_sign := False\<rparr>)
      else if c = ch_dot then
        (let (n, fmt') = fmt_number fmt (fs_frac_width sp)
         in Some (fmt', args, sp\<lparr>fs_frac_width := n\<rparr>))
      else if c = ch_star then
        (case args of
           Arg_int n # args' \<Rightarrow> fmt_flags fmt args' (sp\<lparr>fs_slen := n\<rparr>)
         | _ \<Rightarrow> None)
      else Some (c # fmt, args, sp))"

text \<open>
  A conversion either writes its text itself or leaves a 64-bit number, its sign flag
  and its width to the common tail of the switch.
\<close>

datatype conv = Text "byte list" | Number u64 fmt_spec

text \<open>The common tail: \<open>if (sign) { if (i64 < 0) ... }\<close> and \<open>ngx_sprintf_num\<close>.\<close>

definition fmt_tail :: "nat \<Rightarrow> byte list \<Rightarrow> conv \<Rightarrow> byte list" where
  "fmt_tail cap buf c =
     (case c of
        Text t \<Rightarrow> t
      | Number w sp \<Rightarrow>
          (if fs_sign sp \<and> sint w < 0
           then ngx_sprintf_num cap (buf @ [ch_dash]) (- w) (fs_zero sp) (fs_hex sp) (fs_width sp)
           else ngx_sprintf_num cap buf w (fs_zero sp) (fs_hex sp) (fs_width sp)))"

definition signed_slot :: "nat \<Rightarrow> u64 \<Rightarrow> u64" where
  "signed_slot bits w = (if bits = 32 then scast (ucast w :: u32) else w)"

definition unsigned_slot :: "nat \<Rightarrow> u64 \<Rightarrow> u64" where
  "unsigned_slot bits w = (if bits = 32 then ucast (ucast w :: u32) else w)"

text \<open>The integer conversions \<open>z i d l D L A\<close>, by the width of the type they read.\<close>

definition conv_int :: "nat \<Rightarrow> fmt_spec \<Rightarrow> u64 \<Rightarrow> conv" where
  "conv_int bits sp w =
     Number (if fs_sign sp then signed_slot bits w else unsigned_slot bits w) sp"

definition NGX_INT_T_LEN :: u64 where "NGX_INT_T_LEN = 20"

definition NGX_ATOMIC_T_LEN :: u64 where "NGX_ATOMIC_T_LEN = 20"

definition fmt_conv :: "nat \<Rightarrow> byte list \<Rightarrow> byte \<Rightarrow> fmt_spec \<Rightarrow> fmt_arg list \<Rightarrow>
    (conv \<times> fmt_arg list) option" where
  "fmt_conv cap buf c sp args =
     (if c \<in> {ch_V, ch_v} then
        (case args of
           Arg_str v # args' \<Rightarrow>
             map_option (\<lambda>t. (Text t, args'))
               (ngx_sprintf_str cap buf v (word_of_nat (length v)) (fs_hex sp))
         | _ \<Rightarrow> None)
      else if c = ch_s then
        (case args of
           Arg_cstr p # args' \<Rightarrow>
             map_option (\<lambda>t. (Text t, args')) (ngx_sprintf_str cap buf p (fs_slen sp) (fs_hex sp))
         | _ \<Rightarrow> None)
      else if c \<in> {ch_O, ch_P, ch_T, ch_M, ch_z, ch_i, ch_d, ch_l, ch_D, ch_L, ch_A, ch_r, ch_p, ch_c}
      then
        (case args of
           Arg_int w # args' \<Rightarrow>
             Some (if c \<in> {ch_O, ch_T, ch_r} then Number w (sp\<lparr>fs_sign := True\<rparr>)
               else if c = ch_P then Number (signed_slot 32 w) (sp\<lparr>fs_sign := True\<rparr>)
               else if c = ch_M then
                 (if w = - 1 then Number w (sp\<lparr>fs_sign := True\<rparr>)
                  else Number w (sp\<lparr>fs_sign := False\<rparr>))
               else if c \<in> {ch_z, ch_l, ch_L} then conv_int 64 sp w
               else if c = ch_i then
                 conv_int 64 (if fs_max_width sp then sp\<lparr>fs_width := NGX_INT_T_LEN\<rparr> else sp) w
               else if c \<in> {ch_d, ch_D} then conv_int 32 sp w
               else if c = ch_A then
                 conv_int 64 (if fs_max_width sp then sp\<lparr>fs_width := NGX_ATOMIC_T_LEN\<rparr> else sp) w
               else if c = ch_p then
                 Number w (sp\<lparr>fs_hex := 2, fs_sign := False, fs_zero := ch_0, fs_width := 16\<rparr>)
               else Text (buf @ [ucast (w AND 0xff)]), args')
         | _ \<Rightarrow> None)
      else if c = ch_f then None
      else if c = ch_Z then Some (Text (buf @ [ch_nul]), args)
      else if c = ch_N then Some (Text (buf @ [ch_lf]), args)
      else Some (Text (buf @ [c]), args))"

section \<open>The format loop\<close>

lemma fmt_number_length: "length (snd (fmt_number fmt n)) \<le> length fmt"
  by (induction fmt n rule: fmt_number.induct) auto

lemma fmt_flags_length: "fmt_flags fmt args sp = Some (fmt', r) \<Longrightarrow> length fmt' \<le> length fmt"
proof (induction fmt args sp rule: fmt_flags.induct)
  case 1
  then show ?case by simp
next
  case (2 c fmt args sp)
  then show ?case
    using fmt_number_length [of fmt "fs_frac_width sp"]
    by (fastforce split: if_splits list.splits fmt_arg.splits prod.splits)
qed

definition fmt_init :: "byte list \<Rightarrow> fmt_spec" where
  "fmt_init fmt = \<lparr>fs_zero = (case fmt of c # _ \<Rightarrow> if c = ch_0 then ch_0 else ch_sp | [] \<Rightarrow> ch_sp),
     fs_width = 0, fs_sign = True, fs_hex = 0, fs_max_width = False, fs_frac_width = 0, fs_slen = - 1\<rparr>"

function ngx_vslprintf :: "nat \<Rightarrow> byte list \<Rightarrow> byte list \<Rightarrow> fmt_arg list \<Rightarrow> byte list option" where
  "ngx_vslprintf cap buf [] args = Some buf"
| "ngx_vslprintf cap buf (c # fmt) args =
     (if length buf < cap then
        (if c = ch_pct then
           (let (w, fmt1) = fmt_number fmt 0 in
            case fmt_flags fmt1 args ((fmt_init fmt)\<lparr>fs_width := w\<rparr>) of
              None \<Rightarrow> None
            | Some (fmt2, args2, sp) \<Rightarrow>
                (case fmt2 of
                   [] \<Rightarrow> None
                 | d # fmt3 \<Rightarrow>
                     (case fmt_conv cap buf d sp args2 of
                        None \<Rightarrow> None
                      | Some (cv, args3) \<Rightarrow>
                          ngx_vslprintf cap (fmt_tail cap buf cv) fmt3 args3)))
         else ngx_vslprintf cap (buf @ [c]) fmt args)
      else Some buf)"
  by pat_completeness auto
termination
proof (relation "measure (\<lambda>(cap, buf, fmt, args). length fmt)", goal_cases)
  case 1
  show ?case by simp
next
  case (2 cap buf c fmt args x w fmt1 a fmt2 b args2 sp d fmt3 e cv args3)
  then have "length fmt1 \<le> length fmt" using fmt_number_length [of fmt 0] by (metis snd_conv)
  moreover have "length fmt2 \<le> length fmt1" using 2 fmt_flags_length by blast
  ultimately show ?case using 2 by simp
next
  case 3
  then show ?case by simp
qed

text \<open>
  The wrappers. For \<open>ngx_sprintf\<close> the end of the buffer is the address
  \<open>(void *) -1\<close>, so its capacity is what is left of the address space above \<open>buf\<close>.
\<close>

definition ngx_sprintf :: "u64 \<Rightarrow> byte list \<Rightarrow> fmt_arg list \<Rightarrow> byte list option" where
  "ngx_sprintf buf fmt args = ngx_vslprintf (unat (- 1 - buf)) [] fmt args"

definition ngx_snprintf :: "nat \<Rightarrow> byte list \<Rightarrow> fmt_arg list \<Rightarrow> byte list option" where
  "ngx_snprintf room fmt args = ngx_vslprintf room [] fmt args"

definition ngx_slprintf :: "nat \<Rightarrow> nat \<Rightarrow> byte list \<Rightarrow> fmt_arg list \<Rightarrow> byte list option" where
  "ngx_slprintf buf lim fmt args = ngx_vslprintf (lim - buf) [] fmt args"


section \<open>No write beyond the end of the buffer\<close>

named_theorems fmt_room \<open>every writer stays within the capacity\<close>

lemma sprintf_num_room [fmt_room]:
  "length buf \<le> cap \<Longrightarrow> length (ngx_sprintf_num cap buf w z h wd) \<le> cap"
  by (auto simp: ngx_sprintf_num_def Let_def)

lemma cstr_copy_room: "cstr_copy room src = Some t \<Longrightarrow> length t \<le> room"
  by (induction room src arbitrary: t rule: cstr_copy.induct) (fastforce split: if_splits)+

lemma cstr_hex_room: "cstr_hex tbl room src = Some t \<Longrightarrow> length t \<le> room"
  by (induction tbl room src arbitrary: t rule: cstr_hex.induct) (fastforce split: if_splits)+

lemma nstr_hex_room: "nstr_hex tbl room n src = Some t \<Longrightarrow> length t \<le> room"
  by (induction tbl room n src arbitrary: t rule: nstr_hex.induct)
    (fastforce split: if_splits list.splits)+

lemma sprintf_str_room [fmt_room]:
  "ngx_sprintf_str cap buf src len h = Some t \<Longrightarrow> length buf \<le> cap \<Longrightarrow> length t \<le> cap"
  by (auto simp: ngx_sprintf_str_def Let_def split: if_splits
      dest!: cstr_copy_room cstr_hex_room nstr_hex_room)

lemma fmt_conv_room:
  assumes "fmt_conv cap buf c sp args = Some (cv, args')" and "length buf < cap"
  shows "length (fmt_tail cap buf cv) \<le> cap"
proof (cases cv)
  case (Text t)
  then have "length t \<le> cap" using assms
    by (auto simp: fmt_conv_def conv_int_def Let_def split: if_splits list.splits fmt_arg.splits
        dest: sprintf_str_room)
  with Text show ?thesis by (simp add: fmt_tail_def)
next
  case (Number w sp')
  then show ?thesis using assms(2) by (auto simp: fmt_tail_def intro!: sprintf_num_room)
qed

lemma vslprintf_room:
  "ngx_vslprintf cap buf fmt args = Some out \<Longrightarrow> length buf \<le> cap \<Longrightarrow> length out \<le> cap"
proof (induction cap buf fmt args rule: ngx_vslprintf.induct)
  case 1
  then show ?case by simp
next
  case (2 cap buf c fmt args)
  show ?case
  proof (cases "length buf < cap \<and> c = ch_pct")
    case True
    with "2.prems" obtain w fmt1 fmt2 args2 sp d fmt3 cv args3 where
      *: "fmt_number fmt 0 = (w, fmt1)"
        "fmt_flags fmt1 args ((fmt_init fmt)\<lparr>fs_width := w\<rparr>) = Some (fmt2, args2, sp)"
        "fmt2 = d # fmt3" "fmt_conv cap buf d sp args2 = Some (cv, args3)"
        "ngx_vslprintf cap (fmt_tail cap buf cv) fmt3 args3 = Some out"
      by (auto split: option.splits list.splits prod.splits)
    then have "length (fmt_tail cap buf cv) \<le> cap" using True fmt_conv_room by blast
    then show ?thesis using "2.IH"(1) * True by (auto intro: * simp: *)
  next
    case False
    with "2.prems" "2.IH"(2) show ?thesis by (auto split: if_splits)
  qed
qed

section \<open>The digits are those of the number\<close>

lemma dec_loop_acc: "dec_loop n acc = dec_loop n [] @ acc"
proof (induction n arbitrary: acc rule: less_induct)
  case (less n)
  let ?d = "word_of_nat (n mod 10) + ch_0 :: byte"
  show ?case
  proof (cases "n div 10 = 0")
    case True
    then show ?thesis by (simp add: dec_loop.simps Let_def)
  next
    case False
    then have "n div 10 < n" by simp
    then have "dec_loop (n div 10) (?d # acc) = dec_loop (n div 10) [?d] @ acc"
      using less.IH [of "n div 10" "?d # acc"] less.IH [of "n div 10" "[?d]"] by simp
    with False show ?thesis by (simp add: dec_loop.simps [of n] Let_def)
  qed
qed

lemma dec_loop_rec:
  "dec_loop n [] =
     (if n < 10 then [] else dec_loop (n div 10) []) @ [word_of_nat (n mod 10) + ch_0]"
  using dec_loop_acc [of "n div 10" "[word_of_nat (n mod 10) + ch_0]"]
  by (simp add: dec_loop.simps [of n] Let_def div_eq_0_iff)

lemma dec_digit:
  assumes "d < 10"
  shows "is_digit (word_of_nat d + ch_0)" "digit_val (word_of_nat d + ch_0) = int d"
proof -
  have "unat (word_of_nat d + ch_0 :: byte) = d + 48"
    using assms by (simp add: unat_word_ariths unat_of_nat)
  then show "is_digit (word_of_nat d + ch_0)" "digit_val (word_of_nat d + ch_0) = int d"
    using assms by (simp_all add: is_digit_def word_le_nat_alt digit_val_def unsigned_of_nat uint_word_ariths take_bit_eq_mod)
qed

lemma dec_loop_digits:
  "dec_loop n [] \<noteq> [] \<and> (\<forall>d \<in> set (dec_loop n []). is_digit d) \<and> dec_val (dec_loop n []) = int n"
proof (induction n rule: less_induct)
  case (less n)
  show ?case
  proof (cases "n < 10")
    case True
    then show ?thesis using dec_digit [of n]
      by (subst dec_loop_rec, simp add: dec_val_def dec_loop_rec [of n])
  next
    case False
    let ?q = "n div 10" and ?r = "word_of_nat (n mod 10) + ch_0 :: byte"
    have "?q < n" using False by simp
    then have IH: "\<forall>d \<in> set (dec_loop ?q []). is_digit d" "dec_val (dec_loop ?q []) = int ?q"
      using less.IH by blast+
    have "dec_val (dec_loop ?q [] @ [?r]) = int ?q * 10 + int (n mod 10)"
      using IH(2) dec_digit(2) [of "n mod 10"] by (simp add: dec_val_def)
    also have "\<dots> = int n" by presburger
    finally show ?thesis
      using False IH(1) dec_digit(1) [of "n mod 10"]
      by (subst (1 2 3) dec_loop_rec) auto
  qed
qed

lemma dec_loop_length: "n < 10 ^ k \<Longrightarrow> 0 < k \<Longrightarrow> length (dec_loop n []) \<le> k"
proof (induction n arbitrary: k rule: less_induct)
  case (less n)
  show ?case
  proof (cases "n < 10")
    case True
    then show ?thesis using less.prems by (subst dec_loop_rec) simp
  next
    case False
    then obtain k' where k: "k = Suc k'" "0 < k'"
      using less.prems by (cases k; cases "k - 1") auto
    then have "n div 10 < 10 ^ k'" using less.prems by (simp add: div_less_iff_less_mult mult.commute)
    then have "length (dec_loop (n div 10) []) \<le> k'" using less.IH False k by simp
    then show ?thesis using False k by (subst dec_loop_rec) simp
  qed
qed


lemma hex_loop_acc: "hex_loop tbl w acc = hex_loop tbl w [] @ acc"
proof (induction "unat w" arbitrary: w acc rule: less_induct)
  case less
  let ?d = "tbl ! unat (w AND 0xf)" and ?q = "drop_bit 4 w"
  show ?case
  proof (cases "?q = 0")
    case True
    then show ?thesis by (simp add: hex_loop.simps Let_def)
  next
    case False
    then have "w \<noteq> 0" by auto
    then have "unat ?q < unat w" by (simp add: drop_bit_eq_div unat_div unat_gt_0)
    then have "hex_loop tbl ?q (?d # acc) = hex_loop tbl ?q [?d] @ acc"
      using less [of ?q "?d # acc"] less [of ?q "[?d]"] by simp
    with False show ?thesis by (simp add: hex_loop.simps [of tbl w] Let_def)
  qed
qed

lemma hex_loop_rec:
  "hex_loop tbl w [] =
     (if drop_bit 4 w = 0 then [] else hex_loop tbl (drop_bit 4 w) []) @ [tbl ! unat (w AND 0xf)]"
  using hex_loop_acc [of tbl "drop_bit 4 w" "[tbl ! unat (w AND 0xf)]"]
  by (simp add: hex_loop.simps [of tbl w] Let_def)

lemma nibble: "unat (w AND 0xf) = unat w mod 16"
proof -
  have "w AND 0xf = take_bit 4 w" by (simp add: take_bit_eq_mask mask_eq_exp_minus_1)
  then have "unat (w AND 0xf) = take_bit 4 (unat w)" by (simp only: unsigned_take_bit_eq)
  then show ?thesis by (simp add: take_bit_eq_mod)
qed

text \<open>A table of hexadecimal digits: entry \<open>n\<close> is read back as \<open>n\<close>.\<close>

locale hex_table =
  fixes tbl :: "byte list"
  assumes entry: "n < 16 \<Longrightarrow> hex_digit (tbl ! n) = Some (word_of_nat n)"
begin

lemma loop_digits:
  "hex_loop tbl w [] \<noteq> [] \<and> (\<forall>d \<in> set (hex_loop tbl w []). is_hex d) \<and>
   hex_val (hex_loop tbl w []) = uint w"
proof (induction "unat w" arbitrary: w rule: less_induct)
  case less
  let ?q = "drop_bit 4 w" and ?r = "tbl ! unat (w AND 0xf)"
  have nib: "unat (w AND 0xf) = unat w mod 16" by (simp add: nibble)
  then have r: "hex_digit ?r = Some (word_of_nat (unat w mod 16))" by (simp add: entry)
  then have ih: "is_hex ?r" by (simp add: is_hex_def)
  have ru: "uint (word_of_nat (unat w mod 16) :: byte) = int (unat w mod 16)"
    by (simp add: unsigned_of_nat take_bit_eq_mod)
  have uq: "unat ?q = unat w div 16" by (simp add: drop_bit_eq_div unat_div)
  have val: "hex_val (ds @ [?r]) = hex_val ds * 16 + int (unat w mod 16)" for ds
    using r ru by (simp add: hex_val_def)
  show ?case
  proof (cases "?q = 0")
    case True
    then have "unat w < 16" using uq by (simp add: div_eq_0_iff)
    moreover have "hex_loop tbl w [] = [] @ [?r]" using True hex_loop_rec [of tbl w] by simp
    ultimately show ?thesis using ih val [of "[]"] by (simp add: hex_val_def)
  next
    case False
    then have "w \<noteq> 0" by auto
    then have "unat ?q < unat w" using uq by (simp add: unat_gt_0)
    then have IH: "\<forall>d \<in> set (hex_loop tbl ?q []). is_hex d" "hex_val (hex_loop tbl ?q []) = uint ?q"
      using less by blast+
    have eq: "hex_loop tbl w [] = hex_loop tbl ?q [] @ [?r]"
      using False hex_loop_rec [of tbl w] by simp
    have "hex_val (hex_loop tbl w []) = int (unat w div 16) * 16 + int (unat w mod 16)"
      unfolding eq val IH(2) uint_nat uq ..
    also have "int (n div 16) * 16 + int (n mod 16) = int n" for n :: nat by presburger
    also have "int (unat w) = uint w" by simp
    finally show ?thesis using IH(1) ih eq by simp
  qed
qed

end

interpretation lower: hex_table hex_lower
proof
  have "list_all (\<lambda>n. hex_digit (hex_lower ! n) = Some (word_of_nat n)) [0..<16]" by code_simp
  then show "hex_digit (hex_lower ! n) = Some (word_of_nat n)" if "n < 16" for n
    using that by (simp add: list_all_iff)
qed

interpretation upper: hex_table hex_upper
proof
  have "list_all (\<lambda>n. hex_digit (hex_upper ! n) = Some (word_of_nat n)) [0..<16]" by code_simp
  then show "hex_digit (hex_upper ! n) = Some (word_of_nat n)" if "n < 16" for n
    using that by (simp add: list_all_iff)
qed

lemma hex_loop_length: "unat w < 16 ^ k \<Longrightarrow> 0 < k \<Longrightarrow> length (hex_loop tbl w []) \<le> k"
proof (induction k arbitrary: w)
  case (Suc k)
  let ?q = "drop_bit 4 w"
  have uq: "unat ?q = unat w div 16" by (simp add: drop_bit_eq_div unat_div)
  show ?case
  proof (cases "?q = 0")
    case True
    then show ?thesis by (subst hex_loop_rec) simp
  next
    case False
    then have "0 < k" using Suc.prems uq by (cases k) (auto simp: unat_eq_zero)
    moreover have "unat ?q < 16 ^ k" using Suc.prems uq by (simp add: div_less_iff_less_mult mult.commute)
    ultimately have "length (hex_loop tbl ?q []) \<le> k" by (simp add: Suc.IH)
    then show ?thesis using False by (subst hex_loop_rec) simp
  qed
qed simp

lemma unat_u64_less: "unat (w :: u64) < 18446744073709551616"
proof -
  have "unat w < 2 ^ LENGTH(64)" by (rule unsigned_less)
  then show ?thesis by simp
qed

lemma sint_nonneg_uint:
  fixes w :: u64
  assumes "0 \<le> sint w"
  shows "uint w < 2 ^ 63"
proof -
  have hi: "\<not> bit (uint w) 63" using assms by (simp add: sint_uint)
  have "uint w < 2 ^ LENGTH(64)" by (rule unsigned_less)
  then have "take_bit (Suc 63) (uint w) = uint w" by (simp add: take_bit_int_eq_self)
  then have "uint w = 2 ^ 63 * of_bool (bit (uint w) 63) + take_bit 63 (uint w)"
    using take_bit_Suc_from_most [of 63 "uint w"] by (rule trans [OF sym])
  also have "\<dots> = take_bit 63 (uint w)" using hi by simp
  also have "\<dots> < 2 ^ 63" by (rule take_bit_int_less_exp)
  finally show ?thesis .
qed

lemma num_digits_dec: "num_digits w 0 = dec_loop (unat w) []"
proof (cases "w \<le> 0xffffffff")
  case True
  then have "unat w \<le> 4294967295" by (simp add: word_le_nat_alt)
  then have "unat (ucast w :: u32) = unat w" by (simp add: unsigned_ucast_eq take_bit_eq_mod)
  with True show ?thesis by (simp add: num_digits_def)
next
  case False
  then show ?thesis by (simp add: num_digits_def)
qed


section \<open>Formats used by other components\<close>

lemma sprintf_num_plain:
  "length buf + length (num_digits w h) \<le> cap \<Longrightarrow>
   ngx_sprintf_num cap buf w z h 0 = buf @ num_digits w h"
  by (simp add: ngx_sprintf_num_def Let_def)

lemma num_digits_length: "length (num_digits w h) \<le> 20"
proof (cases "h = 0")
  case True
  have "unat w < 10 ^ 20" using unat_u64_less [of w] by simp
  then show ?thesis using True dec_loop_length [of "unat w" 20] by (simp add: num_digits_dec)
next
  case False
  have "unat w < 16 ^ 16" using unat_u64_less [of w] by simp
  then have "length (hex_loop tbl w []) \<le> 16" for tbl using hex_loop_length [of w 16 tbl] by simp
  then have "length (hex_loop tbl w []) \<le> 20" for tbl by (meson le_trans numeral_le_iff semiring_norm)
  then show ?thesis using False by (simp add: num_digits_def)
qed

text \<open>\<open>"%ui"\<close> prints the decimal digits of an unsigned number.\<close>

lemma snprintf_ui:
  assumes "20 \<le> room"
  shows "ngx_snprintf room [ch_pct, ch_u, ch_i] [Arg_int w] = Some (dec_loop (unat w) [])"
proof -
  have "length (num_digits w 0) \<le> room" using num_digits_length [of w 0] assms by simp
  then show ?thesis using assms
    by (simp add: ngx_snprintf_def is_digit_def fmt_conv_def conv_int_def unsigned_slot_def
        fmt_init_def fmt_tail_def sprintf_num_plain num_digits_dec)
qed

text \<open>\<open>"%xO" CRLF\<close> prints a size in hexadecimal, as the chunked filter does.\<close>

lemma sprintf_xO_crlf:
  assumes "22 \<le> cap" "0 \<le> sint w"
  shows "ngx_vslprintf cap [] [ch_pct, ch_x, ch_O, ch_cr, ch_lf] [Arg_int w] =
    Some (hex_loop hex_lower w [] @ [ch_cr, ch_lf])"
proof -
  have n: "num_digits w 1 = hex_loop hex_lower w []" by (simp add: num_digits_def)
  have "length (hex_loop hex_lower w []) \<le> 20" using num_digits_length [of w 1] unfolding n .
  moreover from this have "ngx_sprintf_num cap [] w ch_sp (Suc 0) 0 = hex_loop hex_lower w []"
    using assms sprintf_num_plain [of "[]" w 1 cap ch_sp] n by simp
  ultimately show ?thesis using assms
    by (simp add: is_digit_def fmt_conv_def fmt_init_def fmt_tail_def)
qed

section \<open>Properties\<close>



text \<open>
  The number formatter's scratch array is large enough: the digits of any 64-bit value,
  decimal or hexadecimal of either case, number at most \<open>NGX_INT64_LEN\<close> = 20, so the
  descending pointer \<open>p\<close> never leaves \<open>temp\<close>.
\<close>

theorem num_digits_fit_temp: "length (num_digits ui64 hexadecimal) \<le> 20"
  by (rule num_digits_length)

text \<open>
  Printing and reading numbers are inverse: what \<open>ngx_snprintf\<close> prints with
  \<open>"%ui"\<close> into a buffer of at least 20 bytes is read back by \<open>ngx_atoi\<close> as the same
  number, for every value an \<open>ngx_int_t\<close> can hold.
\<close>

theorem snprintf_atoi_roundtrip:
  assumes "20 \<le> room" "uint w \<le> NGX_MAX_INT_T_VALUE"
  shows "\<exists>out. ngx_snprintf room [ch_pct, ch_u, ch_i] [Arg_int w] = Some out \<and>
    ngx_atoi out = Some (uint w)"
proof -
  have "ngx_atoi (dec_loop (unat w) []) = Some (uint w)"
    using dec_loop_digits [of "unat w"] assms(2) by (simp add: atoi.reader_spec)
  then show ?thesis using snprintf_ui [OF assms(1)] by blast
qed

theorem snprintf_atoi_roundtrip_witness:
  "\<exists>out. ngx_snprintf 32 [ch_pct, ch_u, ch_i] [Arg_int 8080] = Some out \<and>
    ngx_atoi out = Some 8080"
  using snprintf_atoi_roundtrip [of 32 8080] by (simp add: ngx_limits)

text \<open>
  The hexadecimal sizes the chunked filter prints with \<open>"%xO"\<close> are read back by
  \<open>ngx_hextoi\<close> as the same number, for every non-negative \<open>off_t\<close>.
\<close>

theorem sprintf_hextoi_roundtrip:
  assumes "22 \<le> cap" "0 \<le> sint w"
  shows "\<exists>ds. ngx_vslprintf cap [] [ch_pct, ch_x, ch_O, ch_cr, ch_lf] [Arg_int w] =
      Some (ds @ [ch_cr, ch_lf]) \<and> ngx_hextoi ds = Some (uint w)"
proof -
  have "uint w \<le> NGX_MAX_INT_T_VALUE"
    using sint_nonneg_uint [OF assms(2)] by (simp add: ngx_limits)
  then have "ngx_hextoi (hex_loop hex_lower w []) = Some (uint w)"
    using lower.loop_digits [of w] by (simp add: hextoi_spec)
  then show ?thesis using sprintf_xO_crlf [OF assms] by blast
qed

theorem sprintf_hextoi_roundtrip_witness:
  "\<exists>ds. ngx_vslprintf 64 [] [ch_pct, ch_x, ch_O, ch_cr, ch_lf] [Arg_int 65536] =
      Some (ds @ [ch_cr, ch_lf]) \<and> ngx_hextoi ds = Some 65536"
  using sprintf_hextoi_roundtrip [of 64 65536] by simp

end
