(* ===== verification/Http_Chunked.thy ===== *)
theory Http_Chunked
  imports Byte_Machine Ngx_Sprintf
begin

text \<open>
  The chunked transfer coding: the parser \<open>ngx_http_parse_chunked\<close>
  (\<open>src/http/ngx_http_parse.c\<close>), the reader \<open>ngx_http_request_body_chunked_filter\<close>
  that drives it over a received buffer (\<open>src/http/ngx_http_request_body.c\<close>), and the
  writer \<open>ngx_http_chunked_body_filter\<close>
  (\<open>src/http/modules/ngx_http_chunked_filter_module.c\<close>).
\<close>

section \<open>The parser\<close>

datatype chunk_state =
    sw_chunk_start | sw_chunk_size | sw_chunk_extension | sw_chunk_extension_almost_done
  | sw_chunk_data | sw_after_data | sw_after_data_almost_done
  | sw_last_chunk_extension | sw_last_chunk_extension_almost_done
  | sw_trailer | sw_trailer_almost_done | sw_trailer_header | sw_trailer_header_almost_done

record chunked =
  ck_state :: chunk_state
  ck_size :: int
  ck_length :: int

text \<open>The zeroed structure the body reader allocates.\<close>

definition chunked_init :: chunked where
  "chunked_init = \<lparr>ck_state = sw_chunk_start, ck_size = 0, ck_length = 0\<rparr>"

text \<open>
  The loop changes the local \<open>state\<close> and \<open>ctx->size\<close>; the pair is the state of an
  iteration. Every test of the switch is on the current byte.
\<close>

type_synonym chunk_local = "chunk_state \<times> int"

definition chunk_size_end :: "byte \<Rightarrow> int \<Rightarrow> chunk_local step" where
  "chunk_size_end ch sz =
     (if sz = 0 then
        (if ch = ch_cr then Next (sw_last_chunk_extension_almost_done, sz)
         else if ch = ch_lf then Next (sw_trailer, sz)
         else if ch \<in> {ch_semi, ch_sp, ch_tab} then Next (sw_last_chunk_extension, sz)
         else Fail NGX_ERROR (sw_chunk_size, sz))
      else
        (if ch = ch_cr then Next (sw_chunk_extension_almost_done, sz)
         else if ch = ch_lf then Next (sw_chunk_data, sz)
         else if ch \<in> {ch_semi, ch_sp, ch_tab} then Next (sw_chunk_extension, sz)
         else Fail NGX_ERROR (sw_chunk_size, sz)))"

definition chunk_byte :: "byte \<Rightarrow> chunk_local \<Rightarrow> chunk_local step" where
  "chunk_byte ch s =
     (let state = fst s; sz = snd s in
      case state of
        sw_chunk_start \<Rightarrow>
          (case hex_digit ch of
             Some d \<Rightarrow> Next (sw_chunk_size, uint d)
           | None \<Rightarrow> Fail NGX_ERROR s)
      | sw_chunk_size \<Rightarrow>
          (if sz > NGX_MAX_OFF_T_VALUE div 16 then Fail NGX_ERROR s
           else case hex_digit ch of
             Some d \<Rightarrow> Next (sw_chunk_size, sz * 16 + uint d)
           | None \<Rightarrow> chunk_size_end ch sz)
      | sw_chunk_extension \<Rightarrow>
          Next (if ch = ch_cr then sw_chunk_extension_almost_done
                else if ch = ch_lf then sw_chunk_data else state, sz)
      | sw_chunk_extension_almost_done \<Rightarrow>
          (if ch = ch_lf then Next (sw_chunk_data, sz) else Fail NGX_ERROR s)
      | sw_chunk_data \<Rightarrow> Stop 0 NGX_OK s
      | sw_after_data \<Rightarrow>
          (if ch = ch_cr then Next (sw_after_data_almost_done, sz)
           else if ch = ch_lf then Next (sw_chunk_start, sz) else Fail NGX_ERROR s)
      | sw_after_data_almost_done \<Rightarrow>
          (if ch = ch_lf then Next (sw_chunk_start, sz) else Fail NGX_ERROR s)
      | sw_last_chunk_extension \<Rightarrow>
          Next (if ch = ch_cr then sw_last_chunk_extension_almost_done
                else if ch = ch_lf then sw_trailer else state, sz)
      | sw_last_chunk_extension_almost_done \<Rightarrow>
          (if ch = ch_lf then Next (sw_trailer, sz) else Fail NGX_ERROR s)
      | sw_trailer \<Rightarrow>
          (if ch = ch_cr then Next (sw_trailer_almost_done, sz)
           else if ch = ch_lf then Stop 1 NGX_DONE s else Next (sw_trailer_header, sz))
      | sw_trailer_almost_done \<Rightarrow>
          (if ch = ch_lf then Stop 1 NGX_DONE s else Fail NGX_ERROR s)
      | sw_trailer_header \<Rightarrow>
          Next (if ch = ch_cr then sw_trailer_header_almost_done
                else if ch = ch_lf then sw_trailer else state, sz)
      | sw_trailer_header_almost_done \<Rightarrow>
          (if ch = ch_lf then Next (sw_trailer, sz) else Fail NGX_ERROR s))"

definition chunk_step :: "chunk_local stepper" where
  "chunk_step = (\<lambda>mem p. chunk_byte (mem ! p))"

text \<open>The amount of data the parser wants to see next, computed at the label \<open>data\<close>.\<close>

definition chunk_length :: "chunk_state \<Rightarrow> int \<Rightarrow> int" where
  "chunk_length state sz =
     (case state of
        sw_chunk_start \<Rightarrow> 3
      | sw_chunk_size \<Rightarrow> 1 + (if sz \<noteq> 0 then sz + 4 else 1)
      | sw_chunk_extension \<Rightarrow> 1 + sz + 4
      | sw_chunk_extension_almost_done \<Rightarrow> 1 + sz + 4
      | sw_chunk_data \<Rightarrow> sz + 4
      | sw_after_data \<Rightarrow> 4
      | sw_after_data_almost_done \<Rightarrow> 4
      | sw_last_chunk_extension \<Rightarrow> 2
      | sw_last_chunk_extension_almost_done \<Rightarrow> 2
      | sw_trailer \<Rightarrow> 1
      | sw_trailer_almost_done \<Rightarrow> 1
      | sw_trailer_header \<Rightarrow> 2
      | sw_trailer_header_almost_done \<Rightarrow> 2)"

text \<open>The code from the label \<open>data\<close> on: \<open>(rc, b->pos, ctx)\<close>.\<close>

definition chunk_data :: "chunked \<Rightarrow> ngx_rc \<Rightarrow> nat \<Rightarrow> chunk_local \<Rightarrow> ngx_rc \<times> nat \<times> chunked" where
  "chunk_data ctx rc pos s =
     (let ctx = ctx\<lparr>ck_state := fst s, ck_size := snd s\<rparr> in
      if snd s > NGX_MAX_OFF_T_VALUE - 5 then (NGX_ERROR, pos, ctx)
      else (rc, pos, ctx\<lparr>ck_length := chunk_length (fst s) (snd s)\<rparr>))"

definition chunk_entry :: "chunked \<Rightarrow> chunk_local" where
  "chunk_entry ctx =
     (if ck_state ctx = sw_chunk_data \<and> ck_size ctx = 0 then sw_after_data else ck_state ctx,
      ck_size ctx)"

definition ngx_http_parse_chunked ::
  "byte list \<Rightarrow> nat \<Rightarrow> nat \<Rightarrow> chunked \<Rightarrow> ngx_rc \<times> nat \<times> chunked" where
  "ngx_http_parse_chunked mem pos lim ctx =
     (case scan chunk_step mem pos lim (chunk_entry ctx) of
        Again p s \<Rightarrow> chunk_data ctx NGX_AGAIN p s
      | Stopped p rc s \<Rightarrow>
          (if rc = NGX_DONE
           then (NGX_DONE, p, ctx\<lparr>ck_state := sw_chunk_start, ck_size := snd s\<rparr>)
           else chunk_data ctx rc p s)
      | Failed rc s \<Rightarrow> (rc, pos, ctx\<lparr>ck_size := snd s\<rparr>))"

section \<open>The body reader\<close>

text \<open>
  One buffer of \<open>ngx_http_request_body_chunked_filter\<close>. \<open>b\<close> is the output buffer of
  the last chunk of this buffer, if any; \<open>out\<close> the contents of the output buffers
  made so far, the last one first. Small chunks are appended to the last output buffer.
  The source keeps the output buffers inside the input buffer and moves the bytes down;
  what is read is never overwritten before, so the contents are the same.
\<close>

datatype body_rc =
    Body_more int \<comment> \<open>\<open>rb->rest\<close>, more data is wanted\<close>
  | Body_done
  | NGX_HTTP_REQUEST_ENTITY_TOO_LARGE
  | NGX_HTTP_BAD_REQUEST

record body =
  bd_out :: "byte list list"
  bd_content_length :: int
  bd_pos :: nat
  bd_chunked :: chunked

definition body_take :: "byte list \<Rightarrow> nat \<Rightarrow> bool \<Rightarrow> body \<Rightarrow> body" where
  "body_take mem lim b r =
     (let ctx = bd_chunked r; pos = bd_pos r; size = ck_size ctx in
      if b \<and> size \<le> 128 \<and> int (lim - pos) \<ge> size then
        r\<lparr>bd_out := (hd (bd_out r) @ slice mem pos (pos + nat size)) # tl (bd_out r),
          bd_content_length := bd_content_length r + size,
          bd_pos := pos + nat size,
          bd_chunked := ctx\<lparr>ck_size := 0\<rparr>\<rparr>
      else if int (lim - pos) > size then
        r\<lparr>bd_out := slice mem pos (pos + nat size) # bd_out r,
          bd_content_length := bd_content_length r + size,
          bd_pos := pos + nat size,
          bd_chunked := ctx\<lparr>ck_size := 0\<rparr>\<rparr>
      else
        r\<lparr>bd_out := slice mem pos lim # bd_out r,
          bd_content_length := bd_content_length r + int (lim - pos),
          bd_pos := lim,
          bd_chunked := ctx\<lparr>ck_size := size - int (lim - pos)\<rparr>\<rparr>)"

partial_function (option) chunked_filter ::
  "int \<Rightarrow> int \<Rightarrow> byte list \<Rightarrow> nat \<Rightarrow> bool \<Rightarrow> body \<Rightarrow> (body_rc \<times> body) option" where
  "chunked_filter max_size bufsize mem lim b r =
     (case ngx_http_parse_chunked mem (bd_pos r) lim (bd_chunked r) of (rc, pos, ctx) \<Rightarrow>
        let r' = r\<lparr>bd_pos := pos, bd_chunked := ctx\<rparr> in
        if rc = NGX_OK then
          (if max_size \<noteq> 0 \<and> max_size - bd_content_length r' < ck_size ctx
           then Some (NGX_HTTP_REQUEST_ENTITY_TOO_LARGE, r')
           else chunked_filter max_size bufsize mem lim True (body_take mem lim b r'))
        else if rc = NGX_DONE then Some (Body_done, r')
        else if rc = NGX_AGAIN then Some (Body_more (max (ck_length ctx) bufsize), r')
        else Some (NGX_HTTP_BAD_REQUEST, r'))"

definition body_data :: "body \<Rightarrow> byte list" where
  "body_data r = concat (rev (bd_out r))"

section \<open>The writer\<close>

record trailer =
  tr_hash :: nat
  tr_key :: ngx_str
  tr_value :: ngx_str

text \<open>The text of \<open>ngx_http_chunked_create_trailers\<close>; entries with \<open>hash == 0\<close> are deleted.\<close>

definition trailer_line :: "trailer \<Rightarrow> byte list" where
  "trailer_line h = tr_key h @ [ch_colon, ch_sp] @ tr_value h @ [ch_cr, ch_lf]"

definition ngx_http_chunked_create_trailers :: "trailer list \<Rightarrow> byte list" where
  "ngx_http_chunked_create_trailers hs =
     (let ls = concat (map trailer_line (filter (\<lambda>h. tr_hash h \<noteq> 0) hs)) in
      [ch_cr, ch_lf, ch_0, ch_cr, ch_lf] @ ls @ [ch_cr, ch_lf])"

text \<open>
  The bytes \<open>ngx_http_chunked_body_filter\<close> sends for a chain of buffers: their total
  size in hexadecimal, the data, and the end of the chunk, or of the body when the last
  buffer has \<open>last_buf\<close>. \<open>chunk\<close> is the address of the buffer the size is printed to.
\<close>

definition ngx_http_chunked_body_filter ::
  "u64 \<Rightarrow> byte list list \<Rightarrow> bool \<Rightarrow> trailer list \<Rightarrow> byte list option" where
  "ngx_http_chunked_body_filter chunk bufs last_buf trailers =
     (let data = concat bufs; size = length data in
      case (if size \<noteq> 0 then
              ngx_sprintf chunk [ch_pct, ch_x, ch_O, ch_cr, ch_lf] [Arg_int (word_of_nat size)]
            else Some []) of
        None \<Rightarrow> None
      | Some head \<Rightarrow>
          Some (head @ data @
            (if last_buf then
               (if size = 0 then drop 2 (ngx_http_chunked_create_trailers trailers)
                else ngx_http_chunked_create_trailers trailers)
             else if size > 0 then [ch_cr, ch_lf] else [])))"


section \<open>Invariant and resumption\<close>

text \<open>
  The size is never negative nor beyond \<open>off_t\<close>; once the size line is complete, it is
  positive and leaves room for the five bytes \<open>ctx->length\<close> adds.
\<close>

definition chunk_ok :: "chunk_local \<Rightarrow> bool" where
  "chunk_ok s \<longleftrightarrow> 0 \<le> snd s \<and> snd s \<le> NGX_MAX_OFF_T_VALUE \<and>
     (fst s \<in> {sw_chunk_extension, sw_chunk_extension_almost_done, sw_chunk_data} \<longrightarrow>
        0 < snd s \<and> snd s \<le> NGX_MAX_OFF_T_VALUE div 16)"

lemma chunk_byte_ok:
  assumes "chunk_ok s" "chunk_byte ch s = Next s'"
  shows "chunk_ok s'"
proof -
  have h: "0 \<le> uint d \<and> uint d \<le> 15" if "hex_digit ch = Some d" for d
    using that by (rule hex_digit_bounds)
  obtain st n where s: "s = (st, n)" by fastforce
  show ?thesis
    using assms h unfolding s
    by (cases st) (auto simp: chunk_byte_def chunk_size_end_def chunk_ok_def ngx_limits Let_def
        split: option.splits if_splits)
qed

lemma chunk_byte_stop:
  assumes "chunk_byte ch s = Stop k rc s'"
  shows "s' = s \<and> (rc = NGX_OK \<and> k = 0 \<and> fst s = sw_chunk_data \<or>
    rc = NGX_DONE \<and> k = 1 \<and> fst s \<in> {sw_trailer, sw_trailer_almost_done})"
  using assms
  by (cases "fst s") (auto simp: chunk_byte_def chunk_size_end_def Let_def
      split: option.splits if_splits)

lemma chunk_byte_fail: "chunk_byte ch s = Fail rc s' \<Longrightarrow> rc = NGX_ERROR"
  by (cases "fst s") (auto simp: chunk_byte_def chunk_size_end_def Let_def
      split: option.splits if_splits)

lemma chunk_fail: "scan chunk_step mem p lim s = Failed rc s' \<Longrightarrow> rc = NGX_ERROR"
  by (drule scan_Failed_at) (auto simp: chunk_step_def dest: chunk_byte_fail)

interpretation chunk: incremental chunk_step
  by unfold_locales (simp add: chunk_step_def)

interpretation chunk: invariant_machine chunk_step "\<lambda>mem p s. chunk_ok s"
  "\<lambda>mem p rc s. chunk_ok s \<and> (rc = NGX_OK \<and> fst s = sw_chunk_data \<or> rc = NGX_DONE)"
  by unfold_locales (auto simp: chunk_step_def dest: chunk_byte_ok chunk_byte_stop)

lemma chunk_length_bounds:
  "0 \<le> n \<Longrightarrow> n \<le> NGX_MAX_OFF_T_VALUE - 5 \<Longrightarrow>
   1 \<le> chunk_length st n \<and> chunk_length st n \<le> NGX_MAX_OFF_T_VALUE"
  by (cases st) (auto simp: chunk_length_def ngx_limits)

section \<open>Reading one chunk header\<close>

lemma chunk_step_feed:
  "feed chunk_byte xs s = Some s' \<Longrightarrow> p + length xs \<le> lim \<Longrightarrow> drop p mem = xs @ rest \<Longrightarrow>
   scan chunk_step mem p lim s = scan chunk_step mem (p + length xs) lim s'"
  unfolding chunk_step_def by (rule scan_feed)

lemma feed_hex_tail:
  assumes "list_all is_hex ds" "0 \<le> n"
    and "foldl (\<lambda>v d. v * 16 + (case hex_digit d of Some x \<Rightarrow> uint x | None \<Rightarrow> 0)) n ds
      \<le> NGX_MAX_OFF_T_VALUE"
  shows "feed chunk_byte ds (sw_chunk_size, n) = Some (sw_chunk_size,
    foldl (\<lambda>v d. v * 16 + (case hex_digit d of Some x \<Rightarrow> uint x | None \<Rightarrow> 0)) n ds)"
  using assms
proof (induction ds arbitrary: n)
  case Nil
  then show ?case by simp
next
  case (Cons d ds)
  then obtain x where x: "hex_digit d = Some x" by (auto simp: is_hex_def)
  then have x': "0 \<le> uint x" "uint x \<le> 15" using hex_digit_bounds by blast+
  have le: "n * 16 + uint x \<le> NGX_MAX_OFF_T_VALUE"
    using foldl_hex_ge [of "n * 16 + uint x" ds] Cons.prems x x' by simp
  then have "n * 16 \<le> NGX_MAX_OFF_T_VALUE" using x'(1) by linarith
  then have "n \<le> NGX_MAX_OFF_T_VALUE div 16" by (simp add: ngx_limits)
  then show ?case using Cons.IH [of "n * 16 + uint x"] Cons.prems x x'
    by (simp add: chunk_byte_def)
qed

lemma feed_hex:
  assumes "ds \<noteq> []" "list_all is_hex ds" "hex_val ds \<le> NGX_MAX_OFF_T_VALUE"
  shows "feed chunk_byte ds (sw_chunk_start, n) = Some (sw_chunk_size, hex_val ds)"
proof -
  obtain d ds' where ds: "ds = d # ds'" using assms(1) by (cases ds) auto
  then obtain x where x: "hex_digit d = Some x" using assms(2) by (auto simp: is_hex_def)
  have "hex_val ds = foldl (\<lambda>v d. v * 16 + (case hex_digit d of Some x \<Rightarrow> uint x | None \<Rightarrow> 0)) (uint x) ds'"
    by (simp add: hex_val_def ds x)
  then show ?thesis using feed_hex_tail [of ds' "uint x"] assms(2,3) x ds
    by (simp add: chunk_byte_def)
qed

lemma feed_size_line:
  assumes "ds \<noteq> []" "list_all is_hex ds" "0 < hex_val ds"
    and "hex_val ds \<le> NGX_MAX_OFF_T_VALUE div 16"
  shows "feed chunk_byte (ds @ [ch_cr, ch_lf]) (sw_chunk_start, n) = Some (sw_chunk_data, hex_val ds)"
proof -
  have "hex_val ds \<le> NGX_MAX_OFF_T_VALUE" using assms(4) by (simp add: ngx_limits)
  moreover have "hex_digit ch_cr = None" by code_simp
  ultimately show ?thesis using assms feed_hex [of ds n]
    by (simp add: feed_append chunk_byte_def chunk_size_end_def)
qed

lemma feed_last_line:
  "feed chunk_byte [ch_0, ch_cr, ch_lf] (sw_chunk_start, n) = Some (sw_trailer, 0)"
proof -
  have "hex_digit ch_cr = None" "hex_digit ch_0 = Some 0" by code_simp+
  then show ?thesis by (simp add: chunk_byte_def chunk_size_end_def ngx_limits)
qed

lemma feed_after_data: "feed chunk_byte [ch_cr, ch_lf] (sw_after_data, n) = Some (sw_chunk_start, n)"
  by (simp add: chunk_byte_def)

definition no_crlf :: "byte list \<Rightarrow> bool" where
  "no_crlf xs \<longleftrightarrow> list_all (\<lambda>c. c \<noteq> ch_cr \<and> c \<noteq> ch_lf) xs"

lemma feed_trailer_chars:
  "no_crlf xs \<Longrightarrow> feed chunk_byte xs (sw_trailer_header, n) = Some (sw_trailer_header, n)"
  by (induction xs) (auto simp: chunk_byte_def no_crlf_def)

lemma feed_trailer_line:
  assumes "no_crlf (tr_key h)" "no_crlf (tr_value h)"
  shows "feed chunk_byte (trailer_line h) (sw_trailer, n) = Some (sw_trailer, n)"
proof -
  obtain c cs where c: "tr_key h @ [ch_colon, ch_sp] @ tr_value h = c # cs"
    by (cases "tr_key h @ [ch_colon, ch_sp] @ tr_value h") auto
  have "no_crlf (tr_key h @ [ch_colon, ch_sp] @ tr_value h)" using assms by (simp add: no_crlf_def)
  then have cs: "c \<noteq> ch_cr" "c \<noteq> ch_lf" "no_crlf cs" unfolding c by (simp_all add: no_crlf_def)
  have "trailer_line h = (tr_key h @ [ch_colon, ch_sp] @ tr_value h) @ [ch_cr, ch_lf]"
    by (simp add: trailer_line_def)
  then have l: "trailer_line h = (c # cs) @ [ch_cr, ch_lf]" unfolding c .
  show ?thesis using cs feed_trailer_chars [of cs n]
    unfolding l by (simp add: feed_append chunk_byte_def)
qed

lemma feed_trailer_lines:
  "list_all (\<lambda>h. no_crlf (tr_key h) \<and> no_crlf (tr_value h)) hs \<Longrightarrow>
   feed chunk_byte (concat (map trailer_line hs)) (sw_trailer, n) = Some (sw_trailer, n)"
  by (induction hs) (auto simp: feed_append feed_trailer_line)


section \<open>Reading a body\<close>

text \<open>The parser stands at a chunk, or at the end of the data of one.\<close>

definition ready :: "chunked \<Rightarrow> byte list \<Rightarrow> bool" where
  "ready ctx pre \<longleftrightarrow> ck_state ctx = sw_chunk_start \<and> pre = [] \<or>
     ck_state ctx = sw_chunk_data \<and> ck_size ctx = 0 \<and> pre = [ch_cr, ch_lf]"

lemma ready_feed:
  "ready ctx pre \<Longrightarrow> feed chunk_byte pre (chunk_entry ctx) = Some (sw_chunk_start, ck_size ctx)"
  using feed_after_data [of "ck_size ctx"] by (auto simp: ready_def chunk_entry_def)

lemma drop_add_append: "drop p mem = xs @ rest \<Longrightarrow> drop (p + length xs) mem = rest"
  by (metis add.commute append_eq_conv_conj drop_drop)

lemma length_drop_eq: "drop p mem = xs \<Longrightarrow> xs \<noteq> [] \<Longrightarrow> length mem = p + length xs"
  by auto

lemma parse_chunk:
  assumes "ready ctx pre" and ds: "ds \<noteq> []" "list_all is_hex ds" "hex_val ds = int (length d)"
    and d: "d \<noteq> []" "int (length d) \<le> NGX_MAX_OFF_T_VALUE div 16"
    and mem: "drop p mem = (pre @ ds @ [ch_cr, ch_lf]) @ d @ rest"
  shows "ngx_http_parse_chunked mem p (length mem) ctx =
    (NGX_OK, p + length (pre @ ds @ [ch_cr, ch_lf]),
     ctx\<lparr>ck_state := sw_chunk_data, ck_size := int (length d),
       ck_length := int (length d) + 4\<rparr>)"
proof -
  let ?l = "pre @ ds @ [ch_cr, ch_lf]" and ?n = "int (length d)"
  have n: "0 < ?n" using d by simp
  have len: "length mem = p + length (?l @ d @ rest)"
    using mem d by (intro length_drop_eq) simp_all
  have "feed chunk_byte ?l (chunk_entry ctx) = Some (sw_chunk_data, ?n)"
    using ready_feed [OF assms(1)] feed_size_line [OF ds(1,2), of "ck_size ctx"] ds(3) n d(2)
    by (simp add: feed_append)
  then have "scan chunk_step mem p (length mem) (chunk_entry ctx) =
      scan chunk_step mem (p + length ?l) (length mem) (sw_chunk_data, ?n)"
    using mem len by (intro chunk_step_feed) simp_all
  also have "\<dots> = Stopped (p + length ?l) NGX_OK (sw_chunk_data, ?n)"
    using len d(1) by (subst scan_Stop [where k = 0]) (simp_all add: chunk_step_def chunk_byte_def)
  finally show ?thesis using d(2)
    by (simp add: ngx_http_parse_chunked_def chunk_data_def chunk_length_def ngx_limits)
qed

lemma parse_last:
  assumes "ready ctx pre" and tls: "feed chunk_byte tls (sw_trailer, 0) = Some (sw_trailer, 0)"
    and mem: "drop p mem = (pre @ [ch_0, ch_cr, ch_lf] @ tls @ [ch_cr]) @ ch_lf # rest"
  shows "ngx_http_parse_chunked mem p (length mem) ctx =
    (NGX_DONE, p + length (pre @ [ch_0, ch_cr, ch_lf] @ tls @ [ch_cr, ch_lf]),
     ctx\<lparr>ck_state := sw_chunk_start, ck_size := 0\<rparr>)"
proof -
  let ?l = "pre @ [ch_0, ch_cr, ch_lf] @ tls @ [ch_cr]"
  have len: "length mem = p + length (?l @ ch_lf # rest)"
    using mem by (intro length_drop_eq) simp_all
  have lf: "mem ! (p + length ?l) = ch_lf"
    using drop_add_append [OF mem] by (metis nth_via_drop)
  have "feed chunk_byte (pre @ ([ch_0, ch_cr, ch_lf] @ (tls @ [ch_cr]))) (chunk_entry ctx) =
      Some (sw_trailer_almost_done, 0)"
    unfolding feed_append using ready_feed [OF assms(1)] feed_last_line [of "ck_size ctx"] tls
    by (simp add: chunk_byte_def [of _ "(sw_trailer, _)"])
  then have "scan chunk_step mem p (length mem) (chunk_entry ctx) =
      scan chunk_step mem (p + length ?l) (length mem) (sw_trailer_almost_done, 0)"
    using mem len by (intro chunk_step_feed) simp_all
  also have "\<dots> = Stopped (p + length ?l + 1) NGX_DONE (sw_trailer_almost_done, 0)"
    using len lf by (subst scan_Stop [where k = 1]) (simp_all add: chunk_step_def chunk_byte_def)
  finally show ?thesis by (simp add: ngx_http_parse_chunked_def)
qed

lemma body_take_all:
  assumes "ck_size (bd_chunked r) = int (length d)" and "drop (bd_pos r) mem = d @ rest"
    and "rest \<noteq> []" and "b \<longrightarrow> bd_out r \<noteq> []"
  shows "\<exists>out. body_take mem (length mem) b r =
      r\<lparr>bd_out := out, bd_content_length := bd_content_length r + int (length d),
        bd_pos := bd_pos r + length d, bd_chunked := (bd_chunked r)\<lparr>ck_size := 0\<rparr>\<rparr> \<and>
    out \<noteq> [] \<and> concat (rev out) = body_data r @ d"
proof -
  have "length mem = bd_pos r + length (d @ rest)"
    using assms(2,3) by (intro length_drop_eq) simp_all
  moreover from this have "slice mem (bd_pos r) (bd_pos r + length d) = d"
    using assms(2) by (simp add: slice_def)
  ultimately show ?thesis using assms
    by (cases "bd_out r") (auto simp: body_take_def body_data_def Let_def)
qed

text \<open>The stream a writer sends for the chunks \<open>ds\<close>, after the line end \<open>pre\<close>.\<close>

definition size_line :: "byte list \<Rightarrow> byte list" where
  "size_line d = hex_loop hex_lower (word_of_nat (length d)) []"

fun stream :: "byte list \<Rightarrow> byte list list \<Rightarrow> byte list \<Rightarrow> byte list" where
  "stream pre [] fin = pre @ fin"
| "stream pre (d # ds) fin = pre @ size_line d @ [ch_cr, ch_lf] @ d @ stream [ch_cr, ch_lf] ds fin"

definition chunk_fits :: "byte list \<Rightarrow> bool" where
  "chunk_fits d \<longleftrightarrow> d \<noteq> [] \<and> int (length d) \<le> NGX_MAX_OFF_T_VALUE div 16"

lemma size_line_digits:
  assumes "chunk_fits d"
  shows "size_line d \<noteq> []" "list_all is_hex (size_line d)" "hex_val (size_line d) = int (length d)"
proof -
  have "int (length d) < 18446744073709551616" using assms by (simp add: chunk_fits_def ngx_limits)
  then have "uint (word_of_nat (length d) :: u64) = int (length d)"
    by (simp add: unsigned_of_nat take_bit_eq_mod)
  then show "size_line d \<noteq> []" "list_all is_hex (size_line d)" "hex_val (size_line d) = int (length d)"
    using lower.loop_digits [of "word_of_nat (length d)"] by (simp_all add: size_line_def list_all_iff)
qed

lemma filter_stream:
  assumes "ready (bd_chunked r) pre" and "list_all chunk_fits ds"
    and "drop (bd_pos r) mem = stream pre ds fin @ rest"
    and fin: "fin = [ch_0, ch_cr, ch_lf] @ tls @ [ch_cr, ch_lf]"
    and tls: "feed chunk_byte tls (sw_trailer, 0) = Some (sw_trailer, 0)"
    and "max_size = 0 \<or> bd_content_length r + int (length (concat ds)) \<le> max_size"
    and "b \<longrightarrow> bd_out r \<noteq> []"
  shows "\<exists>r'. chunked_filter max_size bufsize mem (length mem) b r = Some (Body_done, r') \<and>
    body_data r' = body_data r @ concat ds \<and>
    bd_content_length r' = bd_content_length r + int (length (concat ds)) \<and>
    bd_pos r' = bd_pos r + length (stream pre ds fin)"
  using assms(1-3,6,7)
proof (induction ds arbitrary: pre r b)
  case Nil
  then have "drop (bd_pos r) mem = (pre @ [ch_0, ch_cr, ch_lf] @ tls @ [ch_cr]) @ ch_lf # rest"
    by (simp add: fin)
  note P = parse_last [OF Nil.prems(1) tls this]
  show ?case by (subst chunked_filter.simps) (simp add: P fin body_data_def)
next
  case (Cons d ds)
  let ?ctx = "bd_chunked r" and ?l = "pre @ size_line d @ [ch_cr, ch_lf]" and ?n = "int (length d)"
  let ?mem2 = "stream [ch_cr, ch_lf] ds fin @ rest"
  have d: "chunk_fits d" "d \<noteq> []" "?n \<le> NGX_MAX_OFF_T_VALUE div 16"
    using Cons.prems(2) by (simp_all add: chunk_fits_def)
  have mem: "drop (bd_pos r) mem = ?l @ d @ ?mem2" using Cons.prems(3) by simp
  let ?r1 = "r\<lparr>bd_pos := bd_pos r + length ?l, bd_chunked := ?ctx\<lparr>ck_state := sw_chunk_data,
      ck_size := ?n, ck_length := ?n + 4\<rparr>\<rparr>"
  note P = parse_chunk [OF Cons.prems(1) size_line_digits [OF d(1)] d(2,3) mem]
  have "stream [ch_cr, ch_lf] ds fin \<noteq> []" by (cases ds) simp_all
  then obtain out where t: "body_take mem (length mem) b ?r1 =
      ?r1\<lparr>bd_out := out, bd_content_length := bd_content_length r + ?n,
        bd_pos := bd_pos r + length ?l + length d,
        bd_chunked := ?ctx\<lparr>ck_state := sw_chunk_data, ck_length := ?n + 4, ck_size := 0\<rparr>\<rparr>"
    and out: "out \<noteq> []" "concat (rev out) = body_data r @ d"
    using body_take_all [of ?r1 d mem ?mem2 b] drop_add_append [OF mem] Cons.prems(5)
    by (auto simp: body_data_def)
  have step: "chunked_filter max_size bufsize mem (length mem) b r =
      chunked_filter max_size bufsize mem (length mem) True (body_take mem (length mem) b ?r1)"
    using Cons.prems(4) by (subst chunked_filter.simps) (auto simp: P)
  have "drop (bd_pos r + length ?l + length d) mem = ?mem2"
    using drop_add_append [OF drop_add_append [OF mem]] by (simp add: add.assoc)
  then show ?case
    using Cons.IH [of "body_take mem (length mem) b ?r1" "[ch_cr, ch_lf]" True]
      Cons.prems(2,4) out
    unfolding step t by (auto simp: ready_def body_data_def)
qed


section \<open>Properties\<close>

text \<open>A response sent in pieces, each one a chain of buffers, then the last buffer.\<close>

fun chunked_send :: "u64 \<Rightarrow> byte list list list \<Rightarrow> trailer list \<Rightarrow> byte list option" where
  "chunked_send chunk [] trailers = ngx_http_chunked_body_filter chunk [] True trailers"
| "chunked_send chunk (bufs # ps) trailers =
     (case ngx_http_chunked_body_filter chunk bufs False trailers of
        None \<Rightarrow> None
      | Some w \<Rightarrow> map_option ((@) w) (chunked_send chunk ps trailers))"

definition body_init :: body where
  "body_init = \<lparr>bd_out = [], bd_content_length = 0, bd_pos = 0, bd_chunked = chunked_init\<rparr>"

definition trailers_end :: "trailer list \<Rightarrow> byte list" where
  "trailers_end hs =
     [ch_0, ch_cr, ch_lf] @ concat (map trailer_line (filter (\<lambda>h. tr_hash h \<noteq> 0) hs)) @ [ch_cr, ch_lf]"

lemma stream_pre: "stream pre ds fin = pre @ stream [] ds fin"
  by (cases ds) simp_all

lemma body_filter_piece:
  assumes "22 \<le> unat (- 1 - chunk)" "int (length (concat bufs)) \<le> NGX_MAX_OFF_T_VALUE div 16"
  shows "ngx_http_chunked_body_filter chunk bufs False trailers =
    Some (if concat bufs = [] then []
          else size_line (concat bufs) @ [ch_cr, ch_lf] @ concat bufs @ [ch_cr, ch_lf])"
proof -
  have "0 \<le> sint (word_of_nat (length (concat bufs)) :: u64)"
    using assms(2) by (simp add: ngx_limits signed_of_nat bit_iff_odd)
  from sprintf_xO_crlf [OF assms(1) this] show ?thesis
    by (cases "concat bufs = []")
      (simp_all add: ngx_http_chunked_body_filter_def ngx_sprintf_def size_line_def Let_def
        del: ngx_vslprintf.simps concat_eq_Nil_conv)
qed

lemma chunked_send_stream:
  assumes "22 \<le> unat (- 1 - chunk)"
    and "list_all (\<lambda>bufs. int (length (concat bufs)) \<le> NGX_MAX_OFF_T_VALUE div 16) ps"
  shows "chunked_send chunk ps trailers =
    Some (stream [] (filter (\<lambda>d. d \<noteq> []) (map concat ps)) (trailers_end trailers))"
  using assms(2)
proof (induction ps)
  case Nil
  then show ?case
    by (simp add: ngx_http_chunked_body_filter_def ngx_http_chunked_create_trailers_def trailers_end_def)
next
  case (Cons bufs ps)
  then show ?case using body_filter_piece [OF assms(1), of bufs trailers]
    by (auto simp: stream_pre [of "[ch_cr, ch_lf]"])
qed

lemma concat_map_concat: "concat (map concat xs) = concat (concat xs)"
  by (induction xs) auto

lemma concat_filter_nonempty: "concat (filter (\<lambda>d. d \<noteq> []) xs) = concat xs"
  by (induction xs) auto

text \<open>
  C5: What the chunked writer sends, the chunked reader reads back. A body sent through
  \<open>ngx_http_chunked_body_filter\<close> in any pieces, each of any buffers, with any trailer
  fields free of CR and LF, is decoded by \<open>ngx_http_request_body_chunked_filter\<close> to
  exactly its bytes; the reader returns, counts the content length right, and stops
  exactly at the end of the body, leaving the bytes of a pipelined request untouched.
\<close>

theorem chunked_roundtrip:
  assumes "22 \<le> unat (- 1 - chunk)"
    and "list_all (\<lambda>bufs. int (length (concat bufs)) \<le> NGX_MAX_OFF_T_VALUE div 16) ps"
    and "list_all (\<lambda>h. no_crlf (tr_key h) \<and> no_crlf (tr_value h)) trailers"
    and "max_size = 0 \<or> int (length (concat (concat ps))) \<le> max_size"
  shows "\<exists>wire r. chunked_send chunk ps trailers = Some wire \<and>
    chunked_filter max_size bufsize (wire @ rest) (length (wire @ rest)) False body_init =
      Some (Body_done, r) \<and>
    body_data r = concat (concat ps) \<and>
    bd_content_length r = int (length (concat (concat ps))) \<and>
    bd_pos r = length wire"
proof -
  let ?ds = "filter (\<lambda>d. d \<noteq> []) (map concat ps)"
  let ?tls = "concat (map trailer_line (filter (\<lambda>h. tr_hash h \<noteq> 0) trailers))"
  let ?wire = "stream [] ?ds (trailers_end trailers)"
  have cc: "concat ?ds = concat (concat ps)" by (simp add: concat_filter_nonempty concat_map_concat)
  have "list_all chunk_fits ?ds" using assms(2) by (auto simp: list_all_iff chunk_fits_def)
  moreover have "feed chunk_byte ?tls (sw_trailer, 0) = Some (sw_trailer, 0)"
    using assms(3) by (intro feed_trailer_lines) (auto simp: list_all_iff)
  moreover have "ready (bd_chunked body_init) []"
    by (simp add: ready_def body_init_def chunked_init_def)
  ultimately show ?thesis
    using filter_stream [of body_init "[]" ?ds "?wire @ rest" "trailers_end trailers" rest ?tls
        max_size False bufsize] assms(4) chunked_send_stream [OF assms(1,2), of trailers]
    by (simp add: cc body_init_def trailers_end_def body_data_def)
qed

theorem chunked_roundtrip_witness:
  "\<exists>wire r. chunked_send 0x1000 [[[ch_a, ch_b], [ch_c]], []] [] = Some wire \<and>
    chunked_filter 0 8192 (wire @ [ch_G]) (length (wire @ [ch_G])) False body_init =
      Some (Body_done, r) \<and>
    body_data r = concat (concat [[[ch_a, ch_b], [ch_c]], []]) \<and>
    bd_content_length r = int (length (concat (concat [[[ch_a, ch_b], [ch_c]], []]))) \<and>
    bd_pos r = length wire"
  by (rule chunked_roundtrip) (simp_all add: ngx_limits)

text \<open>
  The chunked parser may be interrupted anywhere. When the received bytes end and it
  returns \<open>NGX_AGAIN\<close>, calling it again on the longer buffer from where it stopped gives
  the result one call on the longer buffer gives: the same return code and, unless the
  body is invalid, the same position, state and chunk size.
\<close>

theorem chunked_resume:
  assumes "chunk_ok (chunk_entry ctx)" and "pos \<le> length mem"
    and "ngx_http_parse_chunked mem pos (length mem) ctx = (NGX_AGAIN, p, ctx')"
    and "ngx_http_parse_chunked (mem @ mem2) pos (length (mem @ mem2)) ctx = (rc1, p1, c1)"
    and "ngx_http_parse_chunked (mem @ mem2) p (length (mem @ mem2)) ctx' = (rc2, p2, c2)"
  shows "rc2 = rc1 \<and>
    (rc1 = NGX_ERROR \<or> p2 = p1 \<and> ck_state c2 = ck_state c1 \<and> ck_size c2 = ck_size c1)"
proof -
  have stop: "rc \<noteq> NGX_AGAIN"
    if "scan chunk_step mem pos (length mem) (chunk_entry ctx) = Stopped q rc s" for q rc s
    using chunk.scan_Stopped [OF assms(1) order_refl that] by auto
  have fail: "rc \<noteq> NGX_AGAIN"
    if "scan chunk_step mem pos (length mem) (chunk_entry ctx) = Failed rc s" for rc s
    using chunk_fail [OF that] by auto
  obtain s where s: "scan chunk_step mem pos (length mem) (chunk_entry ctx) = Again p s"
    and ctx': "ck_state ctx' = fst s" "ck_size ctx' = snd s"
    using assms(3) stop fail
    by (cases "scan chunk_step mem pos (length mem) (chunk_entry ctx)")
      (auto simp: ngx_http_parse_chunked_def chunk_data_def Let_def split: if_splits)
  have "chunk_ok s" using chunk.scan_Again [OF assms(1) order_refl s] .
  then have "chunk_entry ctx' = s" using ctx' by (auto simp: chunk_entry_def chunk_ok_def)
  then have eq: "scan chunk_step (mem @ mem2) p (length (mem @ mem2)) (chunk_entry ctx') =
      scan chunk_step (mem @ mem2) pos (length (mem @ mem2)) (chunk_entry ctx)"
    using chunk.scan_resume [OF assms(2), of mem2 "chunk_entry ctx"] s by simp
  show ?thesis
    using assms(4,5) unfolding ngx_http_parse_chunked_def eq
    by (auto simp: chunk_data_def Let_def split: outcome.splits if_splits dest: chunk_fail)
qed

theorem chunked_resume_witness:
  "fst (ngx_http_parse_chunked ([ch_1] @ [ch_0, ch_lf, ch_a]) 1
      (length ([ch_1] @ [ch_0, ch_lf, ch_a])) \<lparr>ck_state = sw_chunk_size, ck_size = 1, ck_length = 6\<rparr>) =
   fst (ngx_http_parse_chunked ([ch_1] @ [ch_0, ch_lf, ch_a]) 0
      (length ([ch_1] @ [ch_0, ch_lf, ch_a])) chunked_init)"
proof -
  let ?c = "\<lambda>st n l. \<lparr>ck_state = st, ck_size = n, ck_length = l\<rparr>"
  have a: "ngx_http_parse_chunked [ch_1] 0 (length [ch_1]) chunked_init =
      (NGX_AGAIN, 1, ?c sw_chunk_size 1 6)" by code_simp
  have b: "ngx_http_parse_chunked ([ch_1] @ [ch_0, ch_lf, ch_a]) 0
      (length ([ch_1] @ [ch_0, ch_lf, ch_a])) chunked_init =
      (NGX_OK, 3, ?c sw_chunk_data 16 20)" by code_simp
  have c: "ngx_http_parse_chunked ([ch_1] @ [ch_0, ch_lf, ch_a]) 1
      (length ([ch_1] @ [ch_0, ch_lf, ch_a])) (?c sw_chunk_size 1 6) =
      (NGX_OK, 3, ?c sw_chunk_data 16 20)" by code_simp
  have "chunk_ok (chunk_entry chunked_init)" by code_simp
  then have "NGX_OK = NGX_OK \<and> (NGX_OK = NGX_ERROR \<or> (3::nat) = 3 \<and>
      ck_state (?c sw_chunk_data 16 20) = ck_state (?c sw_chunk_data 16 20) \<and>
      ck_size (?c sw_chunk_data 16 20) = ck_size (?c sw_chunk_data 16 20))"
    by (rule chunked_resume [OF _ _ a b c]) simp
  then show ?thesis unfolding b c by simp
qed

lemma chunked_size_bounds_all:
  assumes "chunk_ok (chunk_entry ctx)" and "lim \<le> length mem"
    and "ngx_http_parse_chunked mem pos lim ctx = (rc, p, ctx')" and "rc \<in> {NGX_OK, NGX_AGAIN}"
  shows "0 \<le> ck_size ctx' \<and> ck_size ctx' \<le> NGX_MAX_OFF_T_VALUE - 5 \<and>
    1 \<le> ck_length ctx' \<and> ck_length ctx' \<le> NGX_MAX_OFF_T_VALUE \<and>
    chunk_ok (ck_state ctx', ck_size ctx') \<and>
    (rc = NGX_OK \<longrightarrow> ck_state ctx' = sw_chunk_data \<and> 0 < ck_size ctx')"
proof -
  note inv = chunk.scan_Again [OF assms(1,2)] chunk.scan_Stopped [OF assms(1,2)]
  show ?thesis
  proof (cases "scan chunk_step mem pos lim (chunk_entry ctx)")
    case (Again q s)
    moreover from this have "chunk_ok s" using inv by blast
    ultimately show ?thesis using assms(3,4) chunk_length_bounds [of "snd s" "fst s"]
      by (auto simp: ngx_http_parse_chunked_def chunk_data_def chunk_ok_def Let_def split: if_splits)
  next
    case (Stopped q rc' s)
    moreover from this have "chunk_ok s" "rc' = NGX_OK \<and> fst s = sw_chunk_data \<or> rc' = NGX_DONE"
      using inv by blast+
    ultimately show ?thesis using assms(3,4) chunk_length_bounds [of "snd s" "fst s"]
      by (auto simp: ngx_http_parse_chunked_def chunk_data_def chunk_ok_def Let_def split: if_splits)
  next
    case (Failed rc' s)
    then show ?thesis using assms(3,4) chunk_fail by (fastforce simp: ngx_http_parse_chunked_def)
  qed
qed


text \<open>
  Chunk sizes never overflow \<open>off_t\<close>. From a state the parser can be in, a call that
  does not report an error leaves a size between 0 and the largest \<open>off_t\<close>, computes a
  wanted length between 1 and the largest \<open>off_t\<close>, and announces data only for a
  positive size.
\<close>

theorem chunked_size_bounds:
  assumes "chunk_ok (chunk_entry ctx)" and "lim \<le> length mem"
    and "ngx_http_parse_chunked mem pos lim ctx = (rc, p, ctx')" and "rc \<in> {NGX_OK, NGX_AGAIN}"
  shows "0 \<le> ck_size ctx' \<and> ck_size ctx' \<le> NGX_MAX_OFF_T_VALUE - 5 \<and>
    1 \<le> ck_length ctx' \<and> ck_length ctx' \<le> NGX_MAX_OFF_T_VALUE \<and>
    chunk_ok (ck_state ctx', ck_size ctx') \<and>
    (rc = NGX_OK \<longrightarrow> ck_state ctx' = sw_chunk_data \<and> 0 < ck_size ctx')"
  using chunked_size_bounds_all [OF assms] .

theorem chunked_size_bounds_witness:
  "chunk_ok (sw_chunk_data, 1)"
proof -
  have "chunk_ok (chunk_entry chunked_init)" by code_simp
  moreover have "ngx_http_parse_chunked [ch_1, ch_lf, ch_a] 0 3 chunked_init =
      (NGX_OK, 2, \<lparr>ck_state = sw_chunk_data, ck_size = 1, ck_length = 5\<rparr>)" by code_simp
  ultimately show ?thesis
    using chunked_size_bounds [of chunked_init 3 "[ch_1, ch_lf, ch_a]" 0] by simp
qed

text \<open>An announced chunk has at least one byte in the buffer, and the reader takes some.\<close>

lemma parse_OK_progress:
  assumes "ngx_http_parse_chunked mem pos lim ctx = (NGX_OK, p, ctx')"
  shows "pos \<le> p \<and> p < lim"
proof (cases "scan chunk_step mem pos lim (chunk_entry ctx)")
  case (Stopped q rc s)
  then obtain p' s1 k where "pos \<le> p'" "p' < lim" "chunk_byte (mem ! p') s1 = Stop k rc s" "q = p' + k"
    using scan_Stopped_at [OF Stopped] by (auto simp: chunk_step_def)
  with Stopped assms chunk_byte_stop [of "mem ! p'" s1 k rc s] show ?thesis
    by (auto simp: ngx_http_parse_chunked_def chunk_data_def Let_def split: if_splits)
next
  case (Failed rc s)
  then show ?thesis using assms chunk_fail [OF Failed] by (simp add: ngx_http_parse_chunked_def)
qed (use assms in \<open>auto simp: ngx_http_parse_chunked_def chunk_data_def Let_def split: if_splits\<close>)

lemma body_take_progress:
  assumes "chunk_ok (ck_state (bd_chunked r), ck_size (bd_chunked r))"
    and "ck_state (bd_chunked r) = sw_chunk_data" "bd_pos r < lim"
  shows "bd_pos r < bd_pos (body_take mem lim b r) \<and>
    chunk_ok (chunk_entry (bd_chunked (body_take mem lim b r)))"
  using assms by (auto simp: body_take_def chunk_ok_def chunk_entry_def ngx_limits Let_def)

text \<open>
  The body reader always returns. From any state of the parser that can arise, over
  any received bytes and any configured limits, the loop of
  \<open>ngx_http_request_body_chunked_filter\<close> ends: every announced chunk consumes at least
  one byte.
\<close>

theorem chunked_filter_returns:
  assumes "chunk_ok (chunk_entry (bd_chunked r))" and "lim \<le> length mem"
  shows "\<exists>res. chunked_filter max_size bufsize mem lim b r = Some res"
  using assms(1)
proof (induction "lim - bd_pos r" arbitrary: b r rule: less_induct)
  case less
  obtain rc p ctx where P: "ngx_http_parse_chunked mem (bd_pos r) lim (bd_chunked r) = (rc, p, ctx)"
    by (metis prod_cases3)
  show ?case
  proof (cases "rc = NGX_OK")
    case False
    then show ?thesis by (subst chunked_filter.simps) (auto simp: P Let_def)
  next
    case True
    let ?r = "r\<lparr>bd_pos := p, bd_chunked := ctx\<rparr>"
    have pos: "bd_pos r \<le> p" "p < lim" using parse_OK_progress P True by blast+
    have "chunk_ok (ck_state ctx, ck_size ctx)" "ck_state ctx = sw_chunk_data"
      using chunked_size_bounds_all [OF less.prems assms(2) P] True by auto
    then have t: "p < bd_pos (body_take mem lim b ?r)"
      "chunk_ok (chunk_entry (bd_chunked (body_take mem lim b ?r)))"
      using body_take_progress [of ?r lim mem b] pos by simp_all
    then have "lim - bd_pos (body_take mem lim b ?r) < lim - bd_pos r" using pos by simp
    from less.hyps [OF this t(2), of True] show ?thesis using True
      by (subst chunked_filter.simps) (auto simp: P Let_def)
  qed
qed

theorem chunked_filter_returns_witness:
  "\<exists>res. chunked_filter 0 8192 [ch_5, ch_lf, ch_a] 3 False body_init = Some res"
proof -
  have "chunk_ok (chunk_entry (bd_chunked body_init))" by code_simp
  moreover have "3 \<le> length [ch_5, ch_lf, ch_a]" by simp
  ultimately show ?thesis by (rule chunked_filter_returns)
qed

end
