(* ===== verification/Http_Request_Line.thy ===== *)
theory Http_Request_Line
  imports Byte_Machine
begin

text \<open>
  \<open>ngx_http_parse_request_line\<close> of \<open>src/http/ngx_http_parse.c\<close>. The record
  \<open>request\<close> is the part of \<open>ngx_http_request_t\<close> the parser reads and writes;
  pointers are positions in the client header buffer, and those the code compares with
  \<open>NULL\<close> are options. Each case of the switch, or group of cases that fall through
  into each other, is one definition; \<open>rl_step\<close> is the switch and
  \<open>ngx_http_parse_request_line\<close> the function. Conditional code for Win32 is left out,
  as in the build configuration.
\<close>

section \<open>Data\<close>

definition usual :: "u32 list" where
  "usual = [0x00000000, 0x7fff37d6, 0xffffffff, 0x7fffffff,
     0xffffffff, 0xffffffff, 0xffffffff, 0xffffffff]"

definition is_usual :: "byte \<Rightarrow> bool" where
  "is_usual ch = bitmap_test usual ch"

datatype rl_state =
    rl_start | rl_method | rl_spaces_before_uri | rl_schema | rl_schema_slash
  | rl_schema_slash_slash | rl_host_start | rl_host | rl_host_end | rl_host_ip_literal
  | rl_port | rl_after_slash_in_uri | rl_check_uri | rl_uri | rl_http_09 | rl_http_H
  | rl_http_HT | rl_http_HTT | rl_http_HTTP | rl_first_major_digit | rl_major_digit
  | rl_first_minor_digit | rl_minor_digit | rl_spaces_after_digit | rl_almost_done

record request =
  rq_method :: nat
  rq_request_start :: nat
  rq_request_end :: "nat option"
  rq_method_end :: nat
  rq_schema_start :: nat
  rq_schema_end :: nat
  rq_host_start :: nat
  rq_host_end :: nat
  rq_port_end :: nat
  rq_uri_start :: nat
  rq_uri_end :: nat
  rq_uri_ext :: "nat option"
  rq_args_start :: "nat option"
  rq_http_protocol :: nat
  rq_http_major :: nat
  rq_http_minor :: nat
  rq_http_version :: nat
  rq_complex_uri :: bool
  rq_quoted_uri :: bool
  rq_plus_in_uri :: bool
  rq_empty_path_in_uri :: bool

text \<open>
  \<open>r->state\<close> is kept beside the record: the loop works on its local copy \<open>state\<close>,
  which is stored back when the function returns \<open>NGX_AGAIN\<close> or reaches \<open>done\<close>.
\<close>

type_synonym rl_local = "rl_state \<times> request"

definition NGX_HTTP_UNKNOWN :: nat where "NGX_HTTP_UNKNOWN = 0x00000001"
definition NGX_HTTP_GET :: nat where "NGX_HTTP_GET = 0x00000002"
definition NGX_HTTP_HEAD :: nat where "NGX_HTTP_HEAD = 0x00000004"
definition NGX_HTTP_POST :: nat where "NGX_HTTP_POST = 0x00000008"
definition NGX_HTTP_PUT :: nat where "NGX_HTTP_PUT = 0x00000010"
definition NGX_HTTP_DELETE :: nat where "NGX_HTTP_DELETE = 0x00000020"
definition NGX_HTTP_MKCOL :: nat where "NGX_HTTP_MKCOL = 0x00000040"
definition NGX_HTTP_COPY :: nat where "NGX_HTTP_COPY = 0x00000080"
definition NGX_HTTP_MOVE :: nat where "NGX_HTTP_MOVE = 0x00000100"
definition NGX_HTTP_OPTIONS :: nat where "NGX_HTTP_OPTIONS = 0x00000200"
definition NGX_HTTP_PROPFIND :: nat where "NGX_HTTP_PROPFIND = 0x00000400"
definition NGX_HTTP_PROPPATCH :: nat where "NGX_HTTP_PROPPATCH = 0x00000800"
definition NGX_HTTP_LOCK :: nat where "NGX_HTTP_LOCK = 0x00001000"
definition NGX_HTTP_UNLOCK :: nat where "NGX_HTTP_UNLOCK = 0x00002000"
definition NGX_HTTP_PATCH :: nat where "NGX_HTTP_PATCH = 0x00004000"
definition NGX_HTTP_TRACE :: nat where "NGX_HTTP_TRACE = 0x00008000"
definition NGX_HTTP_CONNECT :: nat where "NGX_HTTP_CONNECT = 0x00010000"

lemmas ngx_methods =
  NGX_HTTP_UNKNOWN_def NGX_HTTP_GET_def NGX_HTTP_HEAD_def NGX_HTTP_POST_def NGX_HTTP_PUT_def
  NGX_HTTP_DELETE_def NGX_HTTP_MKCOL_def NGX_HTTP_COPY_def NGX_HTTP_MOVE_def
  NGX_HTTP_OPTIONS_def NGX_HTTP_PROPFIND_def NGX_HTTP_PROPPATCH_def NGX_HTTP_LOCK_def
  NGX_HTTP_UNLOCK_def NGX_HTTP_PATCH_def NGX_HTTP_TRACE_def NGX_HTTP_CONNECT_def

section \<open>The method\<close>

text \<open>
  The comparison macros in the form the configuration selects: \<open>ngx_auto_config.h\<close>
  defines no \<open>NGX_HAVE_NONALIGNED\<close>, so they compare byte by byte. \<open>str_cmp\<close> is
  \<open>ngx_str3_cmp\<close> .. \<open>ngx_str9cmp\<close> by the characters they compare;
  \<open>str3Ocmp\<close> skips the second character, which the caller has tested.
\<close>

definition str3Ocmp :: "byte list \<Rightarrow> nat \<Rightarrow> byte \<Rightarrow> byte \<Rightarrow> byte \<Rightarrow> bool" where
  "str3Ocmp mem m c0 c2 c3 \<longleftrightarrow> mem ! m = c0 \<and> mem ! (m + 2) = c2 \<and> mem ! (m + 3) = c3"

text \<open>\<open>switch (p - m)\<close>: the new value of \<open>r->method\<close>.\<close>

definition method_switch :: "byte list \<Rightarrow> nat \<Rightarrow> nat \<Rightarrow> nat \<Rightarrow> nat" where
  "method_switch mem m n method =
     (if n = 3 then
        (if str_cmp mem m [ch_G, ch_E, ch_T] then NGX_HTTP_GET
         else if str_cmp mem m [ch_P, ch_U, ch_T] then NGX_HTTP_PUT
         else method)
      else if n = 4 then
        (if mem ! (m + 1) = ch_O then
           (if str3Ocmp mem m ch_P ch_S ch_T then NGX_HTTP_POST
            else if str3Ocmp mem m ch_C ch_P ch_Y then NGX_HTTP_COPY
            else if str3Ocmp mem m ch_M ch_V ch_E then NGX_HTTP_MOVE
            else if str3Ocmp mem m ch_L ch_C ch_K then NGX_HTTP_LOCK
            else method)
         else if str_cmp mem m [ch_H, ch_E, ch_A, ch_D] then NGX_HTTP_HEAD
         else method)
      else if n = 5 then
        (if str_cmp mem m [ch_M, ch_K, ch_C, ch_O, ch_L] then NGX_HTTP_MKCOL
         else if str_cmp mem m [ch_P, ch_A, ch_T, ch_C, ch_H] then NGX_HTTP_PATCH
         else if str_cmp mem m [ch_T, ch_R, ch_A, ch_C, ch_E] then NGX_HTTP_TRACE
         else method)
      else if n = 6 then
        (if str_cmp mem m [ch_D, ch_E, ch_L, ch_E, ch_T, ch_E] then NGX_HTTP_DELETE
         else if str_cmp mem m [ch_U, ch_N, ch_L, ch_O, ch_C, ch_K] then NGX_HTTP_UNLOCK
         else method)
      else if n = 7 then
        (let method =
           (if str_cmp mem m [ch_O, ch_P, ch_T, ch_I, ch_O, ch_N, ch_S] then NGX_HTTP_OPTIONS
            else method)
         in if str_cmp mem m [ch_C, ch_O, ch_N, ch_N, ch_E, ch_C, ch_T] then NGX_HTTP_CONNECT
            else method)
      else if n = 8 then
        (if str_cmp mem m [ch_P, ch_R, ch_O, ch_P, ch_F, ch_I, ch_N, ch_D]
         then NGX_HTTP_PROPFIND else method)
      else if n = 9 then
        (if str_cmp mem m [ch_P, ch_R, ch_O, ch_P, ch_P, ch_A, ch_T, ch_C, ch_H]
         then NGX_HTTP_PROPPATCH else method)
      else method)"

section \<open>The cases of the switch\<close>

abbreviation rl_invalid :: "rl_state \<Rightarrow> request \<Rightarrow> rl_local step" where
  "rl_invalid state r \<equiv> Fail NGX_HTTP_PARSE_INVALID_REQUEST (state, r)"

text \<open>\<open>(ch < 'A' || ch > 'Z') && ch != '_' && ch != '-'\<close>\<close>

definition not_method_char :: "byte \<Rightarrow> bool" where
  "not_method_char ch \<longleftrightarrow> (ch < ch_A \<or> ch > ch_Z) \<and> ch \<noteq> ch_under \<and> ch \<noteq> ch_dash"

text \<open>The code at the label \<open>done\<close>, \<open>b->pos = p + 1\<close>.\<close>

definition rl_done :: "nat \<Rightarrow> request \<Rightarrow> rl_local step" where
  "rl_done p r =
     (let r = (if rq_request_end r = None then r\<lparr>rq_request_end := Some p\<rparr> else r);
          r = r\<lparr>rq_http_version := rq_http_major r * 1000 + rq_http_minor r\<rparr>
      in Stop 1 (if rq_http_version r = 9 \<and> rq_method r \<noteq> NGX_HTTP_GET
                 then NGX_HTTP_PARSE_INVALID_09_METHOD else NGX_OK) (rl_start, r))"

definition rl_case_start :: "nat \<Rightarrow> byte \<Rightarrow> request \<Rightarrow> rl_local step" where
  "rl_case_start p ch r =
     (let r = r\<lparr>rq_request_start := p\<rparr> in
      if ch = ch_cr \<or> ch = ch_lf then Next (rl_start, r)
      else if not_method_char ch then Fail NGX_HTTP_PARSE_INVALID_METHOD (rl_start, r)
      else Next (rl_method, r))"

definition rl_case_method :: "byte list \<Rightarrow> nat \<Rightarrow> byte \<Rightarrow> request \<Rightarrow> rl_local step" where
  "rl_case_method mem p ch r =
     (if ch = ch_sp then
        (let m = rq_request_start r in
         Next (rl_spaces_before_uri,
           r\<lparr>rq_method_end := p - 1, rq_method := method_switch mem m (p - m) (rq_method r)\<rparr>))
      else if not_method_char ch then Fail NGX_HTTP_PARSE_INVALID_METHOD (rl_method, r)
      else Next (rl_method, r))"

definition rl_case_schema :: "rl_state \<Rightarrow> nat \<Rightarrow> byte \<Rightarrow> request \<Rightarrow> rl_local step" where
  "rl_case_schema state p ch r =
     (case state of
        rl_spaces_before_uri \<Rightarrow>
          (if ch = ch_slash then Next (rl_after_slash_in_uri, r\<lparr>rq_uri_start := p\<rparr>)
           else if is_alpha ch then Next (rl_schema, r\<lparr>rq_schema_start := p\<rparr>)
           else if ch = ch_sp then Next (state, r)
           else rl_invalid state r)
      | rl_schema \<Rightarrow>
          (if is_alpha ch then Next (state, r)
           else if is_digit ch \<or> ch = ch_plus \<or> ch = ch_dash \<or> ch = ch_dot then Next (state, r)
           else if ch = ch_colon then Next (rl_schema_slash, r\<lparr>rq_schema_end := p\<rparr>)
           else rl_invalid state r)
      | rl_schema_slash \<Rightarrow>
          (if ch = ch_slash then Next (rl_schema_slash_slash, r) else rl_invalid state r)
      | _ \<Rightarrow> (if ch = ch_slash then Next (rl_host_start, r) else rl_invalid state r))"

text \<open>The code from \<open>case sw_host_end\<close> on.\<close>

definition rl_case_host_end :: "rl_state \<Rightarrow> nat \<Rightarrow> byte \<Rightarrow> request \<Rightarrow> rl_local step" where
  "rl_case_host_end state p ch r =
     (let r = r\<lparr>rq_host_end := p\<rparr> in
      if ch = ch_colon then Next (rl_port, r)
      else if ch = ch_slash then Next (rl_after_slash_in_uri, r\<lparr>rq_uri_start := p\<rparr>)
      else if ch = ch_quest then
        Next (rl_uri, r\<lparr>rq_uri_start := p, rq_args_start := Some (p + 1), rq_empty_path_in_uri := True\<rparr>)
      else if ch = ch_sp then
        Next (rl_http_09, r\<lparr>rq_uri_start := rq_schema_end r + 1, rq_uri_end := rq_schema_end r + 2\<rparr>)
      else rl_invalid state r)"

text \<open>\<open>case sw_host_start\<close>, \<open>case sw_host\<close> and \<open>case sw_host_end\<close> with their fall through.\<close>

definition rl_case_host :: "rl_state \<Rightarrow> nat \<Rightarrow> byte \<Rightarrow> request \<Rightarrow> rl_local step" where
  "rl_case_host state p ch r =
     (let r = (if state = rl_host_start then r\<lparr>rq_host_start := p\<rparr> else r) in
      if state = rl_host_start \<and> ch = ch_lbr then Next (rl_host_ip_literal, r)
      else if state \<noteq> rl_host_end \<and>
              (is_alpha ch \<or> is_digit ch \<or> ch = ch_dot \<or> ch = ch_dash) then Next (rl_host, r)
      else rl_case_host_end (if state = rl_host_end then rl_host_end else rl_host) p ch r)"

definition rl_case_ip_literal :: "byte \<Rightarrow> request \<Rightarrow> rl_local step" where
  "rl_case_ip_literal ch r =
     (if is_digit ch \<or> is_alpha ch then Next (rl_host_ip_literal, r)
      else if ch = ch_colon then Next (rl_host_ip_literal, r)
      else if ch = ch_rbr then Next (rl_host_end, r)
      else if ch \<in> {ch_dash, ch_dot, ch_under, ch_tilde} then Next (rl_host_ip_literal, r)
      else if ch \<in> {ch_excl, ch_dollar, ch_amp, ch_apos, ch_lpar, ch_rpar, ch_star, ch_plus,
                    ch_comma, ch_semi, ch_eq} then Next (rl_host_ip_literal, r)
      else rl_invalid rl_host_ip_literal r)"

definition rl_case_port :: "nat \<Rightarrow> byte \<Rightarrow> request \<Rightarrow> rl_local step" where
  "rl_case_port p ch r =
     (if is_digit ch then Next (rl_port, r)
      else if ch = ch_slash then
        Next (rl_after_slash_in_uri, r\<lparr>rq_port_end := p, rq_uri_start := p\<rparr>)
      else if ch = ch_quest then
        Next (rl_uri, r\<lparr>rq_port_end := p, rq_uri_start := p, rq_args_start := Some (p + 1),
          rq_empty_path_in_uri := True\<rparr>)
      else if ch = ch_sp then
        Next (rl_http_09, r\<lparr>rq_port_end := p, rq_uri_start := rq_schema_end r + 1,
          rq_uri_end := rq_schema_end r + 2\<rparr>)
      else rl_invalid rl_port r)"

text \<open>\<open>ch < 0x20 || ch == 0x7f\<close>\<close>

definition is_ctl :: "byte \<Rightarrow> bool" where
  "is_ctl ch \<longleftrightarrow> ch < 0x20 \<or> ch = 0x7f"

definition rl_case_after_slash :: "nat \<Rightarrow> byte \<Rightarrow> request \<Rightarrow> rl_local step" where
  "rl_case_after_slash p ch r =
     (if is_usual ch then Next (rl_check_uri, r)
      else if ch = ch_sp then Next (rl_http_09, r\<lparr>rq_uri_end := p\<rparr>)
      else if ch = ch_cr then Next (rl_almost_done, r\<lparr>rq_uri_end := p, rq_http_minor := 9\<rparr>)
      else if ch = ch_lf then rl_done p (r\<lparr>rq_uri_end := p, rq_http_minor := 9\<rparr>)
      else if ch = ch_dot then Next (rl_uri, r\<lparr>rq_complex_uri := True\<rparr>)
      else if ch = ch_pct then Next (rl_uri, r\<lparr>rq_quoted_uri := True\<rparr>)
      else if ch = ch_slash then Next (rl_uri, r\<lparr>rq_complex_uri := True\<rparr>)
      else if ch = ch_quest then Next (rl_uri, r\<lparr>rq_args_start := Some (p + 1)\<rparr>)
      else if ch = ch_hash then Next (rl_uri, r\<lparr>rq_complex_uri := True\<rparr>)
      else if ch = ch_plus then Next (rl_after_slash_in_uri, r\<lparr>rq_plus_in_uri := True\<rparr>)
      else if is_ctl ch then rl_invalid rl_after_slash_in_uri r
      else Next (rl_check_uri, r))"

definition rl_case_check_uri :: "nat \<Rightarrow> byte \<Rightarrow> request \<Rightarrow> rl_local step" where
  "rl_case_check_uri p ch r =
     (if is_usual ch then Next (rl_check_uri, r)
      else if ch = ch_slash then Next (rl_after_slash_in_uri, r\<lparr>rq_uri_ext := None\<rparr>)
      else if ch = ch_dot then Next (rl_check_uri, r\<lparr>rq_uri_ext := Some (p + 1)\<rparr>)
      else if ch = ch_sp then Next (rl_http_09, r\<lparr>rq_uri_end := p\<rparr>)
      else if ch = ch_cr then Next (rl_almost_done, r\<lparr>rq_uri_end := p, rq_http_minor := 9\<rparr>)
      else if ch = ch_lf then rl_done p (r\<lparr>rq_uri_end := p, rq_http_minor := 9\<rparr>)
      else if ch = ch_pct then Next (rl_uri, r\<lparr>rq_quoted_uri := True\<rparr>)
      else if ch = ch_quest then Next (rl_uri, r\<lparr>rq_args_start := Some (p + 1)\<rparr>)
      else if ch = ch_hash then Next (rl_uri, r\<lparr>rq_complex_uri := True\<rparr>)
      else if ch = ch_plus then Next (rl_check_uri, r\<lparr>rq_plus_in_uri := True\<rparr>)
      else if is_ctl ch then rl_invalid rl_check_uri r
      else Next (rl_check_uri, r))"

definition rl_case_uri :: "nat \<Rightarrow> byte \<Rightarrow> request \<Rightarrow> rl_local step" where
  "rl_case_uri p ch r =
     (if is_usual ch then Next (rl_uri, r)
      else if ch = ch_sp then Next (rl_http_09, r\<lparr>rq_uri_end := p\<rparr>)
      else if ch = ch_cr then Next (rl_almost_done, r\<lparr>rq_uri_end := p, rq_http_minor := 9\<rparr>)
      else if ch = ch_lf then rl_done p (r\<lparr>rq_uri_end := p, rq_http_minor := 9\<rparr>)
      else if ch = ch_hash then Next (rl_uri, r\<lparr>rq_complex_uri := True\<rparr>)
      else if is_ctl ch then rl_invalid rl_uri r
      else Next (rl_uri, r))"

definition rl_case_http :: "rl_state \<Rightarrow> nat \<Rightarrow> byte \<Rightarrow> request \<Rightarrow> rl_local step" where
  "rl_case_http state p ch r =
     (case state of
        rl_http_09 \<Rightarrow>
          (if ch = ch_sp then Next (state, r)
           else if ch = ch_cr then Next (rl_almost_done, r\<lparr>rq_http_minor := 9\<rparr>)
           else if ch = ch_lf then rl_done p (r\<lparr>rq_http_minor := 9\<rparr>)
           else if ch = ch_H then Next (rl_http_H, r\<lparr>rq_http_protocol := p\<rparr>)
           else rl_invalid state r)
      | rl_http_H \<Rightarrow> (if ch = ch_T then Next (rl_http_HT, r) else rl_invalid state r)
      | rl_http_HT \<Rightarrow> (if ch = ch_T then Next (rl_http_HTT, r) else rl_invalid state r)
      | rl_http_HTT \<Rightarrow> (if ch = ch_P then Next (rl_http_HTTP, r) else rl_invalid state r)
      | _ \<Rightarrow> (if ch = ch_slash then Next (rl_first_major_digit, r) else rl_invalid state r))"

definition rl_case_version :: "rl_state \<Rightarrow> nat \<Rightarrow> byte \<Rightarrow> request \<Rightarrow> rl_local step" where
  "rl_case_version state p ch r =
     (let d = unat ch - 48 in
      case state of
        rl_first_major_digit \<Rightarrow>
          (if ch < ch_1 \<or> ch > ch_9 then rl_invalid state r
           else let r = r\<lparr>rq_http_major := d\<rparr> in
             if rq_http_major r > 1 then Fail NGX_HTTP_PARSE_INVALID_VERSION (state, r)
             else Next (rl_major_digit, r))
      | rl_major_digit \<Rightarrow>
          (if ch = ch_dot then Next (rl_first_minor_digit, r)
           else if ch < ch_0 \<or> ch > ch_9 then rl_invalid state r
           else let r = r\<lparr>rq_http_major := rq_http_major r * 10 + d\<rparr> in
             if rq_http_major r > 1 then Fail NGX_HTTP_PARSE_INVALID_VERSION (state, r)
             else Next (state, r))
      | rl_first_minor_digit \<Rightarrow>
          (if ch < ch_0 \<or> ch > ch_9 then rl_invalid state r
           else Next (rl_minor_digit, r\<lparr>rq_http_minor := d\<rparr>))
      | _ \<Rightarrow>
          (if ch = ch_cr then Next (rl_almost_done, r)
           else if ch = ch_lf then rl_done p r
           else if ch = ch_sp then Next (rl_spaces_after_digit, r)
           else if ch < ch_0 \<or> ch > ch_9 then rl_invalid state r
           else if rq_http_minor r > 99 then rl_invalid state r
           else Next (state, r\<lparr>rq_http_minor := rq_http_minor r * 10 + d\<rparr>)))"

definition rl_case_end :: "rl_state \<Rightarrow> nat \<Rightarrow> byte \<Rightarrow> request \<Rightarrow> rl_local step" where
  "rl_case_end state p ch r =
     (if state = rl_spaces_after_digit then
        (if ch = ch_sp then Next (state, r)
         else if ch = ch_cr then Next (rl_almost_done, r)
         else if ch = ch_lf then rl_done p r
         else rl_invalid state r)
      else
        (let r = r\<lparr>rq_request_end := Some (p - 1)\<rparr> in
         if ch = ch_lf then rl_done p r else rl_invalid state r))"

section \<open>The switch and the function\<close>

definition rl_step :: "rl_local stepper" where
  "rl_step mem p s =
     (let state = fst s; r = snd s; ch = mem ! p in
      case state of
        rl_start \<Rightarrow> rl_case_start p ch r
      | rl_method \<Rightarrow> rl_case_method mem p ch r
      | rl_spaces_before_uri \<Rightarrow> rl_case_schema state p ch r
      | rl_schema \<Rightarrow> rl_case_schema state p ch r
      | rl_schema_slash \<Rightarrow> rl_case_schema state p ch r
      | rl_schema_slash_slash \<Rightarrow> rl_case_schema state p ch r
      | rl_host_start \<Rightarrow> rl_case_host state p ch r
      | rl_host \<Rightarrow> rl_case_host state p ch r
      | rl_host_end \<Rightarrow> rl_case_host state p ch r
      | rl_host_ip_literal \<Rightarrow> rl_case_ip_literal ch r
      | rl_port \<Rightarrow> rl_case_port p ch r
      | rl_after_slash_in_uri \<Rightarrow> rl_case_after_slash p ch r
      | rl_check_uri \<Rightarrow> rl_case_check_uri p ch r
      | rl_uri \<Rightarrow> rl_case_uri p ch r
      | rl_http_09 \<Rightarrow> rl_case_http state p ch r
      | rl_http_H \<Rightarrow> rl_case_http state p ch r
      | rl_http_HT \<Rightarrow> rl_case_http state p ch r
      | rl_http_HTT \<Rightarrow> rl_case_http state p ch r
      | rl_http_HTTP \<Rightarrow> rl_case_http state p ch r
      | rl_first_major_digit \<Rightarrow> rl_case_version state p ch r
      | rl_major_digit \<Rightarrow> rl_case_version state p ch r
      | rl_first_minor_digit \<Rightarrow> rl_case_version state p ch r
      | rl_minor_digit \<Rightarrow> rl_case_version state p ch r
      | rl_spaces_after_digit \<Rightarrow> rl_case_end state p ch r
      | rl_almost_done \<Rightarrow> rl_case_end state p ch r)"

definition ngx_http_parse_request_line ::
  "byte list \<Rightarrow> nat \<Rightarrow> nat \<Rightarrow> rl_local \<Rightarrow> ngx_rc \<times> nat \<times> rl_local" where
  "ngx_http_parse_request_line mem pos lim r =
     (case scan rl_step mem pos lim r of
        Again p s \<Rightarrow> (NGX_AGAIN, p, s)
      | Stopped p rc s \<Rightarrow> (rc, p, s)
      | Failed rc s \<Rightarrow> (rc, pos, (fst r, snd s)))"

text \<open>The zeroed request, with the method and version \<open>ngx_http_alloc_request\<close> sets.\<close>

definition request_init :: request where
  "request_init = \<lparr>rq_method = NGX_HTTP_UNKNOWN, rq_request_start = 0,
     rq_request_end = None, rq_method_end = 0, rq_schema_start = 0, rq_schema_end = 0,
     rq_host_start = 0, rq_host_end = 0, rq_port_end = 0, rq_uri_start = 0, rq_uri_end = 0,
     rq_uri_ext = None, rq_args_start = None, rq_http_protocol = 0, rq_http_major = 0,
     rq_http_minor = 0, rq_http_version = 1000, rq_complex_uri = False, rq_quoted_uri = False,
     rq_plus_in_uri = False, rq_empty_path_in_uri = False\<rparr>"


section \<open>The method is recognised exactly\<close>

definition method_table :: "(byte list \<times> nat) list" where
  "method_table =
    [([ch_G, ch_E, ch_T], NGX_HTTP_GET), ([ch_P, ch_U, ch_T], NGX_HTTP_PUT),
     ([ch_P, ch_O, ch_S, ch_T], NGX_HTTP_POST), ([ch_C, ch_O, ch_P, ch_Y], NGX_HTTP_COPY),
     ([ch_M, ch_O, ch_V, ch_E], NGX_HTTP_MOVE), ([ch_L, ch_O, ch_C, ch_K], NGX_HTTP_LOCK),
     ([ch_H, ch_E, ch_A, ch_D], NGX_HTTP_HEAD),
     ([ch_M, ch_K, ch_C, ch_O, ch_L], NGX_HTTP_MKCOL),
     ([ch_P, ch_A, ch_T, ch_C, ch_H], NGX_HTTP_PATCH),
     ([ch_T, ch_R, ch_A, ch_C, ch_E], NGX_HTTP_TRACE),
     ([ch_D, ch_E, ch_L, ch_E, ch_T, ch_E], NGX_HTTP_DELETE),
     ([ch_U, ch_N, ch_L, ch_O, ch_C, ch_K], NGX_HTTP_UNLOCK),
     ([ch_O, ch_P, ch_T, ch_I, ch_O, ch_N, ch_S], NGX_HTTP_OPTIONS),
     ([ch_C, ch_O, ch_N, ch_N, ch_E, ch_C, ch_T], NGX_HTTP_CONNECT),
     ([ch_P, ch_R, ch_O, ch_P, ch_F, ch_I, ch_N, ch_D], NGX_HTTP_PROPFIND),
     ([ch_P, ch_R, ch_O, ch_P, ch_P, ch_A, ch_T, ch_C, ch_H], NGX_HTTP_PROPPATCH)]"

lemma method_table_length: "map_of method_table xs = Some v \<Longrightarrow> length xs \<in> {3..9}"
  by (auto simp: method_table_def split: if_splits)

lemma map_of_by_length:
  "map_of t X = map_of (filter (\<lambda>kv. length (fst kv) = length X) t) X"
  by (induction t) auto

text \<open>Skipping the second character of a method of four letters is harmless.\<close>

lemma method_switch_4:
  "method_switch mem m 4 x =
     (if str_cmp mem m [ch_P, ch_O, ch_S, ch_T] then NGX_HTTP_POST
      else if str_cmp mem m [ch_C, ch_O, ch_P, ch_Y] then NGX_HTTP_COPY
      else if str_cmp mem m [ch_M, ch_O, ch_V, ch_E] then NGX_HTTP_MOVE
      else if str_cmp mem m [ch_L, ch_O, ch_C, ch_K] then NGX_HTTP_LOCK
      else if str_cmp mem m [ch_H, ch_E, ch_A, ch_D] then NGX_HTTP_HEAD
      else x)"
proof -
  have n: "m + 2 = Suc (Suc m)" "m + 3 = Suc (Suc (Suc m))" by simp_all
  show ?thesis by (simp add: method_switch_def str3Ocmp_def n)
qed

lemma method_switch_exact:
  assumes "m + n \<le> length mem"
  shows "method_switch mem m n x =
    (case map_of method_table (slice mem m (m + n)) of Some v \<Rightarrow> v | None \<Rightarrow> x)"
proof -
  define X where "X = slice mem m (m + n)"
  have len: "length X = n" using assms by (simp add: X_def)
  have cmp: "str_cmp mem m cs \<longleftrightarrow> X = cs" if "length cs = n" for cs
    using str_cmp_slice [of m cs mem] assms that by (simp add: X_def)
  have tbl: "map_of method_table X = map_of (filter (\<lambda>kv. length (fst kv) = n) method_table) X"
    using map_of_by_length [of method_table X] len by simp
  show ?thesis
  proof (cases "n \<in> {3..9}")
    case False
    then have "map_of method_table X = None"
      using method_table_length [of X] len by (metis option.exhaust)
    moreover have "n \<noteq> 3" "n \<noteq> 4" "n \<noteq> 5" "n \<noteq> 6" "n \<noteq> 7" "n \<noteq> 8" "n \<noteq> 9"
      using False by auto
    ultimately show ?thesis by (simp add: method_switch_def X_def)
  next
    case True
    then consider "n = 3" | "n = 4" | "n = 5" | "n = 6" | "n = 7" | "n = 8" | "n = 9" by fastforce
    then have "method_switch mem m n x =
      (case map_of (filter (\<lambda>kv. length (fst kv) = n) method_table) X of Some v \<Rightarrow> v | None \<Rightarrow> x)"
    proof cases
      case 2
      then show ?thesis by (simp add: method_switch_4 cmp method_table_def del: str_cmp.simps)
    qed (simp_all add: method_switch_def cmp method_table_def Let_def del: str_cmp.simps)
    then show ?thesis unfolding X_def [symmetric] tbl .
  qed
qed

section \<open>Reads stay behind the position\<close>

lemma method_switch_take: "method_switch (take (Suc p) mem) m (p - m) x = method_switch mem m (p - m) x"
  by (auto simp: method_switch_def str_cmp_take str3Ocmp_def)

interpretation rl: incremental rl_step
  by unfold_locales (simp add: rl_step_def rl_case_method_def method_switch_take Let_def
      split: rl_state.split)


section \<open>Invariant\<close>

definition clean_byte :: "byte \<Rightarrow> bool" where
  "clean_byte ch \<longleftrightarrow> 0x20 < ch \<and> ch \<noteq> 0x7f"

definition clean :: "byte list \<Rightarrow> nat \<Rightarrow> nat \<Rightarrow> bool" where
  "clean mem p q \<longleftrightarrow> list_all clean_byte (slice mem p q)"

lemma is_usual_clean: "is_usual ch \<Longrightarrow> clean_byte ch"
proof -
  have "\<forall>ch. is_usual ch \<longrightarrow> clean_byte ch" unfolding byte_all_iff by code_simp
  then show "is_usual ch \<Longrightarrow> clean_byte ch" by blast
qed

lemma not_ctl_clean: "\<not> is_ctl ch \<Longrightarrow> ch \<noteq> ch_sp \<Longrightarrow> clean_byte ch"
  by (auto simp: is_ctl_def clean_byte_def not_less order.order_iff_strict)

lemma clean_Suc: "p \<le> q \<Longrightarrow> q < length mem \<Longrightarrow> clean mem p (Suc q) \<longleftrightarrow> clean mem p q \<and> clean_byte (mem ! q)"
  by (simp add: clean_def slice_snoc)

lemma clean_single: "p < length mem \<Longrightarrow> clean mem p (Suc p) \<longleftrightarrow> clean_byte (mem ! p)"
  by (simp add: clean_Suc) (simp add: clean_def)

text \<open>The method has been read; its last character is before \<open>p\<close>.\<close>

definition rl_inv_method :: "nat \<Rightarrow> request \<Rightarrow> bool" where
  "rl_inv_method p r \<longleftrightarrow> rq_request_start r \<le> rq_method_end r \<and> rq_method_end r < p"

definition rl_inv_host :: "byte list \<Rightarrow> nat \<Rightarrow> request \<Rightarrow> bool" where
  "rl_inv_host mem p r \<longleftrightarrow> rl_inv_method p r \<and> rq_method_end r < rq_schema_end r \<and>
     mem ! (rq_schema_end r + 1) = ch_slash \<and> rq_schema_end r + 2 < p"

definition rl_inv_uri :: "byte list \<Rightarrow> nat \<Rightarrow> request \<Rightarrow> bool" where
  "rl_inv_uri mem p r \<longleftrightarrow> rl_inv_method p r \<and> rq_method_end r < rq_uri_start r \<and>
     rq_uri_start r < p \<and> clean mem (rq_uri_start r) p \<and>
     mem ! rq_uri_start r \<in> {ch_slash, ch_quest}"

definition rl_inv_done :: "byte list \<Rightarrow> nat \<Rightarrow> request \<Rightarrow> bool" where
  "rl_inv_done mem p r \<longleftrightarrow> rq_request_start r \<le> rq_method_end r \<and>
     rq_method_end r < rq_uri_start r \<and> rq_uri_start r < rq_uri_end r \<and> rq_uri_end r < p \<and>
     clean mem (rq_uri_start r) (rq_uri_end r) \<and>
     mem ! rq_uri_start r \<in> {ch_slash, ch_quest}"

fun rl_inv :: "byte list \<Rightarrow> nat \<Rightarrow> rl_local \<Rightarrow> bool" where
  "rl_inv mem p (st, r) \<longleftrightarrow>
     rq_http_major r \<le> 1 \<and> rq_http_minor r \<le> 999 \<and> rq_request_end r = None \<and>
     (case st of
        rl_start \<Rightarrow> True
      | rl_method \<Rightarrow> rq_request_start r < p
      | rl_spaces_before_uri \<Rightarrow> rl_inv_method p r
      | rl_schema \<Rightarrow> rl_inv_method p r \<and> rq_method_end r < rq_schema_start r \<and> rq_schema_start r < p
      | rl_schema_slash \<Rightarrow> rl_inv_method p r \<and> rq_method_end r < rq_schema_end r \<and> p = rq_schema_end r + 1
      | rl_schema_slash_slash \<Rightarrow> rl_inv_method p r \<and> rq_method_end r < rq_schema_end r \<and>
          p = rq_schema_end r + 2 \<and> mem ! (rq_schema_end r + 1) = ch_slash
      | rl_host_start \<Rightarrow> rl_inv_host mem p r
      | rl_host \<Rightarrow> rl_inv_host mem p r
      | rl_host_end \<Rightarrow> rl_inv_host mem p r
      | rl_host_ip_literal \<Rightarrow> rl_inv_host mem p r
      | rl_port \<Rightarrow> rl_inv_host mem p r
      | rl_after_slash_in_uri \<Rightarrow> rl_inv_uri mem p r
      | rl_check_uri \<Rightarrow> rl_inv_uri mem p r
      | rl_uri \<Rightarrow> rl_inv_uri mem p r
      | _ \<Rightarrow> rl_inv_done mem p r)"

text \<open>What holds when the parser stops at the end of the line, \<open>q\<close> the position after it.\<close>

definition rl_post :: "byte list \<Rightarrow> nat \<Rightarrow> ngx_rc \<Rightarrow> request \<Rightarrow> bool" where
  "rl_post mem q rc r \<longleftrightarrow>
     rc \<in> {NGX_OK, NGX_HTTP_PARSE_INVALID_09_METHOD} \<and>
     rq_http_major r \<le> 1 \<and> rq_http_minor r \<le> 999 \<and>
     rq_http_version r = rq_http_major r * 1000 + rq_http_minor r \<and>
     rq_request_start r \<le> rq_method_end r \<and> rq_method_end r < rq_uri_start r \<and>
     rq_uri_start r < rq_uri_end r \<and> q \<le> length mem \<and>
     (\<exists>e. rq_request_end r = Some e \<and> rq_uri_end r \<le> e \<and> e < q) \<and>
     clean mem (rq_uri_start r) (rq_uri_end r) \<and>
     mem ! rq_uri_start r \<in> {ch_slash, ch_quest}"

lemmas rl_inv_defs = rl_inv_method_def rl_inv_host_def rl_inv_uri_def rl_inv_done_def

lemma rl_done_post:
  assumes "rl_done p r = Stop k rc s'" "p < length mem"
    and "rq_http_major r \<le> 1" "rq_http_minor r \<le> 999"
    and "rq_request_start r \<le> rq_method_end r" "rq_method_end r < rq_uri_start r"
    and "rq_uri_start r < rq_uri_end r" "rq_uri_end r \<le> p"
    and "clean mem (rq_uri_start r) (rq_uri_end r)" "mem ! rq_uri_start r \<in> {ch_slash, ch_quest}"
    and "case rq_request_end r of None \<Rightarrow> True | Some e \<Rightarrow> rq_uri_end r \<le> e \<and> e \<le> p"
  shows "rl_post mem (p + k) rc (snd s')"
  using assms
  by (cases "rq_request_end r") (auto simp: rl_done_def rl_post_def Let_def split: if_splits)

lemma rl_done_stop [simp]: "rl_done p r \<noteq> Next s" "rl_done p r \<noteq> Fail rc s"
  by (simp_all add: rl_done_def Let_def)


lemma clean_bytes:
  "clean_byte ch_slash" "clean_byte ch_quest" "clean_byte ch_dot" "clean_byte ch_pct"
  "clean_byte ch_hash" "clean_byte ch_plus"
  by (simp_all add: clean_byte_def)

lemma digit_diff: "\<not> ch < ch_0 \<Longrightarrow> \<not> ch_9 < ch \<Longrightarrow> unat ch - 48 \<le> 9"
  by (simp add: not_less word_le_nat_alt)

text \<open>Every iteration keeps the invariant: one lemma per group of cases.\<close>

lemma rl_next_head:
  assumes "rl_inv mem p (st, r)" "rl_step mem p (st, r) = Next s'" "p < length mem"
    and "st \<in> {rl_start, rl_method, rl_spaces_before_uri, rl_schema, rl_schema_slash, rl_schema_slash_slash}"
  shows "rl_inv mem (Suc p) s'"
  using assms
  by (elim insertE; auto simp: rl_step_def rl_case_start_def rl_case_method_def rl_case_schema_def
      rl_inv_defs clean_single clean_bytes Let_def split: if_splits)

lemma rl_next_host:
  assumes "rl_inv mem p (st, r)" "rl_step mem p (st, r) = Next s'" "p < length mem"
    and "st \<in> {rl_host_start, rl_host, rl_host_end, rl_host_ip_literal, rl_port}"
  shows "rl_inv mem (Suc p) s'"
  using assms
  by (elim insertE; auto simp: rl_step_def rl_case_host_def rl_case_host_end_def rl_case_ip_literal_def
      rl_case_port_def rl_inv_defs clean_single clean_bytes Let_def split: if_splits)

lemma rl_next_uri:
  assumes "rl_inv mem p (st, r)" "rl_step mem p (st, r) = Next s'" "p < length mem"
    and "st \<in> {rl_after_slash_in_uri, rl_check_uri, rl_uri}"
  shows "rl_inv mem (Suc p) s'"
  using assms
  by (elim insertE; auto simp: rl_step_def rl_case_after_slash_def rl_case_check_uri_def rl_case_uri_def
      rl_inv_defs clean_Suc clean_bytes Let_def split: if_splits
      intro: is_usual_clean not_ctl_clean)

lemma rl_next_version:
  assumes "rl_inv mem p (st, r)" "rl_step mem p (st, r) = Next s'" "p < length mem"
    and "st \<in> {rl_http_09, rl_http_H, rl_http_HT, rl_http_HTT, rl_http_HTTP, rl_first_major_digit,
      rl_major_digit, rl_first_minor_digit, rl_minor_digit, rl_spaces_after_digit, rl_almost_done}"
  shows "rl_inv mem (Suc p) s'"
  using assms digit_diff [of "mem ! p"]
  by (elim insertE; auto simp: rl_step_def rl_case_http_def rl_case_version_def rl_case_end_def
      rl_inv_defs Let_def split: if_splits)


lemma rl_next:
  assumes "rl_inv mem p s" "p < length mem" "rl_step mem p s = Next s'"
  shows "rl_inv mem (Suc p) s'"
proof -
  obtain st r where s: "s = (st, r)" by fastforce
  show ?thesis
    using assms rl_next_head [of mem p st r s'] rl_next_host [of mem p st r s']
      rl_next_uri [of mem p st r s'] rl_next_version [of mem p st r s']
    unfolding s by (cases st) (simp_all del: rl_inv.simps)
qed

text \<open>The iterations that stop do so through the label \<open>done\<close>.\<close>

lemma rl_stop_uri:
  assumes "rl_inv mem p (st, r)" "rl_step mem p (st, r) = Stop k rc s'" "p < length mem"
    and "st \<in> {rl_after_slash_in_uri, rl_check_uri, rl_uri}"
  shows "rl_post mem (p + k) rc (snd s')"
proof -
  have "rl_done p (r\<lparr>rq_uri_end := p, rq_http_minor := 9\<rparr>) = Stop k rc s'"
    using assms(2,4)
    by (auto simp: rl_step_def rl_case_after_slash_def rl_case_check_uri_def rl_case_uri_def Let_def
        split: if_splits)
  then show ?thesis
    by (rule rl_done_post) (use assms in \<open>auto simp: rl_inv_defs\<close>)
qed

lemma rl_stop_version:
  assumes "rl_inv mem p (st, r)" "rl_step mem p (st, r) = Stop k rc s'" "p < length mem"
    and "st \<in> {rl_http_09, rl_http_H, rl_http_HT, rl_http_HTT, rl_http_HTTP, rl_first_major_digit,
      rl_major_digit, rl_first_minor_digit, rl_minor_digit, rl_spaces_after_digit, rl_almost_done}"
  shows "rl_post mem (p + k) rc (snd s')"
proof -
  have "rl_done p (r\<lparr>rq_http_minor := 9\<rparr>) = Stop k rc s' \<or> rl_done p r = Stop k rc s' \<or>
      rl_done p (r\<lparr>rq_request_end := Some (p - 1)\<rparr>) = Stop k rc s'"
    using assms(2,4)
    by (elim insertE) (auto simp: rl_step_def rl_case_http_def rl_case_version_def rl_case_end_def Let_def
        split: if_splits)
  moreover have "rl_inv_done mem p r" "rq_http_major r \<le> 1" "rq_http_minor r \<le> 999" "rq_request_end r = None"
    using assms(1,4) by auto
  ultimately show ?thesis
    using assms(3) rl_done_post [where mem = mem and p = p and k = k and rc = rc and s' = s']
    by (elim disjE) (auto simp: rl_inv_done_def)
qed

lemma rl_stop:
  assumes "rl_inv mem p s" "p < length mem" "rl_step mem p s = Stop k rc s'"
  shows "rl_post mem (p + k) rc (snd s')"
proof -
  obtain st r where s: "s = (st, r)" by fastforce
  have "st \<notin> {rl_start, rl_method, rl_spaces_before_uri, rl_schema, rl_schema_slash,
      rl_schema_slash_slash, rl_host_start, rl_host, rl_host_end, rl_host_ip_literal, rl_port}"
    using assms(3) unfolding s
    by (auto simp: rl_step_def rl_case_start_def rl_case_method_def rl_case_schema_def
        rl_case_host_def rl_case_host_end_def rl_case_ip_literal_def rl_case_port_def Let_def
        split: if_splits)
  then show ?thesis
    using assms rl_stop_uri [of mem p st r k rc s'] rl_stop_version [of mem p st r k rc s']
    unfolding s by (cases st) (simp_all del: rl_inv.simps)
qed

interpretation rl: invariant_machine rl_step rl_inv "\<lambda>mem q rc s. rl_post mem q rc (snd s)"
  by unfold_locales (blast intro: rl_next rl_stop)+

lemma rl_fail_rc:
  "rl_step mem p s = Fail rc s' \<Longrightarrow> rc \<in> {NGX_HTTP_PARSE_INVALID_METHOD,
     NGX_HTTP_PARSE_INVALID_REQUEST, NGX_HTTP_PARSE_INVALID_VERSION}"
  by (cases "fst s")
    (auto simp: rl_step_def rl_case_start_def rl_case_method_def rl_case_schema_def
      rl_case_host_def rl_case_host_end_def rl_case_ip_literal_def rl_case_port_def
      rl_case_after_slash_def rl_case_check_uri_def rl_case_uri_def rl_case_http_def
      rl_case_version_def rl_case_end_def Let_def split: if_splits)

lemma rl_stop_rc:
  "rl_step mem p s = Stop k rc s' \<Longrightarrow>
   k = 1 \<and> fst s' = rl_start \<and> rc \<in> {NGX_OK, NGX_HTTP_PARSE_INVALID_09_METHOD}"
  by (cases "fst s")
    (auto simp: rl_step_def rl_case_start_def rl_case_method_def rl_case_schema_def
      rl_case_host_def rl_case_host_end_def rl_case_ip_literal_def rl_case_port_def
      rl_case_after_slash_def rl_case_check_uri_def rl_case_uri_def rl_case_http_def
      rl_case_version_def rl_case_end_def rl_done_def Let_def split: if_splits)

section \<open>The method is that of the request\<close>

definition method_of :: "byte list \<Rightarrow> nat" where
  "method_of xs = (case map_of method_table xs of Some v \<Rightarrow> v | None \<Rightarrow> NGX_HTTP_UNKNOWN)"

definition rl_minv :: "byte list \<Rightarrow> nat \<Rightarrow> rl_local \<Rightarrow> bool" where
  "rl_minv mem p s \<longleftrightarrow>
     (if fst s = rl_start then rq_method (snd s) = NGX_HTTP_UNKNOWN
      else if fst s = rl_method then
        rq_method (snd s) = NGX_HTTP_UNKNOWN \<and> rq_request_start (snd s) < p
      else rq_method (snd s) =
        method_of (slice mem (rq_request_start (snd s)) (Suc (rq_method_end (snd s)))))"

lemma rl_minv_method:
  assumes "rl_minv mem p (rl_method, r)" "p < length mem" "rl_step mem p (rl_method, r) = Next s'"
  shows "rl_minv mem (Suc p) s'"
proof (cases "mem ! p = ch_sp")
  case True
  let ?m = "rq_request_start r"
  have "?m < p" "rq_method r = NGX_HTTP_UNKNOWN" using assms(1) by (simp_all add: rl_minv_def)
  then show ?thesis
    using assms True method_switch_exact [of ?m "p - ?m" mem NGX_HTTP_UNKNOWN]
    by (auto simp: rl_step_def rl_case_method_def rl_minv_def method_of_def Let_def)
next
  case False
  then show ?thesis using assms
    by (auto simp: rl_step_def rl_case_method_def rl_minv_def Let_def split: if_splits)
qed

lemma rl_minv_other:
  assumes "rl_minv mem p (st, r)" "rl_step mem p (st, r) = Next s'" "st \<noteq> rl_method"
  shows "rl_minv mem (Suc p) s'"
  using assms
  by (cases st)
    (auto simp: rl_step_def rl_minv_def rl_case_start_def rl_case_schema_def
      rl_case_host_def rl_case_host_end_def rl_case_ip_literal_def rl_case_port_def
      rl_case_after_slash_def rl_case_check_uri_def rl_case_uri_def rl_case_http_def
      rl_case_version_def rl_case_end_def Let_def split: if_splits)

lemma rl_minv_stop:
  assumes "rl_minv mem p (st, r)" "rl_step mem p (st, r) = Stop k rc s'"
  shows "rq_method (snd s') =
      method_of (slice mem (rq_request_start (snd s')) (Suc (rq_method_end (snd s')))) \<and>
    (rc = NGX_OK \<longrightarrow> rq_http_version (snd s') = 9 \<longrightarrow> rq_method (snd s') = NGX_HTTP_GET)"
  using assms
  by (cases st)
    (auto simp: rl_step_def rl_minv_def rl_case_start_def rl_case_method_def rl_case_schema_def
      rl_case_host_def rl_case_host_end_def rl_case_ip_literal_def rl_case_port_def
      rl_case_after_slash_def rl_case_check_uri_def rl_case_uri_def rl_case_http_def
      rl_case_version_def rl_case_end_def rl_done_def Let_def split: if_splits)

interpretation rlm: invariant_machine rl_step rl_minv
  "\<lambda>mem q rc s. rq_method (snd s) =
      method_of (slice mem (rq_request_start (snd s)) (Suc (rq_method_end (snd s)))) \<and>
    (rc = NGX_OK \<longrightarrow> rq_http_version (snd s) = 9 \<longrightarrow> rq_method (snd s) = NGX_HTTP_GET)"
proof
  show "rl_minv mem (Suc p) s'"
    if "rl_minv mem p s" "p < length mem" "rl_step mem p s = Next s'" for mem p s s'
    using that by (cases s; cases "fst s = rl_method") (auto intro: rl_minv_method rl_minv_other)
next
  show "rq_method (snd s') =
      method_of (slice mem (rq_request_start (snd s')) (Suc (rq_method_end (snd s')))) \<and>
    (rc = NGX_OK \<longrightarrow> rq_http_version (snd s') = 9 \<longrightarrow> rq_method (snd s') = NGX_HTTP_GET)"
    if "rl_minv mem p s" "p < length mem" "rl_step mem p s = Stop k rc s'" for mem p s k rc s'
    using that rl_minv_stop [of mem p "fst s" "snd s" k rc s'] by auto
qed

section \<open>A rendered request line is accepted\<close>

definition version_tail :: "byte \<Rightarrow> byte list" where
  "version_tail d = [ch_sp, ch_H, ch_T, ch_T, ch_P, ch_slash, ch_1, ch_dot, d, ch_cr, ch_lf]"

definition render_request_line :: "byte list \<Rightarrow> byte list \<Rightarrow> byte \<Rightarrow> byte list" where
  "render_request_line M U d = M @ [ch_sp] @ U @ version_tail d"

lemma nth_append_mid: "k < length T \<Longrightarrow> (xs @ T @ ys) ! (length xs + k) = T ! k"
  by (simp add: nth_append)

text \<open>The three phases of the scan: the method, the URI, the version.\<close>

lemma rl_scan_method:
  assumes "M \<noteq> []" "list_all (\<lambda>c. \<not> not_method_char c) M"
    and mem: "mem = M @ ch_sp # rest" and lim: "length M < lim"
  shows "\<exists>r'. scan rl_step mem 0 lim (rl_start, request_init) =
      scan rl_step mem (length M + 1) lim (rl_spaces_before_uri, r') \<and>
    rq_request_start r' = 0 \<and> rq_method_end r' = length M - 1 \<and> rq_request_end r' = None"
proof -
  have mc: "\<not> not_method_char (mem ! i)" if "i < length M" for i
    using assms(2) that by (simp add: mem nth_append list_all_length)
  have not_end: "mem ! 0 \<noteq> ch_cr" "mem ! 0 \<noteq> ch_lf"
    using mc [of 0] assms(1) by (auto simp: not_method_char_def)
  define r0 where "r0 = request_init\<lparr>rq_request_start := 0\<rparr>"
  have start: "rl_step mem 0 (rl_start, request_init) = Next (rl_method, r0)"
    using mc [of 0] assms(1) not_end by (simp add: rl_step_def rl_case_start_def r0_def Let_def)
  have loop: "\<exists>s'. rl_step mem q s = Next s' \<and> s' = (rl_method, r0)"
    if "s = (rl_method, r0)" "1 \<le> q" "q < 1 + (length M - 1)" for q s
  proof -
    have "q < length M" using that by simp
    then have "\<not> not_method_char (mem ! q)" by (rule mc)
    then show ?thesis using that(1)
      by (auto simp: rl_step_def rl_case_method_def Let_def not_method_char_def)
  qed
  have "scan rl_step mem 0 lim (rl_start, request_init) = scan rl_step mem 1 lim (rl_method, r0)"
    using start lim by (simp add: scan_Next)
  also have "\<dots> = scan rl_step mem (length M) lim (rl_method, r0)"
    using scan_through [of "\<lambda>q s. s = (rl_method, r0)" 1 "(rl_method, r0)" "length M - 1" lim rl_step mem]
      loop lim assms(1) by (cases M) auto
  also have "\<dots> = scan rl_step mem (length M + 1) lim (rl_spaces_before_uri,
      r0\<lparr>rq_method_end := length M - 1, rq_method := method_switch mem 0 (length M) (rq_method r0)\<rparr>)"
    using lim by (subst scan_Next [where s' = "(rl_spaces_before_uri,
      r0\<lparr>rq_method_end := length M - 1, rq_method := method_switch mem 0 (length M) (rq_method r0)\<rparr>)"])
        (simp_all add: rl_step_def rl_case_method_def Let_def mem r0_def)
  finally show ?thesis by (auto simp: r0_def request_init_def)
qed

definition rl_uri_phase :: "request \<Rightarrow> rl_local \<Rightarrow> bool" where
  "rl_uri_phase r0 s \<longleftrightarrow> fst s \<in> {rl_after_slash_in_uri, rl_check_uri, rl_uri} \<and>
     rq_request_start (snd s) = rq_request_start r0 \<and> rq_method_end (snd s) = rq_method_end r0 \<and>
     rq_request_end (snd s) = None \<and> rq_uri_start (snd s) = rq_uri_start r0"

lemma rl_uri_phase_step:
  assumes "rl_uri_phase r0 s" "clean_byte (mem ! p)"
  shows "\<exists>s'. rl_step mem p s = Next s' \<and> rl_uri_phase r0 s'"
proof -
  have "mem ! p \<notin> {ch_sp, ch_cr, ch_lf} \<and> \<not> is_ctl (mem ! p)"
    using assms(2) by (auto simp: clean_byte_def is_ctl_def)
  then show ?thesis
    using assms(1) by (cases s; elim conjE)
      (auto simp: rl_uri_phase_def rl_step_def rl_case_after_slash_def rl_case_check_uri_def
        rl_case_uri_def Let_def)
qed

lemma rl_scan_uri:
  assumes "U = ch_slash # V" "list_all clean_byte U" "drop p mem = U @ rest" "p + length U \<le> lim"
    and "rq_request_end r = None"
  shows "\<exists>s. rl_uri_phase (r\<lparr>rq_uri_start := p\<rparr>) s \<and>
    scan rl_step mem p lim (rl_spaces_before_uri, r) = scan rl_step mem (p + length U) lim s"
proof -
  have byte: "mem ! (p + i) = U ! i" if "i < length U" for i
    using assms(3) that by (metis nth_append nth_drop drop_eq_Nil append_is_Nil_conv linorder_le_cases
        less_nat_zero_code list.size(3))
  let ?r = "r\<lparr>rq_uri_start := p\<rparr>"
  have "rl_step mem p (rl_spaces_before_uri, r) = Next (rl_after_slash_in_uri, ?r)"
    using byte [of 0] assms(1) by (simp add: rl_step_def rl_case_schema_def Let_def)
  then have "scan rl_step mem p lim (rl_spaces_before_uri, r) =
      scan rl_step mem (Suc p) lim (rl_after_slash_in_uri, ?r)"
    using assms(1,4) by (simp add: scan_Next)
  moreover have "rl_uri_phase ?r (rl_after_slash_in_uri, ?r)"
    using assms(5) by (simp add: rl_uri_phase_def)
  moreover have "clean_byte (mem ! q)" if "Suc p \<le> q" "q < Suc p + length V" for q
  proof -
    have "q - p < length U" "p + (q - p) = q" using that assms(1) by auto
    then show ?thesis using byte [of "q - p"] assms(2) by (simp add: list_all_length)
  qed
  ultimately show ?thesis
    using scan_through [of "\<lambda>_. rl_uri_phase ?r" "Suc p" "(rl_after_slash_in_uri, ?r)" "length V" lim rl_step mem]
      rl_uri_phase_step assms(1,4) by auto
qed

lemma rl_scan_tail:
  assumes "rl_uri_phase r0 s" "is_digit d" "drop p mem = version_tail d @ rest" "p + 11 \<le> lim"
  shows "\<exists>r. scan rl_step mem p lim s = Stopped (p + 11) NGX_OK (rl_start, r) \<and>
    rq_request_start r = rq_request_start r0 \<and> rq_method_end r = rq_method_end r0 \<and>
    rq_uri_start r = rq_uri_start r0 \<and> rq_uri_end r = p \<and> rq_request_end r = Some (p + 9) \<and>
    rq_http_major r = 1 \<and> rq_http_minor r = unat d - 48"
proof -
  have byte: "mem ! (p + i) = (version_tail d @ rest) ! i" for i
    using assms(3) by (metis nth_drop linorder_le_cases drop_eq_Nil append_is_Nil_conv version_tail_def list.distinct(1))
  have b: "mem ! p = ch_sp" "mem ! Suc p = ch_H" "mem ! Suc (Suc p) = ch_T" "mem ! (p + 3) = ch_T"
    "mem ! (p + 4) = ch_P" "mem ! (p + 5) = ch_slash" "mem ! (p + 6) = ch_1" "mem ! (p + 7) = ch_dot"
    "mem ! (p + 8) = d" "mem ! (p + 9) = ch_cr" "mem ! (p + 10) = ch_lf"
    using byte [of 0] byte [of 1] byte [of 2] byte [of 3] byte [of 4] byte [of 5] byte [of 6]
      byte [of 7] byte [of 8] byte [of 9] byte [of 10] by (simp_all add: version_tail_def)
  note b = b [unfolded eval_nat_numeral add_Suc_right add_0_right BitM.simps]
  obtain st r where s: "s = (st, r)" by fastforce
  define r1 where "r1 = r\<lparr>rq_uri_end := p\<rparr>"
  define r2 where "r2 = r1\<lparr>rq_http_protocol := p + 1, rq_http_major := 1, rq_http_minor := unat d - 48\<rparr>"
  have d: "\<not> d < ch_0" "\<not> d > ch_9" using assms(2) by (auto simp: is_digit_def)
  have first: "rl_step mem p s = Next (rl_http_09, r1)"
    using assms(1) b(1) unfolding s r1_def
    by (auto simp: rl_uri_phase_def rl_step_def rl_case_after_slash_def rl_case_check_uri_def
        rl_case_uri_def Let_def is_usual_def bitmap_test_def usual_def)
  have "run rl_step mem p 10 s = Some (rl_almost_done, r2)"
    using b d first unfolding eval_nat_numeral BitM.simps run.simps
    by (simp add: rl_step_def rl_case_http_def rl_case_version_def Let_def r2_def)
  then have "scan rl_step mem p lim s = scan rl_step mem (p + 10) lim (rl_almost_done, r2)"
    using assms(4) by (intro scan_run) auto
  also have "\<dots> = Stopped (p + 11) NGX_OK (rl_start, r2\<lparr>rq_request_end := Some (p + 9),
      rq_http_version := 1000 + (unat d - 48)\<rparr>)"
    using assms(4) byte [of 10] assms(2)
    by (subst scan_Stop [where k = 1 and rc = NGX_OK and s' = "(rl_start, r2\<lparr>rq_request_end := Some (p + 9),
      rq_http_version := 1000 + (unat d - 48)\<rparr>)"])
      (simp_all add: rl_step_def rl_case_end_def rl_done_def Let_def version_tail_def r2_def r1_def)
  finally show ?thesis using assms(1) by (simp add: s r2_def r1_def rl_uri_phase_def)
qed

definition sample_line :: "byte list" where
  "sample_line = render_request_line [ch_G, ch_E, ch_T] [ch_slash, ch_a] ch_1"

section \<open>Properties\<close>

text \<open>
  C35: The request line parser may be interrupted anywhere. When the bytes received so far
  end inside the line (\<open>NGX_AGAIN\<close>), calling the parser again on the longer buffer,
  from the position and request it left, gives what one call on the longer buffer gives:
  the same return code and, unless the line is rejected inside the switch, the same
  position and the same request, field for field.
\<close>

theorem request_line_resume:
  assumes "pos \<le> length mem"
    and "ngx_http_parse_request_line mem pos (length mem) r = (NGX_AGAIN, p, r')"
    and "ngx_http_parse_request_line (mem @ rest) pos (length (mem @ rest)) r = (rc1, p1, r1)"
    and "ngx_http_parse_request_line (mem @ rest) p (length (mem @ rest)) r' = (rc2, p2, r2)"
  shows "rc2 = rc1 \<and>
    (rc1 \<in> {NGX_HTTP_PARSE_INVALID_METHOD, NGX_HTTP_PARSE_INVALID_REQUEST,
       NGX_HTTP_PARSE_INVALID_VERSION} \<or> p2 = p1 \<and> r2 = r1)"
proof -
  have stop: "rc \<noteq> NGX_AGAIN" if "scan rl_step mem pos (length mem) r = Stopped q rc s" for q rc s
    using scan_Stopped_at [OF that] by (auto dest: rl_stop_rc)
  have fail: "rc \<noteq> NGX_AGAIN" if "scan rl_step mem pos (length mem) r = Failed rc s" for rc s
    using scan_Failed_at [OF that] by (auto dest: rl_fail_rc)
  have "scan rl_step mem pos (length mem) r = Again p r'"
    using assms(2) stop fail
    by (cases "scan rl_step mem pos (length mem) r") (auto simp: ngx_http_parse_request_line_def)
  then have eq: "scan rl_step (mem @ rest) p (length (mem @ rest)) r' =
      scan rl_step (mem @ rest) pos (length (mem @ rest)) r"
    using rl.scan_resume [OF assms(1), of rest r] by simp
  show ?thesis
    using assms(3,4) unfolding ngx_http_parse_request_line_def eq
    by (auto split: outcome.splits dest!: scan_Failed_at rl_fail_rc)
qed

theorem request_line_resume_witness:
  "fst (ngx_http_parse_request_line (take 6 sample_line) 0 6 (rl_start, request_init)) = NGX_AGAIN \<and>
   (case ngx_http_parse_request_line (take 6 sample_line) 0 6 (rl_start, request_init) of
      (_, p, r') \<Rightarrow> ngx_http_parse_request_line sample_line p 17 r') =
    ngx_http_parse_request_line sample_line 0 17 (rl_start, request_init)"
proof -
  let ?i = "(rl_start, request_init)"
  have s: "take 6 sample_line @ drop 6 sample_line = sample_line"
    "length sample_line = 17" "length (take 6 sample_line) = 6"
    by (simp_all add: sample_line_def render_request_line_def version_tail_def)
  have rc: "fst (ngx_http_parse_request_line (take 6 sample_line) 0 6 ?i) = NGX_AGAIN"
    "fst (ngx_http_parse_request_line sample_line 0 17 ?i) = NGX_OK"
    by code_simp+
  obtain p r' where 1: "ngx_http_parse_request_line (take 6 sample_line) 0 6 ?i = (NGX_AGAIN, p, r')"
    using rc(1) by (metis prod.collapse)
  obtain rc1 p1 r1 where 2: "ngx_http_parse_request_line sample_line 0 17 ?i = (rc1, p1, r1)"
    by (metis prod.collapse)
  obtain rc2 p2 r2 where 3: "ngx_http_parse_request_line sample_line p 17 r' = (rc2, p2, r2)"
    by (metis prod.collapse)
  have "rc2 = rc1 \<and> (rc1 \<in> {NGX_HTTP_PARSE_INVALID_METHOD, NGX_HTTP_PARSE_INVALID_REQUEST,
      NGX_HTTP_PARSE_INVALID_VERSION} \<or> p2 = p1 \<and> r2 = r1)"
    by (rule request_line_resume [of 0 "take 6 sample_line" ?i p r' "drop 6 sample_line"])
      (use 1 2 3 s in simp_all)
  then show ?thesis using 1 2 3 rc(2) by auto
qed



text \<open>
  C26: A well-formed request line is accepted. For every method token, every URI that begins
  with \<open>'/'\<close> and holds no space, control character or DEL, and every minor version digit,
  the rendered line, whatever follows it in the buffer, is parsed in one call: the parser
  stops after the line feed, and the method, the URI and the version it reports are those
  the line was rendered from.
\<close>

theorem request_line_roundtrip:
  assumes "M \<noteq> []" "list_all (\<lambda>c. \<not> not_method_char c) M"
    and "U = ch_slash # V" "list_all (\<lambda>c. 0x20 < c \<and> c \<noteq> 0x7f) U" "is_digit d"
    and "mem = render_request_line M U d @ rest"
  shows "\<exists>r. ngx_http_parse_request_line mem 0 (length mem) (rl_start, request_init) =
      (NGX_OK, length (render_request_line M U d), (rl_start, r)) \<and>
    slice mem (rq_request_start r) (Suc (rq_method_end r)) = M \<and>
    slice mem (rq_uri_start r) (rq_uri_end r) = U \<and>
    rq_method r = method_of M \<and> rq_http_major r = 1 \<and> rq_http_minor r = unat d - 48"
proof -
  have mem: "mem = M @ ch_sp # (U @ version_tail d @ rest)"
    using assms(6) by (simp add: render_request_line_def)
  then have len: "length M + 1 + length U + 11 \<le> length mem" "length M < length mem"
    by (simp_all add: version_tail_def)
  obtain r1 where r1: "scan rl_step mem 0 (length mem) (rl_start, request_init) =
      scan rl_step mem (length M + 1) (length mem) (rl_spaces_before_uri, r1)"
    "rq_request_start r1 = 0" "rq_method_end r1 = length M - 1" "rq_request_end r1 = None"
    using rl_scan_method [OF assms(1,2) mem len(2)] by blast
  have "list_all clean_byte U" using assms(4) by (simp add: clean_byte_def [abs_def])
  then obtain s where s: "rl_uri_phase (r1\<lparr>rq_uri_start := length M + 1\<rparr>) s"
    "scan rl_step mem (length M + 1) (length mem) (rl_spaces_before_uri, r1) =
      scan rl_step mem (length M + 1 + length U) (length mem) s"
    using rl_scan_uri [OF assms(3) _ _ _ r1(4), of "length M + 1" mem "version_tail d @ rest" "length mem"]
      mem len by auto
  obtain r where r: "scan rl_step mem (length M + 1 + length U) (length mem) s =
      Stopped (length M + 1 + length U + 11) NGX_OK (rl_start, r)"
    "rq_request_start r = 0" "rq_method_end r = length M - 1" "rq_uri_start r = length M + 1"
    "rq_uri_end r = length M + 1 + length U" "rq_http_major r = 1" "rq_http_minor r = unat d - 48"
    using rl_scan_tail [OF s(1) assms(5), of "length M + 1 + length U" mem rest "length mem"] mem len r1
    by auto
  have sc: "scan rl_step mem 0 (length mem) (rl_start, request_init) =
      Stopped (length M + 1 + length U + 11) NGX_OK (rl_start, r)"
    using r1(1) s(2) r(1) by simp
  have "rl_minv mem 0 (rl_start, request_init)" by (simp add: request_init_def rl_minv_def)
  note m = rlm.scan_Stopped [OF this order.refl sc]
  have M: "slice mem 0 (Suc (length M - 1)) = M" using assms(1) by (simp add: slice_def mem)
  moreover have "slice mem (length M + 1) (length M + 1 + length U) = U"
    by (simp add: slice_def mem)
  ultimately show ?thesis
    using sc r m by (auto simp: ngx_http_parse_request_line_def render_request_line_def version_tail_def)
qed

theorem request_line_roundtrip_witness:
  "\<exists>r. ngx_http_parse_request_line sample_line 0 (length sample_line) (rl_start, request_init) =
      (NGX_OK, length sample_line, (rl_start, r)) \<and> rq_method r = NGX_HTTP_GET"
proof -
  have "method_of [ch_G, ch_E, ch_T] = NGX_HTTP_GET"
    by (simp add: method_of_def method_table_def)
  then show ?thesis
    using request_line_roundtrip [of "[ch_G, ch_E, ch_T]" "[ch_slash, ch_a]" "[ch_a]" ch_1 sample_line "[]"]
    by (auto simp: sample_line_def not_method_char_def is_digit_def)
qed

end
