(* ===== verification/Http_Uri.thy ===== *)
theory Http_Uri
  imports Http_Request_Line
begin

text \<open>
  \<open>ngx_http_parse_uri\<close> of \<open>src/http/ngx_http_parse.c\<close>: the check of a URI that did not
  come with a request line (HTTP/2 \<open>:path\<close>), which also finds out whether the URI needs
  the slow parser. The states and flags are those of the request line parser.
\<close>

section \<open>The parser\<close>

datatype uri_state = u_start | u_after_slash_in_uri | u_check_uri | u_uri

type_synonym uri_local = "uri_state \<times> request"

abbreviation uri_error :: "uri_state \<Rightarrow> request \<Rightarrow> uri_local step" where
  "uri_error st r \<equiv> Fail NGX_ERROR (st, r)"

text \<open>\<open>ch <= 0x20 || ch == 0x7f\<close>\<close>

definition is_ctl_or_space :: "byte \<Rightarrow> bool" where
  "is_ctl_or_space ch \<longleftrightarrow> ch \<le> 0x20 \<or> ch = 0x7f"

definition uri_case_after_slash :: "nat \<Rightarrow> byte \<Rightarrow> request \<Rightarrow> uri_local step" where
  "uri_case_after_slash p ch r =
     (if is_usual ch then Next (u_check_uri, r)
      else if ch = ch_dot then Next (u_uri, r\<lparr>rq_complex_uri := True\<rparr>)
      else if ch = ch_pct then Next (u_uri, r\<lparr>rq_quoted_uri := True\<rparr>)
      else if ch = ch_slash then Next (u_uri, r\<lparr>rq_complex_uri := True\<rparr>)
      else if ch = ch_quest then Next (u_uri, r\<lparr>rq_args_start := Some (p + 1)\<rparr>)
      else if ch = ch_hash then Next (u_uri, r\<lparr>rq_complex_uri := True\<rparr>)
      else if ch = ch_plus then Next (u_after_slash_in_uri, r\<lparr>rq_plus_in_uri := True\<rparr>)
      else if is_ctl_or_space ch then uri_error u_after_slash_in_uri r
      else Next (u_check_uri, r))"

definition uri_case_check :: "nat \<Rightarrow> byte \<Rightarrow> request \<Rightarrow> uri_local step" where
  "uri_case_check p ch r =
     (if is_usual ch then Next (u_check_uri, r)
      else if ch = ch_slash then Next (u_after_slash_in_uri, r\<lparr>rq_uri_ext := None\<rparr>)
      else if ch = ch_dot then Next (u_check_uri, r\<lparr>rq_uri_ext := Some (p + 1)\<rparr>)
      else if ch = ch_pct then Next (u_uri, r\<lparr>rq_quoted_uri := True\<rparr>)
      else if ch = ch_quest then Next (u_uri, r\<lparr>rq_args_start := Some (p + 1)\<rparr>)
      else if ch = ch_hash then Next (u_uri, r\<lparr>rq_complex_uri := True\<rparr>)
      else if ch = ch_plus then Next (u_check_uri, r\<lparr>rq_plus_in_uri := True\<rparr>)
      else if is_ctl_or_space ch then uri_error u_check_uri r
      else Next (u_check_uri, r))"

definition uri_step :: "uri_local stepper" where
  "uri_step mem p s =
     (let state = fst s; r = snd s; ch = mem ! p in
      case state of
        u_start \<Rightarrow> (if ch \<noteq> ch_slash then uri_error state r else Next (u_after_slash_in_uri, r))
      | u_after_slash_in_uri \<Rightarrow> uri_case_after_slash p ch r
      | u_check_uri \<Rightarrow> uri_case_check p ch r
      | u_uri \<Rightarrow>
          (if is_usual ch then Next (state, r)
           else if ch = ch_hash then Next (state, r\<lparr>rq_complex_uri := True\<rparr>)
           else if is_ctl_or_space ch then uri_error state r
           else Next (state, r)))"

text \<open>The loop runs while \<open>p != r->uri_end\<close>; the callers set \<open>uri_start <= uri_end\<close>.\<close>

definition ngx_http_parse_uri :: "byte list \<Rightarrow> request \<Rightarrow> ngx_rc \<times> request" where
  "ngx_http_parse_uri mem r =
     (case scan uri_step mem (rq_uri_start r) (rq_uri_end r) (u_start, r) of
        Again _ s \<Rightarrow> (NGX_OK, snd s)
      | Stopped _ rc s \<Rightarrow> (rc, snd s)
      | Failed rc s \<Rightarrow> (rc, snd s))"

section \<open>Which URIs are accepted\<close>

lemma usual_not_ctl: "is_usual ch \<Longrightarrow> \<not> is_ctl_or_space ch"
  using is_usual_clean [of ch] by (auto simp: clean_byte_def is_ctl_or_space_def)

lemma uri_step_accept:
  assumes "fst s \<noteq> u_start"
  shows "(\<exists>s'. uri_step mem p s = Next s' \<and> fst s' \<noteq> u_start \<and> \<not> is_ctl_or_space (mem ! p)) \<or>
    (\<exists>s'. uri_step mem p s = Fail NGX_ERROR s') \<and> is_ctl_or_space (mem ! p)"
proof -
  have sp: "\<not> is_ctl_or_space c" if "c \<in> {ch_dot, ch_pct, ch_slash, ch_quest, ch_hash, ch_plus}" for c
    using that by (auto simp: is_ctl_or_space_def)
  obtain st r where s: "s = (st, r)" by fastforce
  show ?thesis
    using assms usual_not_ctl [of "mem ! p"] sp [of "mem ! p"] unfolding s
    by (cases st) (auto simp: uri_step_def uri_case_after_slash_def uri_case_check_def Let_def)
qed

lemma uri_scan_accept:
  assumes "fst s \<noteq> u_start" "lim \<le> length mem" "p \<le> lim"
  shows "(\<exists>s'. scan uri_step mem p lim s = Again lim s' \<and> fst s' \<noteq> u_start) \<and>
      list_all (\<lambda>c. \<not> is_ctl_or_space c) (slice mem p lim) \<or>
    (\<exists>s'. scan uri_step mem p lim s = Failed NGX_ERROR s') \<and>
      \<not> list_all (\<lambda>c. \<not> is_ctl_or_space c) (slice mem p lim)"
  using assms
proof (induction "lim - p" arbitrary: p s)
  case 0
  then show ?case by simp
next
  case (Suc n)
  then have p: "p < lim" and n: "n = lim - Suc p" by simp_all
  have sl: "slice mem p lim = mem ! p # slice mem (Suc p) lim"
    using p Suc.prems by (simp add: slice_Cons)
  from uri_step_accept [OF Suc.prems(1), of mem p] show ?case
  proof (elim disjE exE conjE)
    fix s' assume "uri_step mem p s = Next s'" "fst s' \<noteq> u_start" "\<not> is_ctl_or_space (mem ! p)"
    then show ?thesis using Suc.hyps(1) [OF n, of s'] Suc.prems p sl by (simp add: scan_Next)
  next
    fix s' assume "uri_step mem p s = Fail NGX_ERROR s'" "is_ctl_or_space (mem ! p)"
    then show ?thesis using p sl by (simp add: scan_Fail)
  qed
qed

text \<open>
  \<open>ngx_http_parse_uri\<close> accepts exactly the URIs that are empty or begin with
  \<open>'/'\<close> and hold no space, control character or DEL; every other URI is an error.
\<close>

theorem parse_uri_accepts:
  assumes "rq_uri_start r \<le> rq_uri_end r" "rq_uri_end r \<le> length mem"
  shows "fst (ngx_http_parse_uri mem r) =
    (case slice mem (rq_uri_start r) (rq_uri_end r) of
       [] \<Rightarrow> NGX_OK
     | c # cs \<Rightarrow> if c = ch_slash \<and> list_all (\<lambda>c. 0x20 < c \<and> c \<noteq> 0x7f) cs then NGX_OK else NGX_ERROR)"
proof (cases "rq_uri_start r = rq_uri_end r")
  case True
  then show ?thesis by (simp add: ngx_http_parse_uri_def)
next
  case False
  let ?a = "rq_uri_start r" and ?b = "rq_uri_end r"
  have ab: "?a < ?b" using False assms by simp
  have sl: "slice mem ?a ?b = mem ! ?a # slice mem (Suc ?a) ?b"
    using ab assms by (simp add: slice_Cons)
  have eq: "(\<lambda>c. \<not> is_ctl_or_space c) = (\<lambda>c. 0x20 < c \<and> c \<noteq> 0x7f)"
    by (auto simp: is_ctl_or_space_def not_le fun_eq_iff)
  show ?thesis
  proof (cases "mem ! ?a = ch_slash")
    case True
    then have "scan uri_step mem ?a ?b (u_start, r) = scan uri_step mem (Suc ?a) ?b (u_after_slash_in_uri, r)"
      using ab by (simp add: scan_Next uri_step_def)
    then show ?thesis
      using uri_scan_accept [of "(u_after_slash_in_uri, r)" ?b mem "Suc ?a"] ab assms True
      unfolding eq by (auto simp: ngx_http_parse_uri_def sl)
  next
    case False
    then show ?thesis using ab by (simp add: ngx_http_parse_uri_def sl scan_Fail uri_step_def)
  qed
qed

theorem parse_uri_accepts_witness:
  "fst (ngx_http_parse_uri [ch_slash, ch_a] (request_init\<lparr>rq_uri_start := 0, rq_uri_end := 2\<rparr>)) = NGX_OK"
  using parse_uri_accepts [of "request_init\<lparr>rq_uri_start := 0, rq_uri_end := 2\<rparr>" "[ch_slash, ch_a]"]
  by (simp add: slice_def)

end
