(* ===== verification/Http_Complex_Uri.thy ===== *)
theory Http_Complex_Uri
  imports Http_Uri
begin

text \<open>
  \<open>ngx_http_parse_complex_uri\<close> of \<open>src/http/ngx_http_parse.c\<close>, the in-place decoding
  and normalisation of a request URI. The reference is a two-pass specification: percent-decode, then remove the
  dot segments of the path on a stack of segments.
\<close>

section \<open>State\<close>

text \<open>
  The four states that look at a character of the path. \<open>quoted_state\<close> and
  \<open>decoded\<close> are live in the quoted states only, where they are kept with the state.
\<close>

datatype cx_plain = cx_usual | cx_slash | cx_dot | cx_dot_dot

datatype cx_state = Plain cx_plain | Quoted cx_plain | Quoted_second cx_plain byte

text \<open>
  \<open>cx_out\<close> holds the bytes written to \<open>r->uri.data\<close>, the last one first, so that
  \<open>u - r->uri.data\<close> is its length; \<open>cx_uri_ext\<close> is an offset in \<open>r->uri.data\<close>.
\<close>

record curi =
  cx_out :: "byte list"
  cx_uri_ext :: "nat option"
  cx_args_start :: "nat option"
  cx_plus_in_uri :: bool
  cx_quoted_uri :: bool

type_synonym cx_local = "cx_state \<times> curi"

definition cx_put :: "byte \<Rightarrow> curi \<Rightarrow> curi" where
  "cx_put c r = r\<lparr>cx_out := c # cx_out r\<rparr>"

definition cx_unput :: "curi \<Rightarrow> curi" where
  "cx_unput r = r\<lparr>cx_out := tl (cx_out r)\<rparr>"

section \<open>The iterations\<close>

abbreviation cx_invalid :: "cx_local \<Rightarrow> cx_local step" where
  "cx_invalid s \<equiv> Fail NGX_HTTP_PARSE_INVALID_REQUEST s"

text \<open>\<open>goto done\<close> leaves \<open>args_start\<close> unset, \<open>goto args\<close> follows its assignment.\<close>

abbreviation cx_goto :: "cx_plain \<Rightarrow> curi \<Rightarrow> cx_local step" where
  "cx_goto st r \<equiv> Stop 1 NGX_OK (Plain st, r)"

text \<open>
  \<open>u -= 4; for ( ;; ) { if (u < r->uri.data) return ...; if (*u == '/') { u++; break; } u--; }\<close>:
  the search starts at the byte before the last three.
\<close>

fun cx_find_slash :: "byte list \<Rightarrow> byte list option" where
  "cx_find_slash [] = None"
| "cx_find_slash (c # u) = (if c = ch_slash then Some (c # u) else cx_find_slash u)"

definition cx_rewind :: "curi \<Rightarrow> curi option" where
  "cx_rewind r = map_option (\<lambda>u. r\<lparr>cx_out := u\<rparr>) (cx_find_slash (drop 3 (cx_out r)))"

text \<open>
  The default branch and the branch for \<open>'+'\<close> of the switch: \<open>*u++ = ch\<close> in
  \<open>sw_usual\<close>.
\<close>

definition cx_other :: "byte \<Rightarrow> curi \<Rightarrow> cx_local step" where
  "cx_other ch r =
     (if ch = ch_plus then Next (Plain cx_usual, cx_put ch (r\<lparr>cx_plus_in_uri := True\<rparr>))
      else Next (Plain cx_usual, cx_put ch r))"

definition cx_case_usual :: "nat \<Rightarrow> byte \<Rightarrow> curi \<Rightarrow> cx_local step" where
  "cx_case_usual p ch r =
     (if is_usual ch then Next (Plain cx_usual, cx_put ch r)
      else if ch = ch_slash then Next (Plain cx_slash, cx_put ch (r\<lparr>cx_uri_ext := None\<rparr>))
      else if ch = ch_pct then Next (Quoted cx_usual, r)
      else if ch = ch_quest then cx_goto cx_usual (r\<lparr>cx_args_start := Some p\<rparr>)
      else if ch = ch_hash then cx_goto cx_usual r
      else if ch = ch_dot then
        Next (Plain cx_usual, cx_put ch (r\<lparr>cx_uri_ext := Some (length (cx_out r) + 1)\<rparr>))
      else cx_other ch r)"

definition cx_case_slash :: "bool \<Rightarrow> nat \<Rightarrow> byte \<Rightarrow> curi \<Rightarrow> cx_local step" where
  "cx_case_slash merge_slashes p ch r =
     (if is_usual ch then Next (Plain cx_usual, cx_put ch r)
      else if ch = ch_slash then
        (if \<not> merge_slashes then Next (Plain cx_slash, cx_put ch r) else Next (Plain cx_slash, r))
      else if ch = ch_dot then Next (Plain cx_dot, cx_put ch r)
      else if ch = ch_pct then Next (Quoted cx_slash, r)
      else if ch = ch_quest then cx_goto cx_slash (r\<lparr>cx_args_start := Some p\<rparr>)
      else if ch = ch_hash then cx_goto cx_slash r
      else cx_other ch r)"

definition cx_case_dot :: "nat \<Rightarrow> byte \<Rightarrow> curi \<Rightarrow> cx_local step" where
  "cx_case_dot p ch r =
     (if is_usual ch then Next (Plain cx_usual, cx_put ch r)
      else if ch = ch_slash then Next (Plain cx_slash, cx_unput r)
      else if ch = ch_dot then Next (Plain cx_dot_dot, cx_put ch r)
      else if ch = ch_pct then Next (Quoted cx_dot, r)
      else if ch = ch_quest then cx_goto cx_dot ((cx_unput r)\<lparr>cx_args_start := Some p\<rparr>)
      else if ch = ch_hash then cx_goto cx_dot (cx_unput r)
      else cx_other ch r)"

definition cx_case_dot_dot :: "nat \<Rightarrow> byte \<Rightarrow> curi \<Rightarrow> cx_local step" where
  "cx_case_dot_dot p ch r =
     (if is_usual ch then Next (Plain cx_usual, cx_put ch r)
      else if ch = ch_slash \<or> ch = ch_quest \<or> ch = ch_hash then
        (case cx_rewind r of
           None \<Rightarrow> cx_invalid (Plain cx_dot_dot, r)
         | Some r \<Rightarrow>
             if ch = ch_quest then cx_goto cx_dot_dot (r\<lparr>cx_args_start := Some p\<rparr>)
             else if ch = ch_hash then cx_goto cx_dot_dot r
             else Next (Plain cx_slash, r))
      else if ch = ch_pct then Next (Quoted cx_dot_dot, r)
      else cx_other ch r)"

text \<open>A character of the path, \<open>p\<close> the position after it.\<close>

definition cx_char :: "bool \<Rightarrow> nat \<Rightarrow> byte \<Rightarrow> cx_plain \<Rightarrow> curi \<Rightarrow> cx_local step" where
  "cx_char merge_slashes p ch st r =
     (case st of
        cx_usual \<Rightarrow> cx_case_usual p ch r
      | cx_slash \<Rightarrow> cx_case_slash merge_slashes p ch r
      | cx_dot \<Rightarrow> cx_case_dot p ch r
      | cx_dot_dot \<Rightarrow> cx_case_dot_dot p ch r)"

text \<open>
  One pass over a byte of the URI. A decoded character is handled in the state before the
  percent sign without reading another byte: \<open>break\<close> with \<open>p\<close> unchanged, so the next
  pass of the loop sees it; both passes are one step here.
\<close>

definition cx_case_quoted_second :: "bool \<Rightarrow> nat \<Rightarrow> byte \<Rightarrow> cx_plain \<Rightarrow> byte \<Rightarrow> curi \<Rightarrow> cx_local step" where
  "cx_case_quoted_second merge_slashes p ch st decoded r =
     (if is_digit ch then
        (let ch = push_bit 4 decoded + (ch - ch_0) in
         if ch = ch_pct \<or> ch = ch_hash then Next (Plain cx_usual, cx_put ch r)
         else if ch = ch_nul then cx_invalid (Quoted_second st decoded, r)
         else cx_char merge_slashes p ch st r)
      else
        (let c = ch OR 0x20 in
         if ch_a \<le> c \<and> c \<le> ch_f then
           (let ch = push_bit 4 decoded + (c - ch_a) + 10 in
            if ch = ch_quest then Next (Plain cx_usual, cx_put ch r)
            else if ch = ch_plus then cx_char merge_slashes p ch st (r\<lparr>cx_plus_in_uri := True\<rparr>)
            else cx_char merge_slashes p ch st r)
         else cx_invalid (Quoted_second st decoded, r)))"

definition cx_step :: "bool \<Rightarrow> cx_local stepper" where
  "cx_step merge_slashes mem p s =
     (let ch = mem ! p; r = snd s in
      case fst s of
        Plain st \<Rightarrow> cx_char merge_slashes (p + 1) ch st r
      | Quoted st \<Rightarrow>
          (let r = r\<lparr>cx_quoted_uri := True\<rparr> in
           case hex_digit ch of
             Some d \<Rightarrow> Next (Quoted_second st d, r)
           | None \<Rightarrow> cx_invalid (Quoted st, r))
      | Quoted_second st decoded \<Rightarrow> cx_case_quoted_second merge_slashes (p + 1) ch st decoded r)"

section \<open>The function\<close>

text \<open>What the parser leaves in the request: \<open>uri\<close>, \<open>exten\<close> (if it was set),
  \<open>args\<close> as positions (if it was set), \<open>args_start\<close> and the two flags.\<close>

record uri_parts =
  up_uri :: "byte list"
  up_exten :: "byte list option"
  up_args :: "(nat \<times> nat) option"
  up_args_start :: "nat option"
  up_plus_in_uri :: bool
  up_quoted_uri :: bool

definition cx_parts :: "curi \<Rightarrow> uri_parts" where
  "cx_parts r = \<lparr>up_uri = rev (cx_out r),
     up_exten = map_option (\<lambda>e. drop e (rev (cx_out r))) (cx_uri_ext r),
     up_args = None, up_args_start = cx_args_start r,
     up_plus_in_uri = cx_plus_in_uri r, up_quoted_uri = cx_quoted_uri r\<rparr>"

text \<open>The code at the label \<open>args\<close>: the arguments end at a fragment.\<close>

function cx_args :: "byte list \<Rightarrow> nat \<Rightarrow> nat \<Rightarrow> uri_parts \<Rightarrow> uri_parts" where
  "cx_args mem p uri_end u =
     (if p < uri_end then
        (if mem ! p \<noteq> ch_hash then cx_args mem (p + 1) uri_end u
         else u\<lparr>up_args := map_option (\<lambda>a. (a, p)) (up_args_start u), up_args_start := None\<rparr>)
      else u)"
  by pat_completeness auto
termination by (relation "measure (\<lambda>(mem, p, uri_end, u). uri_end - p)") auto

declare cx_args.simps [simp del]

text \<open>The code after the loop.\<close>

definition cx_loop_end :: "cx_local \<Rightarrow> curi option" where
  "cx_loop_end s =
     (case fst s of
        Plain cx_dot \<Rightarrow> Some (cx_unput (snd s))
      | Plain cx_dot_dot \<Rightarrow> cx_rewind (snd s)
      | Plain _ \<Rightarrow> Some (snd s)
      | _ \<Rightarrow> None)"

text \<open>\<open>None\<close> is \<open>NGX_HTTP_PARSE_INVALID_REQUEST\<close>, the only error of the function.\<close>

definition ngx_http_parse_complex_uri ::
  "bool \<Rightarrow> byte list \<Rightarrow> nat \<Rightarrow> nat \<Rightarrow> bool \<Rightarrow> bool \<Rightarrow> bool \<Rightarrow> uri_parts option" where
  "ngx_http_parse_complex_uri merge_slashes mem uri_start uri_end empty_path_in_uri plus_in_uri quoted_uri =
     (let r = \<lparr>cx_out = (if empty_path_in_uri then [ch_slash] else []), cx_uri_ext = None,
               cx_args_start = None, cx_plus_in_uri = plus_in_uri, cx_quoted_uri = quoted_uri\<rparr> in
      case scan (cx_step merge_slashes) mem uri_start uri_end (Plain cx_usual, r) of
        Again _ s \<Rightarrow> map_option cx_parts (cx_loop_end s)
      | Stopped p _ s \<Rightarrow>
          Some (if cx_args_start (snd s) \<noteq> None then cx_args mem p uri_end (cx_parts (snd s))
                else cx_parts (snd s))
      | Failed _ _ \<Rightarrow> None)"

section \<open>Specification: decode, then remove the dot segments\<close>

text \<open>
  The decoded path and the rest of the URI from its first \<open>'?'\<close> or \<open>'#'\<close>; a percent
  sign must be followed by two hexadecimal digits that do not encode NUL.
\<close>

definition hex_pair :: "byte \<Rightarrow> byte \<Rightarrow> byte option" where
  "hex_pair h l = (case (hex_digit h, hex_digit l) of
     (Some a, Some b) \<Rightarrow> (let d = push_bit 4 a + b in if d = 0 then None else Some d)
   | _ \<Rightarrow> None)"

fun url_decode :: "byte list \<Rightarrow> (byte list \<times> byte list) option" where
  "url_decode [] = Some ([], [])"
| "url_decode (c # cs) =
     (if c = ch_quest \<or> c = ch_hash then Some ([], c # cs)
      else if c = ch_pct then
        (case cs of
           h # l # cs' \<Rightarrow>
             (case hex_pair h l of
                Some d \<Rightarrow> map_option (\<lambda>(ds, rest). (d # ds, rest)) (url_decode cs')
              | None \<Rightarrow> None)
         | _ \<Rightarrow> None)
      else map_option (\<lambda>(ds, rest). (c # ds, rest)) (url_decode cs))"

fun segs :: "byte list \<Rightarrow> byte list list" where
  "segs [] = [[]]"
| "segs (c # cs) =
     (if c = ch_slash then [] # segs cs
      else case segs cs of s # ss \<Rightarrow> (c # s) # ss | [] \<Rightarrow> [[c]])"

definition render_path :: "byte list list \<Rightarrow> byte list \<Rightarrow> byte list" where
  "render_path ss s = ch_slash # concat (map (\<lambda>x. x @ [ch_slash]) ss) @ s"

text \<open>
  \<open>stk\<close> holds the segments kept so far, the last one first. The last segment of the path
  is what follows its last slash; a dot segment there leaves a trailing slash.
\<close>

fun norm_path :: "bool \<Rightarrow> byte list list \<Rightarrow> byte list list \<Rightarrow> byte list option" where
  "norm_path merge stk [] = None"
| "norm_path merge stk [s] =
     (if s = [ch_dot] then Some (render_path (rev stk) [])
      else if s = [ch_dot, ch_dot] then
        (case stk of [] \<Rightarrow> None | _ # stk' \<Rightarrow> Some (render_path (rev stk') []))
      else Some (render_path (rev stk) s))"
| "norm_path merge stk (s # ss) =
     (if s = [ch_dot] \<or> merge \<and> s = [] then norm_path merge stk ss
      else if s = [ch_dot, ch_dot] then
        (case stk of [] \<Rightarrow> None | _ # stk' \<Rightarrow> norm_path merge stk' ss)
      else norm_path merge (s # stk) ss)"

section \<open>The specification by characters\<close>

definition plain_of :: "byte list \<Rightarrow> cx_plain" where
  "plain_of cur = (if cur = [] then cx_slash else if cur = [ch_dot] then cx_dot
     else if cur = [ch_dot, ch_dot] then cx_dot_dot else cx_usual)"

text \<open>Normalising when \<open>cur\<close> has already been read of the first segment.\<close>

definition norm_from :: "bool \<Rightarrow> byte list list \<Rightarrow> byte list \<Rightarrow> byte list \<Rightarrow> byte list option" where
  "norm_from merge stk cur ds = norm_path merge stk ((cur @ hd (segs ds)) # tl (segs ds))"

definition norm_char :: "bool \<Rightarrow> byte list list \<Rightarrow> byte list \<Rightarrow> byte \<Rightarrow> (byte list list \<times> byte list) option" where
  "norm_char merge stk cur c =
     (if c \<noteq> ch_slash then Some (stk, cur @ [c])
      else if cur = [ch_dot] \<or> merge \<and> cur = [] then Some (stk, [])
      else if cur = [ch_dot, ch_dot] then (case stk of [] \<Rightarrow> None | _ # stk' \<Rightarrow> Some (stk', []))
      else Some (cur # stk, []))"

lemma segs_nonempty [simp]: "segs ds \<noteq> []"
  by (induction ds) (auto split: list.split)

lemma norm_from_Nil: "norm_from merge stk cur [] = norm_path merge stk [cur]"
  by (simp add: norm_from_def)

lemma norm_from_Cons: "norm_from merge stk cur (c # ds) =
    (case norm_char merge stk cur c of None \<Rightarrow> None | Some (stk', cur') \<Rightarrow> norm_from merge stk' cur' ds)"
  by (cases "segs ds") (auto simp: norm_from_def norm_char_def split: list.splits)

lemma norm_from_start: "norm_from merge stk [] ds = norm_path merge stk (segs ds)"
  by (simp add: norm_from_def)

section \<open>The relation between the parser and the specification\<close>

definition no_slash :: "byte list \<Rightarrow> bool" where
  "no_slash s \<longleftrightarrow> ch_slash \<notin> set s"

lemma no_slash_Nil [simp]: "no_slash []"
  by (simp add: no_slash_def)

definition cx_rel :: "byte list list \<Rightarrow> byte list \<Rightarrow> cx_plain \<Rightarrow> curi \<Rightarrow> bool" where
  "cx_rel stk cur st r \<longleftrightarrow>
     st = plain_of cur \<and> cx_out r = rev (render_path (rev stk) cur) \<and>
     list_all no_slash stk \<and> no_slash cur"

lemma cx_find_slash_skip: "no_slash s \<Longrightarrow> cx_find_slash (rev s @ u) = cx_find_slash u"
  by (induction s arbitrary: u) (auto simp: no_slash_def)

lemma render_path_snoc: "render_path (ss @ [s]) cur = render_path ss [] @ s @ ch_slash # cur"
  by (simp add: render_path_def)

lemma render_path_rev: "\<exists>u. rev (render_path ss []) = ch_slash # u"
  by (cases ss rule: rev_cases) (simp_all add: render_path_def)

lemma cx_rewind_rel:
  assumes "cx_rel stk [ch_dot, ch_dot] st r"
  shows "cx_rewind r = (case stk of [] \<Rightarrow> None | _ # stk' \<Rightarrow> Some (r\<lparr>cx_out := rev (render_path (rev stk') [])\<rparr>))"
proof (cases stk)
  case Nil
  then show ?thesis using assms by (simp add: cx_rewind_def cx_rel_def render_path_def)
next
  case (Cons s stk')
  obtain u where u: "rev (render_path (rev stk') []) = ch_slash # u" using render_path_rev by blast
  have "drop 3 (cx_out r) = rev s @ rev (render_path (rev stk') [])"
    using assms Cons by (simp add: cx_rel_def render_path_snoc)
  moreover have "no_slash s" using assms Cons by (simp add: cx_rel_def)
  ultimately show ?thesis
    using Cons u by (simp add: cx_rewind_def cx_find_slash_skip)
qed

lemma render_path_append: "render_path ss (cur @ [c]) = render_path ss cur @ [c]"
  by (simp add: render_path_def)

lemma usual_facts: "is_usual c \<Longrightarrow> c \<notin> {ch_slash, ch_dot, ch_pct, ch_quest, ch_hash, ch_plus, ch_nul}"
proof -
  have "\<forall>c. is_usual c \<longrightarrow> c \<notin> {ch_slash, ch_dot, ch_pct, ch_quest, ch_hash, ch_plus, ch_nul}"
    unfolding byte_all_iff by code_simp
  then show "is_usual c \<Longrightarrow> ?thesis" by blast
qed

lemma cx_rel_put:
  assumes "cx_rel stk cur st r" "c \<noteq> ch_slash" "st' = plain_of (cur @ [c])" "cx_out r' = c # cx_out r"
  shows "cx_rel stk (cur @ [c]) st' r'"
  using assms by (simp add: cx_rel_def render_path_append no_slash_def)

lemma plain_of_other:
  "c \<noteq> ch_dot \<Longrightarrow> plain_of (cur @ [c]) = cx_usual"
  by (auto simp: plain_of_def append_eq_Cons_conv)

lemma plain_of_usual_snoc: "plain_of cur = cx_usual \<Longrightarrow> plain_of (cur @ [c]) = cx_usual"
  by (auto simp: plain_of_def append_eq_Cons_conv split: if_splits)

text \<open>A character other than the slash extends the current segment.\<close>

lemma cx_char_rel_put:
  assumes rel: "cx_rel stk cur st r" and "c \<notin> {ch_slash, ch_pct, ch_quest, ch_hash}"
  shows "\<exists>r'. cx_char merge p c st r = Next (Plain (plain_of (cur @ [c])), r') \<and> cx_out r' = c # cx_out r"
proof -
  have st: "st = plain_of cur" using rel by (simp add: cx_rel_def)
  have o: "\<exists>r'. cx_other c r = Next (Plain cx_usual, r') \<and> cx_out r' = c # cx_out r"
    by (simp add: cx_other_def cx_put_def)
  show ?thesis
  proof (cases "c = ch_dot")
    case False
    then show ?thesis
      using assms(2) o plain_of_other [OF False, of cur]
      by (cases st) (auto simp: cx_char_def cx_case_usual_def cx_case_slash_def cx_case_dot_def
          cx_case_dot_dot_def cx_put_def)
  next
    case True
    have nu: "\<not> is_usual ch_dot" using usual_facts [of ch_dot] by auto
    show ?thesis
    proof (cases st)
      case cx_usual
      then have "plain_of (cur @ [c]) = cx_usual" using st plain_of_usual_snoc by simp
      then show ?thesis using nu True cx_usual by (simp add: cx_char_def cx_case_usual_def cx_put_def)
    next
      case cx_slash
      then have "cur = []" using st by (auto simp: plain_of_def split: if_splits)
      then show ?thesis using nu True cx_slash by (simp add: cx_char_def cx_case_slash_def cx_put_def plain_of_def)
    next
      case cx_dot
      then have "cur = [ch_dot]" using st by (auto simp: plain_of_def split: if_splits)
      then show ?thesis using nu True cx_dot by (simp add: cx_char_def cx_case_dot_def cx_put_def plain_of_def)
    next
      case cx_dot_dot
      then have "cur = [ch_dot, ch_dot]" using st by (auto simp: plain_of_def split: if_splits)
      then show ?thesis using nu True cx_dot_dot o
        by (simp add: cx_char_def cx_case_dot_dot_def plain_of_def)
    qed
  qed
qed

lemma not_usual_special:
  "\<not> is_usual ch_slash" "\<not> is_usual ch_quest" "\<not> is_usual ch_hash" "\<not> is_usual ch_pct" "\<not> is_usual ch_dot"
  using usual_facts [of ch_slash] usual_facts [of ch_quest] usual_facts [of ch_hash]
    usual_facts [of ch_pct] usual_facts [of ch_dot] by auto

lemma cx_rel_cases:
  assumes "cx_rel stk cur st r"
  shows "st = cx_slash \<and> cur = [] \<or> st = cx_dot \<and> cur = [ch_dot] \<or> st = cx_dot_dot \<and> cur = [ch_dot, ch_dot] \<or>
    st = cx_usual \<and> cur \<noteq> [] \<and> cur \<noteq> [ch_dot] \<and> cur \<noteq> [ch_dot, ch_dot]"
  using assms by (auto simp: cx_rel_def plain_of_def)

lemma render_path_push: "render_path (rev (cur # stk)) [] = render_path (rev stk) cur @ [ch_slash]"
  by (simp add: render_path_def)

text \<open>The slash closes the current segment.\<close>

lemma cx_char_rel_slash:
  assumes rel: "cx_rel stk cur st r"
  shows "case norm_char merge stk cur ch_slash of
      None \<Rightarrow> \<exists>s'. cx_char merge p ch_slash st r = cx_invalid s'
    | Some (stk', cur') \<Rightarrow> \<exists>r'. cx_char merge p ch_slash st r = Next (Plain cx_slash, r') \<and> cur' = [] \<and>
        cx_rel stk' [] cx_slash r'"
proof -
  have o: "cx_out r = rev (render_path (rev stk) cur)" and ns: "list_all no_slash stk" "no_slash cur"
    using rel by (simp_all add: cx_rel_def)
  from cx_rel_cases [OF rel] show ?thesis
  proof (elim disjE conjE)
    assume "st = cx_slash" "cur = []"
    then show ?thesis using o ns
      by (auto simp: norm_char_def cx_char_def cx_case_slash_def not_usual_special cx_put_def cx_rel_def
          plain_of_def render_path_def)
  next
    assume "st = cx_dot" "cur = [ch_dot]"
    then show ?thesis using o ns
      by (simp add: norm_char_def cx_char_def cx_case_dot_def not_usual_special cx_unput_def cx_rel_def
          plain_of_def render_path_def)
  next
    assume st: "st = cx_dot_dot" and cur: "cur = [ch_dot, ch_dot]"
    have rw: "cx_rewind r = (case stk of [] \<Rightarrow> None | _ # stk' \<Rightarrow> Some (r\<lparr>cx_out := rev (render_path (rev stk') [])\<rparr>))"
      using cx_rewind_rel rel cur by blast
    show ?thesis using st cur ns
      by (cases stk) (simp_all add: rw norm_char_def cx_char_def cx_case_dot_dot_def not_usual_special cx_rel_def
          plain_of_def no_slash_def)
  next
    assume "st = cx_usual" "cur \<noteq> []" "cur \<noteq> [ch_dot]" "cur \<noteq> [ch_dot, ch_dot]"
    moreover have "rev (render_path (rev (cur # stk)) []) = ch_slash # rev (render_path (rev stk) cur)"
      unfolding render_path_push by simp
    ultimately show ?thesis using o ns
      by (simp add: norm_char_def cx_char_def cx_case_usual_def not_usual_special cx_put_def cx_rel_def
          plain_of_def no_slash_def)
  qed
qed

text \<open>A raw question mark or number sign ends the path.\<close>

lemma cx_char_rel_end:
  assumes rel: "cx_rel stk cur st r" and c: "c = ch_quest \<or> c = ch_hash"
  shows "case norm_path merge stk [cur] of
      None \<Rightarrow> \<exists>s'. cx_char merge p c st r = cx_invalid s'
    | Some path \<Rightarrow> \<exists>r'. cx_char merge p c st r = cx_goto st r' \<and> rev (cx_out r') = path"
proof -
  have o: "cx_out r = rev (render_path (rev stk) cur)" using rel by (simp add: cx_rel_def)
  from cx_rel_cases [OF rel] show ?thesis
  proof (elim disjE conjE)
    assume "st = cx_slash" "cur = []"
    then show ?thesis using o c
      by (auto simp: cx_char_def cx_case_slash_def not_usual_special)
  next
    assume "st = cx_dot" "cur = [ch_dot]"
    then show ?thesis using o c
      by (auto simp: cx_char_def cx_case_dot_def not_usual_special cx_unput_def render_path_def)
  next
    assume st: "st = cx_dot_dot" and cur: "cur = [ch_dot, ch_dot]"
    have rw: "cx_rewind r = (case stk of [] \<Rightarrow> None | _ # stk' \<Rightarrow> Some (r\<lparr>cx_out := rev (render_path (rev stk') [])\<rparr>))"
      using cx_rewind_rel rel cur by blast
    show ?thesis using st cur c
      by (cases stk) (auto simp: rw cx_char_def cx_case_dot_dot_def not_usual_special)
  next
    assume "st = cx_usual" "cur \<noteq> []" "cur \<noteq> [ch_dot]" "cur \<noteq> [ch_dot, ch_dot]"
    then show ?thesis using o c
      by (auto simp: cx_char_def cx_case_usual_def not_usual_special)
  qed
qed

lemma hex_digit_range:
  assumes "hex_digit l = Some b"
  shows "if is_digit l then b = l - ch_0 \<and> unat b \<le> 9
    else b = (l OR 0x20) - ch_a + 10 \<and> ch_a \<le> l OR 0x20 \<and> l OR 0x20 \<le> ch_f \<and> 10 \<le> unat b \<and> unat b \<le> 15"
proof -
  have "\<forall>l. case hex_digit l of None \<Rightarrow> True | Some b \<Rightarrow>
     (if is_digit l then b = l - ch_0 \<and> unat b \<le> 9
      else b = (l OR 0x20) - ch_a + 10 \<and> ch_a \<le> l OR 0x20 \<and> l OR 0x20 \<le> ch_f \<and> 10 \<le> unat b \<and> unat b \<le> 15)"
    unfolding byte_all_iff by code_simp
  with assms show ?thesis by (auto dest: spec [of _ l])
qed

lemma nibbles:
  assumes "unat (d::byte) \<le> 15" "unat (b::byte) \<le> 15"
  shows "unat (push_bit 4 d + b) = 16 * unat d + unat b"
proof -
  have "push_bit 4 d = d * 16" by (simp add: push_bit_eq_mult)
  then show ?thesis using assms by (simp add: unat_word_ariths)
qed

lemma low_nibble_digit: "unat (x::byte) mod 16 \<le> 9 \<Longrightarrow> x \<noteq> ch_quest \<and> x \<noteq> ch_plus"
  by auto

lemma low_nibble_letter: "10 \<le> unat (x::byte) mod 16 \<Longrightarrow> x \<noteq> ch_pct \<and> x \<noteq> ch_hash \<and> x \<noteq> ch_nul"
  by auto

lemma quoted_second_eq:
  assumes "hex_digit l = Some b" "unat d \<le> 15"
  shows "cx_case_quoted_second merge p l st d r =
    (let x = push_bit 4 d + b in
     if x = ch_pct \<or> x = ch_hash \<or> x = ch_quest then Next (Plain cx_usual, cx_put x r)
     else if x = ch_nul then cx_invalid (Quoted_second st d, r)
     else cx_char merge p x st (if x = ch_plus then r\<lparr>cx_plus_in_uri := True\<rparr> else r))"
proof -
  note rg = hex_digit_range [OF assms(1)]
  have b: "unat b \<le> 15" using rg by (auto split: if_splits)
  let ?x = "push_bit 4 d + b"
  have lo: "unat ?x mod 16 = unat b" using nibbles [OF assms(2) b] b by simp
  show ?thesis
  proof (cases "is_digit l")
    case True
    then have "unat ?x mod 16 \<le> 9" "b = l - ch_0" using lo rg by auto
    from low_nibble_digit [OF this(1)] this(2) show ?thesis using True \<open>b = l - ch_0\<close> by (simp add: cx_case_quoted_second_def Let_def)
  next
    case False
    then have "10 \<le> unat ?x mod 16" and eq: "b = (l OR 0x20) - ch_a + 10"
      and rng: "ch_a \<le> l OR 0x20" "l OR 0x20 \<le> ch_f" using lo rg by auto
    note n = low_nibble_letter [OF this(1)]
    have x: "push_bit 4 d + ((l OR 0x20) - ch_a) + 10 = ?x" unfolding eq by (simp add: algebra_simps)
    show ?thesis unfolding cx_case_quoted_second_def Let_def x using False rng n by simp
  qed
qed

lemma quoted_second_none:
  "hex_digit l = None \<Longrightarrow> \<exists>s'. cx_case_quoted_second merge p l st d r = cx_invalid s'"
  by (auto simp: hex_digit_def cx_case_quoted_second_def Let_def split: if_splits)

section \<open>The loop computes the specification\<close>

definition cx_result :: "cx_local outcome \<Rightarrow> byte list option" where
  "cx_result oc =
     (case oc of
        Again _ s \<Rightarrow> map_option (\<lambda>r. rev (cx_out r)) (cx_loop_end s)
      | Stopped _ _ s \<Rightarrow> Some (rev (cx_out (snd s)))
      | Failed _ _ \<Rightarrow> None)"

lemma cx_result_Failed: "cx_result (Failed rc s) = None"
  by (simp add: cx_result_def)

lemma cx_loop_end_rel:
  assumes rel: "cx_rel stk cur st r"
  shows "map_option (\<lambda>r. rev (cx_out r)) (cx_loop_end (Plain st, r)) = norm_path merge stk [cur]"
proof -
  have o: "cx_out r = rev (render_path (rev stk) cur)" using rel by (simp add: cx_rel_def)
  have rw: "cx_rewind r = (case stk of [] \<Rightarrow> None | _ # stk' \<Rightarrow> Some (r\<lparr>cx_out := rev (render_path (rev stk') [])\<rparr>))"
    if "cur = [ch_dot, ch_dot]" using cx_rewind_rel rel that by blast
  from cx_rel_cases [OF rel] show ?thesis
    by (elim disjE conjE; cases stk)
      (simp_all add: cx_loop_end_def o rw cx_unput_def render_path_def)
qed

text \<open>One decoded character, then the rest.\<close>

lemma cx_char_decoded:
  assumes rel: "cx_rel stk cur st r" and "x \<notin> {ch_pct, ch_hash, ch_quest}"
    and IH: "\<And>stk cur st r. cx_rel stk cur st r \<Longrightarrow>
      cx_result (scan (cx_step merge) mem q lim (Plain st, r)) = norm_rest stk cur"
  shows "cx_result (case cx_char merge p x st r of Next s \<Rightarrow> scan (cx_step merge) mem q lim s
      | Stop k rc s \<Rightarrow> Stopped (p' + k) rc s | Fail rc s \<Rightarrow> Failed rc s) =
    (case norm_char merge stk cur x of None \<Rightarrow> None | Some (stk', cur') \<Rightarrow> norm_rest stk' cur')"
proof (cases "x = ch_slash")
  case True
  then show ?thesis
    using cx_char_rel_slash [OF rel, of merge p] IH by (auto simp: cx_result_Failed split: option.splits)
next
  case False
  then obtain r' where r': "cx_char merge p x st r = Next (Plain (plain_of (cur @ [x])), r')" "cx_out r' = x # cx_out r"
    using cx_char_rel_put [OF rel, of x merge p] assms(2) by auto
  then have "cx_rel stk (cur @ [x]) (plain_of (cur @ [x])) r'" using cx_rel_put rel False by blast
  then show ?thesis using r'(1) IH False by (simp add: norm_char_def)
qed

lemma cx_step_Plain: "cx_step merge mem p (Plain st, r) = cx_char merge (p + 1) (mem ! p) st r"
  by (simp add: cx_step_def)

lemma cx_scan_quoted:
  assumes "p < lim" "mem ! p = ch_pct"
  shows "scan (cx_step merge) mem p lim (Plain st, r) = scan (cx_step merge) mem (Suc p) lim (Quoted st, r)"
proof -
  have "cx_char merge (p + 1) ch_pct st r = Next (Quoted st, r)"
    by (cases st) (simp_all add: cx_char_def cx_case_usual_def cx_case_slash_def cx_case_dot_def
        cx_case_dot_dot_def not_usual_special)
  then show ?thesis using assms by (simp add: scan_Next cx_step_def)
qed

lemma cx_scan_hex:
  assumes "p < lim" "hex_digit (mem ! p) = Some d"
  shows "scan (cx_step merge) mem p lim (Quoted st, r) =
    scan (cx_step merge) mem (Suc p) lim (Quoted_second st d, r\<lparr>cx_quoted_uri := True\<rparr>)"
  using assms by (simp add: scan_Next cx_step_def Let_def)

lemma cx_scan_bad:
  assumes "p < lim" "hex_digit (mem ! p) = None"
  shows "cx_result (scan (cx_step merge) mem p lim (Quoted st, r)) = None"
    "cx_result (scan (cx_step merge) mem p lim (Quoted_second st d, r)) = None"
proof -
  show "cx_result (scan (cx_step merge) mem p lim (Quoted st, r)) = None"
    using assms by (simp add: cx_result_def cx_step_def scan.simps [of _ _ p] Let_def)
  obtain s' where "cx_case_quoted_second merge (p + 1) (mem ! p) st d r = cx_invalid s'"
    using quoted_second_none [OF assms(2)] by blast
  then show "cx_result (scan (cx_step merge) mem p lim (Quoted_second st d, r)) = None"
    using assms by (simp add: cx_result_def cx_step_def scan.simps [of _ _ p] Let_def)
qed

lemma cx_scan_end:
  "cx_result (Again p (Quoted st, r)) = None" "cx_result (Again p (Quoted_second st d, r)) = None"
  by (simp_all add: cx_result_def cx_loop_end_def)

lemma cx_scan_step: "p < lim \<Longrightarrow> scan f mem p lim s = (case f mem p s of Next s' \<Rightarrow> scan f mem (Suc p) lim s'
    | Stop k rc s' \<Rightarrow> Stopped (p + k) rc s' | Fail rc s' \<Rightarrow> Failed rc s')"
  by (simp add: scan.simps [of f mem p])

lemma cx_scan_decoded:
  assumes rel: "cx_rel stk cur st r" and "p < lim" "hex_digit (mem ! p) = Some b" "unat d \<le> 15"
    and IH: "\<And>stk cur st r. cx_rel stk cur st r \<Longrightarrow>
      cx_result (scan (cx_step merge) mem (Suc p) lim (Plain st, r)) = norm_rest stk cur"
  shows "cx_result (scan (cx_step merge) mem p lim (Quoted_second st d, r)) =
    (let x = push_bit 4 d + b in
     if x = 0 then None
     else case norm_char merge stk cur x of None \<Rightarrow> None | Some (stk', cur') \<Rightarrow> norm_rest stk' cur')"
proof -
  define x where "x = push_bit 4 d + b"
  let ?r = "if x = ch_plus then r\<lparr>cx_plus_in_uri := True\<rparr> else r"
  have rel': "cx_rel stk cur st ?r" using rel by (simp add: cx_rel_def)
  have eq: "cx_step merge mem p (Quoted_second st d, r) =
      (if x = ch_pct \<or> x = ch_hash \<or> x = ch_quest then Next (Plain cx_usual, cx_put x r)
       else if x = ch_nul then cx_invalid (Quoted_second st d, r) else cx_char merge (p + 1) x st ?r)"
    using quoted_second_eq [OF assms(3,4), of merge "p + 1" st r] by (simp add: cx_step_def x_def Let_def)
  show ?thesis
  proof (cases "x = ch_pct \<or> x = ch_hash \<or> x = ch_quest")
    case True
    then have "x \<noteq> ch_slash" "x \<noteq> 0" "plain_of (cur @ [x]) = cx_usual"
      by (auto simp: plain_of_other)
    then have "cx_rel stk (cur @ [x]) cx_usual (cx_put x r)"
      using rel by (intro cx_rel_put) (auto simp: cx_put_def)
    then show ?thesis
      using True eq assms(2) IH \<open>x \<noteq> ch_slash\<close> \<open>x \<noteq> 0\<close>
      by (simp add: cx_scan_step norm_char_def x_def [symmetric] Let_def)
  next
    case False
    then have "x \<notin> {ch_pct, ch_hash, ch_quest}" by simp
    note dec = cx_char_decoded [OF rel' this, of merge mem "Suc p" lim norm_rest p "p + 1", OF IH]
    show ?thesis
      using False eq assms(2) dec
      by (auto simp: cx_scan_step x_def [symmetric] Let_def cx_result_Failed)
  qed
qed

lemma hex_digit_15: "hex_digit h = Some d \<Longrightarrow> unat d \<le> 15"
  using hex_digit_le [of h d] by (simp add: word_le_nat_alt)

lemma slice_ConsD:
  assumes "slice mem p lim = c # cs" "lim \<le> length mem"
  shows "p < lim \<and> mem ! p = c \<and> slice mem (Suc p) lim = cs"
proof -
  have "p < lim" using assms by (cases "p < lim") (auto simp: slice_def)
  then show ?thesis using assms by (simp add: slice_Cons)
qed

lemma cx_scan_nul:
  assumes "p < lim" "hex_digit (mem ! p) = Some b" "unat d \<le> 15" "push_bit 4 d + b = 0"
  shows "cx_result (scan (cx_step merge) mem p lim (Quoted_second st d, r)) = None"
proof -
  have "cx_step merge mem p (Quoted_second st d, r) = cx_invalid (Quoted_second st d, r)"
    using quoted_second_eq [OF assms(2,3), of merge "p + 1" st r] assms(4) by (simp add: cx_step_def Let_def)
  then show ?thesis using assms(1) by (simp add: scan_Fail cx_result_Failed)
qed

lemma slice_NilD: "slice mem p lim = [] \<Longrightarrow> lim \<le> length mem \<Longrightarrow> \<not> p < lim"
  by (auto simp: slice_Cons)

text \<open>What one escape contributes, then the rest.\<close>

definition norm_escape ::
  "bool \<Rightarrow> byte list list \<Rightarrow> byte list \<Rightarrow> byte option \<Rightarrow> (byte list list \<Rightarrow> byte list \<Rightarrow> byte list option) \<Rightarrow> byte list option" where
  "norm_escape merge stk cur e norm_rest =
     (case e of None \<Rightarrow> None
      | Some x \<Rightarrow> (case norm_char merge stk cur x of None \<Rightarrow> None | Some (stk', cur') \<Rightarrow> norm_rest stk' cur'))"

lemma cx_scan_second:
  assumes rel: "cx_rel stk cur st r" and lim: "lim \<le> length mem" and sl: "slice mem p lim = cs"
    and h: "hex_digit h = Some d"
    and IH: "\<And>l cs' x stk cur st r. cs = l # cs' \<Longrightarrow> hex_pair h l = Some x \<Longrightarrow> cx_rel stk cur st r \<Longrightarrow>
      cx_result (scan (cx_step merge) mem (Suc p) lim (Plain st, r)) = norm_rest cs' stk cur"
  shows "cx_result (scan (cx_step merge) mem p lim (Quoted_second st d, r)) =
    (case cs of [] \<Rightarrow> None | l # cs' \<Rightarrow> norm_escape merge stk cur (hex_pair h l) (norm_rest cs'))"
proof (cases cs)
  case Nil
  then show ?thesis using slice_NilD [of mem p lim] sl lim by (simp add: cx_scan_end)
next
  case (Cons l cs')
  have l: "p < lim" "mem ! p = l" using slice_ConsD [of mem p lim l cs'] sl lim Cons by auto
  show ?thesis
  proof (cases "hex_digit l")
    case None
    then show ?thesis using cx_scan_bad(2) [of p lim mem merge st d r] l Cons h
      by (simp add: hex_pair_def norm_escape_def)
  next
    case (Some b)
    define x where "x = push_bit 4 d + b"
    have hp: "hex_pair h l = (if x = 0 then None else Some x)"
      using Some h by (simp add: hex_pair_def x_def Let_def)
    show ?thesis
    proof (cases "x = 0")
      case True
      then show ?thesis using cx_scan_nul [of p lim mem b d merge st r] l Some hex_digit_15 [OF h] hp Cons
        by (simp add: x_def norm_escape_def)
    next
      case False
      then have "cx_result (scan (cx_step merge) mem (Suc p) lim (Plain st, r)) = norm_rest cs' stk cur"
        if "cx_rel stk cur st r" for stk cur st r
        using IH [OF Cons _ that] hp by simp
      then show ?thesis
        using cx_scan_decoded [OF rel l(1) _ hex_digit_15 [OF h], where b = b and mem = mem
            and merge = merge and norm_rest = "norm_rest cs'"] l Some hp Cons False
        by (simp add: x_def [symmetric] Let_def norm_escape_def)
    qed
  qed
qed

lemma cx_scan_first:
  assumes rel: "cx_rel stk cur st r" and lim: "lim \<le> length mem" and sl: "slice mem p lim = cs"
    and IH: "\<And>h l cs' x stk cur st r. cs = h # l # cs' \<Longrightarrow> hex_pair h l = Some x \<Longrightarrow> cx_rel stk cur st r \<Longrightarrow>
      cx_result (scan (cx_step merge) mem (Suc (Suc p)) lim (Plain st, r)) = norm_rest cs' stk cur"
  shows "cx_result (scan (cx_step merge) mem p lim (Quoted st, r)) =
    (case cs of h # l # cs' \<Rightarrow> norm_escape merge stk cur (hex_pair h l) (norm_rest cs') | _ \<Rightarrow> None)"
proof (cases cs)
  case Nil
  then show ?thesis using slice_NilD [of mem p lim] sl lim by (simp add: cx_scan_end)
next
  case (Cons h cs1)
  have h: "p < lim" "mem ! p = h" "slice mem (Suc p) lim = cs1"
    using slice_ConsD [of mem p lim h cs1] sl lim Cons by auto
  show ?thesis
  proof (cases "hex_digit h")
    case None
    then show ?thesis using cx_scan_bad(1) [of p lim mem merge st r] h Cons
      by (simp add: hex_pair_def norm_escape_def split: list.split)
  next
    case (Some d)
    have "cx_rel stk cur st (r\<lparr>cx_quoted_uri := True\<rparr>)" using rel by (simp add: cx_rel_def)
    note sec = cx_scan_second [OF this lim h(3) Some, of merge norm_rest]
    show ?thesis
      using sec IH Cons cx_scan_hex [of p lim mem d merge st r] h(1,2) Some
      by (auto split: list.split)
  qed
qed

lemma cx_scan_spec:
  assumes "cx_rel stk cur st r" "lim \<le> length mem" "slice mem p lim = bs"
  shows "cx_result (scan (cx_step merge) mem p lim (Plain st, r)) =
    (case url_decode bs of None \<Rightarrow> None | Some (ds, _) \<Rightarrow> norm_from merge stk cur ds)"
  using assms
proof (induction bs arbitrary: p stk cur st r rule: url_decode.induct)
  case 1
  then show ?case using cx_loop_end_rel [OF 1(1), of merge] slice_NilD [of mem p lim]
    by (simp add: cx_result_def norm_from_Nil)
next
  case (2 c cs)
  note c = slice_ConsD [OF "2.prems"(3,2)]
  let ?rest = "\<lambda>cs stk cur. case url_decode cs of None \<Rightarrow> None | Some (ds, _) \<Rightarrow> norm_from merge stk cur ds"
  consider (stop) "c = ch_quest \<or> c = ch_hash" | (pct) "c = ch_pct" | (char) "c \<notin> {ch_pct, ch_hash, ch_quest}"
    by blast
  then show ?case
  proof cases
    case stop
    then show ?thesis
      using cx_char_rel_end [OF "2.prems"(1) stop, of merge "p + 1"] c
      by (auto simp: cx_scan_step cx_step_def cx_result_def norm_from_Nil split: option.splits)
  next
    case char
    have IH: "cx_result (scan (cx_step merge) mem (Suc p) lim (Plain st, r)) = ?rest cs stk cur"
      if "cx_rel stk cur st r" for stk cur st r
      using "2.IH"(2) [OF _ _ that, of "Suc p"] char c "2.prems"(2) by auto
    show ?thesis
      using cx_char_decoded [OF "2.prems"(1) char, of merge mem "Suc p" lim "?rest cs" p "p + 1"] IH char c
      by (auto simp: cx_scan_step cx_step_Plain norm_from_Cons split: option.splits)
  next
    case pct
    have IH: "cx_result (scan (cx_step merge) mem (Suc (Suc (Suc p))) lim (Plain st, r)) = ?rest cs' stk cur"
      if "cs = h # l # cs'" "hex_pair h l = Some x" "cx_rel stk cur st r" for h l cs' x stk cur st r
    proof -
      have "slice mem (Suc (Suc (Suc p))) lim = cs'"
        using slice_ConsD [of mem "Suc p" lim h "l # cs'"] slice_ConsD [of mem "Suc (Suc p)" lim l cs']
          c that(1) "2.prems"(2) by auto
      then show ?thesis
        using "2.IH"(1) [OF _ pct that(1) refl that(2,3)] pct "2.prems"(2) by simp
    qed
    show ?thesis
      using cx_scan_first [OF "2.prems"(1,2), of "Suc p" cs merge ?rest] IH c pct cx_scan_quoted [of p lim mem merge st r]
      by (auto simp: norm_escape_def norm_from_Cons split: list.splits option.splits)
  qed
qed

section \<open>Shape of the normalised path\<close>

definition dot_free :: "byte list \<Rightarrow> bool" where
  "dot_free s \<longleftrightarrow> s \<noteq> [ch_dot] \<and> s \<noteq> [ch_dot, ch_dot] \<and> no_slash s"

lemma norm_path_shape:
  assumes "norm_path merge stk ss = Some path" "list_all no_slash ss" "list_all dot_free stk"
    and "merge \<Longrightarrow> [] \<notin> set stk"
  shows "\<exists>ts t. path = render_path ts t \<and> list_all dot_free (t # ts) \<and> (merge \<longrightarrow> [] \<notin> set ts)"
  using assms
proof (induction merge stk ss rule: norm_path.induct)
  case (2 merge stk s)
  show ?case
  proof (cases "s = [ch_dot, ch_dot]")
    case True
    with 2 obtain t stk' where "stk = t # stk'" "path = render_path (rev stk') []"
      by (auto split: list.splits)
    with 2 show ?thesis
      by (intro exI [of _ "rev stk'"] exI [of _ "[]"]) (auto simp: dot_free_def list_all_iff)
  next
    case False
    with 2 have "path = render_path (rev stk) (if s = [ch_dot] then [] else s)"
      by (auto split: if_splits)
    with 2 False show ?thesis
      by (intro exI [of _ "rev stk"] exI [of _ "if s = [ch_dot] then [] else s"])
        (auto simp: dot_free_def list_all_iff)
  qed
next
  case (3 merge stk s s' ss)
  show ?case
  proof (cases "s = [ch_dot] \<or> merge \<and> s = []")
    case True
    with 3 show ?thesis by auto
  next
    case keep: False
    show ?thesis
    proof (cases "s = [ch_dot, ch_dot]")
      case True
      with 3 keep show ?thesis by (cases stk) auto
    next
      case False
      moreover have "dot_free s" using 3(5) keep False by (auto simp: dot_free_def)
      ultimately show ?thesis using 3 keep by auto
    qed
  qed
qed simp

lemma segs_no_slash: "list_all no_slash (segs ds)"
  by (induction ds) (auto simp: no_slash_def split: list.split)

lemma norm_path_bytes:
  assumes "norm_path merge stk ss = Some path"
  shows "set path \<subseteq> insert ch_slash (\<Union> (set ` set stk) \<union> \<Union> (set ` set ss))"
  using assms
proof (induction merge stk ss rule: norm_path.induct)
  case (2 merge stk s)
  then show ?case by (cases stk) (auto simp: render_path_def split: if_splits)
next
  case (3 merge stk s s' ss)
  show ?case
  proof (cases "s = [ch_dot, ch_dot]")
    case True
    with 3 show ?thesis by (cases stk) (fastforce split: if_splits)+
  next
    case False
    with 3 show ?thesis by (cases "s = [ch_dot] \<or> merge \<and> s = []") fastforce+
  qed
qed simp

lemma segs_bytes: "\<Union> (set ` set (segs ds)) \<subseteq> set ds"
proof (induction ds)
  case (Cons c ds)
  then show ?case by (cases "segs ds") auto
qed simp

lemma hex_pair_nonzero: "hex_pair h l = Some d \<Longrightarrow> d \<noteq> 0"
  by (auto simp: hex_pair_def Let_def split: option.splits if_splits)

lemma url_decode_bytes:
  assumes "url_decode bs = Some (ds, rest)" "0 \<notin> set bs"
  shows "0 \<notin> set ds"
  using assms
proof (induction bs arbitrary: ds rule: url_decode.induct)
  case (2 c cs)
  show ?case
  proof (cases "c = ch_pct")
    case True
    with "2.prems" obtain h l cs' d ds' where d: "cs = h # l # cs'" "hex_pair h l = Some d"
      "url_decode cs' = Some (ds', rest)" "ds = d # ds'"
      by (auto split: list.splits option.splits)
    then have "0 \<notin> set ds'" using "2.IH"(1) [OF _ True d(1) refl d(2)] "2.prems" True by auto
    then show ?thesis using d hex_pair_nonzero [OF d(2)] by simp
  next
    case False
    with 2 show ?thesis by (auto split: if_splits)
  qed
qed auto

section \<open>The result of the function\<close>

lemma cx_args_uri: "up_uri (cx_args mem p uri_end u) = up_uri u"
proof (induction mem p uri_end u rule: cx_args.induct)
  case (1 mem p uri_end u)
  then show ?case by (simp add: cx_args.simps [of mem p])
qed

lemma parse_complex_result:
  "map_option up_uri (ngx_http_parse_complex_uri merge mem a b e pl qu) =
    cx_result (scan (cx_step merge) mem a b (Plain cx_usual,
      \<lparr>cx_out = (if e then [ch_slash] else []), cx_uri_ext = None, cx_args_start = None,
       cx_plus_in_uri = pl, cx_quoted_uri = qu\<rparr>))"
  by (auto simp: ngx_http_parse_complex_uri_def cx_result_def Let_def cx_parts_def cx_args_uri
      option.map_comp comp_def split: outcome.split)

lemma complex_uri_spec:
  assumes "a < b" "b \<le> length mem" "mem ! a = ch_slash"
  shows "map_option up_uri (ngx_http_parse_complex_uri merge mem a b False pl qu) =
    (case url_decode (slice mem (Suc a) b) of
       None \<Rightarrow> None
     | Some (ds, _) \<Rightarrow> norm_path merge [] (segs ds))"
proof -
  let ?r = "\<lparr>cx_out = [], cx_uri_ext = None, cx_args_start = None, cx_plus_in_uri = pl, cx_quoted_uri = qu\<rparr>"
  let ?r' = "cx_put ch_slash ?r"
  have "cx_step merge mem a (Plain cx_usual, ?r) = Next (Plain cx_slash, ?r')"
    using assms by (simp add: cx_step_Plain cx_char_def cx_case_usual_def not_usual_special cx_put_def)
  then have "scan (cx_step merge) mem a b (Plain cx_usual, ?r) = scan (cx_step merge) mem (Suc a) b (Plain cx_slash, ?r')"
    using assms by (simp add: scan_Next)
  moreover have "cx_rel [] [] cx_slash ?r'"
    by (simp add: cx_rel_def plain_of_def render_path_def cx_put_def)
  ultimately show ?thesis
    using cx_scan_spec [OF _ assms(2) refl, of "[]" "[]" cx_slash ?r' merge "Suc a"]
    by (simp add: parse_complex_result norm_from_start split: option.split)
qed

section \<open>The output never outruns the input\<close>

lemma cx_find_slash_length: "cx_find_slash u = Some u' \<Longrightarrow> length u' \<le> length u"
  by (induction u) (auto split: if_splits)

lemma cx_rewind_length: "cx_rewind r = Some r' \<Longrightarrow> length (cx_out r') \<le> length (cx_out r)"
  by (auto simp: cx_rewind_def dest!: cx_find_slash_length)

lemma cx_char_length:
  "cx_char merge p c st r = Next s' \<Longrightarrow> length (cx_out (snd s')) \<le> Suc (length (cx_out r))"
  "cx_char merge p c st r = Stop k rc s' \<Longrightarrow> length (cx_out (snd s')) \<le> length (cx_out r)"
  by (cases st; auto simp: cx_char_def cx_case_usual_def cx_case_slash_def cx_case_dot_def cx_case_dot_dot_def
      cx_other_def cx_put_def cx_unput_def split: if_splits option.splits dest: cx_rewind_length)+

lemma cx_quoted_length:
  "cx_case_quoted_second merge p c st d r = Next s' \<Longrightarrow> length (cx_out (snd s')) \<le> Suc (length (cx_out r))"
  "cx_case_quoted_second merge p c st d r = Stop k rc s' \<Longrightarrow> length (cx_out (snd s')) \<le> length (cx_out r)"
  by (auto simp: cx_case_quoted_second_def Let_def cx_put_def split: if_splits dest!: cx_char_length)

lemma cx_step_length:
  "cx_step merge mem p s = Next s' \<Longrightarrow> length (cx_out (snd s')) \<le> Suc (length (cx_out (snd s)))"
  "cx_step merge mem p s = Stop k rc s' \<Longrightarrow> length (cx_out (snd s')) \<le> length (cx_out (snd s))"
  by (auto simp: cx_step_def Let_def split: cx_state.splits option.splits dest: cx_char_length cx_quoted_length)

lemma cx_char_stop:
  "cx_char merge p c st r = Stop k rc s' \<Longrightarrow> k = 1 \<and> (cx_args_start (snd s') = Some p \<or> cx_args_start (snd s') = cx_args_start r)"
  by (cases st; auto simp: cx_char_def cx_case_usual_def cx_case_slash_def cx_case_dot_def cx_case_dot_dot_def
      cx_other_def cx_put_def cx_unput_def cx_rewind_def split: if_splits option.splits)

interpretation cx: invariant_machine "cx_step merge"
  "\<lambda>mem p s. a \<le> p \<and> length (cx_out (snd s)) \<le> p - a + e"
  "\<lambda>mem q rc s. length (cx_out (snd s)) \<le> q - a + e" for merge a e
proof
  show "a \<le> Suc p \<and> length (cx_out (snd s')) \<le> Suc p - a + e"
    if "a \<le> p \<and> length (cx_out (snd s)) \<le> p - a + e" "cx_step merge mem p s = Next s'" for mem p s s'
    using that cx_step_length(1) [of merge mem p s s'] by auto
  show "length (cx_out (snd s')) \<le> p + k - a + e"
    if "a \<le> p \<and> length (cx_out (snd s)) \<le> p - a + e" "cx_step merge mem p s = Stop k rc s'" for mem p s k rc s'
    using that cx_step_length(2) [of merge mem p s k rc s'] by auto
qed

interpretation cx: incremental "cx_step merge" for merge
  by unfold_locales (simp add: cx_step_def Let_def)

section \<open>Properties\<close>

text \<open>
  C2: The one-pass parser computes its two-pass specification. For a URI that begins with a
  slash, \<open>ngx_http_parse_complex_uri\<close> fails exactly when an escape is malformed or
  encodes NUL or when the path climbs above the root, and otherwise \<open>r->uri\<close> holds
  the percent-decoded path with its dot segments removed (and its empty segments too, when
  \<open>merge_slashes\<close> is on), escaped dots and slashes counting as dots and slashes.
\<close>

theorem complex_uri_normalizes:
  assumes "uri_start < uri_end" "uri_end \<le> length mem" "mem ! uri_start = ch_slash"
  shows "map_option up_uri (ngx_http_parse_complex_uri merge_slashes mem uri_start uri_end False pl qu) =
    (case url_decode (slice mem (Suc uri_start) uri_end) of
       None \<Rightarrow> None
     | Some (ds, _) \<Rightarrow> norm_path merge_slashes [] (segs ds))"
  using assms by (rule complex_uri_spec)

theorem complex_uri_normalizes_witness:
  "map_option up_uri (ngx_http_parse_complex_uri True [ch_slash, ch_a, ch_slash, ch_pct, ch_2, ch_e, ch_dot, ch_slash, ch_b]
      0 9 False False False) = Some [ch_slash, ch_b]"
proof -
  let ?m = "[ch_slash, ch_a, ch_slash, ch_pct, ch_2, ch_e, ch_dot, ch_slash, ch_b]"
  have "(case url_decode (slice ?m (Suc 0) 9) of None \<Rightarrow> None
     | Some (ds, _) \<Rightarrow> norm_path True [] (segs ds)) = Some [ch_slash, ch_b]"
    by code_simp
  then show ?thesis using complex_uri_normalizes [of 0 9 ?m True False False] by simp
qed

text \<open>
  A normalised URI is safe to append to a directory name: it begins with a slash, none
  of its segments is \<open>.\<close> or \<open>..\<close>, none but the last is empty when slashes are
  merged, and it holds no NUL when the request had none.
\<close>

theorem complex_uri_safe:
  assumes "uri_start < uri_end" "uri_end \<le> length mem" "mem ! uri_start = ch_slash"
    and "0 \<notin> set mem"
    and "ngx_http_parse_complex_uri merge_slashes mem uri_start uri_end False pl qu = Some u"
  shows "\<exists>ts t. up_uri u = render_path ts t \<and>
    list_all (\<lambda>s. s \<noteq> [ch_dot] \<and> s \<noteq> [ch_dot, ch_dot] \<and> ch_slash \<notin> set s) (t # ts) \<and>
    (merge_slashes \<longrightarrow> [] \<notin> set ts) \<and> 0 \<notin> set (up_uri u)"
proof -
  obtain ds rest where ds: "url_decode (slice mem (Suc uri_start) uri_end) = Some (ds, rest)"
    "norm_path merge_slashes [] (segs ds) = Some (up_uri u)"
    using complex_uri_spec [OF assms(1-3), of merge_slashes pl qu] assms(5)
    by (auto split: option.splits)
  have "0 \<notin> set (slice mem (Suc uri_start) uri_end)"
    using assms(4) by (auto simp: slice_def dest: in_set_takeD in_set_dropD)
  then have "0 \<notin> set ds" by (rule url_decode_bytes [OF ds(1)])
  moreover have "set (up_uri u) \<subseteq> insert ch_slash (set ds)"
    using norm_path_bytes [OF ds(2)] segs_bytes [of ds] by auto
  ultimately have "0 \<notin> set (up_uri u)" by auto
  moreover obtain ts t where "up_uri u = render_path ts t" "list_all dot_free (t # ts)" "merge_slashes \<longrightarrow> [] \<notin> set ts"
    using norm_path_shape [OF ds(2) segs_no_slash] by auto
  ultimately show ?thesis
    by (intro exI [of _ ts] exI [of _ t]) (simp add: dot_free_def no_slash_def list_all_iff)
qed

theorem complex_uri_safe_witness:
  "\<exists>u. ngx_http_parse_complex_uri True [ch_slash, ch_slash, ch_dot, ch_slash, ch_a] 0 5 False False False = Some u \<and>
     (\<exists>ts t. up_uri u = render_path ts t \<and> 0 \<notin> set (up_uri u))"
proof -
  let ?m = "[ch_slash, ch_slash, ch_dot, ch_slash, ch_a]"
  have "ngx_http_parse_complex_uri True ?m 0 5 False False False \<noteq> None" by code_simp
  then obtain u where u: "ngx_http_parse_complex_uri True ?m 0 5 False False False = Some u" by blast
  show ?thesis using complex_uri_safe [OF _ _ _ _ u] u by auto
qed

end
