(* ===== verification/Http_Process_Uri.thy ===== *)
theory Http_Process_Uri
  imports Http_Complex_Uri
begin

text \<open>
  \<open>ngx_http_process_request_uri\<close> of \<open>src/http/ngx_http_request.c\<close>: it allocates the
  buffer of the normalised URI and calls the slow parser when the fast parsers could not
  vouch for the URI. The theorems show that the slow parser stays inside that buffer and
  that skipping it changes nothing.
\<close>

section \<open>The caller\<close>

text \<open>
  \<open>ngx_http_process_request_uri\<close>: the bytes of \<open>r->uri\<close>, \<open>r->exten\<close> and
  \<open>r->args\<close> for a request whose line or path has been parsed; \<open>None\<close> is the answer
  400. The buffer of \<open>r->uri\<close> has \<open>uri_len\<close> bytes.
\<close>

definition uri_len :: "request \<Rightarrow> nat" where
  "uri_len r = (case rq_args_start r of
      Some a \<Rightarrow> a - 1 - rq_uri_start r
    | None \<Rightarrow> rq_uri_end r - rq_uri_start r)"

definition uri_buffer_len :: "request \<Rightarrow> nat" where
  "uri_buffer_len r = uri_len r + (if rq_empty_path_in_uri r then 1 else 0)"

definition process_args :: "nat \<Rightarrow> uri_parts \<Rightarrow> uri_parts" where
  "process_args uri_end u =
     (case up_args_start u of
        Some a \<Rightarrow> if uri_end > a then u\<lparr>up_args := Some (a, uri_end)\<rparr> else u
      | None \<Rightarrow> u)"

record processed_uri = uri_parts +
  up_unparsed_uri :: "byte list"
  up_valid_unparsed_uri :: bool

definition unparsed :: "byte list \<Rightarrow> request \<Rightarrow> uri_parts \<Rightarrow> processed_uri" where
  "unparsed mem r u = uri_parts.extend u
     (processed_uri.fields (slice mem (rq_uri_start r) (rq_uri_end r)) (\<not> rq_empty_path_in_uri r))"

definition ngx_http_process_request_uri :: "bool \<Rightarrow> byte list \<Rightarrow> request \<Rightarrow> processed_uri option" where
  "ngx_http_process_request_uri merge_slashes mem r =
     map_option (unparsed mem r \<circ> process_args (rq_uri_end r))
       (if rq_complex_uri r \<or> rq_quoted_uri r \<or> rq_empty_path_in_uri r then
          ngx_http_parse_complex_uri merge_slashes mem (rq_uri_start r) (rq_uri_end r)
            (rq_empty_path_in_uri r) (rq_plus_in_uri r) (rq_quoted_uri r)
        else
          Some \<lparr>up_uri = slice mem (rq_uri_start r) (rq_uri_start r + uri_len r),
             up_exten = map_option (\<lambda>e. slice mem e
               (case rq_args_start r of Some a \<Rightarrow> a - 1 | None \<Rightarrow> rq_uri_end r)) (rq_uri_ext r),
             up_args = None, up_args_start = rq_args_start r,
             up_plus_in_uri = rq_plus_in_uri r, up_quoted_uri = rq_quoted_uri r\<rparr>)"

lemma unparsed_fields [simp]:
  "up_uri (unparsed mem r u) = up_uri u" "up_args (unparsed mem r u) = up_args u"
  by (simp_all add: unparsed_def uri_parts.extend_def)

section \<open>Where the arguments start\<close>

text \<open>
  A fast parser that has recorded \<open>args_start\<close> saw a raw question mark there and no
  percent sign before it.
\<close>

fun args_ok :: "byte list \<Rightarrow> nat \<Rightarrow> nat option \<Rightarrow> bool" where
  "args_ok mem uri_start None = True"
| "args_ok mem uri_start (Some a) \<longleftrightarrow> uri_start < a \<and> mem ! (a - 1) = ch_quest \<and>
     ch_pct \<notin> set (slice mem uri_start (a - 1))"

abbreviation rq_args_ok :: "byte list \<Rightarrow> request \<Rightarrow> bool" where
  "rq_args_ok mem r \<equiv> args_ok mem (rq_uri_start r) (rq_args_start r)"

definition no_pct :: "byte list \<Rightarrow> nat \<Rightarrow> nat \<Rightarrow> bool" where
  "no_pct mem p q \<longleftrightarrow> ch_pct \<notin> set (slice mem p q)"

lemma no_pct_Suc: "p \<le> q \<Longrightarrow> q < length mem \<Longrightarrow> no_pct mem p (Suc q) \<longleftrightarrow> no_pct mem p q \<and> mem ! q \<noteq> ch_pct"
  by (auto simp: no_pct_def slice_snoc)

lemma no_pct_single: "p < length mem \<Longrightarrow> no_pct mem p (Suc p) \<longleftrightarrow> mem ! p \<noteq> ch_pct"
  by (simp add: no_pct_Suc) (simp add: no_pct_def)

lemma not_usual_pct: "is_usual ch \<Longrightarrow> ch \<noteq> ch_pct"
  using usual_facts [of ch] by auto

definition rl_args_inv :: "byte list \<Rightarrow> nat \<Rightarrow> rl_local \<Rightarrow> bool" where
  "rl_args_inv mem p s \<longleftrightarrow>
     (if fst s \<in> {rl_after_slash_in_uri, rl_check_uri} then
        rq_args_start (snd s) = None \<and> rq_uri_start (snd s) < p \<and> no_pct mem (rq_uri_start (snd s)) p
      else if fst s \<in> {rl_start, rl_method, rl_spaces_before_uri, rl_schema, rl_schema_slash,
          rl_schema_slash_slash, rl_host_start, rl_host, rl_host_end, rl_host_ip_literal, rl_port}
      then rq_args_start (snd s) = None
      else rq_args_ok mem (snd s))"

lemma rl_args_head:
  assumes "rl_args_inv mem p (st, r)" "p < length mem" "rl_step mem p (st, r) = Next s'"
    and "st \<in> {rl_start, rl_method, rl_spaces_before_uri, rl_schema, rl_schema_slash,
          rl_schema_slash_slash, rl_host_start, rl_host, rl_host_end, rl_host_ip_literal, rl_port}"
  shows "rl_args_inv mem (Suc p) s'"
  using assms
  by (elim insertE; auto simp: rl_step_def rl_args_inv_def rl_case_start_def rl_case_method_def
      rl_case_schema_def rl_case_host_def rl_case_host_end_def rl_case_ip_literal_def rl_case_port_def
      no_pct_single Let_def split: if_splits)

lemma rl_args_uri:
  assumes "rl_args_inv mem p (st, r)" "p < length mem" "rl_step mem p (st, r) = Next s'"
    and "st \<in> {rl_after_slash_in_uri, rl_check_uri}"
  shows "rl_args_inv mem (Suc p) s'"
  using assms not_usual_pct [of "mem ! p"]
  by (elim insertE; auto simp: rl_step_def rl_args_inv_def rl_case_after_slash_def rl_case_check_uri_def
      no_pct_Suc Let_def split: if_splits)
   (auto simp: no_pct_def)

lemma rl_args_tail:
  assumes "rl_args_inv mem p (st, r)" "rl_step mem p (st, r) = Next s'"
    and "st \<in> {rl_uri, rl_http_09, rl_http_H, rl_http_HT, rl_http_HTT, rl_http_HTTP, rl_first_major_digit,
      rl_major_digit, rl_first_minor_digit, rl_minor_digit, rl_spaces_after_digit, rl_almost_done}"
  shows "rl_args_inv mem (Suc p) s'"
  using assms
  by (elim insertE; auto simp: rl_step_def rl_args_inv_def rl_case_uri_def rl_case_http_def
      rl_case_version_def rl_case_end_def Let_def split: if_splits)

lemma rl_args_stop:
  assumes "rl_args_inv mem p (st, r)" "rl_step mem p (st, r) = Stop k rc s'"
  shows "rq_args_ok mem (snd s')"
  using assms
  by (cases st) (auto simp: rl_step_def rl_args_inv_def rl_case_start_def rl_case_method_def
      rl_case_schema_def rl_case_host_def rl_case_host_end_def rl_case_ip_literal_def rl_case_port_def
      rl_case_after_slash_def rl_case_check_uri_def rl_case_uri_def rl_case_http_def
      rl_case_version_def rl_case_end_def rl_done_def Let_def split: if_splits)

lemma rl_args_next:
  assumes "rl_args_inv mem p s" "p < length mem" "rl_step mem p s = Next s'"
  shows "rl_args_inv mem (Suc p) s'"
proof -
  obtain st r where s: "s = (st, r)" by fastforce
  show ?thesis
    using assms rl_args_head [of mem p st r s'] rl_args_uri [of mem p st r s'] rl_args_tail [of mem p st r s']
    unfolding s by (cases st) simp_all
qed

interpretation rla: invariant_machine rl_step rl_args_inv "\<lambda>mem q rc s. rq_args_ok mem (snd s)"
proof
  show "rq_args_ok mem (snd s')"
    if "rl_args_inv mem p s" "p < length mem" "rl_step mem p s = Stop k rc s'" for mem p s k rc s'
    using that rl_args_stop [of mem p "fst s" "snd s" k rc s'] by simp
qed (rule rl_args_next)

section \<open>The slow parser stays inside its buffer\<close>

definition cx_start :: "request \<Rightarrow> curi" where
  "cx_start r = \<lparr>cx_out = (if rq_empty_path_in_uri r then [ch_slash] else []), cx_uri_ext = None,
     cx_args_start = None, cx_plus_in_uri = rq_plus_in_uri r, cx_quoted_uri = rq_quoted_uri r\<rparr>"

lemma cx_char_Plain:
  "cx_char merge p c st r = Next s' \<Longrightarrow> c \<noteq> ch_pct \<Longrightarrow> c \<noteq> ch_quest \<and> (\<exists>st'. fst s' = Plain st')"
  using usual_facts [of c]
  by (cases st; auto simp: cx_char_def cx_case_usual_def cx_case_slash_def cx_case_dot_def
      cx_case_dot_dot_def cx_other_def not_usual_special split: if_splits option.splits)

lemma cx_scan_plain:
  assumes "no_pct mem p m" "m \<le> length mem" "scan (cx_step merge) mem p m (Plain st, r) = Again m' s"
  shows "\<exists>st'. fst s = Plain st'"
  using assms
proof (induction "m - p" arbitrary: p st r)
  case 0
  then show ?case by auto
next
  case (Suc n)
  then have p: "p < m" and n: "n = m - Suc p" by simp_all
  have c: "mem ! p \<noteq> ch_pct" "no_pct mem (Suc p) m"
    using Suc.prems(1,2) p by (auto simp: no_pct_def slice_Cons)
  show ?case
  proof (cases "cx_char merge (p + 1) (mem ! p) st r")
    case (Next s1)
    obtain st' r' where "s1 = (Plain st', r')" using cx_char_Plain [OF Next c(1)] by (cases s1) auto
    then show ?thesis
      using Suc.hyps(1) [OF n c(2) Suc.prems(2), of st' r'] Suc.prems(3) p Next
      by (simp add: cx_scan_step cx_step_Plain)
  qed (use Suc.prems(3) p in \<open>simp_all add: cx_scan_step cx_step_Plain\<close>)
qed

text \<open>The loop never gets past a raw question mark that no escape precedes.\<close>

lemma cx_scan_before_quest:
  assumes "no_pct mem a q" "a \<le> q" "mem ! q = ch_quest" "m \<le> length mem"
    and "scan (cx_step merge) mem a m (Plain st, r) = Again m' s"
  shows "m \<le> q"
proof (rule ccontr)
  assume "\<not> m \<le> q"
  then have q: "q < m" "q \<le> length mem" using assms(4) by simp_all
  have sp: "scan (cx_step merge) mem a m (Plain st, r) =
      (case scan (cx_step merge) mem a q (Plain st, r) of
         Again p' s' \<Rightarrow> scan (cx_step merge) mem p' m s' | oc \<Rightarrow> oc)"
    using scan_split [of a q m "cx_step merge" mem "(Plain st, r)"] assms(2) q by simp
  show False
  proof (cases "scan (cx_step merge) mem a q (Plain st, r)")
    case (Again p' s')
    obtain st' r' where s': "s' = (Plain st', r')"
      using cx_scan_plain [OF assms(1) q(2) Again] by (cases s') auto
    have "p' = q" using scan_Again_pos [OF Again assms(2)] .
    moreover have "cx_char merge (q + 1) ch_quest st' r' \<noteq> Next x" for x
      using cx_char_Plain [of merge "q + 1" ch_quest st' r' x] by auto
    ultimately show False
      using assms(3,5) sp Again s' q
      by (cases "cx_char merge (q + 1) ch_quest st' r'") (simp_all add: cx_scan_step cx_step_Plain)
  qed (use assms(5) sp in simp_all)
qed

text \<open>
  C18: The slow parser stays inside the buffer allocated for it. For every accepted request
  line, after every number of iterations of the parser the bytes written to
  \<open>r->uri.data\<close> are no more than \<open>ngx_http_process_request_uri\<close> allocates, although
  that size leaves out the arguments.
\<close>

theorem complex_uri_in_buffer:
  assumes "lim \<le> length mem"
    and "ngx_http_parse_request_line mem pos lim (rl_start, request_init) = (NGX_OK, q, (st, r))"
    and "rq_uri_start r \<le> m" "m \<le> rq_uri_end r"
    and "scan (cx_step merge_slashes) mem (rq_uri_start r) m (Plain cx_usual, cx_start r) = Again m' s"
  shows "length (cx_out (snd s)) \<le> uri_buffer_len r"
proof -
  let ?a = "rq_uri_start r" and ?e = "if rq_empty_path_in_uri r then 1 else 0 :: nat"
  have sc: "scan rl_step mem pos lim (rl_start, request_init) = Stopped q NGX_OK (st, r)"
    using assms(2) by (auto simp: ngx_http_parse_request_line_def split: outcome.splits
        dest!: scan_Failed_at rl_fail_rc)
  have "rl_args_inv mem pos (rl_start, request_init)" "rl_inv mem pos (rl_start, request_init)"
    by (simp_all add: rl_args_inv_def request_init_def)
  note ok = rla.scan_Stopped [OF this(1) assms(1) sc] and post = rl.scan_Stopped [OF this(2) assms(1) sc]
  have m: "m \<le> length mem" using post assms(4) by (auto simp: rl_post_def)
  have "length (cx_out (cx_start r)) \<le> ?e" by (simp add: cx_start_def)
  then have len: "length (cx_out (snd s)) \<le> m' - ?a + ?e"
    using cx.scan_Again [OF _ m assms(5), of ?a ?e] by (auto split: if_splits)
  have m': "m' = m" using scan_Again_pos [OF assms(5,3)] .
  show ?thesis
  proof (cases "rq_args_start r")
    case None
    then show ?thesis using len m' assms(4) by (simp add: uri_buffer_len_def uri_len_def)
  next
    case (Some x)
    then have "m \<le> x - 1"
      using cx_scan_before_quest [OF _ _ _ m assms(5), of "x - 1"] ok by (auto simp: no_pct_def)
    then show ?thesis using len m' Some by (simp add: uri_buffer_len_def uri_len_def)
  qed
qed

theorem complex_uri_in_buffer_witness:
  "\<exists>q st r m' s. ngx_http_parse_request_line sample_line 0 17 (rl_start, request_init) = (NGX_OK, q, (st, r)) \<and>
     scan (cx_step True) sample_line (rq_uri_start r) (rq_uri_end r) (Plain cx_usual, cx_start r) = Again m' s \<and>
     length (cx_out (snd s)) \<le> uri_buffer_len r"
proof -
  have ev: "case ngx_http_parse_request_line sample_line 0 17 (rl_start, request_init) of (rc, q, (st, r)) \<Rightarrow>
      rc = NGX_OK \<and> rq_uri_start r \<le> rq_uri_end r \<and>
      (case scan (cx_step True) sample_line (rq_uri_start r) (rq_uri_end r) (Plain cx_usual, cx_start r) of
         Again _ _ \<Rightarrow> True | _ \<Rightarrow> False)"
    by code_simp
  obtain rc q st r where p: "ngx_http_parse_request_line sample_line 0 17 (rl_start, request_init) = (rc, q, (st, r))"
    by (metis prod.collapse)
  have rc: "rc = NGX_OK" "rq_uri_start r \<le> rq_uri_end r" using ev unfolding p by simp_all
  obtain m' s where sc: "scan (cx_step True) sample_line (rq_uri_start r) (rq_uri_end r) (Plain cx_usual, cx_start r) = Again m' s"
    using ev unfolding p by (auto split: outcome.splits)
  have "17 \<le> length sample_line"
    by (simp add: sample_line_def render_request_line_def version_tail_def)
  from complex_uri_in_buffer [OF this p [unfolded rc] rc(2) order.refl sc] p sc show ?thesis
    unfolding rc by blast
qed

section \<open>The fast path\<close>

text \<open>
  The bytes after the first slash that the fast parsers let through without raising a
  flag; \<open>b\<close> tells whether a segment starts here.
\<close>

fun fast_path :: "bool \<Rightarrow> byte list \<Rightarrow> bool" where
  "fast_path b [] = True"
| "fast_path b (c # cs) \<longleftrightarrow> c \<notin> {ch_pct, ch_hash, ch_quest} \<and> (b \<longrightarrow> c \<noteq> ch_dot \<and> c \<noteq> ch_slash) \<and>
     fast_path (c = ch_slash) cs"

lemma fast_path_mono: "fast_path True ds \<Longrightarrow> fast_path b ds"
  by (cases ds) auto

lemma norm_fast_path:
  assumes "fast_path (cur = []) ds" "cur = [] \<or> hd cur \<noteq> ch_dot"
  shows "norm_from merge stk cur ds = Some (render_path (rev stk) cur @ ds)"
  using assms
proof (induction ds arbitrary: stk cur)
  case Nil
  then show ?case by (auto simp: norm_from_Nil)
next
  case (Cons c ds)
  show ?case
  proof (cases "c = ch_slash")
    case True
    then have "cur \<noteq> []" "hd cur \<noteq> ch_dot" "fast_path True ds" using Cons.prems by auto
    moreover from this have "norm_char merge stk cur c = Some (cur # stk, [])"
      using True by (auto simp: norm_char_def)
    ultimately show ?thesis
      using Cons.IH [of "[]" "cur # stk"] True by (simp add: norm_from_Cons render_path_def)
  next
    case False
    have "hd (cur @ [c]) \<noteq> ch_dot" using Cons.prems by (cases cur) auto
    moreover have "fast_path False ds" using Cons.prems False by simp
    ultimately show ?thesis
      using Cons.IH [of "cur @ [c]" stk] False by (simp add: norm_from_Cons norm_char_def render_path_def)
  qed
qed

lemma decode_fast_path:
  "fast_path b ds \<Longrightarrow> args = [] \<or> hd args = ch_quest \<Longrightarrow> url_decode (ds @ args) = Some (ds, args)"
proof (induction b ds rule: fast_path.induct)
  case (1 b)
  then show ?case by (cases args) auto
qed auto

text \<open>The flags are never taken back.\<close>

lemma uri_step_flags:
  "uri_step mem p s = Next s' \<Longrightarrow>
   (rq_complex_uri (snd s) \<longrightarrow> rq_complex_uri (snd s')) \<and> (rq_quoted_uri (snd s) \<longrightarrow> rq_quoted_uri (snd s')) \<and>
   rq_uri_start (snd s') = rq_uri_start (snd s) \<and> rq_uri_end (snd s') = rq_uri_end (snd s) \<and>
   rq_empty_path_in_uri (snd s') = rq_empty_path_in_uri (snd s)"
  by (cases "fst s") (auto simp: uri_step_def uri_case_after_slash_def uri_case_check_def Let_def split: if_splits)

lemma uri_scan_flags:
  "scan uri_step mem p lim s = Again q s' \<Longrightarrow>
   (rq_complex_uri (snd s) \<longrightarrow> rq_complex_uri (snd s')) \<and> (rq_quoted_uri (snd s) \<longrightarrow> rq_quoted_uri (snd s')) \<and>
   rq_uri_start (snd s') = rq_uri_start (snd s) \<and> rq_uri_end (snd s') = rq_uri_end (snd s) \<and>
   rq_empty_path_in_uri (snd s') = rq_empty_path_in_uri (snd s)"
proof (induction "lim - p" arbitrary: p s)
  case 0
  then show ?case by auto
next
  case (Suc n)
  then have p: "p < lim" "n = lim - Suc p" by simp_all
  show ?case
  proof (cases "uri_step mem p s")
    case (Next s1)
    then show ?thesis
      using Suc.hyps(1) [OF p(2), of s1] Suc.prems p uri_step_flags [OF Next] by (simp add: scan_Next)
  qed (use Suc.prems p in \<open>simp_all add: scan_Stop scan_Fail\<close>)
qed

text \<open>In the arguments no flag means no fragment.\<close>

lemma uri_scan_args:
  assumes "scan uri_step mem p lim (u_uri, r) = Again q (st, r')" "\<not> rq_complex_uri r'" "lim \<le> length mem"
  shows "ch_hash \<notin> set (slice mem p lim) \<and> rq_args_start r' = rq_args_start r"
  using assms
proof (induction "lim - p" arbitrary: p r)
  case 0
  then show ?case by (auto simp: slice_def)
next
  case (Suc n)
  then have p: "p < lim" "n = lim - Suc p" by simp_all
  have nh: "mem ! p \<noteq> ch_hash"
    using Suc.prems(1,2) p uri_scan_flags [of mem "Suc p" lim "(u_uri, r\<lparr>rq_complex_uri := True\<rparr>)" q "(st, r')"]
    by (auto simp: scan_Next uri_step_def not_usual_special)
  moreover have "\<not> is_ctl_or_space (mem ! p)"
    using uri_step_accept [of "(u_uri, r)" mem p] Suc.prems(1) p by (auto simp: scan_Fail)
  ultimately have "uri_step mem p (u_uri, r) = Next (u_uri, r)"
    by (simp add: uri_step_def Let_def)
  then show ?case
    using Suc.hyps(1) [OF p(2), of r] Suc.prems p nh by (auto simp: scan_Next slice_Cons)
qed

definition fast_split :: "nat \<Rightarrow> bool \<Rightarrow> byte list \<Rightarrow> nat option \<Rightarrow> bool" where
  "fast_split p b bs args_start \<longleftrightarrow>
     (\<exists>ds args. bs = ds @ args \<and> fast_path b ds \<and>
       (args = [] \<and> args_start = None \<or>
        (\<exists>as. args = ch_quest # as \<and> ch_hash \<notin> set as \<and> args_start = Some (p + length ds + 1))))"

lemma fast_split_Cons:
  assumes "fast_split (Suc p) b' cs a" "c \<notin> {ch_pct, ch_hash, ch_quest}"
    and "b \<longrightarrow> c \<noteq> ch_dot \<and> c \<noteq> ch_slash" "b' = (c = ch_slash) \<or> b'"
  shows "fast_split p b (c # cs) a"
proof -
  obtain ds args where ds: "cs = ds @ args" "fast_path b' ds"
    "args = [] \<and> a = None \<or> (\<exists>as. args = ch_quest # as \<and> ch_hash \<notin> set as \<and> a = Some (Suc p + length ds + 1))"
    using assms(1) unfolding fast_split_def by blast
  have "fast_path b (c # ds)" using ds(2) assms(2-4) fast_path_mono by auto
  then show ?thesis unfolding fast_split_def using ds
    by (intro exI [of _ "c # ds"] exI [of _ args]) auto
qed

lemma fast_split_quest:
  "ch_hash \<notin> set as \<Longrightarrow> fast_split p b (ch_quest # as) (Some (Suc p))"
  unfolding fast_split_def by (intro exI [of _ "[]"] exI [of _ "ch_quest # as"]) auto

lemma uri_scan_fast:
  assumes "scan uri_step mem p lim (st, r) = Again q (st', r')" "st = u_after_slash_in_uri \<or> st = u_check_uri"
    and "\<not> rq_complex_uri r'" "\<not> rq_quoted_uri r'" "rq_args_start r = None" "lim \<le> length mem"
  shows "fast_split p (st = u_after_slash_in_uri) (slice mem p lim) (rq_args_start r')"
  using assms
proof (induction "lim - p" arbitrary: p st r)
  case 0
  then show ?case by (auto simp: slice_def fast_split_def)
next
  case (Suc n)
  let ?c = "mem ! p"
  have p: "p < lim" "n = lim - Suc p" using Suc.hyps(2) by simp_all
  have sl: "slice mem p lim = ?c # slice mem (Suc p) lim" using p Suc.prems(6) by (simp add: slice_Cons)
  obtain st1 r1 where nx: "uri_step mem p (st, r) = Next (st1, r1)"
    using uri_step_accept [of "(st, r)" mem p] Suc.prems(1,2) p by (fastforce simp: scan_Fail)
  then have sc: "scan uri_step mem (Suc p) lim (st1, r1) = Again q (st', r')"
    using Suc.prems(1) p by (simp add: scan_Next)
  have fl: "\<not> rq_complex_uri r1" "\<not> rq_quoted_uri r1"
    using uri_scan_flags [OF sc] Suc.prems(3,4) by auto
  show ?case
  proof (cases "?c = ch_quest")
    case True
    then have "st1 = u_uri" "rq_args_start r1 = Some (Suc p)"
      using nx Suc.prems(2) by (auto simp: uri_step_def uri_case_after_slash_def uri_case_check_def
          not_usual_special)
    then show ?thesis
      using uri_scan_args [OF sc [unfolded \<open>st1 = u_uri\<close>] Suc.prems(3,6)] fast_split_quest True sl by simp
  next
    case False
    then have c: "?c \<notin> {ch_pct, ch_hash, ch_quest}"
      "st = u_after_slash_in_uri \<longrightarrow> ?c \<noteq> ch_dot \<and> ?c \<noteq> ch_slash"
      "st1 = u_after_slash_in_uri \<or> st1 = u_check_uri" "rq_args_start r1 = None"
      "?c = ch_slash \<longrightarrow> st1 = u_after_slash_in_uri"
      using nx fl Suc.prems(2,5) by (auto simp: uri_step_def uri_case_after_slash_def uri_case_check_def
          not_usual_special Let_def split: if_splits)
    have "fast_split (Suc p) (st1 = u_after_slash_in_uri) (slice mem (Suc p) lim) (rq_args_start r')"
      by (rule Suc.hyps(1) [OF p(2) sc c(3) Suc.prems(3,4) c(4) Suc.prems(6)])
    then show ?thesis unfolding sl using c by (intro fast_split_Cons) auto
  qed
qed

lemma cx_args_no_hash: "ch_hash \<notin> set (slice mem p uri_end) \<Longrightarrow> uri_end \<le> length mem \<Longrightarrow> cx_args mem p uri_end u = u"
proof (induction mem p uri_end u rule: cx_args.induct)
  case (1 mem p uri_end u)
  show ?case
  proof (cases "p < uri_end")
    case True
    then have "mem ! p \<noteq> ch_hash" "ch_hash \<notin> set (slice mem (Suc p) uri_end)"
      using 1(2,3) slice_Cons [of p uri_end mem] by auto
    then show ?thesis using 1(1) [OF True] 1(3) True by (subst cx_args.simps) simp
  next
    case False
    then show ?thesis by (subst cx_args.simps) simp
  qed
qed

lemma cx_char_no_stop:
  "c \<noteq> ch_quest \<Longrightarrow> c \<noteq> ch_hash \<Longrightarrow> cx_char merge p c st r \<noteq> Stop k rc s'"
  by (cases st; auto simp: cx_char_def cx_case_usual_def cx_case_slash_def cx_case_dot_def cx_case_dot_dot_def
      cx_other_def split: if_splits option.splits)

lemma cx_char_quest:
  "cx_char merge p ch_quest st r = Stop k rc s' \<Longrightarrow> k = 1 \<and> cx_args_start (snd s') = Some p"
  by (cases st; auto simp: cx_char_def cx_case_usual_def cx_case_slash_def cx_case_dot_def cx_case_dot_dot_def
      not_usual_special split: if_splits option.splits)

lemma cx_char_keeps_args:
  "cx_char merge p c st r = Next s' \<Longrightarrow> cx_args_start (snd s') = cx_args_start r"
  by (cases st; auto simp: cx_char_def cx_case_usual_def cx_case_slash_def cx_case_dot_def cx_case_dot_dot_def
      cx_other_def cx_put_def cx_unput_def cx_rewind_def split: if_splits option.splits)

definition plain_bytes :: "byte list \<Rightarrow> bool" where
  "plain_bytes bs \<longleftrightarrow> list_all (\<lambda>c. c \<noteq> ch_pct \<and> c \<noteq> ch_quest \<and> c \<noteq> ch_hash) bs"

lemma cx_scan_plain_bytes:
  assumes "plain_bytes (slice mem p m)" "m \<le> length mem" "p \<le> m"
  shows "(\<exists>st' r'. scan (cx_step merge) mem p m (Plain st, r) = Again m (Plain st', r') \<and> cx_args_start r' = cx_args_start r) \<or>
    (\<exists>rc s. scan (cx_step merge) mem p m (Plain st, r) = Failed rc s)"
  using assms
proof (induction "m - p" arbitrary: p st r)
  case 0
  then show ?case by simp
next
  case (Suc n)
  then have p: "p < m" and n: "n = m - Suc p" by simp_all
  have c: "mem ! p \<noteq> ch_pct" "mem ! p \<noteq> ch_quest" "mem ! p \<noteq> ch_hash" "plain_bytes (slice mem (Suc p) m)"
    using Suc.prems(1,2) p by (auto simp: plain_bytes_def slice_Cons)
  show ?case
  proof (cases "cx_char merge (p + 1) (mem ! p) st r")
    case (Next s1)
    obtain st1 r1 where s1: "s1 = (Plain st1, r1)" using cx_char_Plain [OF Next c(1)] by (cases s1) auto
    then have "cx_args_start r1 = cx_args_start r" using cx_char_keeps_args [OF Next] by simp
    then show ?thesis
      using Suc.hyps(1) [OF n c(4) Suc.prems(2), of st1 r1] p Next s1
      by (simp add: cx_scan_step cx_step_Plain)
  next
    case (Stop k rc s1)
    then show ?thesis using cx_char_no_stop c by blast
  qed (use p in \<open>simp add: cx_scan_step cx_step_Plain\<close>)
qed

lemma fast_path_plain: "fast_path b ds \<Longrightarrow> plain_bytes ds"
  by (induction b ds rule: fast_path.induct) (auto simp: plain_bytes_def)

lemma slice_append: "a \<le> q \<Longrightarrow> q \<le> b \<Longrightarrow> slice mem a b = slice mem a q @ slice mem q b"
  using take_add [of "q - a" "b - q" "drop a mem"] by (simp add: slice_def)

lemma slice_appendD:
  assumes "slice mem a b = xs @ ys" "b \<le> length mem" "a \<le> b"
  shows "a + length xs \<le> b \<and> slice mem a (a + length xs) = xs \<and> slice mem (a + length xs) b = ys"
proof -
  have "length xs + length ys = b - a" using assms by (metis length_append length_slice)
  then have q: "a + length xs \<le> b" using assms(3) by simp
  then have "slice mem a (a + length xs) @ slice mem (a + length xs) b = xs @ ys"
    using assms(1) slice_append [of a "a + length xs" b mem] by simp
  moreover have "length (slice mem a (a + length xs)) = length xs" using q assms(2) by simp
  ultimately show ?thesis using q by (simp add: append_eq_append_conv)
qed

lemma cx_loop_end_args: "cx_loop_end s = Some r' \<Longrightarrow> cx_args_start r' = cx_args_start (snd s)"
  by (auto simp: cx_loop_end_def cx_unput_def cx_rewind_def split: cx_state.splits cx_plain.splits)

text \<open>The arguments the slow parser finds are those the fast parser found.\<close>

lemma parse_complex_args:
  assumes b: "b \<le> length mem" "a \<le> b" and sl: "slice mem a b = ds @ args" and pb: "plain_bytes ds"
    and args: "args = [] \<and> x = None \<or> (\<exists>as. args = ch_quest # as \<and> ch_hash \<notin> set as \<and> x = Some (a + length ds + 1))"
    and u: "ngx_http_parse_complex_uri merge mem a b False pl qu = Some u"
  shows "up_args_start u = x \<and> up_args u = None"
proof -
  let ?r = "\<lparr>cx_out = [], cx_uri_ext = None, cx_args_start = None, cx_plus_in_uri = pl, cx_quoted_uri = qu\<rparr>"
  let ?q = "a + length ds" and ?f = "cx_step merge"
  have q: "?q \<le> b" and ds: "slice mem a ?q = ds" "slice mem ?q b = args"
    using slice_appendD [OF sl b] by auto
  have split: "scan ?f mem a b (Plain cx_usual, ?r) =
      (case scan ?f mem a ?q (Plain cx_usual, ?r) of Again q s \<Rightarrow> scan ?f mem q b s | oc \<Rightarrow> oc)"
    using scan_split [of a ?q b ?f mem "(Plain cx_usual, ?r)"] q by simp
  have "\<not> (\<exists>rc s. scan ?f mem a ?q (Plain cx_usual, ?r) = Failed rc s)"
    using u split by (auto simp: ngx_http_parse_complex_uri_def Let_def)
  then obtain st r where r: "scan ?f mem a ?q (Plain cx_usual, ?r) = Again ?q (Plain st, r)" "cx_args_start r = None"
    using cx_scan_plain_bytes [of mem a ?q merge cx_usual ?r] ds pb q b by auto
  show ?thesis
  proof (cases "args = []")
    case True
    then have "?q = b" using q ds(2) b slice_NilD [of mem ?q b] by simp
    then have "map_option cx_parts (cx_loop_end (Plain st, r)) = Some u"
      using u r(1) by (simp add: ngx_http_parse_complex_uri_def Let_def)
    then show ?thesis using cx_loop_end_args [of "(Plain st, r)"] r(2) args True by (auto simp: cx_parts_def)
  next
    case False
    then obtain as where as: "args = ch_quest # as" "ch_hash \<notin> set as" "x = Some (Suc ?q)" using args by auto
    have qb: "?q < b" "mem ! ?q = ch_quest" "slice mem (Suc ?q) b = as"
      using slice_ConsD [of mem ?q b ch_quest as] ds as b by auto
    show ?thesis
    proof (cases "cx_char merge (?q + 1) ch_quest st r")
      case (Next s')
      then show ?thesis using cx_char_Plain [OF Next] by simp
    next
      case (Stop k rc s')
      then show ?thesis
        using u split r as qb cx_char_quest [OF Stop] cx_args_no_hash [of mem "Suc ?q" b] b
        by (auto simp: ngx_http_parse_complex_uri_def Let_def cx_scan_step cx_step_Plain cx_parts_def)
    next
      case (Fail rc s')
      then show ?thesis
        using u split r qb by (simp add: ngx_http_parse_complex_uri_def Let_def cx_scan_step cx_step_Plain)
    qed
  qed
qed

lemma uri_step_no_stop: "uri_step mem p s \<noteq> Stop k rc s'"
  by (cases "fst s") (auto simp: uri_step_def uri_case_after_slash_def uri_case_check_def Let_def split: if_splits)

lemma parse_uri_scan:
  assumes "ngx_http_parse_uri mem r = (NGX_OK, r')"
  shows "\<exists>q st. scan uri_step mem (rq_uri_start r) (rq_uri_end r) (u_start, r) = Again q (st, r')"
proof -
  have fail: "rc = NGX_ERROR" if "uri_step mem p s = Fail rc s'" for p s rc s'
    using that by (cases "fst s") (auto simp: uri_step_def uri_case_after_slash_def uri_case_check_def Let_def
        split: if_splits)
  show ?thesis
    using assms uri_step_no_stop
    by (auto simp: ngx_http_parse_uri_def split: outcome.splits dest!: scan_Stopped_at scan_Failed_at fail)
qed

text \<open>
  C36: Skipping the slow parser changes nothing. When \<open>ngx_http_parse_uri\<close> accepts a URI
  and raises neither \<open>complex_uri\<close> nor \<open>quoted_uri\<close>, the bytes
  \<open>ngx_http_process_request_uri\<close> takes for \<open>r->uri\<close> and \<open>r->args\<close> straight from
  the request are those the slow parser would have produced, whatever
  \<open>merge_slashes\<close> is.
\<close>

theorem fast_path_agrees:
  assumes "rq_uri_start r < rq_uri_end r" "rq_uri_end r \<le> length mem" "rq_args_start r = None"
    and "ngx_http_parse_uri mem r = (NGX_OK, r')"
    and "\<not> rq_complex_uri r'" "\<not> rq_quoted_uri r'" "\<not> rq_empty_path_in_uri r'"
  shows "\<exists>u v. ngx_http_process_request_uri merge_slashes mem r' = Some u \<and>
    ngx_http_parse_complex_uri merge_slashes mem (rq_uri_start r) (rq_uri_end r) False pl qu = Some v \<and>
    up_uri u = up_uri v \<and> up_args u = up_args (process_args (rq_uri_end r) v)"
proof -
  let ?a = "rq_uri_start r" and ?b = "rq_uri_end r"
  obtain q st where sc: "scan uri_step mem ?a ?b (u_start, r) = Again q (st, r')"
    using parse_uri_scan [OF assms(4)] by blast
  have r': "rq_uri_start r' = ?a" "rq_uri_end r' = ?b" using uri_scan_flags [OF sc] by auto
  have slash: "mem ! ?a = ch_slash" using sc assms(1) by (cases "mem ! ?a = ch_slash") (auto simp: scan_Fail uri_step_def)
  then have sc': "scan uri_step mem (Suc ?a) ?b (u_after_slash_in_uri, r) = Again q (st, r')"
    using sc assms(1) by (simp add: scan_Next uri_step_def)
  have "fast_split (Suc ?a) True (slice mem (Suc ?a) ?b) (rq_args_start r')"
    using uri_scan_fast [OF sc' _ assms(5,6,3,2)] by simp
  then obtain ds args where ds: "slice mem (Suc ?a) ?b = ds @ args" "fast_path True ds"
    "args = [] \<and> rq_args_start r' = None \<or>
     (\<exists>as. args = ch_quest # as \<and> ch_hash \<notin> set as \<and> rq_args_start r' = Some (Suc ?a + length ds + 1))"
    unfolding fast_split_def by blast
  have "url_decode (ds @ args) = Some (ds, args)"
    using decode_fast_path [OF ds(2)] ds(3) by auto
  moreover have "norm_path merge_slashes [] (segs ds) = Some (ch_slash # ds)"
    using norm_fast_path [of "[]" ds merge_slashes "[]"] ds(2) by (simp add: norm_from_start render_path_def)
  ultimately have "map_option up_uri (ngx_http_parse_complex_uri merge_slashes mem ?a ?b False pl qu) = Some (ch_slash # ds)"
    using complex_uri_spec [OF assms(1,2) slash, of merge_slashes pl qu] ds(1) by simp
  then obtain v where v: "ngx_http_parse_complex_uri merge_slashes mem ?a ?b False pl qu = Some v" "up_uri v = ch_slash # ds"
    by auto
  have sl: "slice mem ?a ?b = (ch_slash # ds) @ args" using ds(1) slash assms(1,2) by (simp add: slice_Cons)
  have va: "up_args_start v = rq_args_start r' \<and> up_args v = None"
    using parse_complex_args [OF assms(2) _ sl _ _ v(1), of "rq_args_start r'"] fast_path_plain [OF ds(2)] ds(3) assms(1)
    by (auto simp: plain_bytes_def)
  have "slice mem ?a (?a + uri_len r') = ch_slash # ds"
  proof (cases "rq_args_start r'")
    case None
    then show ?thesis using sl ds(3) r' assms(1) by (simp add: uri_len_def)
  next
    case (Some x)
    then have "?a + uri_len r' = ?a + length (ch_slash # ds)" using ds(3) r' by (auto simp: uri_len_def)
    then show ?thesis using slice_appendD [OF sl assms(2)] assms(1) by simp
  qed
  then show ?thesis
    using v va assms(5-7) r'
    by (auto simp: ngx_http_process_request_uri_def process_args_def split: option.splits)
qed

theorem fast_path_agrees_witness:
  "\<exists>r' u v. ngx_http_parse_uri [ch_slash, ch_a, ch_quest, ch_b] (request_init\<lparr>rq_uri_end := 4\<rparr>) = (NGX_OK, r') \<and>
     ngx_http_process_request_uri True [ch_slash, ch_a, ch_quest, ch_b] r' = Some u \<and>
     ngx_http_parse_complex_uri True [ch_slash, ch_a, ch_quest, ch_b] 0 4 False False False = Some v \<and>
     up_uri u = up_uri v"
proof -
  let ?m = "[ch_slash, ch_a, ch_quest, ch_b]" and ?r = "request_init\<lparr>rq_uri_end := 4\<rparr>"
  have ev: "case ngx_http_parse_uri ?m ?r of (rc, r') \<Rightarrow> rc = NGX_OK \<and> \<not> rq_complex_uri r' \<and>
      \<not> rq_quoted_uri r' \<and> \<not> rq_empty_path_in_uri r'"
    by code_simp
  obtain rc r' where p: "ngx_http_parse_uri ?m ?r = (rc, r')" by fastforce
  have f: "rc = NGX_OK" "\<not> rq_complex_uri r'" "\<not> rq_quoted_uri r'" "\<not> rq_empty_path_in_uri r'"
    using ev unfolding p by simp_all
  have "rq_uri_start ?r = 0" "rq_uri_end ?r = 4" "rq_args_start ?r = None" by (simp_all add: request_init_def)
  then show ?thesis
    using fast_path_agrees [OF _ _ _ p [unfolded f(1)] f(2-4), of True False False] p f(1) by auto
qed

end
