(* ===== verification/Http_Header_Line.thy ===== *)
theory Http_Header_Line
  imports Byte_Machine
begin

text \<open>
  \<open>ngx_http_parse_header_line\<close> of \<open>src/http/ngx_http_parse.c\<close>, and the part of
  \<open>ngx_http_process_request_headers\<close> (\<open>src/http/ngx_http_request.c\<close>) that turns a
  parsed line into an element of \<open>headers_in\<close>. The record \<open>header\<close> is the part of
  \<open>ngx_http_request_t\<close> these read and write. The locals \<open>hash\<close> and \<open>i\<close> of the parser
  live in the record while the loop runs; a return that does not store them back leaves
  the caller's values.
\<close>

section \<open>Data\<close>

definition NGX_HTTP_LC_HEADER_LEN :: nat where
  "NGX_HTTP_LC_HEADER_LEN = 32"

datatype hl_state =
    hl_start | hl_name | hl_space_before_value | hl_value | hl_space_after_value
  | hl_ignore_line | hl_almost_done | hl_header_almost_done

record header =
  hl_invalid_header :: bool
  hl_header_name_start :: nat
  hl_header_name_end :: nat
  hl_header_start :: nat
  hl_header_end :: nat
  hl_lowcase_header :: "byte list"
  hl_header_hash :: u64
  hl_lowcase_index :: nat

type_synonym hl_local = "hl_state \<times> header"

definition lc_alphabet :: "byte list" where
  "lc_alphabet = [ch_a, ch_b, ch_c, ch_d, ch_e, ch_f, ch_g, ch_h, ch_i, ch_j, ch_k, ch_l, ch_m,
     ch_n, ch_o, ch_p, ch_q, ch_r, ch_s, ch_t, ch_u, ch_v, ch_w, ch_x, ch_y, ch_z]"

text \<open>The table \<open>lowcase[]\<close>, by the lines of its initializer.\<close>

definition lowcase :: "byte list" where
  "lowcase =
     replicate 32 0 @
     (replicate 13 0 @ [ch_dash, 0, 0] @
      [ch_0, ch_1, ch_2, ch_3, ch_4, ch_5, ch_6, ch_7, ch_8, ch_9] @ replicate 6 0) @
     (0 # lc_alphabet @ replicate 5 0) @
     (0 # lc_alphabet @ replicate 5 0) @
     replicate 32 0 @ replicate 32 0 @ replicate 32 0 @ replicate 32 0"

definition ngx_hash :: "u64 \<Rightarrow> byte \<Rightarrow> u64" where
  "ngx_hash key c = key * 31 + ucast c"

section \<open>The cases of the switch\<close>

abbreviation hl_invalid :: "hl_state \<Rightarrow> header \<Rightarrow> hl_local step" where
  "hl_invalid state h \<equiv> Fail NGX_HTTP_PARSE_INVALID_HEADER (state, h)"

text \<open>The code at the label \<open>done\<close> and at the label \<open>header_done\<close>.\<close>

abbreviation hl_done :: "header \<Rightarrow> hl_local step" where
  "hl_done h \<equiv> Stop 1 NGX_OK (hl_start, h)"

abbreviation hl_header_done :: "header \<Rightarrow> hl_local step" where
  "hl_header_done h \<equiv> Stop 1 NGX_HTTP_PARSE_HEADER_DONE (hl_start, h)"

definition hl_case_start :: "bool \<Rightarrow> nat \<Rightarrow> byte \<Rightarrow> header \<Rightarrow> hl_local step" where
  "hl_case_start allow_underscores p ch h =
     (let h = h\<lparr>hl_invalid_header := False, hl_header_name_start := p\<rparr> in
      if ch = ch_cr then Next (hl_header_almost_done, h\<lparr>hl_header_end := p\<rparr>)
      else if ch = ch_lf then hl_header_done (h\<lparr>hl_header_end := p\<rparr>)
      else
        let c = lowcase ! unat ch in
        if c \<noteq> 0 then
          Next (hl_name, h\<lparr>hl_lowcase_header := (hl_lowcase_header h)[0 := c],
            hl_header_hash := ngx_hash 0 c, hl_lowcase_index := 1\<rparr>)
        else if ch = ch_under then
          (if allow_underscores then
             Next (hl_name, h\<lparr>hl_lowcase_header := (hl_lowcase_header h)[0 := ch],
               hl_header_hash := ngx_hash 0 ch, hl_lowcase_index := 1\<rparr>)
           else
             Next (hl_name, h\<lparr>hl_invalid_header := True, hl_header_hash := 0, hl_lowcase_index := 0\<rparr>))
        else if ch \<le> 0x20 \<or> ch = 0x7f \<or> ch = ch_colon then
          hl_invalid hl_name (h\<lparr>hl_header_end := p\<rparr>)
        else Next (hl_name, h\<lparr>hl_invalid_header := True, hl_header_hash := 0, hl_lowcase_index := 0\<rparr>))"

text \<open>\<open>hash = ngx_hash(hash, c); r->lowcase_header[i++] = c; i &= (NGX_HTTP_LC_HEADER_LEN - 1)\<close>\<close>

definition hl_name_char :: "byte \<Rightarrow> header \<Rightarrow> header" where
  "hl_name_char c h =
     (let i = hl_lowcase_index h in
      h\<lparr>hl_lowcase_header := (hl_lowcase_header h)[i := c],
        hl_header_hash := ngx_hash (hl_header_hash h) c,
        hl_lowcase_index := (i + 1) AND (NGX_HTTP_LC_HEADER_LEN - 1)\<rparr>)"

definition hl_case_name :: "bool \<Rightarrow> bool \<Rightarrow> byte list \<Rightarrow> nat \<Rightarrow> byte \<Rightarrow> header \<Rightarrow> hl_local step" where
  "hl_case_name allow_underscores upstream mem p ch h =
     (let c = lowcase ! unat ch in
      if c \<noteq> 0 then Next (hl_name, hl_name_char c h)
      else if ch = ch_under then
        (if allow_underscores then Next (hl_name, hl_name_char ch h)
         else Next (hl_name, h\<lparr>hl_invalid_header := True\<rparr>))
      else if ch = ch_colon then Next (hl_space_before_value, h\<lparr>hl_header_name_end := p\<rparr>)
      else if ch = ch_cr then
        Next (hl_almost_done, h\<lparr>hl_header_name_end := p, hl_header_start := p, hl_header_end := p\<rparr>)
      else if ch = ch_lf then
        hl_done (h\<lparr>hl_header_name_end := p, hl_header_start := p, hl_header_end := p\<rparr>)
      else if ch = ch_slash \<and> upstream \<and> p - hl_header_name_start h = 4 \<and>
              str_cmp mem (hl_header_name_start h) [ch_H, ch_T, ch_T, ch_P]
      then Next (hl_ignore_line, h)
      else if ch \<le> 0x20 \<or> ch = 0x7f then hl_invalid hl_name (h\<lparr>hl_header_end := p\<rparr>)
      else Next (hl_name, h\<lparr>hl_invalid_header := True\<rparr>))"

definition hl_case_value :: "hl_state \<Rightarrow> nat \<Rightarrow> byte \<Rightarrow> header \<Rightarrow> hl_local step" where
  "hl_case_value state p ch h =
     (case state of
        hl_space_before_value \<Rightarrow>
          (if ch = ch_sp then Next (state, h)
           else if ch = ch_cr then Next (hl_almost_done, h\<lparr>hl_header_start := p, hl_header_end := p\<rparr>)
           else if ch = ch_lf then hl_done (h\<lparr>hl_header_start := p, hl_header_end := p\<rparr>)
           else if ch = ch_nul then hl_invalid state (h\<lparr>hl_header_end := p\<rparr>)
           else Next (hl_value, h\<lparr>hl_header_start := p\<rparr>))
      | hl_value \<Rightarrow>
          (if ch = ch_sp then Next (hl_space_after_value, h\<lparr>hl_header_end := p\<rparr>)
           else if ch = ch_cr then Next (hl_almost_done, h\<lparr>hl_header_end := p\<rparr>)
           else if ch = ch_lf then hl_done (h\<lparr>hl_header_end := p\<rparr>)
           else if ch = ch_nul then hl_invalid state (h\<lparr>hl_header_end := p\<rparr>)
           else Next (state, h))
      | _ \<Rightarrow>
          (if ch = ch_sp then Next (state, h)
           else if ch = ch_cr then Next (hl_almost_done, h)
           else if ch = ch_lf then hl_done h
           else if ch = ch_nul then hl_invalid state (h\<lparr>hl_header_end := p\<rparr>)
           else Next (hl_value, h)))"

definition hl_case_end :: "hl_state \<Rightarrow> byte \<Rightarrow> header \<Rightarrow> hl_local step" where
  "hl_case_end state ch h =
     (case state of
        hl_ignore_line \<Rightarrow> (if ch = ch_lf then Next (hl_start, h) else Next (state, h))
      | hl_almost_done \<Rightarrow>
          (if ch = ch_lf then hl_done h
           else if ch = ch_cr then Next (state, h)
           else hl_invalid state h)
      | _ \<Rightarrow> (if ch = ch_lf then hl_header_done h else hl_invalid state h))"

section \<open>The switch and the function\<close>

definition hl_step :: "bool \<Rightarrow> bool \<Rightarrow> hl_local stepper" where
  "hl_step allow_underscores upstream mem p s =
     (let state = fst s; h = snd s; ch = mem ! p in
      case state of
        hl_start \<Rightarrow> hl_case_start allow_underscores p ch h
      | hl_name \<Rightarrow> hl_case_name allow_underscores upstream mem p ch h
      | hl_space_before_value \<Rightarrow> hl_case_value state p ch h
      | hl_value \<Rightarrow> hl_case_value state p ch h
      | hl_space_after_value \<Rightarrow> hl_case_value state p ch h
      | hl_ignore_line \<Rightarrow> hl_case_end state ch h
      | hl_almost_done \<Rightarrow> hl_case_end state ch h
      | hl_header_almost_done \<Rightarrow> hl_case_end state ch h)"

text \<open>
  \<open>r->header_hash\<close> and \<open>r->lowcase_index\<close> are written on \<open>NGX_AGAIN\<close> and at \<open>done\<close>
  only, \<open>r->state\<close> and \<open>b->pos\<close> at \<open>header_done\<close> too.
\<close>

definition hl_keep :: "header \<Rightarrow> header \<Rightarrow> header" where
  "hl_keep old h = h\<lparr>hl_header_hash := hl_header_hash old, hl_lowcase_index := hl_lowcase_index old\<rparr>"

definition ngx_http_parse_header_line ::
  "bool \<Rightarrow> bool \<Rightarrow> byte list \<Rightarrow> nat \<Rightarrow> nat \<Rightarrow> hl_local \<Rightarrow> ngx_rc \<times> nat \<times> hl_local" where
  "ngx_http_parse_header_line allow_underscores upstream mem pos lim r =
     (case scan (hl_step allow_underscores upstream) mem pos lim r of
        Again p s \<Rightarrow> (NGX_AGAIN, p, s)
      | Stopped p rc s \<Rightarrow> (rc, p, if rc = NGX_OK then s else (fst s, hl_keep (snd r) (snd s)))
      | Failed rc s \<Rightarrow> (rc, pos, (fst r, hl_keep (snd r) (snd s))))"

section \<open>The element pushed for a parsed line\<close>

record table_elt =
  te_hash :: u64
  te_key :: ngx_str
  te_value :: ngx_str
  te_lowcase_key :: ngx_str

definition ngx_strlow :: "byte list \<Rightarrow> byte list" where
  "ngx_strlow src = map ngx_tolower src"

text \<open>
  \<open>ngx_http_process_request_headers\<close> after a header line: the key and the value are
  terminated in place, and the lower case key is copied from the parser's own copy when
  that copy is complete. The result is the element and the buffer.
\<close>

definition header_push :: "byte list \<Rightarrow> header \<Rightarrow> table_elt \<times> byte list" where
  "header_push mem h =
     (let mem = mem[hl_header_name_end h := 0, hl_header_end h := 0];
          key = slice mem (hl_header_name_start h) (hl_header_name_end h)
      in (\<lparr>te_hash = hl_header_hash h, te_key = key,
           te_value = slice mem (hl_header_start h) (hl_header_end h),
           te_lowcase_key =
             (if length key = hl_lowcase_index h then take (length key) (hl_lowcase_header h)
              else ngx_strlow key)\<rparr>, mem))"

definition header_init :: header where
  "header_init = \<lparr>hl_invalid_header = False, hl_header_name_start = 0, hl_header_name_end = 0,
     hl_header_start = 0, hl_header_end = 0, hl_lowcase_header = replicate NGX_HTTP_LC_HEADER_LEN 0,
     hl_header_hash = 0, hl_lowcase_index = 0\<rparr>"

section \<open>Reads stay behind the position\<close>

lemma hl_case_name_take:
  "hl_case_name au up (take (Suc p) mem) p ch h = hl_case_name au up mem p ch h"
proof -
  let ?a = "hl_header_name_start h" and ?http = "[ch_H, ch_T, ch_T, ch_P]"
  have "p - ?a = 4 \<and> str_cmp (take (Suc p) mem) ?a ?http \<longleftrightarrow> p - ?a = 4 \<and> str_cmp mem ?a ?http"
    using str_cmp_take [of ?a ?http "Suc p" mem] by auto
  then show ?thesis unfolding hl_case_name_def by (simp only:)
qed

interpretation hl: incremental "hl_step allow_underscores upstream" for allow_underscores upstream
  by unfold_locales (simp add: hl_step_def hl_case_name_take Let_def split: hl_state.split)

section \<open>The accumulated name\<close>

text \<open>The characters of the name that enter the hash and the lower case copy.\<close>

definition kept :: "bool \<Rightarrow> byte \<Rightarrow> bool" where
  "kept au c \<longleftrightarrow> lowcase ! unat c \<noteq> 0 \<or> c = ch_under \<and> au"

definition name_byte :: "byte \<Rightarrow> bool" where
  "name_byte c \<longleftrightarrow> 0x20 < c \<and> c \<noteq> 0x7f \<and> c \<noteq> ch_colon"

lemma lowcase_facts:
  "lowcase ! unat c \<noteq> 0 \<Longrightarrow> lowcase ! unat c = ngx_tolower c \<and> name_byte c \<and> c \<noteq> ch_under"
proof -
  have "\<forall>c. lowcase ! unat c \<noteq> 0 \<longrightarrow> lowcase ! unat c = ngx_tolower c \<and> name_byte c \<and> c \<noteq> ch_under"
    unfolding byte_all_iff by code_simp
  then show "lowcase ! unat c \<noteq> 0 \<Longrightarrow> ?thesis" by blast
qed

lemma tolower_under: "ngx_tolower ch_under = ch_under"
  by (simp add: ngx_tolower_def)

lemma name_byte_under [simp]: "name_byte ch_under"
  by (simp add: name_byte_def)

definition hash_of :: "byte list \<Rightarrow> u64" where
  "hash_of xs = foldl ngx_hash 0 (ngx_strlow xs)"

definition hl_acc :: "bool \<Rightarrow> byte list \<Rightarrow> nat \<Rightarrow> nat \<Rightarrow> header \<Rightarrow> bool" where
  "hl_acc au mem a b h \<longleftrightarrow>
     (let nm = slice mem a b; ks = filter (kept au) nm in
      a < b \<and> b \<le> length mem \<and> list_all name_byte nm \<and>
      hl_header_hash h = hash_of ks \<and>
      hl_lowcase_index h = length ks mod 32 \<and>
      (length ks \<le> 32 \<longrightarrow> take (length ks) (hl_lowcase_header h) = ngx_strlow ks) \<and>
      (hl_invalid_header h \<or> list_all (kept au) nm))"

lemma hash_of_snoc: "hash_of (xs @ [c]) = ngx_hash (hash_of xs) (ngx_tolower c)"
  by (simp add: hash_of_def ngx_strlow_def)

lemma strlow_snoc: "ngx_strlow (xs @ [c]) = ngx_strlow xs @ [ngx_tolower c]"
  by (simp add: ngx_strlow_def)

lemma and_31: "(n::nat) AND 31 = n mod 32"
  using take_bit_eq_mask [of 5 n] by (simp add: take_bit_eq_mod mask_eq_exp_minus_1)

lemma mod_32_Suc: "Suc (n mod 32) mod 32 = Suc n mod 32"
  by (simp add: mod_Suc_eq)

lemma take_Suc_update:
  "k < length xs \<Longrightarrow> take (Suc k) (xs[k := c]) = take k xs @ [c]"
  by (simp add: take_Suc_conv_app_nth)

lemma hl_acc_keep:
  assumes "hl_acc au mem a p h" "length (hl_lowcase_header h) = 32" "p < length mem"
    and "kept au (mem ! p)" "c = ngx_tolower (mem ! p)"
  shows "hl_acc au mem a (Suc p) (hl_name_char c h)"
proof -
  let ?ks = "filter (kept au) (slice mem a p)"
  have nb: "name_byte (mem ! p)"
    using assms(4) lowcase_facts [of "mem ! p"] by (auto simp: kept_def)
  have sl: "slice mem a (Suc p) = slice mem a p @ [mem ! p]"
    using assms(1,3) by (simp add: hl_acc_def Let_def slice_snoc)
  have tk: "take (Suc (length ?ks)) ((hl_lowcase_header h)[length ?ks mod 32 := c]) = ngx_strlow (?ks @ [mem ! p])"
    if "length ?ks < 32"
    using that assms by (simp add: hl_acc_def Let_def take_Suc_update strlow_snoc)
  show ?thesis
    using assms tk nb
    by (auto simp: hl_acc_def Let_def sl hl_name_char_def hash_of_snoc NGX_HTTP_LC_HEADER_LEN_def
        and_31 mod_32_Suc)
qed

lemma hl_acc_skip:
  assumes "hl_acc au mem a p h" "p < length mem" "name_byte (mem ! p)" "\<not> kept au (mem ! p)"
    and "hl_invalid_header h'" "hl_header_hash h' = hl_header_hash h"
    and "hl_lowcase_index h' = hl_lowcase_index h" "hl_lowcase_header h' = hl_lowcase_header h"
  shows "hl_acc au mem a (Suc p) h'"
  using assms by (auto simp: hl_acc_def Let_def slice_snoc)

lemma hl_acc_first_keep:
  assumes "p < length mem" "kept au (mem ! p)" "c = ngx_tolower (mem ! p)"
    "length (hl_lowcase_header h) = 32" "hl_header_hash h' = ngx_hash 0 c" "hl_lowcase_index h' = 1"
    "hl_lowcase_header h' = (hl_lowcase_header h)[0 := c]"
  shows "hl_acc au mem p (Suc p) h'"
proof -
  have nb: "name_byte (mem ! p)"
    using assms(2) lowcase_facts [of "mem ! p"] by (auto simp: kept_def)
  show ?thesis
    using assms nb slice_snoc [of p p mem] take_Suc_update [of 0 "hl_lowcase_header h" c]
    by (simp add: hl_acc_def Let_def hash_of_def ngx_strlow_def)
qed

lemma hl_acc_first_skip:
  assumes "p < length mem" "name_byte (mem ! p)" "\<not> kept au (mem ! p)"
    "hl_invalid_header h'" "hl_header_hash h' = 0" "hl_lowcase_index h' = 0"
  shows "hl_acc au mem p (Suc p) h'"
  using assms slice_snoc [of p p mem]
  by (simp add: hl_acc_def Let_def hash_of_def ngx_strlow_def)

lemma hl_acc_cong:
  "hl_acc au mem a b h \<Longrightarrow> hl_header_hash h' = hl_header_hash h \<Longrightarrow>
   hl_lowcase_index h' = hl_lowcase_index h \<Longrightarrow> hl_lowcase_header h' = hl_lowcase_header h \<Longrightarrow>
   hl_invalid_header h' = hl_invalid_header h \<Longrightarrow> hl_acc au mem a b h'"
  by (simp add: hl_acc_def)

section \<open>Invariant\<close>

text \<open>A value ends before the line does and is trimmed.\<close>

definition value_byte :: "byte \<Rightarrow> bool" where
  "value_byte c \<longleftrightarrow> c \<noteq> ch_nul \<and> c \<noteq> ch_cr \<and> c \<noteq> ch_lf"

definition value_clean :: "byte list \<Rightarrow> nat \<Rightarrow> nat \<Rightarrow> bool" where
  "value_clean mem a b \<longleftrightarrow> list_all value_byte (slice mem a b)"

definition trimmed :: "byte list \<Rightarrow> nat \<Rightarrow> nat \<Rightarrow> bool" where
  "trimmed mem a b \<longleftrightarrow> value_clean mem a b \<and> (a = b \<or> a < b \<and> mem ! a \<noteq> ch_sp \<and> mem ! (b - 1) \<noteq> ch_sp)"

lemma value_clean_Suc: "a \<le> p \<Longrightarrow> p < length mem \<Longrightarrow>
    value_clean mem a (Suc p) \<longleftrightarrow> value_clean mem a p \<and> value_byte (mem ! p)"
  by (simp add: value_clean_def slice_snoc)

lemma value_clean_refl [simp]: "value_clean mem a a"
  by (simp add: value_clean_def)

lemma trimmed_refl [simp]: "trimmed mem a a"
  by (simp add: trimmed_def)

definition hl_named :: "bool \<Rightarrow> byte list \<Rightarrow> header \<Rightarrow> bool" where
  "hl_named au mem h \<longleftrightarrow> hl_acc au mem (hl_header_name_start h) (hl_header_name_end h) h"

fun hl_inv :: "bool \<Rightarrow> byte list \<Rightarrow> nat \<Rightarrow> hl_local \<Rightarrow> bool" where
  "hl_inv au mem p (st, h) \<longleftrightarrow>
     length (hl_lowcase_header h) = 32 \<and> hl_lowcase_index h < 32 \<and>
     (case st of
        hl_start \<Rightarrow> True
      | hl_name \<Rightarrow> hl_acc au mem (hl_header_name_start h) p h
      | hl_space_before_value \<Rightarrow> hl_named au mem h \<and> hl_header_name_end h < p
      | hl_value \<Rightarrow> hl_named au mem h \<and> hl_header_name_end h < hl_header_start h \<and>
          hl_header_start h < p \<and> trimmed mem (hl_header_start h) p
      | hl_space_after_value \<Rightarrow> hl_named au mem h \<and> hl_header_name_end h < hl_header_start h \<and>
          hl_header_start h < hl_header_end h \<and> hl_header_end h < p \<and>
          trimmed mem (hl_header_start h) (hl_header_end h) \<and> value_clean mem (hl_header_start h) p
      | hl_ignore_line \<Rightarrow> True
      | hl_almost_done \<Rightarrow> hl_named au mem h \<and> hl_header_name_end h \<le> hl_header_start h \<and>
          (hl_header_name_end h < hl_header_start h \<or> hl_header_start h = hl_header_end h) \<and>
          hl_header_start h \<le> hl_header_end h \<and> hl_header_end h < p \<and>
          trimmed mem (hl_header_start h) (hl_header_end h)
      | hl_header_almost_done \<Rightarrow> hl_header_end h = hl_header_name_start h \<and>
          hl_header_name_start h < p \<and> mem ! hl_header_name_start h = ch_cr)"

definition hl_post :: "bool \<Rightarrow> byte list \<Rightarrow> nat \<Rightarrow> ngx_rc \<Rightarrow> header \<Rightarrow> bool" where
  "hl_post au mem q rc h \<longleftrightarrow>
     length (hl_lowcase_header h) = 32 \<and> hl_lowcase_index h < 32 \<and> q \<le> length mem \<and>
     (case rc of
        NGX_OK \<Rightarrow> hl_named au mem h \<and> hl_header_name_end h \<le> hl_header_start h \<and>
          (hl_header_name_end h < hl_header_start h \<or> hl_header_start h = hl_header_end h) \<and>
          hl_header_start h \<le> hl_header_end h \<and> hl_header_end h < q \<and>
          trimmed mem (hl_header_start h) (hl_header_end h)
      | NGX_HTTP_PARSE_HEADER_DONE \<Rightarrow> hl_header_end h = hl_header_name_start h \<and>
          hl_header_end h < q \<and> mem ! hl_header_end h \<in> {ch_cr, ch_lf}
      | _ \<Rightarrow> False)"

lemma hl_next_start:
  assumes "hl_inv au mem p (hl_start, h)" "p < length mem" "hl_step au up mem p (hl_start, h) = Next s'"
  shows "hl_inv au mem (Suc p) s'"
proof -
  let ?c = "mem ! p"
  have len: "length (hl_lowcase_header h) = 32" using assms(1) by simp
  have k: "kept au ?c \<and> lowcase ! unat ?c = ngx_tolower ?c" if "lowcase ! unat ?c \<noteq> 0"
    using that lowcase_facts [of ?c] by (simp add: kept_def)
  have nb: "name_byte ?c" if "\<not> (?c \<le> 0x20 \<or> ?c = 0x7f \<or> ?c = ch_colon)"
    using that by (simp add: name_byte_def not_le)
  note keep = hl_acc_first_keep [OF assms(2) _ _ len] and skip = hl_acc_first_skip [OF assms(2)]
  show ?thesis
  proof (cases "kept au ?c")
    case True
    then show ?thesis using assms k len
      by (auto simp: hl_step_def hl_case_start_def Let_def kept_def tolower_under split: if_splits
          intro!: keep)
  next
    case False
    then show ?thesis using assms nb len
      by (auto simp: hl_step_def hl_case_start_def Let_def kept_def split: if_splits intro!: skip)
  qed
qed

lemma hl_next_name:
  assumes "hl_inv au mem p (hl_name, h)" "p < length mem" "hl_step au up mem p (hl_name, h) = Next s'"
  shows "hl_inv au mem (Suc p) s'"
proof -
  let ?c = "mem ! p"
  have len: "length (hl_lowcase_header h) = 32" and acc: "hl_acc au mem (hl_header_name_start h) p h"
    using assms(1) by simp_all
  have k: "kept au ?c \<and> lowcase ! unat ?c = ngx_tolower ?c" if "lowcase ! unat ?c \<noteq> 0"
    using that lowcase_facts [of ?c] by (simp add: kept_def)
  have nb: "name_byte ?c" if "\<not> (?c \<le> 0x20 \<or> ?c = 0x7f)" "?c \<noteq> ch_colon"
    using that by (simp add: name_byte_def not_le)
  have ix: "hl_lowcase_index (hl_name_char c h) < 32" "hl_header_name_start (hl_name_char c h) = hl_header_name_start h"
    "length (hl_lowcase_header (hl_name_char c h)) = 32" for c
    using len by (simp_all add: hl_name_char_def Let_def NGX_HTTP_LC_HEADER_LEN_def and_31)
  note keep = hl_acc_keep [OF acc len assms(2)] and skip_acc = hl_acc_skip [OF acc assms(2)]
    and same = hl_acc_cong [OF acc]
  show ?thesis
  proof (cases "kept au ?c")
    case True
    then have "s' = (hl_name, hl_name_char (ngx_tolower ?c) h)"
      using assms(3) k
      by (auto simp: hl_step_def hl_case_name_def Let_def kept_def tolower_under split: if_splits)
    then show ?thesis using keep [OF True refl] ix by simp
  next
    case False
    then consider (skip) "s' = (hl_name, h\<lparr>hl_invalid_header := True\<rparr>)" "name_byte ?c"
      | (colon) "s' = (hl_space_before_value, h\<lparr>hl_header_name_end := p\<rparr>)"
      | (cr) "s' = (hl_almost_done, h\<lparr>hl_header_name_end := p, hl_header_start := p, hl_header_end := p\<rparr>)"
      | (http) "s' = (hl_ignore_line, h)"
      using assms(3) nb
      by (auto simp: hl_step_def hl_case_name_def Let_def kept_def split: if_splits)
    then show ?thesis
    proof cases
      case skip
      then show ?thesis using assms(1) False by (auto intro!: skip_acc)
    qed (use assms(1) in \<open>auto simp: hl_named_def intro!: same\<close>)
  qed
qed

lemma hl_named_cong [simp]:
  "hl_named au mem (h\<lparr>hl_header_start := x\<rparr>) = hl_named au mem h"
  "hl_named au mem (h\<lparr>hl_header_end := x\<rparr>) = hl_named au mem h"
  by (auto simp: hl_named_def intro: hl_acc_cong)

lemma hl_next_value:
  assumes "hl_inv au mem p (st, h)" "p < length mem" "hl_step au up mem p (st, h) = Next s'"
    and "st \<in> {hl_space_before_value, hl_value, hl_space_after_value}"
  shows "hl_inv au mem (Suc p) s'"
  using assms
  by (elim insertE; auto simp: hl_step_def hl_case_value_def Let_def trimmed_def value_clean_Suc
      value_byte_def split: if_splits)

lemma hl_next_end:
  assumes "hl_inv au mem p (st, h)" "p < length mem" "hl_step au up mem p (st, h) = Next s'"
    and "st \<in> {hl_ignore_line, hl_almost_done, hl_header_almost_done}"
  shows "hl_inv au mem (Suc p) s'"
  using assms
  by (elim insertE; auto simp: hl_step_def hl_case_end_def Let_def split: if_splits)

lemma hl_stop:
  assumes "hl_inv au mem p (st, h)" "p < length mem" "hl_step au up mem p (st, h) = Stop k rc s'"
  shows "hl_post au mem (p + k) rc (snd s') \<and> k = 1 \<and> fst s' = hl_start"
proof -
  have "hl_named au mem (h\<lparr>hl_header_name_end := p, hl_header_start := p, hl_header_end := p\<rparr>)"
    if "hl_acc au mem (hl_header_name_start h) p h"
    using hl_acc_cong [OF that] by (simp add: hl_named_def)
  then show ?thesis
    using assms
    by (cases st) (auto simp: hl_step_def hl_case_start_def hl_case_name_def hl_case_value_def
        hl_case_end_def hl_post_def Let_def split: if_splits)
qed

interpretation hl: invariant_machine "hl_step au up" "hl_inv au"
  "\<lambda>mem q rc s. hl_post au mem q rc (snd s) \<and> fst s = hl_start" for au up
proof
  show "hl_inv au mem (Suc p) s'"
    if "hl_inv au mem p s" "p < length mem" "hl_step au up mem p s = Next s'" for mem p s s'
    using that hl_next_start hl_next_name hl_next_value hl_next_end
    by (cases s; cases "fst s") (auto simp del: hl_inv.simps)
  show "hl_post au mem (p + k) rc (snd s') \<and> fst s' = hl_start"
    if "hl_inv au mem p s" "p < length mem" "hl_step au up mem p s = Stop k rc s'" for mem p s k rc s'
    using that hl_stop [of au mem p "fst s" "snd s" up k rc s'] by (auto simp del: hl_inv.simps)
qed

lemma hl_fail_rc: "hl_step au up mem p s = Fail rc s' \<Longrightarrow> rc = NGX_HTTP_PARSE_INVALID_HEADER"
  by (cases "fst s") (auto simp: hl_step_def hl_case_start_def hl_case_name_def hl_case_value_def
      hl_case_end_def Let_def split: if_splits)

lemma hl_stop_rc:
  "hl_step au up mem p s = Stop k rc s' \<Longrightarrow> k = 1 \<and> rc \<in> {NGX_OK, NGX_HTTP_PARSE_HEADER_DONE}"
  by (cases "fst s") (auto simp: hl_step_def hl_case_start_def hl_case_name_def hl_case_value_def
      hl_case_end_def Let_def split: if_splits)

text \<open>What the caller may rely on after \<open>NGX_OK\<close>.\<close>

lemma hl_ok_post:
  assumes "lim \<le> length mem" "length (hl_lowcase_header h0) = 32" "hl_lowcase_index h0 < 32"
    and "ngx_http_parse_header_line au up mem pos lim (hl_start, h0) = (NGX_OK, q, (st, h))"
  shows "hl_post au mem q NGX_OK h \<and> st = hl_start \<and> pos < q \<and> q \<le> lim"
proof -
  have s: "scan (hl_step au up) mem pos lim (hl_start, h0) = Stopped q NGX_OK (st, h)"
    using assms(4) by (auto simp: ngx_http_parse_header_line_def split: outcome.splits if_splits
        dest!: scan_Failed_at hl_fail_rc)
  have "hl_inv au mem pos (hl_start, h0)" using assms(2,3) by simp
  note post = hl.scan_Stopped [OF this assms(1) s]
  obtain p' s1 k where "pos \<le> p'" "p' < lim" "hl_step au up mem p' s1 = Stop k NGX_OK (st, h)" "q = p' + k"
    using scan_Stopped_at [OF s] by blast
  with hl_stop_rc [of au up mem p' s1 k NGX_OK "(st, h)"] post show ?thesis by auto
qed

lemma slice_update_outside:
  "i < a \<or> b \<le> i \<Longrightarrow> slice (mem[i := c]) a b = slice mem a b"
  by (rule nth_equalityI) (auto simp: slice_def)

lemma filter_all_length: "length (filter P xs) = length xs \<Longrightarrow> filter P xs = xs"
  by (metis length_filter_less less_irrefl filter_True)

text \<open>
  When the length of the name equals the index, every character of the name was kept and
  the copy did not wrap.
\<close>

lemma hl_lowcase_copy:
  assumes "hl_acc au mem a b h" "b - a = hl_lowcase_index h"
  shows "take (b - a) (hl_lowcase_header h) = ngx_strlow (slice mem a b)"
proof -
  let ?n = "slice mem a b" and ?ks = "filter (kept au) (slice mem a b)"
  have len: "length ?n = b - a" using assms(1) by (simp add: hl_acc_def Let_def)
  have "length ?ks \<le> b - a" using len length_filter_le [of "kept au" ?n] by simp
  moreover have ix: "b - a = length ?ks mod 32" using assms by (simp add: hl_acc_def Let_def)
  moreover have "length ?ks mod 32 < 32" by simp
  moreover have "length ?ks mod 32 \<le> length ?ks" by (rule mod_less_eq_dividend)
  ultimately have "length ?ks = b - a" by linarith
  with len have "length ?ks = length ?n" by simp
  then have "?ks = ?n" by (rule filter_all_length)
  moreover have "length ?ks \<le> 32"
    using \<open>length ?ks = b - a\<close> ix \<open>length ?ks mod 32 < 32\<close> by linarith
  ultimately show ?thesis using assms(1) len by (simp add: hl_acc_def Let_def)
qed

section \<open>A rendered header line is accepted\<close>

definition render_header :: "byte list \<Rightarrow> byte list \<Rightarrow> byte list" where
  "render_header nm v = nm @ [ch_colon, ch_sp] @ v @ [ch_cr, ch_lf]"

definition hl_name_phase :: "nat \<Rightarrow> hl_local \<Rightarrow> bool" where
  "hl_name_phase a s \<longleftrightarrow> fst s = hl_name \<and> hl_header_name_start (snd s) = a \<and> \<not> hl_invalid_header (snd s)"

lemma hl_name_phase_start:
  assumes "kept au (mem ! p)"
  shows "\<exists>s'. hl_step au up mem p (hl_start, h) = Next s' \<and> hl_name_phase p s'"
proof -
  have "mem ! p \<noteq> ch_cr" "mem ! p \<noteq> ch_lf"
    using assms lowcase_facts [of "mem ! p"] by (auto simp: kept_def name_byte_def)
  then show ?thesis using assms
    by (auto simp: hl_step_def hl_case_start_def hl_name_phase_def kept_def Let_def)
qed

lemma hl_name_phase_step:
  assumes "kept au (mem ! p)" "hl_name_phase a s"
  shows "\<exists>s'. hl_step au up mem p s = Next s' \<and> hl_name_phase a s'"
  using assms
  by (cases s) (auto simp: hl_step_def hl_case_name_def hl_name_phase_def hl_name_char_def kept_def Let_def)

lemma hl_scan_name:
  assumes "nm \<noteq> []" "list_all (kept au) nm" "drop p mem = nm @ rest" "p + length nm \<le> lim"
  shows "\<exists>s. hl_name_phase p s \<and>
    scan (hl_step au up) mem p lim (hl_start, h) = scan (hl_step au up) mem (p + length nm) lim s"
proof -
  have byte: "kept au (mem ! (p + i))" if "i < length nm" for i
  proof -
    have "mem ! (p + i) = nm ! i"
      using assms(1,3) that by (metis nth_append nth_drop drop_eq_Nil append_is_Nil_conv linorder_le_cases)
    then show ?thesis using assms(2) that by (simp add: list_all_length)
  qed
  obtain s1 where s1: "hl_step au up mem p (hl_start, h) = Next s1" "hl_name_phase p s1"
    using byte [of 0] hl_name_phase_start [of au mem p up h] assms(1) by auto
  then have "scan (hl_step au up) mem p lim (hl_start, h) = scan (hl_step au up) mem (Suc p) lim s1"
    using assms(1,4) by (cases nm) (simp_all add: scan_Next)
  moreover have "\<exists>s'. hl_step au up mem q s = Next s' \<and> hl_name_phase p s'"
    if "hl_name_phase p s" "Suc p \<le> q" "q < Suc p + (length nm - 1)" for q s
    using hl_name_phase_step [OF _ that(1)] byte [of "q - p"] that(2,3) by simp
  ultimately show ?thesis
    using scan_through [of "\<lambda>_. hl_name_phase p" "Suc p" s1 "length nm - 1" lim "hl_step au up" mem] s1(2) assms(1,4)
    by (cases nm) auto
qed

definition hl_value_phase :: "header \<Rightarrow> byte list \<Rightarrow> nat \<Rightarrow> hl_local \<Rightarrow> bool" where
  "hl_value_phase h0 mem p s \<longleftrightarrow>
     fst s = (if mem ! (p - 1) = ch_sp then hl_space_after_value else hl_value) \<and>
     hl_header_name_start (snd s) = hl_header_name_start h0 \<and>
     hl_header_name_end (snd s) = hl_header_name_end h0 \<and>
     hl_header_start (snd s) = hl_header_start h0 \<and>
     hl_invalid_header (snd s) = hl_invalid_header h0"

lemma hl_value_phase_step:
  assumes "value_byte (mem ! p)" "hl_value_phase h0 mem p s"
  shows "\<exists>s'. hl_step au up mem p s = Next s' \<and> hl_value_phase h0 mem (Suc p) s'"
  using assms
  by (cases s) (auto simp: hl_step_def hl_case_value_def hl_value_phase_def value_byte_def Let_def
      split: if_splits)

lemma hl_scan_value:
  assumes "v \<noteq> []" "list_all value_byte v" "hd v \<noteq> ch_sp" "List.last v \<noteq> ch_sp"
    and "drop p mem = v @ [ch_cr, ch_lf] @ rest" "p + length v + 2 \<le> lim"
  shows "\<exists>h. scan (hl_step au up) mem p lim (hl_space_before_value, h0) =
      Stopped (p + length v + 2) NGX_OK (hl_start, h) \<and>
    hl_header_name_start h = hl_header_name_start h0 \<and> hl_header_name_end h = hl_header_name_end h0 \<and>
    hl_header_start h = p \<and> hl_header_end h = p + length v \<and>
    hl_invalid_header h = hl_invalid_header h0"
proof -
  let ?f = "hl_step au up" and ?h = "h0\<lparr>hl_header_start := p\<rparr>"
  have byte: "mem ! (p + i) = (v @ [ch_cr, ch_lf] @ rest) ! i" for i
    using assms(1,5) by (metis nth_drop drop_eq_Nil append_is_Nil_conv linorder_le_cases)
  have vb: "value_byte (mem ! (p + i))" if "i < length v" for i
    using byte [of i] that assms(2) by (simp add: nth_append list_all_length)
  have first: "mem ! p = hd v" using byte [of 0] assms(1) by (cases v) auto
  have "?f mem p (hl_space_before_value, h0) = Next (hl_value, ?h)"
    using vb [of 0] assms(1,3) first
    by (auto simp: hl_step_def hl_case_value_def value_byte_def Let_def)
  moreover have "hl_value_phase ?h mem (Suc p) (hl_value, ?h)"
    using first assms(3) by (simp add: hl_value_phase_def)
  moreover have "\<exists>s'. ?f mem q s = Next s' \<and> hl_value_phase ?h mem (Suc q) s'"
    if "hl_value_phase ?h mem q s" "Suc p \<le> q" "q < Suc p + (length v - 1)" for q s
    using hl_value_phase_step [OF _ that(1)] vb [of "q - p"] that(2,3) by simp
  ultimately obtain s where s: "hl_value_phase ?h mem (p + length v) s"
    "scan ?f mem p lim (hl_space_before_value, h0) = scan ?f mem (p + length v) lim s"
    using scan_through [of "hl_value_phase ?h mem" "Suc p" "(hl_value, ?h)" "length v - 1" lim ?f mem]
      assms(1,6) by (cases v) (auto simp: scan_Next)
  have "mem ! (p + length v - 1) = List.last v"
    using byte [of "length v - 1"] assms(1) by (cases v rule: rev_cases) (simp_all add: nth_append)
  then have st: "fst s = hl_value" using s(1) assms(4) by (simp add: hl_value_phase_def)
  let ?e = "(snd s)\<lparr>hl_header_end := p + length v\<rparr>"
  have "?f mem (p + length v) s = Next (hl_almost_done, ?e)"
    using byte [of "length v"] st by (simp add: hl_step_def hl_case_value_def Let_def)
  moreover have "?f mem (Suc (p + length v)) (hl_almost_done, ?e) = Stop 1 NGX_OK (hl_start, ?e)"
    using byte [of "Suc (length v)"] by (simp add: hl_step_def hl_case_end_def Let_def nth_append)
  ultimately have "scan ?f mem (p + length v) lim s = Stopped (p + length v + 2) NGX_OK (hl_start, ?e)"
    using assms(6) by (simp add: scan_Next scan_Stop)
  then show ?thesis using s st by (auto simp: hl_value_phase_def)
qed

definition sample_header :: "byte list" where
  "sample_header = render_header [ch_H, ch_o, ch_dash] [ch_x, ch_y]"

section \<open>Properties\<close>

text \<open>
  The header line parser may be interrupted anywhere: calling it again on the longer
  buffer, from the position and request it left with \<open>NGX_AGAIN\<close>, gives the return code
  of one call on the longer buffer and, unless the line is rejected, the same position; the
  request is the same field for field when the line is parsed or still incomplete.
\<close>

theorem header_line_resume:
  assumes "pos \<le> length mem"
    and "ngx_http_parse_header_line au up mem pos (length mem) r = (NGX_AGAIN, p, r')"
    and "ngx_http_parse_header_line au up (mem @ rest) pos (length (mem @ rest)) r = (rc1, p1, r1)"
    and "ngx_http_parse_header_line au up (mem @ rest) p (length (mem @ rest)) r' = (rc2, p2, r2)"
  shows "rc2 = rc1 \<and> (rc1 = NGX_HTTP_PARSE_INVALID_HEADER \<or> p2 = p1) \<and>
    (rc1 \<in> {NGX_OK, NGX_AGAIN} \<longrightarrow> r2 = r1)"
proof -
  let ?f = "hl_step au up"
  have "scan ?f mem pos (length mem) r = Again p r'"
    using assms(2) by (auto simp: ngx_http_parse_header_line_def split: outcome.splits if_splits
        dest!: scan_Stopped_at scan_Failed_at hl_fail_rc hl_stop_rc)
  then have eq: "scan ?f (mem @ rest) p (length (mem @ rest)) r' =
      scan ?f (mem @ rest) pos (length (mem @ rest)) r"
    using hl.scan_resume [OF assms(1), of au up rest r] by simp
  have "rc \<noteq> NGX_AGAIN" if "scan ?f (mem @ rest) pos (length (mem @ rest)) r = Stopped q rc s" for q rc s
    using scan_Stopped_at [OF that] by (auto dest: hl_stop_rc)
  then show ?thesis
    using assms(3,4) unfolding ngx_http_parse_header_line_def eq
    by (auto split: outcome.splits if_splits dest!: scan_Failed_at hl_fail_rc)
qed

theorem header_line_resume_witness:
  "case ngx_http_parse_header_line False False (take 5 sample_header) 0 5 (hl_start, header_init) of
     (rc, p, r') \<Rightarrow> rc = NGX_AGAIN \<and>
       ngx_http_parse_header_line False False sample_header p 9 r' =
       ngx_http_parse_header_line False False sample_header 0 9 (hl_start, header_init)"
proof -
  let ?P = "ngx_http_parse_header_line False False" and ?i = "(hl_start, header_init)"
  have s: "take 5 sample_header @ drop 5 sample_header = sample_header"
    "length sample_header = 9" "length (take 5 sample_header) = 5"
    by (simp_all add: sample_header_def render_header_def)
  have rc: "fst (?P (take 5 sample_header) 0 5 ?i) = NGX_AGAIN" "fst (?P sample_header 0 9 ?i) = NGX_OK"
    by code_simp+
  obtain p r' where 1: "?P (take 5 sample_header) 0 5 ?i = (NGX_AGAIN, p, r')"
    using rc(1) by (metis prod.collapse)
  obtain rc1 p1 r1 where 2: "?P sample_header 0 9 ?i = (rc1, p1, r1)" by (metis prod.collapse)
  obtain rc2 p2 r2 where 3: "?P sample_header p 9 r' = (rc2, p2, r2)" by (metis prod.collapse)
  have "rc2 = rc1 \<and> (rc1 = NGX_HTTP_PARSE_INVALID_HEADER \<or> p2 = p1) \<and>
    (rc1 \<in> {NGX_OK, NGX_AGAIN} \<longrightarrow> r2 = r1)"
    by (rule header_line_resume [of 0 "take 5 sample_header" False False ?i p r' "drop 5 sample_header"])
      (use 1 2 3 s in simp_all)
  then show ?thesis using 1 2 3 rc(2) by auto
qed

text \<open>
  A parsed header line is well formed. After \<open>NGX_OK\<close> the name is not empty and holds
  no colon, space, control character or DEL; the value is trimmed of spaces and holds no
  NUL and no line break; both lie inside the line consumed. The index of the lower case
  copy stays inside its 32 bytes, and for a header not marked invalid the hash is the hash
  of the lower case name.
\<close>

theorem header_line_sound:
  assumes "lim \<le> length mem" "length (hl_lowcase_header h0) = 32" "hl_lowcase_index h0 < 32"
    and "ngx_http_parse_header_line au up mem pos lim (hl_start, h0) = (NGX_OK, q, (st, h))"
  shows "st = hl_start \<and> pos < q \<and> q \<le> lim \<and>
    hl_header_name_start h < hl_header_name_end h \<and> hl_header_name_end h \<le> hl_header_start h \<and>
    hl_header_start h \<le> hl_header_end h \<and> hl_header_end h < q \<and>
    list_all (\<lambda>c. 0x20 < c \<and> c \<noteq> 0x7f \<and> c \<noteq> ch_colon)
      (slice mem (hl_header_name_start h) (hl_header_name_end h)) \<and>
    list_all (\<lambda>c. c \<noteq> ch_nul \<and> c \<noteq> ch_cr \<and> c \<noteq> ch_lf)
      (slice mem (hl_header_start h) (hl_header_end h)) \<and>
    (hl_header_start h = hl_header_end h \<or>
      mem ! hl_header_start h \<noteq> ch_sp \<and> mem ! (hl_header_end h - 1) \<noteq> ch_sp) \<and>
    length (hl_lowcase_header h) = 32 \<and> hl_lowcase_index h < 32 \<and>
    (hl_invalid_header h \<or>
      hl_header_hash h = hash_of (slice mem (hl_header_name_start h) (hl_header_name_end h)))"
proof -
  from hl_ok_post [OF assms] have post: "hl_post au mem q NGX_OK h" "st = hl_start" "pos < q" "q \<le> lim"
    by auto
  have "filter (kept au) xs = xs" if "list_all (kept au) xs" for xs
    using that by (simp add: list_all_iff)
  with post show ?thesis
    by (auto simp: hl_post_def hl_named_def hl_acc_def Let_def trimmed_def value_clean_def
        name_byte_def [abs_def] value_byte_def [abs_def])
qed

theorem header_line_sound_witness:
  "\<exists>q st h. ngx_http_parse_header_line False False sample_header 0 9 (hl_start, header_init) =
       (NGX_OK, q, (st, h)) \<and> st = hl_start \<and> hl_lowcase_index h < 32"
proof -
  have "fst (ngx_http_parse_header_line False False sample_header 0 9 (hl_start, header_init)) = NGX_OK"
    by code_simp
  then obtain q st h where
    1: "ngx_http_parse_header_line False False sample_header 0 9 (hl_start, header_init) = (NGX_OK, q, (st, h))"
    by (metis prod.collapse)
  show ?thesis
    using header_line_sound [OF _ _ _ 1] 1
    by (auto simp: sample_header_def render_header_def header_init_def NGX_HTTP_LC_HEADER_LEN_def)
qed

text \<open>
  C13: The element pushed for a parsed line is right. Its key and value are the bytes the
  parser delimited, although both are terminated in place; the lower case key is the name
  in lower case whether it is copied from the parser's 32-byte copy or converted again; the
  bytes of the next lines are untouched.
\<close>

theorem header_push_correct:
  assumes "lim \<le> length mem" "length (hl_lowcase_header h0) = 32" "hl_lowcase_index h0 < 32"
    and "ngx_http_parse_header_line au up mem pos lim (hl_start, h0) = (NGX_OK, q, (st, h))"
    and "header_push mem h = (e, mem')"
  shows "te_key e = slice mem (hl_header_name_start h) (hl_header_name_end h) \<and>
    te_value e = slice mem (hl_header_start h) (hl_header_end h) \<and>
    te_lowcase_key e = map ngx_tolower (te_key e) \<and>
    (hl_invalid_header h \<or> te_hash e = hash_of (te_key e)) \<and>
    mem' ! hl_header_name_end h = 0 \<and> mem' ! hl_header_end h = 0 \<and> drop q mem' = drop q mem"
proof -
  let ?a = "hl_header_name_start h" and ?b = "hl_header_name_end h"
  from hl_ok_post [OF assms(1-4)] have post: "hl_post au mem q NGX_OK h" by auto
  then have ord: "?a < ?b" "?b \<le> hl_header_start h" "hl_header_start h \<le> hl_header_end h"
    "hl_header_end h < q" "q \<le> length mem" and gap: "?b < hl_header_start h \<or> hl_header_start h = hl_header_end h"
    and acc: "hl_acc au mem ?a ?b h"
    by (auto simp: hl_post_def hl_named_def hl_acc_def Let_def)
  let ?m = "mem[?b := 0, hl_header_end h := 0]"
  have key: "slice ?m ?a ?b = slice mem ?a ?b" using ord by (simp add: slice_update_outside)
  have val: "slice ?m (hl_header_start h) (hl_header_end h) = slice mem (hl_header_start h) (hl_header_end h)"
    using ord gap by (auto simp: slice_update_outside)
  have "filter (kept au) xs = xs" if "list_all (kept au) xs" for xs
    using that by (simp add: list_all_iff)
  then have hash: "hl_invalid_header h \<or> hl_header_hash h = hash_of (slice mem ?a ?b)"
    using acc by (auto simp: hl_acc_def Let_def)
  have len: "length (slice mem ?a ?b) = ?b - ?a" using ord by simp
  show ?thesis
    using assms(5) ord key val hash len hl_lowcase_copy [OF acc]
    by (auto simp: header_push_def Let_def ngx_strlow_def nth_list_update)
qed

theorem header_push_correct_witness:
  "\<exists>q st h. ngx_http_parse_header_line False False sample_header 0 9 (hl_start, header_init) =
       (NGX_OK, q, (st, h)) \<and>
     te_lowcase_key (fst (header_push sample_header h)) =
       map ngx_tolower (te_key (fst (header_push sample_header h)))"
proof -
  have "fst (ngx_http_parse_header_line False False sample_header 0 9 (hl_start, header_init)) = NGX_OK"
    by code_simp
  then obtain q st h where
    1: "ngx_http_parse_header_line False False sample_header 0 9 (hl_start, header_init) = (NGX_OK, q, (st, h))"
    by (metis prod.collapse)
  obtain e mem' where 2: "header_push sample_header h = (e, mem')" by fastforce
  show ?thesis
    using header_push_correct [OF _ _ _ 1 2] 1 2
    by (auto simp: sample_header_def render_header_def header_init_def NGX_HTTP_LC_HEADER_LEN_def)
qed

text \<open>
  A rendered header line \<open>name: value\<close> is accepted, whatever follows it: for every
  name of letters, digits, dashes (and underscores where they are allowed) and every value
  that is trimmed and free of NUL and line breaks, the parser stops after the line feed,
  the header is not marked invalid, and name and value are those rendered, with the hash of
  the lower case name.
\<close>

theorem header_line_roundtrip:
  assumes "nm \<noteq> []" "list_all (kept au) nm"
    and "v \<noteq> []" "list_all (\<lambda>c. c \<noteq> ch_nul \<and> c \<noteq> ch_cr \<and> c \<noteq> ch_lf) v" "hd v \<noteq> ch_sp" "List.last v \<noteq> ch_sp"
    and "length (hl_lowcase_header h0) = 32" "hl_lowcase_index h0 < 32"
    and "mem = render_header nm v @ rest"
  shows "\<exists>h. ngx_http_parse_header_line au up mem 0 (length mem) (hl_start, h0) =
      (NGX_OK, length (render_header nm v), (hl_start, h)) \<and>
    slice mem (hl_header_name_start h) (hl_header_name_end h) = nm \<and>
    slice mem (hl_header_start h) (hl_header_end h) = v \<and>
    \<not> hl_invalid_header h \<and> hl_header_hash h = hash_of nm"
proof -
  let ?f = "hl_step au up" and ?n = "length nm"
  have mem: "mem = nm @ ch_colon # ch_sp # v @ [ch_cr, ch_lf] @ rest"
    using assms(9) by (simp add: render_header_def)
  then have len: "?n + 2 + length v + 2 \<le> length mem" by simp
  obtain s where s: "hl_name_phase 0 s"
    "scan ?f mem 0 (length mem) (hl_start, h0) = scan ?f mem ?n (length mem) s"
    using hl_scan_name [OF assms(1,2), of 0 mem _ "length mem" up h0] mem len by auto
  let ?h1 = "(snd s)\<lparr>hl_header_name_end := ?n\<rparr>"
  have colon: "mem ! ?n = ch_colon" "mem ! Suc ?n = ch_sp" by (simp_all add: mem nth_append)
  have "lowcase ! unat ch_colon = 0" by code_simp
  then have "?f mem ?n s = Next (hl_space_before_value, ?h1)"
    using s(1) colon by (cases s) (simp add: hl_name_phase_def hl_step_def hl_case_name_def Let_def)
  moreover have "?f mem (Suc ?n) (hl_space_before_value, ?h1) = Next (hl_space_before_value, ?h1)"
    using colon by (simp add: hl_step_def hl_case_value_def Let_def)
  ultimately have "scan ?f mem ?n (length mem) s = scan ?f mem (?n + 2) (length mem) (hl_space_before_value, ?h1)"
    using len by (simp add: scan_Next)
  moreover have "list_all value_byte v" using assms(4) by (simp add: value_byte_def [abs_def])
  ultimately obtain h where h: "scan ?f mem 0 (length mem) (hl_start, h0) =
      Stopped (?n + 2 + length v + 2) NGX_OK (hl_start, h)"
    "hl_header_name_start h = 0" "hl_header_name_end h = ?n" "hl_header_start h = ?n + 2"
    "hl_header_end h = ?n + 2 + length v" "\<not> hl_invalid_header h"
    using hl_scan_value [OF assms(3) _ assms(5,6), of "?n + 2" mem rest "length mem" au up ?h1] mem len s
    by (auto simp: hl_name_phase_def)
  then have p: "ngx_http_parse_header_line au up mem 0 (length mem) (hl_start, h0) =
      (NGX_OK, length (render_header nm v), (hl_start, h))"
    by (simp add: ngx_http_parse_header_line_def render_header_def)
  have "slice mem 0 ?n = nm" "slice mem (?n + 2) (?n + 2 + length v) = v"
    by (simp_all add: slice_def mem)
  moreover have "filter (kept au) nm = nm" using assms(2) by (simp add: list_all_iff)
  ultimately show ?thesis
    using p h hl_ok_post [OF order.refl assms(7,8) p]
    by (auto simp: hl_post_def hl_named_def hl_acc_def Let_def)
qed

theorem header_line_roundtrip_witness:
  "\<exists>h. ngx_http_parse_header_line False False sample_header 0 (length sample_header)
      (hl_start, header_init) = (NGX_OK, length sample_header, (hl_start, h)) \<and>
    slice sample_header (hl_header_start h) (hl_header_end h) = [ch_x, ch_y]"
proof -
  have "list_all (kept False) [ch_H, ch_o, ch_dash]" by code_simp
  then show ?thesis
    using header_line_roundtrip [of "[ch_H, ch_o, ch_dash]" False "[ch_x, ch_y]" header_init
        sample_header "[]" False]
    by (auto simp: sample_header_def header_init_def NGX_HTTP_LC_HEADER_LEN_def)
qed

end
