(* ===== verification/Http_Status_Line.thy ===== *)
theory Http_Status_Line
  imports Byte_Machine
begin

text \<open>
  \<open>ngx_http_parse_status_line\<close> of \<open>src/http/ngx_http_parse.c\<close>, the parser of the first
  line of a response from an upstream server. The record \<open>status\<close> joins
  \<open>ngx_http_status_t\<close> with the two version fields of the request the parser writes.
\<close>

section \<open>The parser\<close>

datatype sl_state =
    sl_start | sl_H | sl_HT | sl_HTT | sl_HTTP | sl_first_major_digit | sl_major_digit
  | sl_first_minor_digit | sl_minor_digit | sl_status | sl_space_after_status
  | sl_status_text | sl_almost_done

record status =
  st_http_major :: nat
  st_http_minor :: nat
  st_http_version :: nat
  st_code :: nat
  st_count :: nat
  st_start :: nat
  st_end :: "nat option"

type_synonym sl_local = "sl_state \<times> status"

abbreviation sl_error :: "sl_state \<Rightarrow> status \<Rightarrow> sl_local step" where
  "sl_error state s \<equiv> Fail NGX_ERROR (state, s)"

text \<open>The code at the label \<open>done\<close>.\<close>

definition sl_done :: "nat \<Rightarrow> status \<Rightarrow> sl_local step" where
  "sl_done p s =
     (let s = (if st_end s = None then s\<lparr>st_end := Some p\<rparr> else s)
      in Stop 1 NGX_OK (sl_start, s\<lparr>st_http_version := st_http_major s * 1000 + st_http_minor s\<rparr>))"

definition sl_case_http :: "sl_state \<Rightarrow> byte \<Rightarrow> status \<Rightarrow> sl_local step" where
  "sl_case_http state ch s =
     (case state of
        sl_start \<Rightarrow> (if ch = ch_H then Next (sl_H, s) else sl_error state s)
      | sl_H \<Rightarrow> (if ch = ch_T then Next (sl_HT, s) else sl_error state s)
      | sl_HT \<Rightarrow> (if ch = ch_T then Next (sl_HTT, s) else sl_error state s)
      | sl_HTT \<Rightarrow> (if ch = ch_P then Next (sl_HTTP, s) else sl_error state s)
      | _ \<Rightarrow> (if ch = ch_slash then Next (sl_first_major_digit, s) else sl_error state s))"

definition sl_case_version :: "sl_state \<Rightarrow> byte \<Rightarrow> status \<Rightarrow> sl_local step" where
  "sl_case_version state ch s =
     (let d = unat ch - 48 in
      case state of
        sl_first_major_digit \<Rightarrow>
          (if ch < ch_1 \<or> ch > ch_9 then sl_error state s
           else Next (sl_major_digit, s\<lparr>st_http_major := d\<rparr>))
      | sl_major_digit \<Rightarrow>
          (if ch = ch_dot then Next (sl_first_minor_digit, s)
           else if ch < ch_0 \<or> ch > ch_9 then sl_error state s
           else if st_http_major s > 99 then sl_error state s
           else Next (state, s\<lparr>st_http_major := st_http_major s * 10 + d\<rparr>))
      | sl_first_minor_digit \<Rightarrow>
          (if ch < ch_0 \<or> ch > ch_9 then sl_error state s
           else Next (sl_minor_digit, s\<lparr>st_http_minor := d\<rparr>))
      | _ \<Rightarrow>
          (if ch = ch_sp then Next (sl_status, s)
           else if ch < ch_0 \<or> ch > ch_9 then sl_error state s
           else if st_http_minor s > 99 then sl_error state s
           else Next (state, s\<lparr>st_http_minor := st_http_minor s * 10 + d\<rparr>)))"

definition sl_case_status :: "nat \<Rightarrow> byte \<Rightarrow> status \<Rightarrow> sl_local step" where
  "sl_case_status p ch s =
     (if ch = ch_sp then Next (sl_status, s)
      else if ch < ch_0 \<or> ch > ch_9 then sl_error sl_status s
      else
        let s = s\<lparr>st_code := st_code s * 10 + (unat ch - 48), st_count := st_count s + 1\<rparr> in
        if st_count s = 3 then Next (sl_space_after_status, s\<lparr>st_start := p - 2\<rparr>)
        else Next (sl_status, s))"

definition sl_case_text :: "sl_state \<Rightarrow> nat \<Rightarrow> byte \<Rightarrow> status \<Rightarrow> sl_local step" where
  "sl_case_text state p ch s =
     (case state of
        sl_space_after_status \<Rightarrow>
          (if ch = ch_sp \<or> ch = ch_dot then Next (sl_status_text, s)
           else if ch = ch_cr then Next (sl_almost_done, s)
           else if ch = ch_lf then sl_done p s
           else sl_error state s)
      | sl_status_text \<Rightarrow>
          (if ch = ch_cr then Next (sl_almost_done, s)
           else if ch = ch_lf then sl_done p s
           else Next (state, s))
      | _ \<Rightarrow>
          (let s = s\<lparr>st_end := Some (p - 1)\<rparr> in
           if ch = ch_lf then sl_done p s else sl_error state s))"

definition sl_step :: "sl_local stepper" where
  "sl_step mem p l =
     (let state = fst l; s = snd l; ch = mem ! p in
      case state of
        sl_start \<Rightarrow> sl_case_http state ch s
      | sl_H \<Rightarrow> sl_case_http state ch s
      | sl_HT \<Rightarrow> sl_case_http state ch s
      | sl_HTT \<Rightarrow> sl_case_http state ch s
      | sl_HTTP \<Rightarrow> sl_case_http state ch s
      | sl_first_major_digit \<Rightarrow> sl_case_version state ch s
      | sl_major_digit \<Rightarrow> sl_case_version state ch s
      | sl_first_minor_digit \<Rightarrow> sl_case_version state ch s
      | sl_minor_digit \<Rightarrow> sl_case_version state ch s
      | sl_status \<Rightarrow> sl_case_status p ch s
      | sl_space_after_status \<Rightarrow> sl_case_text state p ch s
      | sl_status_text \<Rightarrow> sl_case_text state p ch s
      | sl_almost_done \<Rightarrow> sl_case_text state p ch s)"

definition ngx_http_parse_status_line ::
  "byte list \<Rightarrow> nat \<Rightarrow> nat \<Rightarrow> sl_local \<Rightarrow> ngx_rc \<times> nat \<times> sl_local" where
  "ngx_http_parse_status_line mem pos lim l =
     (case scan sl_step mem pos lim l of
        Again p s \<Rightarrow> (NGX_AGAIN, p, s)
      | Stopped p rc s \<Rightarrow> (rc, p, s)
      | Failed rc s \<Rightarrow> (rc, pos, (fst l, snd s)))"

text \<open>The zeroed structure.\<close>

definition status_init :: status where
  "status_init = \<lparr>st_http_major = 0, st_http_minor = 0, st_http_version = 0, st_code = 0,
     st_count = 0, st_start = 0, st_end = None\<rparr>"

section \<open>Invariant\<close>

lemmas sl_cases = sl_case_http_def sl_case_version_def sl_case_status_def sl_case_text_def

interpretation sl: incremental sl_step
  by unfold_locales (simp add: sl_step_def Let_def split: sl_state.split)

text \<open>The text between \<open>start\<close> and \<open>p\<close> holds no line break.\<close>

definition one_line :: "byte list \<Rightarrow> nat \<Rightarrow> nat \<Rightarrow> bool" where
  "one_line mem a b \<longleftrightarrow> (\<forall>i. a \<le> i \<longrightarrow> i < b \<longrightarrow> mem ! i \<noteq> ch_cr \<and> mem ! i \<noteq> ch_lf)"

lemma one_line_Suc:
  "one_line mem a p \<Longrightarrow> mem ! p \<noteq> ch_cr \<Longrightarrow> mem ! p \<noteq> ch_lf \<Longrightarrow> a \<le> a' \<Longrightarrow> one_line mem a' (Suc p)"
  by (auto simp: one_line_def less_Suc_eq)

lemma one_line_step:
  "a \<le> p \<Longrightarrow> one_line mem a (Suc p) \<longleftrightarrow> one_line mem a p \<and> mem ! p \<noteq> ch_cr \<and> mem ! p \<noteq> ch_lf"
  by (auto simp: one_line_def less_Suc_eq)

lemma one_line_empty: "one_line mem p p"
  by (simp add: one_line_def)

lemma one_line_slice:
  "one_line mem a b \<Longrightarrow> b \<le> length mem \<Longrightarrow> list_all (\<lambda>c. c \<noteq> ch_cr \<and> c \<noteq> ch_lf) (slice mem a b)"
  by (auto simp: one_line_def list_all_length slice_def)

text \<open>\<open>count\<close> digits have been read, none of them past a line break.\<close>

fun sl_inv :: "byte list \<Rightarrow> nat \<Rightarrow> sl_local \<Rightarrow> bool" where
  "sl_inv mem p (state, s) \<longleftrightarrow>
     st_http_major s \<le> 999 \<and> st_http_minor s \<le> 999 \<and> st_count s \<le> 3 \<and>
     st_code s < 10 ^ st_count s \<and> st_end s = None \<and>
     (case state of
        sl_status \<Rightarrow> st_count s < 3 \<and> st_count s \<le> p \<and> one_line mem (p - st_count s) p
      | sl_space_after_status \<Rightarrow> st_count s = 3 \<and> st_start s + 3 \<le> p \<and> one_line mem (st_start s) p
      | sl_status_text \<Rightarrow> st_count s = 3 \<and> st_start s + 3 \<le> p \<and> one_line mem (st_start s) p
      | sl_almost_done \<Rightarrow> st_count s = 3 \<and> st_start s + 3 < p \<and> one_line mem (st_start s) (p - 1)
      | _ \<Rightarrow> st_count s = 0)"

definition sl_post :: "byte list \<Rightarrow> nat \<Rightarrow> status \<Rightarrow> bool" where
  "sl_post mem q s \<longleftrightarrow>
     st_http_major s \<le> 999 \<and> st_http_minor s \<le> 999 \<and>
     st_http_version s = st_http_major s * 1000 + st_http_minor s \<and> st_code s < 1000 \<and>
     (\<exists>e. st_end s = Some e \<and> st_start s + 3 \<le> e \<and> e < q \<and> q \<le> length mem \<and> one_line mem (st_start s) e)"

lemma digit_le: "\<not> ch < ch_0 \<Longrightarrow> \<not> ch_9 < ch \<Longrightarrow> unat ch - 48 \<le> 9"
  by (simp add: not_less word_le_nat_alt)

lemma digit_le_1: "\<not> ch < ch_1 \<Longrightarrow> \<not> ch_9 < ch \<Longrightarrow> unat ch - 48 \<le> 9"
  by (simp add: not_less word_le_nat_alt)

lemma sl_next_version:
  assumes "sl_inv mem p (st, s)" "sl_step mem p (st, s) = Next l'"
    and "st \<in> {sl_start, sl_H, sl_HT, sl_HTT, sl_HTTP, sl_first_major_digit, sl_major_digit,
      sl_first_minor_digit, sl_minor_digit}"
  shows "sl_inv mem (Suc p) l'"
  using assms digit_le [of "mem ! p"] digit_le_1 [of "mem ! p"]
  by (elim insertE; auto simp: sl_step_def sl_case_http_def sl_case_version_def Let_def one_line_empty
      split: if_splits)

lemma sl_next_status:
  assumes "sl_inv mem p (sl_status, s)" "sl_step mem p (sl_status, s) = Next l'"
  shows "sl_inv mem (Suc p) l'"
proof -
  have line: "one_line mem (p - st_count s) p" and cnt: "st_count s < 3" "st_count s \<le> p"
    and code: "st_code s < 10 ^ st_count s"
    using assms(1) by simp_all
  show ?thesis
  proof (cases "mem ! p = ch_sp")
    case True
    then have "one_line mem (Suc p - st_count s) (Suc p)"
      using one_line_Suc [OF line] by auto
    then show ?thesis using assms True by (auto simp: sl_step_def sl_case_status_def)
  next
    case False
    then have d: "\<not> mem ! p < ch_0" "\<not> ch_9 < mem ! p"
      using assms(2) by (auto simp: sl_step_def sl_case_status_def Let_def split: if_splits)
    then have "mem ! p \<noteq> ch_cr" "mem ! p \<noteq> ch_lf" by auto
    then have "one_line mem (p - st_count s) (Suc p)"
      using one_line_Suc [OF line, of "p - st_count s"] by simp
    moreover have "st_code s * 10 + (unat (mem ! p) - 48) < 10 ^ Suc (st_count s)"
      using code digit_le [OF d] by simp
    moreover have "p - 2 = p - st_count s \<and> Suc p = p - 2 + 3" if "Suc (st_count s) = 3"
      using that cnt by auto
    ultimately show ?thesis
      using assms cnt False d by (auto simp: sl_step_def sl_case_status_def Let_def split: if_splits)
  qed
qed

lemma sl_next_text:
  assumes "sl_inv mem p (st, s)" "sl_step mem p (st, s) = Next l'"
    and "st \<in> {sl_space_after_status, sl_status_text, sl_almost_done}"
  shows "sl_inv mem (Suc p) l'"
  using assms
  by (elim insertE; auto simp: sl_step_def sl_case_text_def sl_done_def Let_def one_line_step
      split: if_splits)

lemma sl_stop:
  assumes "sl_inv mem p (st, s)" "sl_step mem p (st, s) = Stop k rc l'" "p < length mem"
  shows "sl_post mem (p + k) (snd l') \<and> k = 1 \<and> rc = NGX_OK \<and> fst l' = sl_start"
  using assms
  by (cases st; auto simp: sl_step_def sl_cases sl_done_def sl_post_def Let_def split: if_splits)

interpretation sl: invariant_machine sl_step sl_inv
  "\<lambda>mem q rc l. sl_post mem q (snd l) \<and> rc = NGX_OK \<and> fst l = sl_start"
proof
  show "sl_inv mem (Suc p) l'"
    if "sl_inv mem p l" "p < length mem" "sl_step mem p l = Next l'" for mem p l l'
  proof -
    obtain st s where l: "l = (st, s)" by fastforce
    show ?thesis
      using that sl_next_version [of mem p st s l'] sl_next_status [of mem p s l'] sl_next_text [of mem p st s l']
      unfolding l by (cases st) (simp_all del: sl_inv.simps)
  qed
  show "sl_post mem (p + k) (snd l') \<and> rc = NGX_OK \<and> fst l' = sl_start"
    if "sl_inv mem p l" "p < length mem" "sl_step mem p l = Stop k rc l'" for mem p l k rc l'
    using that sl_stop [of mem p "fst l" "snd l" k rc l'] by (auto simp del: sl_inv.simps)
qed

lemma sl_fail_rc: "sl_step mem p l = Fail rc l' \<Longrightarrow> rc = NGX_ERROR"
  by (cases "fst l") (auto simp: sl_step_def sl_cases sl_done_def Let_def split: if_splits)

lemma sl_stop_rc: "sl_step mem p l = Stop k rc l' \<Longrightarrow> k = 1 \<and> rc = NGX_OK"
  by (cases "fst l") (auto simp: sl_step_def sl_cases sl_done_def Let_def split: if_splits)

section \<open>A rendered status line is accepted\<close>

definition status_head :: "byte \<Rightarrow> byte \<Rightarrow> byte \<Rightarrow> byte \<Rightarrow> byte list" where
  "status_head d a b c = [ch_H, ch_T, ch_T, ch_P, ch_slash, ch_1, ch_dot, d, ch_sp, a, b, c, ch_sp]"

definition render_status_line :: "byte \<Rightarrow> byte \<Rightarrow> byte \<Rightarrow> byte \<Rightarrow> byte list \<Rightarrow> byte list" where
  "render_status_line d a b c text = status_head d a b c @ text @ [ch_cr, ch_lf]"

lemma digit_not_special: "is_digit c \<Longrightarrow> \<not> c < ch_0 \<and> \<not> ch_9 < c \<and> c \<noteq> ch_sp"
  by (auto simp: is_digit_def)

lemma sl_run_head:
  assumes "is_digit d" "is_digit a" "is_digit b" "is_digit c" "mem = status_head d a b c @ rest"
  shows "run sl_step mem 0 13 (sl_start, status_init) = Some (sl_status_text,
    status_init\<lparr>st_http_major := 1, st_http_minor := unat d - 48,
      st_code := 100 * (unat a - 48) + 10 * (unat b - 48) + (unat c - 48), st_count := 3, st_start := 9\<rparr>)"
  using digit_not_special [OF assms(1)] digit_not_special [OF assms(2)] digit_not_special [OF assms(3)]
    digit_not_special [OF assms(4)]
  by (simp add: assms(5) status_head_def sl_step_def sl_cases status_init_def Let_def)

lemma sl_scan_text:
  assumes "drop p mem = text @ [ch_cr, ch_lf] @ rest" "list_all (\<lambda>c. c \<noteq> ch_cr \<and> c \<noteq> ch_lf) text"
    and "p + length text + 2 \<le> lim"
  shows "scan sl_step mem p lim (sl_status_text, s) =
    Stopped (p + length text + 2) NGX_OK (sl_start, s\<lparr>st_end := Some (p + length text),
      st_http_version := st_http_major s * 1000 + st_http_minor s\<rparr>)"
proof -
  let ?e = "p + length text"
  have byte: "mem ! (p + i) = (text @ [ch_cr, ch_lf] @ rest) ! i" for i
    using assms(1) by (metis nth_drop drop_eq_Nil append_is_Nil_conv linorder_le_cases not_Cons_self2 list.distinct(1))
  have "sl_step mem q (sl_status_text, s) = Next (sl_status_text, s)" if "p \<le> q" "q < ?e" for q
    using byte [of "q - p"] that assms(2) by (simp add: sl_step_def sl_case_text_def nth_append list_all_length)
  then have "scan sl_step mem p lim (sl_status_text, s) = scan sl_step mem ?e lim (sl_status_text, s)"
    using scan_through [of "\<lambda>q l. l = (sl_status_text, s)" p "(sl_status_text, s)" "length text" lim sl_step mem] assms(3)
    by auto
  moreover have "sl_step mem ?e (sl_status_text, s) = Next (sl_almost_done, s)"
    using byte [of "length text"] by (simp add: sl_step_def sl_case_text_def)
  moreover have "sl_step mem (Suc ?e) (sl_almost_done, s) = Stop 1 NGX_OK (sl_start, s\<lparr>st_end := Some ?e,
      st_http_version := st_http_major s * 1000 + st_http_minor s\<rparr>)"
    using byte [of "Suc (length text)"]
    by (simp add: sl_step_def sl_case_text_def sl_done_def nth_append Let_def)
  ultimately show ?thesis using assms(3) by (simp add: scan_Next scan_Stop)
qed

lemma take_length_append: "take (length xs) (xs @ ys) = xs"
  by simp

definition sample_status :: "byte list" where
  "sample_status = render_status_line ch_1 ch_4 ch_0 ch_4 [ch_N, ch_o]"

section \<open>Properties\<close>

text \<open>
  An accepted status line is well formed. After \<open>NGX_OK\<close> the code has at most three
  digits, the version parts stay below 1000, so that \<open>major * 1000 + minor\<close> is
  unambiguous, and the status text kept for the response, from \<open>start\<close> to \<open>end\<close>, lies
  in the line, is at least as long as a code, and holds no line break.
\<close>

theorem status_line_sound:
  assumes "lim \<le> length mem"
    and "ngx_http_parse_status_line mem pos lim (sl_start, status_init) = (NGX_OK, q, (st, s))"
  shows "st = sl_start \<and> pos < q \<and> q \<le> lim \<and> st_code s < 1000 \<and>
    st_http_major s \<le> 999 \<and> st_http_minor s \<le> 999 \<and>
    st_http_version s = st_http_major s * 1000 + st_http_minor s \<and>
    (\<exists>e. st_end s = Some e \<and> st_start s + 3 \<le> e \<and> e < q \<and>
      list_all (\<lambda>c. c \<noteq> ch_cr \<and> c \<noteq> ch_lf) (slice mem (st_start s) e))"
proof -
  have sc: "scan sl_step mem pos lim (sl_start, status_init) = Stopped q NGX_OK (st, s)"
    using assms(2) by (auto simp: ngx_http_parse_status_line_def split: outcome.splits
        dest!: scan_Failed_at sl_fail_rc)
  have "sl_inv mem pos (sl_start, status_init)" by (simp add: status_init_def)
  note post = sl.scan_Stopped [OF this assms(1) sc]
  obtain p' s1 k where "pos \<le> p'" "p' < lim" "sl_step mem p' s1 = Stop k NGX_OK (st, s)" "q = p' + k"
    using scan_Stopped_at [OF sc] by blast
  with sl_stop_rc [of mem p' s1 k NGX_OK "(st, s)"] post show ?thesis
    by (auto simp: sl_post_def intro!: one_line_slice)
qed

theorem status_line_sound_witness:
  "\<exists>q st s. ngx_http_parse_status_line sample_status 0 17 (sl_start, status_init) = (NGX_OK, q, (st, s)) \<and>
     st_code s < 1000"
proof -
  have "fst (ngx_http_parse_status_line sample_status 0 17 (sl_start, status_init)) = NGX_OK" by code_simp
  then obtain q st s where
    1: "ngx_http_parse_status_line sample_status 0 17 (sl_start, status_init) = (NGX_OK, q, (st, s))"
    by (metis prod.collapse)
  have "17 \<le> length sample_status" by (simp add: sample_status_def render_status_line_def status_head_def)
  from status_line_sound [OF this 1] 1 show ?thesis by blast
qed

text \<open>
  A rendered status line is accepted: for every minor version digit, three-digit code
  and text without line breaks, the parser stops after the line feed, with the code and
  version that were rendered and the status text \<open>code text\<close>.
\<close>

theorem status_line_roundtrip:
  assumes "is_digit d" "is_digit a" "is_digit b" "is_digit c"
    and "list_all (\<lambda>c. c \<noteq> ch_cr \<and> c \<noteq> ch_lf) text" "mem = render_status_line d a b c text @ rest"
  shows "\<exists>s e. ngx_http_parse_status_line mem 0 (length mem) (sl_start, status_init) =
      (NGX_OK, length (render_status_line d a b c text), (sl_start, s)) \<and>
    st_code s = 100 * (unat a - 48) + 10 * (unat b - 48) + (unat c - 48) \<and>
    st_http_version s = 1000 + (unat d - 48) \<and>
    st_end s = Some e \<and> slice mem (st_start s) e = [a, b, c, ch_sp] @ text"
proof -
  have mem: "mem = status_head d a b c @ text @ [ch_cr, ch_lf] @ rest"
    using assms(6) by (simp add: render_status_line_def)
  then have len: "13 + length text + 2 \<le> length mem" "drop 13 mem = text @ [ch_cr, ch_lf] @ rest"
    by (simp_all add: status_head_def)
  note head = sl_run_head [OF assms(1-4) mem]
  have "scan sl_step mem 0 (length mem) (sl_start, status_init) = scan sl_step mem 13 (length mem) (sl_status_text,
    status_init\<lparr>st_http_major := 1, st_http_minor := unat d - 48,
      st_code := 100 * (unat a - 48) + 10 * (unat b - 48) + (unat c - 48), st_count := 3, st_start := 9\<rparr>)"
    using scan_run [OF head, of "length mem"] len by simp
  note sc = this [unfolded sl_scan_text [OF len(2) assms(5) len(1)]]
  have "slice mem 9 (13 + length text) = [a, b, c, ch_sp] @ text"
  proof -
    have "drop 9 mem = ([a, b, c, ch_sp] @ text) @ [ch_cr, ch_lf] @ rest"
      "13 + length text - 9 = length ([a, b, c, ch_sp] @ text)"
      by (simp_all add: mem status_head_def)
    then show ?thesis unfolding slice_def by (simp only: take_length_append)
  qed
  then show ?thesis
    using sc by (simp add: ngx_http_parse_status_line_def render_status_line_def status_head_def status_init_def)
qed

theorem status_line_roundtrip_witness:
  "\<exists>s. ngx_http_parse_status_line sample_status 0 (length sample_status) (sl_start, status_init) =
      (NGX_OK, length sample_status, (sl_start, s)) \<and> st_code s = 404"
  using status_line_roundtrip [of ch_1 ch_4 ch_0 ch_4 "[ch_N, ch_o]" sample_status "[]"]
  by (auto simp: sample_status_def is_digit_def)

text \<open>
  The status line parser may be interrupted anywhere: resumed after \<open>NGX_AGAIN\<close> on
  the longer buffer it gives what one call on the longer buffer gives.
\<close>

theorem status_line_resume:
  assumes "pos \<le> length mem"
    and "ngx_http_parse_status_line mem pos (length mem) l = (NGX_AGAIN, p, l')"
    and "ngx_http_parse_status_line (mem @ rest) pos (length (mem @ rest)) l = (rc1, p1, l1)"
    and "ngx_http_parse_status_line (mem @ rest) p (length (mem @ rest)) l' = (rc2, p2, l2)"
  shows "rc2 = rc1 \<and> (rc1 = NGX_ERROR \<or> p2 = p1 \<and> l2 = l1)"
proof -
  have "scan sl_step mem pos (length mem) l = Again p l'"
    using assms(2) by (auto simp: ngx_http_parse_status_line_def split: outcome.splits
        dest!: scan_Stopped_at scan_Failed_at sl_fail_rc sl_stop_rc)
  then have eq: "scan sl_step (mem @ rest) p (length (mem @ rest)) l' =
      scan sl_step (mem @ rest) pos (length (mem @ rest)) l"
    using sl.scan_resume [OF assms(1), of rest l] by simp
  show ?thesis
    using assms(3,4) unfolding ngx_http_parse_status_line_def eq
    by (auto split: outcome.splits dest!: scan_Failed_at sl_fail_rc)
qed

theorem status_line_resume_witness:
  "case ngx_http_parse_status_line (take 11 sample_status) 0 11 (sl_start, status_init) of
     (rc, p, l') \<Rightarrow> rc = NGX_AGAIN \<and>
       ngx_http_parse_status_line sample_status p 17 l' =
       ngx_http_parse_status_line sample_status 0 17 (sl_start, status_init)"
proof -
  let ?i = "(sl_start, status_init)"
  have s: "take 11 sample_status @ drop 11 sample_status = sample_status"
    "length sample_status = 17" "length (take 11 sample_status) = 11"
    by (simp_all add: sample_status_def render_status_line_def status_head_def)
  have rc: "fst (ngx_http_parse_status_line (take 11 sample_status) 0 11 ?i) = NGX_AGAIN"
    "fst (ngx_http_parse_status_line sample_status 0 17 ?i) = NGX_OK"
    by code_simp+
  obtain p l' where 1: "ngx_http_parse_status_line (take 11 sample_status) 0 11 ?i = (NGX_AGAIN, p, l')"
    using rc(1) by (metis prod.collapse)
  obtain rc1 p1 l1 where 2: "ngx_http_parse_status_line sample_status 0 17 ?i = (rc1, p1, l1)"
    by (metis prod.collapse)
  obtain rc2 p2 l2 where 3: "ngx_http_parse_status_line sample_status p 17 l' = (rc2, p2, l2)"
    by (metis prod.collapse)
  have "rc2 = rc1 \<and> (rc1 = NGX_ERROR \<or> p2 = p1 \<and> l2 = l1)"
    by (rule status_line_resume [of 0 "take 11 sample_status" ?i p l' "drop 11 sample_status"])
      (use 1 2 3 s in simp_all)
  then show ?thesis using 1 2 3 rc(2) by auto
qed

text \<open>
  The status text need not begin with the code. Spaces are skipped between the digits
  of the code, but \<open>start\<close> is set two bytes before the last digit: on
  \<open>HTTP/1.1 2 0 0 OK\<close> the parser reports the code 200 and a status text that begins
  with \<open>0 0 OK\<close>.
\<close>

theorem status_text_misplaced:
  "let mem = [ch_H, ch_T, ch_T, ch_P, ch_slash, ch_1, ch_dot, ch_1, ch_sp, ch_2, ch_sp, ch_0, ch_sp, ch_0,
      ch_sp, ch_O, ch_K, ch_lf]
   in case ngx_http_parse_status_line mem 0 (length mem) (sl_start, status_init) of
        (rc, _, (_, s)) \<Rightarrow> rc = NGX_OK \<and> st_code s = 200 \<and>
          slice mem (st_start s) (the (st_end s)) = [ch_0, ch_sp, ch_0, ch_sp, ch_O, ch_K]"
  by code_simp

end
