(* ===== verification/Ngx_Escape.thy ===== *)
theory Ngx_Escape
  imports Ngx_Prelude
begin

text \<open>
  The escaping routines of \<open>src/core/ngx_string.c\<close>: \<open>ngx_escape_uri\<close>,
  \<open>ngx_unescape_uri\<close>, \<open>ngx_escape_html\<close> and \<open>ngx_escape_json\<close>. An escaper is
  called twice: with \<open>dst == NULL\<close> it counts what escaping adds, so that the caller can
  allocate, then it writes. Each pass is a definition of its own.
\<close>

section \<open>URI escaping\<close>

definition esc_uri :: "u32 list" where
  "esc_uri = [0xffffffff, 0xd000002d, 0x50000000, 0xb8000001,
     0xffffffff, 0xffffffff, 0xffffffff, 0xffffffff]"

definition esc_args :: "u32 list" where
  "esc_args = [0xffffffff, 0xd800086d, 0x50000000, 0xb8000001,
     0xffffffff, 0xffffffff, 0xffffffff, 0xffffffff]"

definition esc_uri_component :: "u32 list" where
  "esc_uri_component = [0xffffffff, 0xfc009fff, 0x78000001, 0xb8000001,
     0xffffffff, 0xffffffff, 0xffffffff, 0xffffffff]"

definition esc_html :: "u32 list" where
  "esc_html = [0xffffffff, 0x500000ad, 0x50000000, 0xb8000001,
     0xffffffff, 0xffffffff, 0xffffffff, 0xffffffff]"

definition esc_refresh :: "u32 list" where
  "esc_refresh = [0xffffffff, 0x50000085, 0x50000000, 0xd8000001,
     0xffffffff, 0xffffffff, 0xffffffff, 0xffffffff]"

definition esc_memcached :: "u32 list" where
  "esc_memcached = [0xffffffff, 0x00000021, 0x00000000, 0x00000000,
     0x00000000, 0x00000000, 0x00000000, 0x00000000]"

datatype escape_type =
    NGX_ESCAPE_URI | NGX_ESCAPE_ARGS | NGX_ESCAPE_URI_COMPONENT | NGX_ESCAPE_HTML
  | NGX_ESCAPE_REFRESH | NGX_ESCAPE_MEMCACHED | NGX_ESCAPE_MAIL_AUTH

definition escape_map :: "escape_type \<Rightarrow> u32 list" where
  "escape_map type = (case type of
     NGX_ESCAPE_URI \<Rightarrow> esc_uri | NGX_ESCAPE_ARGS \<Rightarrow> esc_args
   | NGX_ESCAPE_URI_COMPONENT \<Rightarrow> esc_uri_component | NGX_ESCAPE_HTML \<Rightarrow> esc_html
   | NGX_ESCAPE_REFRESH \<Rightarrow> esc_refresh | NGX_ESCAPE_MEMCACHED \<Rightarrow> esc_memcached
   | NGX_ESCAPE_MAIL_AUTH \<Rightarrow> esc_memcached)"

definition HEX :: "byte list" where
  "HEX = [ch_0, ch_1, ch_2, ch_3, ch_4, ch_5, ch_6, ch_7, ch_8, ch_9, ch_A, ch_B, ch_C, ch_D, ch_E, ch_F]"

text \<open>\<open>dst == NULL\<close>: the number of characters to be escaped.\<close>

fun escape_uri_count :: "escape_type \<Rightarrow> byte list \<Rightarrow> nat" where
  "escape_uri_count type [] = 0"
| "escape_uri_count type (c # src) =
     (if bitmap_test (escape_map type) c then 1 else 0) + escape_uri_count type src"

fun ngx_escape_uri :: "escape_type \<Rightarrow> byte list \<Rightarrow> byte list" where
  "ngx_escape_uri type [] = []"
| "ngx_escape_uri type (c # src) =
     (if bitmap_test (escape_map type) c
      then ch_pct # HEX ! unat (drop_bit 4 c) # HEX ! unat (c AND 0xf) # ngx_escape_uri type src
      else c # ngx_escape_uri type src)"

section \<open>URI unescaping\<close>

text \<open>
  \<open>type\<close> is a bit mask of \<open>NGX_UNESCAPE_URI\<close> and \<open>NGX_UNESCAPE_REDIRECT\<close>, kept as
  two flags. In \<open>sw_quoted_second\<close> the state carries \<open>decoded\<close> and the first digit,
  \<open>*(s - 2)\<close> of the source. The result is the output and the source that is left.
\<close>

datatype un_state = un_usual | un_quoted | un_second byte byte

fun un_loop :: "bool \<Rightarrow> bool \<Rightarrow> un_state \<Rightarrow> byte list \<Rightarrow> byte list \<times> byte list" where
  "un_loop uri redirect st [] = ([], [])"
| "un_loop uri redirect un_usual (ch # s) =
     (if ch = ch_quest \<and> (uri \<or> redirect) then ([ch], s)
      else if ch = ch_pct then un_loop uri redirect un_quoted s
      else apfst ((#) ch) (un_loop uri redirect un_usual s))"
| "un_loop uri redirect un_quoted (ch # s) =
     (case hex_digit ch of
        Some d \<Rightarrow> un_loop uri redirect (un_second d ch) s
      | None \<Rightarrow> apfst ((#) ch) (un_loop uri redirect un_usual s))"
| "un_loop uri redirect (un_second decoded h) (ch # s) =
     (if is_digit ch then
        (let c = push_bit 4 decoded + (ch - ch_0) in
         if redirect then
           (if c > ch_pct \<and> c < 0x7f then apfst ((#) c) (un_loop uri redirect un_usual s)
            else apfst ((@) [ch_pct, h, ch]) (un_loop uri redirect un_usual s))
         else apfst ((#) c) (un_loop uri redirect un_usual s))
      else
        (let l = ch OR 0x20 in
         if ch_a \<le> l \<and> l \<le> ch_f then
           (let c = push_bit 4 decoded + (l - ch_a) + 10 in
            if uri then
              (if c = ch_quest then ([c], s)
               else apfst ((#) c) (un_loop uri redirect un_usual s))
            else if redirect then
              (if c = ch_quest then ([c], s)
               else if c > ch_pct \<and> c < 0x7f then apfst ((#) c) (un_loop uri redirect un_usual s)
               else apfst ((@) [ch_pct, h, ch]) (un_loop uri redirect un_usual s))
            else apfst ((#) c) (un_loop uri redirect un_usual s))
         else un_loop uri redirect un_usual s))"

definition ngx_unescape_uri :: "bool \<Rightarrow> bool \<Rightarrow> byte list \<Rightarrow> byte list \<times> byte list" where
  "ngx_unescape_uri uri redirect src = un_loop uri redirect un_usual src"

section \<open>HTML escaping\<close>

fun escape_html_count :: "byte list \<Rightarrow> nat" where
  "escape_html_count [] = 0"
| "escape_html_count (c # src) =
     (if c = ch_lt then 3 else if c = ch_gt then 3 else if c = ch_amp then 4
      else if c = ch_quot then 5 else 0) + escape_html_count src"

fun ngx_escape_html :: "byte list \<Rightarrow> byte list" where
  "ngx_escape_html [] = []"
| "ngx_escape_html (c # src) =
     (if c = ch_lt then [ch_amp, ch_l, ch_t, ch_semi]
      else if c = ch_gt then [ch_amp, ch_g, ch_t, ch_semi]
      else if c = ch_amp then [ch_amp, ch_a, ch_m, ch_p, ch_semi]
      else if c = ch_quot then [ch_amp, ch_q, ch_u, ch_o, ch_t, ch_semi]
      else [c]) @ ngx_escape_html src"

section \<open>JSON escaping\<close>

fun escape_json_count :: "byte list \<Rightarrow> nat" where
  "escape_json_count [] = 0"
| "escape_json_count (ch # src) =
     (if ch = ch_bslash \<or> ch = ch_quot then 1
      else if ch \<le> 0x1f then
        (if ch \<in> {ch_lf, ch_cr, ch_tab, ch_bs, ch_ff} then 1 else 5)
      else 0) + escape_json_count src"

definition json_control :: "byte \<Rightarrow> byte list" where
  "json_control ch =
     (if ch = ch_lf then [ch_n]
      else if ch = ch_cr then [ch_r]
      else if ch = ch_tab then [ch_t]
      else if ch = ch_bs then [ch_b]
      else if ch = ch_ff then [ch_f]
      else [ch_u, ch_0, ch_0, ch_0 + drop_bit 4 ch,
            (let c = ch AND 0xf in if c < 10 then ch_0 + c else ch_A + c - 10)])"

fun ngx_escape_json :: "byte list \<Rightarrow> byte list" where
  "ngx_escape_json [] = []"
| "ngx_escape_json (ch # src) =
     (if ch > 0x1f then (if ch = ch_bslash \<or> ch = ch_quot then [ch_bslash, ch] else [ch])
      else ch_bslash # json_control ch) @ ngx_escape_json src"

section \<open>Interface of a two-pass writer\<close>

text \<open>
  What the counting pass promises to the writing pass: a byte adds to the count what it
  adds to the output beyond itself. Then the buffer the callers allocate, the source
  length plus the count, is filled exactly.
\<close>

locale two_pass =
  fixes extra :: "byte list \<Rightarrow> nat"
    and writer :: "byte list \<Rightarrow> byte list"
  assumes extra_Nil: "extra [] = 0"
    and writer_Nil: "writer [] = []"
    and pass_step: "length (writer (c # src)) + extra src = Suc (extra (c # src) + length (writer src))"
begin

lemma buffer_exact: "length (writer src) = length src + extra src"
proof (induction src)
  case Nil
  show ?case by (simp add: extra_Nil writer_Nil)
next
  case (Cons c src)
  then show ?case using pass_step [of c src] by simp
qed

end

interpretation esc_uri: two_pass "\<lambda>src. 2 * escape_uri_count type src" "ngx_escape_uri type" for type
  by unfold_locales simp_all

interpretation esc_html: two_pass escape_html_count ngx_escape_html
  by unfold_locales simp_all

interpretation esc_json: two_pass escape_json_count ngx_escape_json
proof
  show "length (ngx_escape_json (c # src)) + escape_json_count src =
      Suc (escape_json_count (c # src) + length (ngx_escape_json src))" for c src
  proof -
    have "\<forall>c. length (ngx_escape_json [c]) = Suc (escape_json_count [c])"
      unfolding byte_all_iff by code_simp
    then have "length (ngx_escape_json [c]) = Suc (escape_json_count [c])" by blast
    then show ?thesis by (simp split: if_splits)
  qed
qed simp_all

section \<open>Properties\<close>

text \<open>
  The counting pass of each escaper is exact: the output of the writing pass is as long
  as the source plus what the counting pass announced (two more bytes for every character
  a URI escape replaces), so a buffer of that size is filled to its last byte and never
  overrun.
\<close>

theorem escape_two_pass:
  "length (ngx_escape_uri type src) = length src + 2 * escape_uri_count type src \<and>
   length (ngx_escape_html src) = length src + escape_html_count src \<and>
   length (ngx_escape_json src) = length src + escape_json_count src"
  by (simp add: esc_uri.buffer_exact esc_html.buffer_exact esc_json.buffer_exact)

section \<open>Unescaping\<close>

definition un_pending :: "un_state \<Rightarrow> nat" where
  "un_pending st = (case st of un_usual \<Rightarrow> 0 | un_quoted \<Rightarrow> 1 | un_second _ _ \<Rightarrow> 2)"

lemma un_loop_length:
  "length (fst (un_loop uri redirect st src)) + length (snd (un_loop uri redirect st src)) \<le> length src + un_pending st"
proof (induction src arbitrary: st)
  case Nil
  then show ?case by simp
next
  case (Cons ch s)
  note u = Cons.IH [of un_usual] and q = Cons.IH [of un_quoted]
  show ?case
  proof (cases st)
    case un_usual
    then show ?thesis using u q by (simp add: un_pending_def)
  next
    case un_quoted
    then show ?thesis
      using u Cons.IH [of "un_second (the (hex_digit ch)) ch"]
      by (cases "hex_digit ch") (simp_all add: un_pending_def)
  next
    case (un_second d h)
    obtain D R where e: "un_loop uri redirect un_usual s = (D, R)" by fastforce
    then have "length D + length R \<le> length s" using u by (simp add: un_pending_def)
    then show ?thesis unfolding un_second un_loop.simps e Let_def by (auto simp: un_pending_def)
  qed
qed

text \<open>The two digits an escape writes are read back.\<close>

lemma hex_roundtrip:
  "hex_digit (HEX ! unat (drop_bit 4 c)) = Some (drop_bit 4 c) \<and>
   hex_digit (HEX ! unat (c AND 0xf)) = Some (c AND 0xf) \<and>
   push_bit 4 (drop_bit 4 c) + (c AND 0xf) = (c :: byte)"
proof -
  have "\<forall>c. hex_digit (HEX ! unat (drop_bit 4 c)) = Some (drop_bit 4 c) \<and>
   hex_digit (HEX ! unat (c AND 0xf)) = Some (c AND 0xf) \<and>
   push_bit 4 (drop_bit 4 c) + (c AND 0xf) = (c :: byte)"
    unfolding byte_all_iff by code_simp
  then show ?thesis by blast
qed

lemma un_second_plain:
  assumes "hex_digit ch = Some l"
  shows "un_loop False False (un_second d h) (ch # s) =
    apfst ((#) (push_bit 4 d + l)) (un_loop False False un_usual s)"
proof -
  have eq: "push_bit 4 d + (x - ch_a) + 10 = push_bit 4 d + (x - ch_a + 10)" for x :: byte
    by (simp add: algebra_simps)
  show ?thesis
    using assms unfolding un_loop.simps Let_def eq hex_digit_def by (auto split: if_splits)
qed

lemma un_loop_escaped:
  "un_loop False False un_usual (ch_pct # HEX ! unat (drop_bit 4 c) # HEX ! unat (c AND 0xf) # s) =
    apfst ((#) c) (un_loop False False un_usual s)"
proof -
  have d: "hex_digit (HEX ! unat (drop_bit 4 c)) = Some (drop_bit 4 c)"
    "hex_digit (HEX ! unat (c AND 0xf)) = Some (c AND 0xf)"
    "push_bit 4 (drop_bit 4 c) + (c AND 0xf) = c" using hex_roundtrip [of c] by auto
  have "un_loop False False un_usual (ch_pct # HEX ! unat (drop_bit 4 c) # HEX ! unat (c AND 0xf) # s) =
      un_loop False False (un_second (drop_bit 4 c) (HEX ! unat (drop_bit 4 c))) (HEX ! unat (c AND 0xf) # s)"
    by (simp add: d(1) del: un_loop.simps(4))
  then show ?thesis using un_second_plain [OF d(2)] d(3) by simp
qed

lemma pct_escaped: "type \<noteq> NGX_ESCAPE_REFRESH \<Longrightarrow> bitmap_test (escape_map type) ch_pct"
  by (cases type) (simp_all add: bitmap_test_bit escape_map_def esc_uri_def esc_args_def esc_uri_component_def
    esc_html_def esc_memcached_def)

lemma unescape_escape:
  "type \<noteq> NGX_ESCAPE_REFRESH \<Longrightarrow> un_loop False False un_usual (ngx_escape_uri type src) = (src, [])"
proof (induction src)
  case (Cons c src)
  show ?case
  proof (cases "bitmap_test (escape_map type) c")
    case True
    then show ?thesis using Cons un_loop_escaped [of c "ngx_escape_uri type src"] by (simp del: un_loop.simps)
  next
    case False
    then have "c \<noteq> ch_pct" using pct_escaped Cons.prems by blast
    then show ?thesis using Cons False by simp
  qed
qed simp

text \<open>
  Unescaping inverts escaping: for every type of escape but
  \<open>NGX_ESCAPE_REFRESH\<close> (whose table lets the percent sign through on purpose),
  \<open>ngx_unescape_uri\<close> with no flags gives back the source of \<open>ngx_escape_uri\<close>, for
  all bytes.
\<close>

theorem unescape_inverts_escape:
  assumes "type \<noteq> NGX_ESCAPE_REFRESH"
  shows "ngx_unescape_uri False False (ngx_escape_uri type src) = (src, [])"
  using unescape_escape [OF assms] by (simp add: ngx_unescape_uri_def)

theorem unescape_inverts_escape_witness:
  "ngx_unescape_uri False False (ngx_escape_uri NGX_ESCAPE_ARGS [ch_a, ch_pct, 0xff]) = ([ch_a, ch_pct, 0xff], [])"
  using unescape_inverts_escape [of NGX_ESCAPE_ARGS "[ch_a, ch_pct, 0xff]"] by simp

text \<open>
  Unescaping may be done in place: whatever the flags and the source, the output is no
  longer than the part of the source that was read, so the write pointer never passes the
  read pointer.
\<close>

theorem unescape_in_place:
  "length (fst (ngx_unescape_uri uri redirect src)) + length (snd (ngx_unescape_uri uri redirect src)) \<le> length src"
  using un_loop_length [of uri redirect un_usual src] by (simp add: ngx_unescape_uri_def un_pending_def)

section \<open>What escaping lets through\<close>

text \<open>The characters the comment of \<open>ngx_escape_uri\<close> allows for each type.\<close>

definition rfc_char :: "byte \<Rightarrow> bool" where
  "rfc_char c \<longleftrightarrow> 0x20 < c \<and> c < 0x7f \<and>
     c \<notin> {ch_quot, ch_lt, ch_gt, ch_bslash, 0x5e, 0x60, 0x7b, 0x7c, 0x7d}"

definition unreserved :: "byte \<Rightarrow> bool" where
  "unreserved c \<longleftrightarrow> is_alpha c \<or> is_digit c \<or> c \<in> {ch_dash, ch_dot, ch_under, ch_tilde}"

fun allowed :: "escape_type \<Rightarrow> byte \<Rightarrow> bool" where
  "allowed NGX_ESCAPE_URI c = (rfc_char c \<and> c \<notin> {ch_hash, ch_quest})"
| "allowed NGX_ESCAPE_ARGS c = (rfc_char c \<and> c \<notin> {ch_hash, ch_amp, ch_plus, ch_semi, ch_quest})"
| "allowed NGX_ESCAPE_URI_COMPONENT c = (unreserved c \<or> c = ch_pct)"
| "allowed NGX_ESCAPE_HTML c = (rfc_char c \<and> c \<notin> {ch_hash, ch_apos})"
| "allowed NGX_ESCAPE_REFRESH c = (0x20 < c \<and> c < 0x7f \<and> c \<notin> {ch_quot, ch_apos})"
| "allowed NGX_ESCAPE_MEMCACHED c = (0x20 < c)"
| "allowed NGX_ESCAPE_MAIL_AUTH c = (0x20 < c)"

lemma bitmap_low_high: "take 1 tbl = [0xffffffff] \<Longrightarrow> drop 4 tbl = replicate 4 0xffffffff \<Longrightarrow>
  list_all (\<lambda>n. bit (tbl ! (n div 32)) (n mod 32) \<or> P (word_of_nat n)) [32..<128] \<Longrightarrow>
  \<not> bitmap_test tbl c \<Longrightarrow> P c"
proof -
  assume t: "take 1 tbl = [0xffffffff]" "drop 4 tbl = replicate 4 0xffffffff"
    and mid: "list_all (\<lambda>n. bit (tbl ! (n div 32)) (n mod 32) \<or> P (word_of_nat n)) [32..<128]"
    and c: "\<not> bitmap_test tbl c"
  have ones: "bit (0xffffffff :: u32) n" if "n < 32" for n
  proof -
    have "(0xffffffff :: u32) = mask 32" by (simp add: mask_eq_exp_minus_1)
    moreover have "bit (mask 32 :: u32) n" using that by (simp only: bit_mask_iff) simp
    ultimately show ?thesis by (simp only:)
  qed
  have "unat c \<in> set [32..<128]"
  proof (rule ccontr)
    assume "unat c \<notin> set [32..<128]"
    then have "unat c div 32 = 0 \<or> unat c div 32 \<in> {4, 5, 6, 7}"
      unfolding set_upt atLeastLessThan_iff using unat_byte_less [of c] by (simp, linarith)
    moreover have "tbl ! 0 = 0xffffffff" using t(1) by (cases tbl) auto
    moreover have "tbl ! (4 + i) = 0xffffffff" if "i < 4" for i
      using arg_cong [OF t(2), of "\<lambda>l. l ! i"] that arg_cong [OF t(2), of length] by simp
    from this [of 0] this [of 1] this [of 2] this [of 3]
    have "tbl ! 4 = 0xffffffff" "tbl ! 5 = 0xffffffff" "tbl ! 6 = 0xffffffff" "tbl ! 7 = 0xffffffff" by simp_all
    ultimately have "tbl ! (unat c div 32) = 0xffffffff" by auto
    with c ones [of "unat c mod 32"] show False by (simp add: bitmap_test_bit)
  qed
  with mid c have "P (word_of_nat (unat c))" unfolding list_all_iff bitmap_test_bit by blast
  then show "P c" by simp
qed

lemma allowed_pass: "\<not> bitmap_test (escape_map type) c \<Longrightarrow> allowed type c"
proof -
  have "\<not> bitmap_test esc_uri c \<Longrightarrow> allowed NGX_ESCAPE_URI c"
    by (erule bitmap_low_high [rotated 3], code_simp, code_simp, code_simp)
  moreover have "\<not> bitmap_test esc_args c \<Longrightarrow> allowed NGX_ESCAPE_ARGS c"
    by (erule bitmap_low_high [rotated 3], code_simp, code_simp, code_simp)
  moreover have "\<not> bitmap_test esc_uri_component c \<Longrightarrow> allowed NGX_ESCAPE_URI_COMPONENT c"
    by (erule bitmap_low_high [rotated 3], code_simp, code_simp, code_simp)
  moreover have "\<not> bitmap_test esc_html c \<Longrightarrow> allowed NGX_ESCAPE_HTML c"
    by (erule bitmap_low_high [rotated 3], code_simp, code_simp, code_simp)
  moreover have "\<not> bitmap_test esc_refresh c \<Longrightarrow> allowed NGX_ESCAPE_REFRESH c"
    by (erule bitmap_low_high [rotated 3], code_simp, code_simp, code_simp)
  moreover have "\<forall>c::byte. bit (esc_memcached ! (unat c div 32)) (unat c mod 32) \<or> 0x20 < c"
    unfolding byte_all_iff by code_simp
  ultimately show "\<not> bitmap_test (escape_map type) c \<Longrightarrow> allowed type c"
    by (cases type) (auto simp: escape_map_def bitmap_test_bit [of esc_memcached])
qed

lemma allowed_escape: "allowed type ch_pct" "allowed type (HEX ! unat (drop_bit 4 (c::byte)))" "allowed type (HEX ! unat (c AND 0xf))"
proof -
  have h: "list_all (\<lambda>t. allowed t ch_pct \<and> list_all (allowed t) HEX)
    [NGX_ESCAPE_URI, NGX_ESCAPE_ARGS, NGX_ESCAPE_URI_COMPONENT, NGX_ESCAPE_HTML, NGX_ESCAPE_REFRESH,
     NGX_ESCAPE_MEMCACHED, NGX_ESCAPE_MAIL_AUTH]"
    by code_simp
  then have t: "allowed type ch_pct \<and> list_all (allowed type) HEX" by (cases type) simp_all
  have "\<forall>c::byte. unat (drop_bit 4 c) < length HEX \<and> unat (c AND 0xf) < length HEX"
    unfolding byte_all_iff by code_simp
  then have "unat (drop_bit 4 c) < length HEX" "unat (c AND 0xf) < length HEX" by simp_all
  with t show "allowed type ch_pct" "allowed type (HEX ! unat (drop_bit 4 c))" "allowed type (HEX ! unat (c AND 0xf))"
    by (simp_all only: list_all_length)
qed

text \<open>
  The output of \<open>ngx_escape_uri\<close> holds only characters the type allows: for a URI or
  its arguments no space, control, non-ASCII, quote, fragment or query delimiter and none
  of the characters RFC 3986 forbids; for a component only unreserved characters and
  escapes; for a memcached key or a mail password no space and no control character.
\<close>

theorem escape_uri_allowed: "list_all (allowed type) (ngx_escape_uri type src)"
  by (induction src) (simp_all add: allowed_escape allowed_pass)

text \<open>
  The table of \<open>NGX_ESCAPE_REFRESH\<close> does not match its comment. The bit pattern
  written beside the fourth word escapes the right brace and lets the tilde through, as all
  other tables do; the word itself escapes the tilde and lets the right brace through,
  which RFC 3986 does not allow.
\<close>

theorem refresh_table_swapped:
  "bitmap_test esc_refresh 0x7e \<and> \<not> bitmap_test esc_refresh 0x7d \<and>
   list_all (\<lambda>t. \<not> bitmap_test t 0x7e \<and> bitmap_test t 0x7d) [esc_uri, esc_args, esc_uri_component, esc_html] \<and>
   ngx_escape_uri NGX_ESCAPE_REFRESH [0x7d] = [0x7d]"
  by (simp add: bitmap_test_bit escape_map_def esc_uri_def esc_args_def esc_uri_component_def
    esc_html_def esc_refresh_def)

end
