(* ===== verification/Http_Unsafe_Uri.thy ===== *)
theory Http_Unsafe_Uri
  imports Http_Complex_Uri Ngx_Escape
begin

text \<open>
  \<open>ngx_http_parse_unsafe_uri\<close> of \<open>src/http/ngx_http_parse.c\<close>, the check of URIs that
  come from elsewhere than a request line (\<open>X-Accel-Redirect\<close>, SSI includes, WebDAV
  destinations): it splits the arguments off, unescapes the path and rejects a path that
  could climb out of its directory.
\<close>

section \<open>The function\<close>

text \<open>
  The test for \<open>..\<close> at the head of \<open>p\<close>, followed by a separator or the end; \<open>len\<close> is the
  number of bytes left, those of the arguments included.
\<close>

definition up_dir :: "byte list \<Rightarrow> bool" where
  "up_dir p \<longleftrightarrow> length p > 1 \<and> p ! 0 = ch_dot \<and> p ! 1 = ch_dot \<and> (length p = 2 \<or> p ! 2 = ch_slash)"

text \<open>
  The first loop: \<open>quoted\<close>, the path and the arguments, or \<open>None\<close> for a jump to
  \<open>unsafe\<close>.
\<close>

fun unsafe_loop :: "bool \<Rightarrow> byte list \<Rightarrow> (bool \<times> byte list \<times> byte list option) option" where
  "unsafe_loop quoted [] = Some (quoted, [], None)"
| "unsafe_loop quoted (ch # p) =
     (if ch = ch_pct then map_option (apsnd (apfst ((#) ch))) (unsafe_loop True p)
      else if is_usual ch then map_option (apsnd (apfst ((#) ch))) (unsafe_loop quoted p)
      else if ch = ch_quest then Some (quoted, [], Some p)
      else if ch = ch_nul then None
      else if ch = ch_slash \<and> up_dir p then None
      else map_option (apsnd (apfst ((#) ch))) (unsafe_loop quoted p))"

text \<open>The second loop, over the unescaped path.\<close>

fun unescaped_loop :: "byte list \<Rightarrow> bool" where
  "unescaped_loop [] = True"
| "unescaped_loop (ch # p) =
     (if ch = ch_nul then False
      else if ch = ch_slash \<and> up_dir p then False
      else unescaped_loop p)"

text \<open>\<open>None\<close> is \<open>NGX_ERROR\<close>; otherwise what \<open>uri\<close> and \<open>args\<close> are set to.\<close>

definition ngx_http_parse_unsafe_uri :: "byte list \<Rightarrow> (byte list \<times> byte list option) option" where
  "ngx_http_parse_unsafe_uri uri =
     (if uri = [] \<or> uri ! 0 = ch_quest then None
      else if up_dir uri then None
      else
        case unsafe_loop False uri of
          None \<Rightarrow> None
        | Some (quoted, path, args) \<Rightarrow>
            if quoted then
              (let path = fst (ngx_unescape_uri False False path) in
               if up_dir path then None
               else if unescaped_loop path then Some (path, args) else None)
            else Some (path, args))"

section \<open>Paths that climb\<close>

lemma up_dir_segs: "up_dir p \<longleftrightarrow> hd (segs p) = [ch_dot, ch_dot]"
proof (cases p)
  case (Cons a q)
  show ?thesis
  proof (cases q)
    case (Cons b r)
    then show ?thesis using \<open>p = a # q\<close> by (cases r) (auto simp: up_dir_def split: list.splits)
  qed (auto simp: \<open>p = a # q\<close> up_dir_def)
qed (simp add: up_dir_def)

text \<open>A path climbs when one of its segments is \<open>..\<close>\<close>

definition climbs :: "byte list \<Rightarrow> bool" where
  "climbs u \<longleftrightarrow> [ch_dot, ch_dot] \<in> set (segs u)"

lemma climbs_iff: "climbs u \<longleftrightarrow> up_dir u \<or> [ch_dot, ch_dot] \<in> set (tl (segs u))"
  unfolding climbs_def up_dir_segs by (cases "segs u") auto

lemma climbs_slash: "climbs u = ([ch_dot, ch_dot] \<in> set (tl (segs (ch_slash # u))))"
  by (simp add: climbs_def)

lemma tl_segs_Cons: "c \<noteq> ch_slash \<Longrightarrow> tl (segs (c # u)) = tl (segs u)"
  by (cases "segs u") simp_all

lemma unescaped_loop_iff: "unescaped_loop p \<longleftrightarrow> 0 \<notin> set p \<and> [ch_dot, ch_dot] \<notin> set (tl (segs p))"
proof (induction p)
  case (Cons c p)
  show ?case
  proof (cases "c = ch_slash")
    case True
    then show ?thesis using Cons climbs_iff [of p] climbs_slash [of p] by auto
  next
    case False
    then show ?thesis using Cons tl_segs_Cons [OF False, of p] by auto
  qed
qed simp

lemma usual_not_special: "\<not> is_usual ch_slash" "\<not> is_usual ch_nul" "\<not> is_usual ch_quest" "\<not> is_usual ch_pct"
  by (simp_all add: is_usual_def bitmap_test_bit usual_def)

text \<open>The first loop splits the arguments off and finds every NUL before them.\<close>

lemma unsafe_loop_split:
  assumes "unsafe_loop quoted p = Some (quoted', path, args)"
  shows "p = path @ (case args of None \<Rightarrow> [] | Some a \<Rightarrow> ch_quest # a) \<and>
    ch_quest \<notin> set path \<and> 0 \<notin> set path \<and> (quoted' \<longleftrightarrow> quoted \<or> ch_pct \<in> set path)"
  using assms
proof (induction quoted p arbitrary: path rule: unsafe_loop.induct)
  case (2 quoted ch p)
  then show ?case
    by (auto split: if_splits simp: usual_not_special)
qed auto

text \<open>Without a question mark it accepts exactly when no segment but perhaps the first climbs.\<close>

lemma unsafe_loop_iff:
  "ch_quest \<notin> set p \<Longrightarrow> unsafe_loop quoted p =
    (if 0 \<in> set p \<or> [ch_dot, ch_dot] \<in> set (tl (segs p)) then None
     else Some (quoted \<or> ch_pct \<in> set p, p, None))"
proof (induction p arbitrary: quoted)
  case (Cons c p)
  show ?case
  proof (cases "c = ch_slash")
    case True
    then show ?thesis
      using Cons climbs_iff [of p] climbs_slash [of p] by (auto simp: usual_not_special)
  next
    case False
    then show ?thesis
      using Cons tl_segs_Cons [OF False, of p] by (auto simp: usual_not_special)
  qed
qed simp

text \<open>The behaviour on a URI without arguments, exactly.\<close>

lemma unsafe_uri_plain:
  assumes "ch_quest \<notin> set uri"
  shows "ngx_http_parse_unsafe_uri uri =
    (let u = if ch_pct \<in> set uri then fst (ngx_unescape_uri False False uri) else uri in
     if uri = [] \<or> 0 \<in> set uri \<or> climbs uri \<or> 0 \<in> set u \<or> climbs u then None else Some (u, None))"
proof (cases uri)
  case (Cons c p)
  then have "uri ! 0 \<noteq> ch_quest" using assms by auto
  then show ?thesis
    using Cons climbs_iff [of uri] climbs_iff [of "fst (ngx_unescape_uri False False uri)"]
    unfolding ngx_http_parse_unsafe_uri_def unsafe_loop_iff [OF assms] unescaped_loop_iff Let_def
    by auto
qed (simp add: ngx_http_parse_unsafe_uri_def)

section \<open>Properties\<close>

text \<open>
  C37: A URI that \<open>ngx_http_parse_unsafe_uri\<close> accepts without arguments, or with an
  escape in its path, is safe: no segment of the resulting path is \<open>..\<close>, also after
  unescaping, and it holds no NUL.
\<close>

theorem unsafe_uri_safe:
  assumes "ngx_http_parse_unsafe_uri uri = Some (u, args)"
    and "args = None \<or> ch_pct \<in> set (takeWhile (\<lambda>c. c \<noteq> ch_quest) uri)"
  shows "[ch_dot, ch_dot] \<notin> set (segs u) \<and> 0 \<notin> set u"
proof -
  obtain quoted path where l: "unsafe_loop False uri = Some (quoted, path, args)"
    using assms(1) unfolding ngx_http_parse_unsafe_uri_def Let_def by (auto split: if_splits option.splits)
  note sp = unsafe_loop_split [OF l]
  have "\<not> climbs u \<and> 0 \<notin> set u"
  proof (cases args)
    case None
    then have "ch_quest \<notin> set uri" using sp by simp
    from unsafe_uri_plain [OF this] assms(1) show ?thesis by (auto simp: Let_def split: if_splits)
  next
    case (Some a)
    then have "takeWhile (\<lambda>c. c \<noteq> ch_quest) uri = path" using sp by (auto simp: takeWhile_tail)
    then have "quoted" using assms(2) Some sp by simp
    then show ?thesis using assms(1) l climbs_iff [of u]
      unfolding ngx_http_parse_unsafe_uri_def Let_def unescaped_loop_iff by (auto split: if_splits)
  qed
  then show ?thesis by (simp add: climbs_def)
qed

theorem unsafe_uri_safe_witness:
  "ngx_http_parse_unsafe_uri [ch_slash, ch_pct, ch_6, ch_1, ch_quest, ch_x] = Some ([ch_slash, ch_a], Some [ch_x]) \<and>
   [ch_dot, ch_dot] \<notin> set (segs [ch_slash, ch_a])"
proof -
  have "ngx_http_parse_unsafe_uri [ch_slash, ch_pct, ch_6, ch_1, ch_quest, ch_x] = Some ([ch_slash, ch_a], Some [ch_x])"
    by code_simp
  from unsafe_uri_safe [OF this] this show ?thesis by simp
qed


end
