(* ===== verification/Upstream_Round_Robin.thy ===== *)
theory Upstream_Round_Robin
  imports Ngx_Prelude
begin

text \<open>
  The default load balancer, \<open>src/http/ngx_http_upstream_round_robin.c\<close>: building the
  groups of peers from the configuration, choosing a peer for a request by smooth weighted
  round robin, and accounting for the outcome. The linked list of peers of a group is a
  list, a pointer to a peer is the index of its group and its index there. The groups are
  linked by \<open>next\<close>: the main group, then the backup group.
\<close>

section \<open>Data\<close>

text \<open>A socket address, its \<open>socklen\<close> bytes, and its printed name.\<close>

type_synonym addr = "byte list \<times> ngx_str"

text \<open>\<open>ngx_http_upstream_server_t\<close>, a server of the configuration with its addresses.\<close>

record server =
  sv_name :: ngx_str
  sv_addrs :: "addr list"
  sv_weight :: nat
  sv_max_conns :: u64
  sv_max_fails :: u64
  sv_fail_timeout :: int
  sv_down :: bool
  sv_backup :: bool

record rr_peer =
  pe_sockaddr :: "byte list"
  pe_name :: ngx_str
  pe_server :: ngx_str
  pe_current_weight :: int
  pe_effective_weight :: int
  pe_weight :: int
  pe_conns :: u64
  pe_max_conns :: u64
  pe_fails :: u64
  pe_accessed :: int
  pe_checked :: int
  pe_max_fails :: u64
  pe_fail_timeout :: int
  pe_down :: bool

record rr_peers =
  ps_number :: nat
  ps_total_weight :: nat
  ps_tries :: nat
  ps_single :: bool
  ps_weighted :: bool
  ps_name :: ngx_str
  ps_peer :: "rr_peer list"

text \<open>
  \<open>ngx_http_upstream_rr_peer_data_t\<close>, the state of one request: the group it is using, its
  current peer and the bitmap of the peers it has tried.
\<close>

record rr_data =
  rp_peers :: nat
  rp_current :: "(nat \<times> nat) option"
  rp_tried :: "u64 list"

text \<open>The fields of \<open>ngx_peer_connection_t\<close> the balancer writes.\<close>

record peer_connection =
  pc_sockaddr :: "byte list"
  pc_name :: ngx_str
  pc_tries :: nat

section \<open>Initialisation\<close>

definition new_peer :: "server \<Rightarrow> addr \<Rightarrow> rr_peer" where
  "new_peer sv a = \<lparr>pe_sockaddr = fst a, pe_name = snd a, pe_server = sv_name sv, pe_current_weight = 0,
     pe_effective_weight = int (sv_weight sv), pe_weight = int (sv_weight sv),
     pe_conns = 0, pe_max_conns = sv_max_conns sv, pe_fails = 0, pe_accessed = 0, pe_checked = 0,
     pe_max_fails = sv_max_fails sv, pe_fail_timeout = sv_fail_timeout sv, pe_down = sv_down sv\<rparr>"

text \<open>The three counters \<open>n\<close>, \<open>w\<close> and \<open>t\<close> over the servers of a group.\<close>

fun count_servers :: "server list \<Rightarrow> nat \<times> nat \<times> nat" where
  "count_servers [] = (0, 0, 0)"
| "count_servers (sv # svs) =
     (case count_servers svs of (n, w, t) \<Rightarrow>
        (n + length (sv_addrs sv), w + length (sv_addrs sv) * sv_weight sv,
         if sv_down sv then t else t + length (sv_addrs sv)))"

definition new_group :: "ngx_str \<Rightarrow> server list \<Rightarrow> rr_peers" where
  "new_group host svs =
     (case count_servers svs of (n, w, t) \<Rightarrow>
        \<lparr>ps_number = n, ps_total_weight = w, ps_tries = t, ps_single = (n = 1), ps_weighted = (w \<noteq> n),
         ps_name = host, ps_peer = concat (map (\<lambda>sv. map (new_peer sv) (sv_addrs sv)) svs)\<rparr>)"

text \<open>
  \<open>ngx_http_upstream_init_round_robin\<close> for an upstream block; \<open>None\<close> is
  \<open>NGX_ERROR\<close> for an upstream with no server. With a backup group neither group counts as
  \<open>single\<close>.
\<close>

definition ngx_http_upstream_init_round_robin :: "ngx_str \<Rightarrow> server list \<Rightarrow> rr_peers list option" where
  "ngx_http_upstream_init_round_robin host servers =
     (let peers = new_group host (filter (\<lambda>sv. \<not> sv_backup sv) servers);
          backup = new_group host (filter sv_backup servers) in
      if ps_number peers = 0 then None
      else if ps_number backup = 0 then Some [peers]
      else Some [peers\<lparr>ps_single := False\<rparr>, backup\<lparr>ps_single := False\<rparr>])"

text \<open>
  The group of an upstream given by a name only, from its resolved addresses: the last part
  of \<open>ngx_http_upstream_init_round_robin\<close>, and \<open>ngx_http_upstream_create_round_robin_peer\<close>
  (which leaves \<open>total_weight\<close> zero).
\<close>

definition implicit_peer :: "addr \<Rightarrow> rr_peer" where
  "implicit_peer a = \<lparr>pe_sockaddr = fst a, pe_name = snd a, pe_server = [], pe_current_weight = 0,
     pe_effective_weight = 1, pe_weight = 1, pe_conns = 0, pe_max_conns = 0, pe_fails = 0,
     pe_accessed = 0, pe_checked = 0, pe_max_fails = 1, pe_fail_timeout = 10, pe_down = False\<rparr>"

definition implicit_group :: "ngx_str \<Rightarrow> addr list \<Rightarrow> nat \<Rightarrow> rr_peers list" where
  "implicit_group host addrs tot =
     [\<lparr>ps_number = length addrs, ps_total_weight = tot, ps_tries = length addrs,
       ps_single = (length addrs = 1), ps_weighted = False, ps_name = host,
       ps_peer = map implicit_peer addrs\<rparr>]"

text \<open>The macro \<open>ngx_http_upstream_tries\<close>.\<close>

definition ngx_http_upstream_tries :: "rr_peers list \<Rightarrow> nat" where
  "ngx_http_upstream_tries us =
     ps_tries (us ! 0) + (if length us > 1 then ps_tries (us ! 1) else 0)"

text \<open>
  \<open>ngx_http_upstream_init_round_robin_peer\<close>: the bitmap is the word inside the structure
  when it is enough for both groups, else an allocated array.
\<close>

definition tried_words :: "nat \<Rightarrow> nat" where
  "tried_words n = (n + (8 * 8 - 1)) div (8 * 8)"

definition ngx_http_upstream_init_round_robin_peer :: "rr_peers list \<Rightarrow> peer_connection \<Rightarrow> rr_data \<times> peer_connection" where
  "ngx_http_upstream_init_round_robin_peer us pc =
     (let n = ps_number (us ! 0);
          n = (if length us > 1 \<and> ps_number (us ! 1) > n then ps_number (us ! 1) else n) in
      (\<lparr>rp_peers = 0, rp_current = None,
        rp_tried = (if n \<le> 8 * 8 then [0] else replicate (tried_words n) 0)\<rparr>,
       pc\<lparr>pc_tries := ngx_http_upstream_tries us\<rparr>))"

section \<open>Choosing a peer\<close>

definition tried_bit :: "u64 list \<Rightarrow> nat \<Rightarrow> bool" where
  "tried_bit tried i \<longleftrightarrow> tried ! (i div 64) AND push_bit (i mod 64) 1 \<noteq> 0"

definition set_tried :: "u64 list \<Rightarrow> nat \<Rightarrow> u64 list" where
  "set_tried tried p = tried[p div 64 := tried ! (p div 64) OR push_bit (p mod 64) 1]"

text \<open>The three conditions under which the loop skips a peer that was not tried yet.\<close>

definition skip_peer :: "int \<Rightarrow> rr_peer \<Rightarrow> bool" where
  "skip_peer now peer \<longleftrightarrow> pe_down peer
     \<or> pe_max_fails peer \<noteq> 0 \<and> pe_fails peer \<ge> pe_max_fails peer
        \<and> now - pe_checked peer \<le> pe_fail_timeout peer
     \<or> pe_max_conns peer \<noteq> 0 \<and> pe_conns peer \<ge> pe_max_conns peer"

definition bump :: "rr_peer \<Rightarrow> rr_peer" where
  "bump peer =
     (let peer = peer\<lparr>pe_current_weight := pe_current_weight peer + pe_effective_weight peer\<rparr> in
      if pe_effective_weight peer < pe_weight peer
      then peer\<lparr>pe_effective_weight := pe_effective_weight peer + 1\<rparr> else peer)"

text \<open>
  The loop, with the index and the current weight of \<open>best\<close> and \<open>total\<close>: the peers
  as they are after it, and the final values of both.
\<close>

fun get_peer_loop :: "int \<Rightarrow> u64 list \<Rightarrow> nat \<Rightarrow> rr_peer list \<Rightarrow> (nat \<times> int) option \<Rightarrow> int \<Rightarrow>
    rr_peer list \<times> (nat \<times> int) option \<times> int" where
  "get_peer_loop now tried i [] best tot = ([], best, tot)"
| "get_peer_loop now tried i (peer # peers) best tot =
     (if tried_bit tried i \<or> skip_peer now peer
      then apfst ((#) peer) (get_peer_loop now tried (i + 1) peers best tot)
      else
        (let peer' = bump peer;
             best' = (case best of
                 None \<Rightarrow> Some (i, pe_current_weight peer')
               | Some (p, w) \<Rightarrow> if pe_current_weight peer' > w then Some (i, pe_current_weight peer') else best) in
         apfst ((#) peer')
           (get_peer_loop now tried (i + 1) peers best' (tot + pe_effective_weight peer))))"

definition take_best :: "int \<Rightarrow> int \<Rightarrow> rr_peer \<Rightarrow> rr_peer" where
  "take_best now tot best =
     (let best = best\<lparr>pe_current_weight := pe_current_weight best - tot\<rparr> in
      if now - pe_checked best > pe_fail_timeout best then best\<lparr>pe_checked := now\<rparr> else best)"

text \<open>\<open>ngx_http_upstream_get_peer\<close>: the chosen index, the peers and the bitmap.\<close>

definition ngx_http_upstream_get_peer :: "int \<Rightarrow> u64 list \<Rightarrow> rr_peer list \<Rightarrow> (nat \<times> u64 list) option \<times> rr_peer list" where
  "ngx_http_upstream_get_peer now tried peers =
     (case get_peer_loop now tried 0 peers None 0 of
        (peers, None, tot) \<Rightarrow> (None, peers)
      | (peers, Some (p, w), tot) \<Rightarrow>
          (Some (p, set_tried tried p), peers[p := take_best now tot (peers ! p)]))"

definition upd_peers :: "nat \<Rightarrow> (rr_peer list \<Rightarrow> rr_peer list) \<Rightarrow> rr_peers list \<Rightarrow> rr_peers list" where
  "upd_peers g f us = us[g := (us ! g)\<lparr>ps_peer := f (ps_peer (us ! g))\<rparr>]"

text \<open>
  The part of \<open>ngx_http_upstream_get_round_robin_peer\<close> before the label \<open>failed\<close>: the
  chosen peer (\<open>None\<close> for a jump to \<open>failed\<close>), the groups and the request's state.
\<close>

definition pick_in_group :: "int \<Rightarrow> rr_peers list \<Rightarrow> rr_data \<Rightarrow> nat option \<times> rr_peers list \<times> rr_data" where
  "pick_in_group now us rrp =
     (let g = rp_peers rrp; peers = us ! g in
      if ps_single peers then
        (let peer = ps_peer peers ! 0 in
         if pe_down peer then (None, us, rrp)
         else if pe_max_conns peer \<noteq> 0 \<and> pe_conns peer \<ge> pe_max_conns peer then (None, us, rrp)
         else (Some 0, us, rrp\<lparr>rp_current := Some (g, 0)\<rparr>))
      else
        (case ngx_http_upstream_get_peer now (rp_tried rrp) (ps_peer peers) of
           (None, ps) \<Rightarrow> (None, upd_peers g (\<lambda>_. ps) us, rrp)
         | (Some (p, tried), ps) \<Rightarrow>
             (Some p, upd_peers g (\<lambda>_. ps) us, rrp\<lparr>rp_current := Some (g, p), rp_tried := tried\<rparr>)))"

definition add_conn :: "nat \<Rightarrow> rr_peer list \<Rightarrow> rr_peer list" where
  "add_conn p ps = ps[p := (ps ! p)\<lparr>pe_conns := pe_conns (ps ! p) + 1\<rparr>]"

definition clear_tried :: "nat \<Rightarrow> u64 list \<Rightarrow> u64 list" where
  "clear_tried number tried = replicate (tried_words number) 0 @ drop (tried_words number) tried"

lemma length_upd_peers [simp]: "length (upd_peers g f us) = length us"
  by (simp add: upd_peers_def)

lemma pick_in_group_keeps:
  "pick_in_group now us rrp = (x, us', rrp') \<Longrightarrow> length us' = length us \<and> rp_peers rrp' = rp_peers rrp"
  unfolding pick_in_group_def Let_def by (auto split: if_splits option.splits prod.splits)

function ngx_http_upstream_get_round_robin_peer ::
  "int \<Rightarrow> rr_peers list \<Rightarrow> rr_data \<Rightarrow> peer_connection \<Rightarrow> ngx_rc \<times> rr_peers list \<times> rr_data \<times> peer_connection" where
  "ngx_http_upstream_get_round_robin_peer now us rrp pc =
     (let g = rp_peers rrp in
      case pick_in_group now us rrp of
        (Some p, us', rrp') \<Rightarrow>
          (NGX_OK, upd_peers g (add_conn p) us', rrp',
           pc\<lparr>pc_sockaddr := pe_sockaddr (ps_peer (us' ! g) ! p), pc_name := pe_name (ps_peer (us' ! g) ! p)\<rparr>)
      | (None, us', rrp') \<Rightarrow>
          if g + 1 < length us then
            (let rrp' = rrp'\<lparr>rp_peers := g + 1, rp_tried := clear_tried (ps_number (us ! (g + 1))) (rp_tried rrp)\<rparr> in
             case ngx_http_upstream_get_round_robin_peer now us' rrp' pc of
               (rc, us', rrp', pc') \<Rightarrow>
                 if rc \<noteq> NGX_BUSY then (rc, us', rrp', pc')
                 else (NGX_BUSY, us', rrp', pc'\<lparr>pc_name := ps_name (us ! g)\<rparr>))
          else (NGX_BUSY, us', rrp', pc\<lparr>pc_name := ps_name (us ! g)\<rparr>))"
  by pat_completeness auto
termination
proof (relation "measure (\<lambda>(now, us, rrp, pc). length us - rp_peers rrp)")
  show "wf (measure (\<lambda>(now, us, rrp, pc). length us - rp_peers rrp))" by simp
qed (auto dest!: pick_in_group_keeps [OF sym])

declare ngx_http_upstream_get_round_robin_peer.simps [simp del]

section \<open>Accounting\<close>

definition peer_failed :: "int \<Rightarrow> rr_peer \<Rightarrow> rr_peer" where
  "peer_failed now peer =
     (let peer = peer\<lparr>pe_fails := pe_fails peer + 1, pe_accessed := now, pe_checked := now\<rparr>;
          peer = (if pe_max_fails peer \<noteq> 0
                  then peer\<lparr>pe_effective_weight := pe_effective_weight peer - pe_weight peer div uint (pe_max_fails peer)\<rparr>
                  else peer) in
      if pe_effective_weight peer < 0 then peer\<lparr>pe_effective_weight := 0\<rparr> else peer)"

definition peer_passed :: "rr_peer \<Rightarrow> rr_peer" where
  "peer_passed peer = (if pe_accessed peer < pe_checked peer then peer\<lparr>pe_fails := 0\<rparr> else peer)"

definition free_peer :: "bool \<Rightarrow> bool \<Rightarrow> int \<Rightarrow> rr_peer \<Rightarrow> rr_peer" where
  "free_peer single failed now peer =
     (let peer = (if single then peer else if failed then peer_failed now peer else peer_passed peer) in
      peer\<lparr>pe_conns := pe_conns peer - 1\<rparr>)"

text \<open>
  \<open>ngx_http_upstream_free_round_robin_peer\<close>; \<open>failed\<close> is the bit \<open>NGX_PEER_FAILED\<close> of
  \<open>state\<close>. It is called for a request that has a current peer.
\<close>

definition ngx_http_upstream_free_round_robin_peer ::
  "int \<Rightarrow> bool \<Rightarrow> rr_peers list \<Rightarrow> rr_data \<Rightarrow> peer_connection \<Rightarrow> rr_peers list \<times> peer_connection" where
  "ngx_http_upstream_free_round_robin_peer now failed us rrp pc =
     (case rp_current rrp of
        None \<Rightarrow> (us, pc)
      | Some (g, p) \<Rightarrow>
          (let single = ps_single (us ! rp_peers rrp) in
           (upd_peers g (\<lambda>ps. ps[p := free_peer single failed now (ps ! p)]) us,
            if single then pc\<lparr>pc_tries := 0\<rparr>
            else if pc_tries pc \<noteq> 0 then pc\<lparr>pc_tries := pc_tries pc - 1\<rparr> else pc)))"


section \<open>What the loop computes\<close>

text \<open>The peers the loop considers, and the reference: bump them all, add up, take the first maximum.\<close>

definition eligible :: "int \<Rightarrow> u64 list \<Rightarrow> nat \<Rightarrow> rr_peer \<Rightarrow> bool" where
  "eligible now tried i peer \<longleftrightarrow> \<not> tried_bit tried i \<and> \<not> skip_peer now peer"

definition bumped :: "int \<Rightarrow> u64 list \<Rightarrow> nat \<Rightarrow> rr_peer list \<Rightarrow> rr_peer list" where
  "bumped now tried i ps = map (\<lambda>(j, p). if eligible now tried j p then bump p else p) (enumerate i ps)"

definition weight_sum :: "int \<Rightarrow> u64 list \<Rightarrow> nat \<Rightarrow> rr_peer list \<Rightarrow> int" where
  "weight_sum now tried i ps =
     sum_list (map (\<lambda>(j, p). if eligible now tried j p then pe_effective_weight p else 0) (enumerate i ps))"

definition candidates :: "int \<Rightarrow> u64 list \<Rightarrow> nat \<Rightarrow> rr_peer list \<Rightarrow> (nat \<times> int) list" where
  "candidates now tried i ps = map (\<lambda>(j, p). (j, pe_current_weight (bump p)))
     (filter (\<lambda>(j, p). eligible now tried j p) (enumerate i ps))"

definition better :: "nat \<times> int \<Rightarrow> (nat \<times> int) option \<Rightarrow> (nat \<times> int) option" where
  "better c best = (case best of None \<Rightarrow> Some c | Some (p, w) \<Rightarrow> if snd c > w then Some c else best)"

lemma get_peer_loop_eq:
  "get_peer_loop now tried i ps best tot =
    (bumped now tried i ps, fold better (candidates now tried i ps) best, tot + weight_sum now tried i ps)"
  by (induction now tried i ps best tot rule: get_peer_loop.induct)
    (simp_all add: bumped_def weight_sum_def candidates_def better_def eligible_def Let_def apfst_def map_prod_def
      split: option.split prod.split)

lemma fold_better:
  "case fold better cs best of
     None \<Rightarrow> best = None \<and> cs = []
   | Some (p, w) \<Rightarrow> (p, w) \<in> set cs \<union> set_option best \<and> (\<forall>(q, v) \<in> set cs \<union> set_option best. v \<le> w)"
proof (induction cs arbitrary: best)
  case Nil
  then show ?case by (auto split: option.split)
next
  case (Cons c cs)
  have b: "better c best \<noteq> None" by (auto simp: better_def split: option.split)
  have "set_option (better c best) \<subseteq> insert c (set_option best)"
    "\<forall>(q, v) \<in> insert c (set_option best). \<forall>(p, w) \<in> set_option (better c best). v \<le> w"
    by (auto simp: better_def split: option.splits if_splits)
  with Cons [of "better c best"] b show ?case
    by (auto split: option.splits)
qed

lemma length_bumped [simp]: "length (bumped now tried i ps) = length ps"
  by (simp add: bumped_def)

lemma nth_bumped:
  "j < length ps \<Longrightarrow> bumped now tried i ps ! j = (if eligible now tried (i + j) (ps ! j) then bump (ps ! j) else ps ! j)"
  by (simp add: bumped_def nth_enumerate_eq)

lemma set_candidates:
  "set (candidates now tried 0 ps) =
    {(j, pe_current_weight (bump (ps ! j))) | j. j < length ps \<and> eligible now tried j (ps ! j)}"
  by (auto simp: candidates_def in_set_enumerate_eq image_iff)

text \<open>\<open>ngx_http_upstream_get_peer\<close> against the reference, the two outcomes.\<close>

lemma get_peer_None:
  assumes "ngx_http_upstream_get_peer now tried ps = (None, ps')"
  shows "ps' = ps \<and> (\<forall>j < length ps. \<not> eligible now tried j (ps ! j))"
proof -
  have n: "fold better (candidates now tried 0 ps) None = None"
    using assms by (auto simp: ngx_http_upstream_get_peer_def get_peer_loop_eq split: option.splits)
  then have "candidates now tried 0 ps = []"
    using fold_better [where cs = "candidates now tried 0 ps" and best = None] by simp
  then have e: "\<forall>j < length ps. \<not> eligible now tried j (ps ! j)" using set_candidates [of now tried ps] by auto
  then have "bumped now tried 0 ps = ps" by (auto simp: nth_bumped intro: nth_equalityI)
  then show ?thesis using assms n e by (auto simp: ngx_http_upstream_get_peer_def get_peer_loop_eq)
qed

lemma get_peer_Some:
  assumes "ngx_http_upstream_get_peer now tried ps = (Some (p, tried'), ps')"
  shows "p < length ps \<and> eligible now tried p (ps ! p) \<and> tried' = set_tried tried p \<and>
    ps' = (bumped now tried 0 ps)[p := take_best now (weight_sum now tried 0 ps) (bump (ps ! p))] \<and>
    (\<forall>j < length ps. eligible now tried j (ps ! j) \<longrightarrow>
       pe_current_weight (bump (ps ! j)) \<le> pe_current_weight (bump (ps ! p)))"
proof -
  obtain w where f: "fold better (candidates now tried 0 ps) None = Some (p, w)" "tried' = set_tried tried p"
    "ps' = (bumped now tried 0 ps)[p := take_best now (weight_sum now tried 0 ps) (bumped now tried 0 ps ! p)]"
    using assms by (auto simp: ngx_http_upstream_get_peer_def get_peer_loop_eq split: option.splits)
  then have "(p, w) \<in> set (candidates now tried 0 ps) \<and> (\<forall>(q, v) \<in> set (candidates now tried 0 ps). v \<le> w)"
    using fold_better [where cs = "candidates now tried 0 ps" and best = None] by simp
  then show ?thesis unfolding set_candidates using f by (auto simp: nth_bumped)
qed


lemma bump_weight: "pe_current_weight (bump p) = pe_current_weight p + pe_effective_weight p"
  by (simp add: bump_def Let_def)

lemma take_best_weight [simp]: "pe_current_weight (take_best now tot p) = pe_current_weight p - tot"
  by (simp add: take_best_def Let_def)

text \<open>The current weights of a group after a choice, and their sum.\<close>

lemma get_peer_weights:
  assumes "ngx_http_upstream_get_peer now tried ps = (Some (p, tried'), ps')"
  shows "length ps' = length ps \<and> (\<forall>j < length ps. pe_current_weight (ps' ! j) =
    pe_current_weight (ps ! j) + (if eligible now tried j (ps ! j) then pe_effective_weight (ps ! j) else 0)
      - (if j = p then weight_sum now tried 0 ps else 0))"
  using get_peer_Some [OF assms] by (auto simp: nth_list_update nth_bumped bump_weight)

lemma weight_sum_nth:
  "weight_sum now tried 0 ps =
    (\<Sum>j < length ps. if eligible now tried j (ps ! j) then pe_effective_weight (ps ! j) else 0)"
  by (simp add: weight_sum_def sum_list_sum_nth nth_enumerate_eq atLeast0LessThan)

lemma get_peer_sum:
  assumes "ngx_http_upstream_get_peer now tried ps = (x, ps')"
  shows "(\<Sum>p\<leftarrow>ps'. pe_current_weight p) = (\<Sum>p\<leftarrow>ps. pe_current_weight p)"
proof (cases x)
  case None
  then show ?thesis using get_peer_None assms by blast
next
  case (Some c)
  then obtain p tried' where c: "ngx_http_upstream_get_peer now tried ps = (Some (p, tried'), ps')"
    using assms by (cases c) auto
  note w = get_peer_weights [OF c] and p = get_peer_Some [OF c]
  have "(\<Sum>p\<leftarrow>ps'. pe_current_weight p) = (\<Sum>j < length ps. pe_current_weight (ps ! j) +
      (if eligible now tried j (ps ! j) then pe_effective_weight (ps ! j) else 0)
      - (if j = p then weight_sum now tried 0 ps else 0))"
    using w by (simp add: sum_list_sum_nth atLeast0LessThan)
  also have "\<dots> = (\<Sum>p\<leftarrow>ps. pe_current_weight p)"
    using p by (simp add: sum.distrib sum_subtractf sum_list_sum_nth atLeast0LessThan flip: weight_sum_nth)
  finally show ?thesis .
qed


section \<open>Invariant of the groups\<close>

definition peer_ok :: "rr_peer \<Rightarrow> bool" where
  "peer_ok p \<longleftrightarrow> 0 \<le> pe_effective_weight p \<and> pe_effective_weight p \<le> pe_weight p"

definition group_ok :: "rr_peers \<Rightarrow> bool" where
  "group_ok g \<longleftrightarrow> 0 < ps_number g \<and> length (ps_peer g) = ps_number g \<and> (ps_single g \<longrightarrow> ps_number g = 1) \<and>
     list_all peer_ok (ps_peer g) \<and> (\<Sum>p\<leftarrow>ps_peer g. pe_current_weight p) = 0"

text \<open>What an operation on the peers of a group has to keep.\<close>

definition peers_keep :: "(rr_peer list \<Rightarrow> rr_peer list) \<Rightarrow> rr_peer list \<Rightarrow> bool" where
  "peers_keep f ps \<longleftrightarrow> length (f ps) = length ps \<and> (list_all peer_ok ps \<longrightarrow> list_all peer_ok (f ps)) \<and>
     (\<Sum>p\<leftarrow>f ps. pe_current_weight p) = (\<Sum>p\<leftarrow>ps. pe_current_weight p)"

lemma upd_peers_ok:
  assumes "list_all group_ok us" "g < length us \<Longrightarrow> peers_keep f (ps_peer (us ! g))"
  shows "list_all group_ok (upd_peers g f us)"
proof (cases "g < length us")
  case True
  then have "group_ok (us ! g)" using assms(1) by (simp add: list_all_length)
  then have "group_ok ((us ! g)\<lparr>ps_peer := f (ps_peer (us ! g))\<rparr>)"
    using assms(2) [OF True] by (simp add: group_ok_def peers_keep_def)
  then show ?thesis using assms(1) True unfolding upd_peers_def list_all_length
    by (auto simp: nth_list_update)
qed (use assms(1) in \<open>simp add: upd_peers_def list_update_beyond\<close>)

lemma peers_keep_update:
  assumes "p < length ps \<Longrightarrow> pe_current_weight (h (ps ! p)) = pe_current_weight (ps ! p)"
    "p < length ps \<Longrightarrow> peer_ok (ps ! p) \<Longrightarrow> peer_ok (h (ps ! p))"
  shows "peers_keep (\<lambda>ps. ps[p := h (ps ! p)]) ps"
proof (cases "p < length ps")
  case True
  then have "(\<Sum>q\<leftarrow>ps[p := h (ps ! p)]. pe_current_weight q) = (\<Sum>q\<leftarrow>ps. pe_current_weight q)"
    using assms(1) list_update_id [of "map pe_current_weight ps" p] by (simp add: map_update)
  then show ?thesis using True assms(2) by (auto simp: peers_keep_def list_all_length nth_list_update)
qed (simp add: peers_keep_def list_update_beyond)

lemma bump_ok: "peer_ok p \<Longrightarrow> peer_ok (bump p)"
  by (simp add: peer_ok_def bump_def Let_def)

lemma take_best_ok [simp]: "peer_ok (take_best now tot p) = peer_ok p"
  by (simp add: peer_ok_def take_best_def Let_def)

lemma get_peer_keeps:
  assumes "ngx_http_upstream_get_peer now tried ps = (x, ps')"
  shows "peers_keep (\<lambda>_. ps') ps"
proof (cases x)
  case None
  then show ?thesis using get_peer_None [of now tried ps ps'] assms by (simp add: peers_keep_def)
next
  case (Some c)
  then obtain p tried' where c: "ngx_http_upstream_get_peer now tried ps = (Some (p, tried'), ps')"
    using assms by (cases c) auto
  have "list_all peer_ok ps \<Longrightarrow> list_all peer_ok ps'"
    using get_peer_Some [OF c] by (auto simp: list_all_length nth_list_update nth_bumped bump_ok)
  then show ?thesis using get_peer_weights [OF c] get_peer_sum [OF c] by (simp add: peers_keep_def)
qed

lemma pick_in_group_ok:
  assumes "list_all group_ok us" "pick_in_group now us rrp = (x, us', rrp')"
  shows "list_all group_ok us'"
proof -
  have "us' = us \<or> (\<exists>y ps. ngx_http_upstream_get_peer now (rp_tried rrp) (ps_peer (us ! rp_peers rrp)) = (y, ps) \<and>
      us' = upd_peers (rp_peers rrp) (\<lambda>_. ps) us)"
    using assms(2) unfolding pick_in_group_def Let_def by (auto split: if_splits option.splits prod.splits)
  then show ?thesis using assms(1) get_peer_keeps upd_peers_ok by metis
qed

lemma add_conn_keeps: "peers_keep (add_conn p) ps"
  using peers_keep_update [of p ps "\<lambda>q. q\<lparr>pe_conns := pe_conns q + 1\<rparr>"]
  by (simp add: peers_keep_def add_conn_def peer_ok_def)

lemma get_ok:
  assumes "list_all group_ok us" "ngx_http_upstream_get_round_robin_peer now us rrp pc = (rc, us', rrp', pc')"
  shows "list_all group_ok us' \<and> length us' = length us"
  using assms
proof (induction now us rrp pc arbitrary: rc us' rrp' pc' rule: ngx_http_upstream_get_round_robin_peer.induct)
  case (1 now us rrp pc)
  obtain x us1 rrp1 where p: "pick_in_group now us rrp = (x, us1, rrp1)" by (metis prod_cases3)
  note ok = pick_in_group_ok [OF 1(2) p] and len = pick_in_group_keeps [OF p]
  note step = 1(3) [unfolded ngx_http_upstream_get_round_robin_peer.simps [of now us rrp pc] Let_def p prod.case]
  show ?case
  proof (cases x)
    case (Some q)
    then show ?thesis using step upd_peers_ok [OF ok add_conn_keeps] len by auto
  next
    case None
    then show ?thesis
      using step 1(1) [OF refl p [symmetric] None refl _ refl ok] ok len
      by (auto split: if_splits prod.splits)
  qed
qed

lemma free_peer_ok: "peer_ok p \<Longrightarrow> peer_ok (free_peer single failed now p)"
proof -
  assume ok: "peer_ok p"
  then have "0 \<le> pe_weight p div uint (pe_max_fails p)"
    by (simp add: peer_ok_def div_int_pos_iff)
  with ok show ?thesis
    by (auto simp: peer_ok_def free_peer_def peer_failed_def peer_passed_def Let_def)
qed

lemma free_peer_weight [simp]: "pe_current_weight (free_peer single failed now p) = pe_current_weight p"
  by (simp add: free_peer_def peer_failed_def peer_passed_def Let_def)

lemma free_ok:
  assumes "list_all group_ok us" "ngx_http_upstream_free_round_robin_peer now failed us rrp pc = (us', pc')"
  shows "list_all group_ok us' \<and> length us' = length us"
  using assms upd_peers_ok [OF assms(1) peers_keep_update]
  by (auto simp: ngx_http_upstream_free_round_robin_peer_def Let_def free_peer_ok split: option.splits if_splits)

lemma new_group_ok:
  assumes "ps_number (new_group host svs) \<noteq> 0"
  shows "group_ok (new_group host svs)"
proof -
  have "fst (count_servers svs) = length (concat (map (\<lambda>sv. map (new_peer sv) (sv_addrs sv)) svs))"
    by (induction svs) (auto split: prod.split)
  moreover have "list_all (\<lambda>p. peer_ok p \<and> pe_current_weight p = 0) (concat (map (\<lambda>sv. map (new_peer sv) (sv_addrs sv)) svs))"
    by (auto simp: list_all_iff peer_ok_def new_peer_def)
  then have "list_all peer_ok (ps_peer (new_group host svs))" "\<forall>p \<in> set (ps_peer (new_group host svs)). pe_current_weight p = 0"
    by (auto simp: new_group_def list_all_iff split: prod.split)
  then have "list_all peer_ok (ps_peer (new_group host svs))" "(\<Sum>p\<leftarrow>ps_peer (new_group host svs). pe_current_weight p) = 0"
    by (simp_all cong: map_cong)
  ultimately show ?thesis using assms by (auto simp: group_ok_def new_group_def split: prod.splits)
qed

lemma init_ok: "ngx_http_upstream_init_round_robin host servers = Some us \<Longrightarrow> list_all group_ok us \<and> us \<noteq> []"
  using new_group_ok [of host "filter (\<lambda>sv. \<not> sv_backup sv) servers"] new_group_ok [of host "filter sv_backup servers"]
  by (auto simp: ngx_http_upstream_init_round_robin_def Let_def group_ok_def split: if_splits)


text \<open>The states an upstream goes through: requests and releases in any order, with any outcome.\<close>

inductive rr_reachable :: "ngx_str \<Rightarrow> server list \<Rightarrow> rr_peers list \<Rightarrow> bool" for host servers where
  rr_init: "ngx_http_upstream_init_round_robin host servers = Some us \<Longrightarrow> rr_reachable host servers us"
| rr_get: "rr_reachable host servers us \<Longrightarrow>
    ngx_http_upstream_get_round_robin_peer now us rrp pc = (rc, us', rrp', pc') \<Longrightarrow> rr_reachable host servers us'"
| rr_free: "rr_reachable host servers us \<Longrightarrow>
    ngx_http_upstream_free_round_robin_peer now failed us rrp pc = (us', pc') \<Longrightarrow> rr_reachable host servers us'"

lemma reachable_ok: "rr_reachable host servers us \<Longrightarrow> list_all group_ok us \<and> us \<noteq> []"
proof (induction rule: rr_reachable.induct)
  case (rr_get us now rrp pc rc us' rrp' pc')
  then show ?case using get_ok [OF _ rr_get(2)] by auto
next
  case (rr_free us now failed rrp pc us' pc')
  then show ?case using free_ok [OF _ rr_free(2)] by auto
qed (rule init_ok)


section \<open>Interface of a smooth weighted choice\<close>

text \<open>
  A balancer over peers of weights \<open>ws\<close>: a step that chooses adds every peer's weight to
  its current weight, chooses a maximum, and takes the sum of the weights off it. The
  current weights then stay above minus that sum, which bounds how far the choices can run
  ahead of the shares.
\<close>

fun run_steps :: "('e \<Rightarrow> 's \<Rightarrow> nat option \<times> 's) \<Rightarrow> 'e list \<Rightarrow> 's \<Rightarrow> nat list \<times> 's" where
  "run_steps step [] s = ([], s)"
| "run_steps step (e # es) s =
     (case step e s of (x, s') \<Rightarrow>
        apfst (case x of None \<Rightarrow> id | Some p \<Rightarrow> (#) p) (run_steps step es s'))"

locale smooth_wrr =
  fixes ws :: "int list"
    and inv :: "'s \<Rightarrow> bool"
    and cw :: "'s \<Rightarrow> int list"
    and step :: "'e \<Rightarrow> 's \<Rightarrow> nat option \<times> 's"
  assumes ws_pos: "inv s \<Longrightarrow> w \<in> set ws \<Longrightarrow> 0 < w"
    and cw_length: "inv s \<Longrightarrow> length (cw s) = length ws"
    and idle: "inv s \<Longrightarrow> step e s = (None, s') \<Longrightarrow> inv s' \<and> cw s' = cw s"
    and pick: "inv s \<Longrightarrow> step e s = (Some p, s') \<Longrightarrow>
      inv s' \<and> p < length ws \<and> (\<forall>j < length ws. cw s ! j + ws ! j \<le> cw s ! p + ws ! p) \<and>
      (\<forall>j < length ws. cw s' ! j = cw s ! j + ws ! j - (if j = p then sum_list ws else 0))"
begin

definition bounded :: "'s \<Rightarrow> bool" where
  "bounded s \<longleftrightarrow> inv s \<and> (\<Sum>j < length ws. cw s ! j) = 0 \<and> (\<forall>j < length ws. - sum_list ws < cw s ! j)"

lemma sum_ws: "sum_list ws = (\<Sum>j < length ws. ws ! j)"
  by (simp add: sum_list_sum_nth atLeast0LessThan)

lemma bounded_pick:
  assumes "bounded s" "step e s = (Some p, s')"
  shows "bounded s'"
proof -
  note b = assms(1) [unfolded bounded_def] and pk = pick [OF _ assms(2)]
  have ws: "0 < ws ! j" if "j < length ws" for j using ws_pos [of s] b that by simp
  have "0 < cw s ! p + ws ! p"
  proof (rule ccontr)
    assume "\<not> 0 < cw s ! p + ws ! p"
    then have "\<forall>j < length ws. cw s ! j + ws ! j \<le> 0" using pk b by fastforce
    then have "(\<Sum>j < length ws. cw s ! j + ws ! j) \<le> 0" by (intro sum_nonpos) auto
    then have "sum_list ws \<le> 0" using b by (simp add: sum.distrib sum_ws)
    moreover have "0 < (\<Sum>j < length ws. ws ! j)" using pk b ws by (intro sum_pos) auto
    ultimately show False by (simp add: sum_ws)
  qed
  moreover have "(\<Sum>j < length ws. cw s' ! j) = 0"
    using pk b by (simp add: sum.distrib sum_subtractf sum_ws)
  moreover have "- sum_list ws < cw s' ! j" if "j < length ws" for j
    using calculation(1) pk b ws [OF that] that by (cases "j = p") auto
  ultimately show ?thesis using pk b unfolding bounded_def by auto
qed

lemma run_counts:
  assumes "bounded s" "run_steps step es s = (ps, s')"
  shows "bounded s' \<and> set ps \<subseteq> {..< length ws} \<and> (\<forall>j < length ws.
    cw s' ! j = cw s ! j + int (length ps) * ws ! j - sum_list ws * int (count_list ps j))"
  using assms
proof (induction es arbitrary: s ps)
  case (Cons e es)
  obtain x s1 where st: "step e s = (x, s1)" by fastforce
  obtain ps1 where r: "run_steps step es s1 = (ps1, s')"
    "ps = (case x of None \<Rightarrow> ps1 | Some p \<Rightarrow> p # ps1)"
    using Cons.prems(2) st by (cases "run_steps step es s1") (auto split: option.splits)
  show ?case
  proof (cases x)
    case None
    then have "bounded s1" "cw s1 = cw s"
      using idle [of s e s1] st Cons.prems(1) unfolding bounded_def by auto
    then show ?thesis using Cons.IH [OF _ r(1)] r(2) None by simp
  next
    case (Some p)
    then have "bounded s1" using bounded_pick st Cons.prems(1) by blast
    then show ?thesis
      using Cons.IH [OF _ r(1)] r(2) Some pick [of s e p s1] st Cons.prems(1)
      by (auto simp: bounded_def algebra_simps)
  qed
qed auto

lemma fair:
  assumes "inv s" "cw s = replicate (length ws) 0" "ws \<noteq> []" "run_steps step es s = (ps, s')"
  shows "\<forall>j < length ws. sum_list ws * int (count_list ps j) < int (length ps) * ws ! j + sum_list ws"
    and "int (length ps) = sum_list ws \<Longrightarrow> \<forall>j < length ws. int (count_list ps j) = ws ! j"
proof -
  have W: "0 < sum_list ws" using assms(3) ws_pos [OF assms(1)] by (auto simp: sum_ws intro!: sum_pos)
  then have "bounded s" using assms(1,2) by (simp add: bounded_def)
  note r = run_counts [OF this assms(4)]
  then show share: "\<forall>j < length ws. sum_list ws * int (count_list ps j) < int (length ps) * ws ! j + sum_list ws"
    unfolding bounded_def assms(2) by fastforce
  assume len: "int (length ps) = sum_list ws"
  have le: "int (count_list ps j) \<le> ws ! j" if "j < length ws" for j
  proof -
    have "sum_list ws * int (count_list ps j) < sum_list ws * (ws ! j + 1)"
      using share that len by (simp add: algebra_simps)
    then show ?thesis using W by simp
  qed
  have "(\<Sum>j < length ws. ws ! j - int (count_list ps j)) = 0"
    using r len sum_count_set [of ps "{..< length ws}"] by (simp add: sum_subtractf sum_ws flip: of_nat_sum)
  then show "\<forall>j < length ws. int (count_list ps j) = ws ! j"
    using le sum_nonneg_eq_0_iff [of "{..< length ws}" "\<lambda>j. ws ! j - int (count_list ps j)"] by auto
qed

end


section \<open>The balancer as a smooth weighted choice\<close>

text \<open>
  Requests and successful releases in any order: a request sets up its state and asks for a
  peer; a release gives back the peer of a request that went well. The choice of a step is
  the index of the peer given to a request.
\<close>

datatype rr_event = Request int | Release int nat

definition pc_init :: peer_connection where
  "pc_init = \<lparr>pc_sockaddr = [], pc_name = [], pc_tries = 0\<rparr>"

fun balance :: "rr_event \<Rightarrow> rr_peers list \<Rightarrow> nat option \<times> rr_peers list" where
  "balance (Request now) us =
     (case ngx_http_upstream_init_round_robin_peer us pc_init of (rrp, pc) \<Rightarrow>
        case ngx_http_upstream_get_round_robin_peer now us rrp pc of (rc, us', rrp', pc') \<Rightarrow>
          (if rc = NGX_OK then map_option snd (rp_current rrp') else None, us'))"
| "balance (Release now p) us =
     (None, fst (ngx_http_upstream_free_round_robin_peer now False us
        \<lparr>rp_peers = 0, rp_current = Some (0, p), rp_tried = [0]\<rparr> pc_init))"

definition healthy :: "rr_peer \<Rightarrow> bool" where
  "healthy p \<longleftrightarrow> \<not> pe_down p \<and> pe_max_conns p = 0 \<and> pe_effective_weight p = pe_weight p \<and>
     0 < pe_weight p \<and> (pe_max_fails p = 0 \<or> pe_fails p < pe_max_fails p)"

definition healthy_group :: "int list \<Rightarrow> rr_peers list \<Rightarrow> bool" where
  "healthy_group ws us \<longleftrightarrow> us \<noteq> [] \<and> \<not> ps_single (us ! 0) \<and> length (ps_peer (us ! 0)) = ps_number (us ! 0) \<and>
     map pe_weight (ps_peer (us ! 0)) = ws \<and> ws \<noteq> [] \<and> list_all healthy (ps_peer (us ! 0))"

definition main_weights :: "rr_peers list \<Rightarrow> int list" where
  "main_weights us = map pe_current_weight (ps_peer (us ! 0))"

lemma init_untried:
  assumes "ngx_http_upstream_init_round_robin_peer us pc = (rrp, pc')" "i < ps_number (us ! 0)"
  shows "rp_peers rrp = 0 \<and> \<not> tried_bit (rp_tried rrp) i"
proof -
  let ?n = "if length us > 1 \<and> ps_number (us ! 1) > ps_number (us ! 0) then ps_number (us ! 1) else ps_number (us ! 0)"
  have "i div 64 < tried_words ?n" using assms(2) by (auto simp: tried_words_def)
  moreover have "?n \<le> 64 \<Longrightarrow> i div 64 = 0" using assms(2) by (auto split: if_splits)
  ultimately show ?thesis
    using assms(1) by (auto simp: ngx_http_upstream_init_round_robin_peer_def tried_bit_def Let_def)
qed

lemma healthy_eligible: "healthy p \<Longrightarrow> \<not> tried_bit tried i \<Longrightarrow> eligible now tried i p"
  by (auto simp: healthy_def eligible_def skip_peer_def)

lemma healthy_bump: "healthy p \<Longrightarrow> bump p = p\<lparr>pe_current_weight := pe_current_weight p + pe_weight p\<rparr>"
  by (simp add: healthy_def bump_def)

lemma balance_Release:
  assumes "healthy_group ws us" "balance (Release now p) us = (x, us')"
  shows "x = None \<and> healthy_group ws us' \<and> main_weights us' = main_weights us"
proof -
  let ?f = "\<lambda>ps. ps[p := free_peer False False now (ps ! p)]" and ?ps = "ps_peer (us ! 0)"
  have us: "us \<noteq> []" "\<not> ps_single (us ! 0)" using assms(1) by (auto simp: healthy_group_def)
  then have "us' = upd_peers 0 ?f us" "x = None"
    using assms(2) by (auto simp: ngx_http_upstream_free_round_robin_peer_def Let_def)
  then have g: "us' \<noteq> [] \<and> us' ! 0 = (us ! 0)\<lparr>ps_peer := ?f ?ps\<rparr>" "x = None"
    using us by (auto simp: upd_peers_def)
  have "healthy q \<Longrightarrow> healthy (free_peer False False now q)" "pe_weight (free_peer False False now q) = pe_weight q"
    "pe_current_weight (free_peer False False now q) = pe_current_weight q" for q
    by (auto simp: healthy_def free_peer_def peer_passed_def Let_def word_gt_0)
  then have "list_all healthy ?ps \<Longrightarrow> list_all healthy (?f ?ps)" "map pe_weight (?f ?ps) = map pe_weight ?ps"
    "map pe_current_weight (?f ?ps) = map pe_current_weight ?ps"
    by (cases "p < length ?ps";
        auto simp: list_all_length nth_list_update map_update list_update_same_conv list_update_beyond)+
  then show ?thesis using g assms(1) by (simp add: healthy_group_def main_weights_def)
qed


lemma get_peer_healthy:
  assumes "list_all healthy ps" "\<forall>i < length ps. \<not> tried_bit tried i" "ps \<noteq> []"
  obtains p tried' ps' where "ngx_http_upstream_get_peer now tried ps = (Some (p, tried'), ps')"
    "p < length ps" "length ps' = length ps" "list_all healthy ps'" "map pe_weight ps' = map pe_weight ps"
    "\<forall>j < length ps. pe_current_weight (ps ! j) + pe_weight (ps ! j) \<le> pe_current_weight (ps ! p) + pe_weight (ps ! p)"
    "\<forall>j < length ps. pe_current_weight (ps' ! j) = pe_current_weight (ps ! j) + pe_weight (ps ! j)
       - (if j = p then (\<Sum>q\<leftarrow>ps. pe_weight q) else 0)"
proof -
  have h: "healthy (ps ! j)" if "j < length ps" for j using assms(1) that by (simp add: list_all_length)
  have e: "eligible now tried j (ps ! j)" if "j < length ps" for j using h assms(2) that by (simp add: healthy_eligible)
  have ew: "pe_effective_weight (ps ! j) = pe_weight (ps ! j)" if "j < length ps" for j
    using h [OF that] by (simp add: healthy_def)
  obtain x ps' where g: "ngx_http_upstream_get_peer now tried ps = (x, ps')" by fastforce
  have "x \<noteq> None"
  proof
    assume "x = None"
    then have "\<not> eligible now tried 0 (ps ! 0)" using get_peer_None [of now tried ps ps'] g assms(3) by simp
    then show False using e assms(3) by simp
  qed
  then obtain p tried' where p: "ngx_http_upstream_get_peer now tried ps = (Some (p, tried'), ps')" using g by fastforce
  note s = get_peer_Some [OF p] and w = get_peer_weights [OF p]
  have tot: "weight_sum now tried 0 ps = (\<Sum>q\<leftarrow>ps. pe_weight q)"
    using e ew by (simp add: weight_sum_nth sum_list_sum_nth atLeast0LessThan)
  have "healthy (bump q) \<and> pe_weight (bump q) = pe_weight q" if "healthy q" for q
    using healthy_bump [OF that] that by (simp add: healthy_def)
  moreover have "healthy (take_best now t q) = healthy q" "pe_weight (take_best now t q) = pe_weight q" for t q
    by (simp_all add: take_best_def healthy_def Let_def)
  ultimately have ps': "healthy (ps' ! j) \<and> pe_weight (ps' ! j) = pe_weight (ps ! j)" if "j < length ps" for j
    using s h [OF that] that by (cases "j = p") (auto simp: nth_bumped)
  show ?thesis
    by (rule that [OF p]) (use s w e ew tot ps' in \<open>auto simp: list_all_length bump_weight intro!: nth_equalityI\<close>)
qed

lemma balance_Request:
  assumes "healthy_group ws us" "balance (Request now) us = (x, us')"
  shows "\<exists>p. x = Some p \<and> healthy_group ws us' \<and> p < length ws \<and>
    (\<forall>j < length ws. main_weights us ! j + ws ! j \<le> main_weights us ! p + ws ! p) \<and>
    (\<forall>j < length ws. main_weights us' ! j = main_weights us ! j + ws ! j - (if j = p then sum_list ws else 0))"
proof -
  let ?ps = "ps_peer (us ! 0)"
  note hg = assms(1) [unfolded healthy_group_def]
  obtain rrp pc where i: "ngx_http_upstream_init_round_robin_peer us pc_init = (rrp, pc)" by fastforce
  have number: "0 < ps_number (us ! 0)" using hg by (metis length_greater_0_conv list.map_disc_iff)
  have rp: "rp_peers rrp = 0" "\<forall>i < length ?ps. \<not> tried_bit (rp_tried rrp) i"
    using init_untried [OF i] hg number by auto
  obtain p tried' ps' where g: "ngx_http_upstream_get_peer now (rp_tried rrp) ?ps = (Some (p, tried'), ps')"
    "p < length ?ps" "length ps' = length ?ps" "list_all healthy ps'" "map pe_weight ps' = map pe_weight ?ps"
    "\<forall>j < length ?ps. pe_current_weight (?ps ! j) + pe_weight (?ps ! j) \<le> pe_current_weight (?ps ! p) + pe_weight (?ps ! p)"
    "\<forall>j < length ?ps. pe_current_weight (ps' ! j) = pe_current_weight (?ps ! j) + pe_weight (?ps ! j)
       - (if j = p then (\<Sum>q\<leftarrow>?ps. pe_weight q) else 0)"
    by (rule get_peer_healthy [of ?ps "rp_tried rrp" now]) (use hg rp(2) in auto)
  have "pick_in_group now us rrp = (Some p, upd_peers 0 (\<lambda>_. ps') us, rrp\<lparr>rp_current := Some (0, p), rp_tried := tried'\<rparr>)"
    using g(1) rp(1) hg by (simp add: pick_in_group_def)
  then have x: "x = Some p" "us' = upd_peers 0 (add_conn p) (upd_peers 0 (\<lambda>_. ps') us)"
    using assms(2) i rp(1) by (auto simp: ngx_http_upstream_get_round_robin_peer.simps [of now us rrp pc])
  then have us': "us' \<noteq> []" "us' ! 0 = (us ! 0)\<lparr>ps_peer := add_conn p ps'\<rparr>"
    using hg by (auto simp: upd_peers_def)
  have ac: "add_conn p ps' ! j = (if j = p then (ps' ! j)\<lparr>pe_conns := pe_conns (ps' ! j) + 1\<rparr> else ps' ! j)"
    if "j < length ?ps" for j using that g(3) by (simp add: add_conn_def)
  have "length (add_conn p ps') = length ?ps" using g(3) by (simp add: add_conn_def)
  then have ps'': "list_all healthy (add_conn p ps')" "map pe_weight (add_conn p ps') = map pe_weight ?ps"
    "\<forall>j < length ?ps. pe_current_weight (add_conn p ps' ! j) = pe_current_weight (ps' ! j)"
    "length (add_conn p ps') = length ?ps"
    using g(3-5) ac by (auto simp: list_all_length healthy_def list_eq_iff_nth_eq)
  then have "healthy_group ws us'" using us' hg by (simp add: healthy_group_def)
  moreover have "length ws = length ?ps" "\<forall>j < length ?ps. ws ! j = pe_weight (?ps ! j)" "sum_list ws = (\<Sum>q\<leftarrow>?ps. pe_weight q)"
    using hg by auto
  ultimately show ?thesis
    using x(1) us'(2) g(2,6,7) ps''(3,4) by (simp add: main_weights_def)
qed


interpretation rr: smooth_wrr ws "healthy_group ws" main_weights balance for ws
proof
  show "0 < w" if "healthy_group ws us" "w \<in> set ws" for us w
    using that by (auto simp: healthy_group_def list_all_iff healthy_def)
  show "length (main_weights us) = length ws" if "healthy_group ws us" for us
    using that by (auto simp: healthy_group_def main_weights_def)
  show "healthy_group ws us' \<and> main_weights us' = main_weights us"
    if "healthy_group ws us" "balance e us = (None, us')" for us us' e
    using that balance_Release balance_Request by (cases e) blast+
  show "healthy_group ws us' \<and> p < length ws \<and>
      (\<forall>j < length ws. main_weights us ! j + ws ! j \<le> main_weights us ! p + ws ! p) \<and>
      (\<forall>j < length ws. main_weights us' ! j = main_weights us ! j + ws ! j - (if j = p then sum_list ws else 0))"
    if "healthy_group ws us" "balance e us = (Some p, us')" for us us' e p
    using that balance_Release balance_Request by (cases e) blast+
qed

text \<open>Every request is given a peer.\<close>

lemma balance_all_served:
  assumes "healthy_group ws us" "run_steps balance es us = (ps, us')"
  shows "length ps = length (filter (\<lambda>e. case e of Request _ \<Rightarrow> True | Release _ _ \<Rightarrow> False) es)"
  using assms
proof (induction es arbitrary: us ps)
  case (Cons e es)
  obtain x us1 where st: "balance e us = (x, us1)" by fastforce
  obtain ps1 where r: "run_steps balance es us1 = (ps1, us')" "ps = (case x of None \<Rightarrow> ps1 | Some p \<Rightarrow> p # ps1)"
    using Cons.prems(2) st by (cases "run_steps balance es us1") (auto split: option.splits)
  show ?case
  proof (cases e)
    case (Request now)
    then show ?thesis using balance_Request [OF Cons.prems(1) st [unfolded Request]] Cons.IH [OF _ r(1)] r(2) by auto
  next
    case (Release now p)
    then show ?thesis using balance_Release [OF Cons.prems(1) st [unfolded Release]] Cons.IH [OF _ r(1)] r(2) by auto
  qed
qed simp

lemma init_healthy:
  assumes "ngx_http_upstream_init_round_robin host servers = Some us" "1 < ps_number (us ! 0)"
    and "list_all (\<lambda>sv. sv_backup sv \<or> \<not> sv_down sv \<and> sv_max_conns sv = 0 \<and> 0 < sv_weight sv) servers"
  shows "healthy_group (map pe_weight (ps_peer (us ! 0))) us" "main_weights us = replicate (length (ps_peer (us ! 0))) 0"
    "int (ps_total_weight (us ! 0)) = (\<Sum>p\<leftarrow>ps_peer (us ! 0). pe_weight p)"
proof -
  let ?svs = "filter (\<lambda>sv. \<not> sv_backup sv) servers"
  have ok: "group_ok (us ! 0)" "us \<noteq> []" using init_ok [OF assms(1)] by (simp_all add: list_all_length)
  have us: "ps_peer (us ! 0) = ps_peer (new_group host ?svs)" "ps_total_weight (us ! 0) = ps_total_weight (new_group host ?svs)"
    using assms(1) by (auto simp: ngx_http_upstream_init_round_robin_def Let_def split: if_splits)
  have ps: "ps_peer (us ! 0) = concat (map (\<lambda>sv. map (new_peer sv) (sv_addrs sv)) ?svs)"
    unfolding us(1) by (simp add: new_group_def split: prod.split)
  have "list_all healthy (ps_peer (us ! 0))" "\<forall>p \<in> set (ps_peer (us ! 0)). pe_current_weight p = 0"
    using assms(3) unfolding ps by (auto simp: list_all_iff healthy_def new_peer_def word_gt_0)
  then show "healthy_group (map pe_weight (ps_peer (us ! 0))) us" "main_weights us = replicate (length (ps_peer (us ! 0))) 0"
    using ok assms(2) by (auto simp: healthy_group_def group_ok_def main_weights_def intro!: replicate_eqI)
  have "int (fst (snd (count_servers svs))) = (\<Sum>p\<leftarrow>concat (map (\<lambda>sv. map (new_peer sv) (sv_addrs sv)) svs). pe_weight p)" for svs
    by (induction svs) (auto simp: new_peer_def sum_list_triv comp_def algebra_simps split: prod.split)
  from this [of ?svs] show "int (ps_total_weight (us ! 0)) = (\<Sum>p\<leftarrow>ps_peer (us ! 0). pe_weight p)"
    unfolding us(2) ps by (auto simp: new_group_def split: prod.splits)
qed


definition sample_servers :: "server list" where
  "sample_servers =
     [\<lparr>sv_name = [ch_a], sv_addrs = [([1], [ch_a])], sv_weight = 2, sv_max_conns = 0, sv_max_fails = 1,
       sv_fail_timeout = 10, sv_down = False, sv_backup = False\<rparr>,
      \<lparr>sv_name = [ch_b], sv_addrs = [([2], [ch_b])], sv_weight = 1, sv_max_conns = 0, sv_max_fails = 1,
       sv_fail_timeout = 10, sv_down = False, sv_backup = False\<rparr>]"




section \<open>Which peer a request is given\<close>

definition usable :: "int \<Rightarrow> rr_peers \<Rightarrow> rr_peer \<Rightarrow> bool" where
  "usable now g p \<longleftrightarrow>
     (if ps_single g then \<not> pe_down p \<and> \<not> (pe_max_conns p \<noteq> 0 \<and> pe_conns p \<ge> pe_max_conns p)
      else \<not> skip_peer now p)"

lemma pick_None:
  assumes "pick_in_group now us rrp = (None, us', rrp')" "group_ok (us ! rp_peers rrp)"
  shows "us' = us \<and> rrp' = rrp \<and> (\<forall>p < length (ps_peer (us ! rp_peers rrp)).
    usable now (us ! rp_peers rrp) (ps_peer (us ! rp_peers rrp) ! p) \<longrightarrow>
      \<not> ps_single (us ! rp_peers rrp) \<and> tried_bit (rp_tried rrp) p)"
  using assms get_peer_None [of now "rp_tried rrp" "ps_peer (us ! rp_peers rrp)"]
  by (auto simp: pick_in_group_def Let_def usable_def eligible_def group_ok_def upd_peers_def
      split: if_splits option.splits prod.splits)

lemma pick_Some:
  assumes "pick_in_group now us rrp = (Some p, us', rrp')" "group_ok (us ! rp_peers rrp)"
  shows "p < length (ps_peer (us ! rp_peers rrp)) \<and> rp_current rrp' = Some (rp_peers rrp, p) \<and>
    usable now (us ! rp_peers rrp) (ps_peer (us ! rp_peers rrp) ! p) \<and>
    (ps_single (us ! rp_peers rrp) \<or> \<not> tried_bit (rp_tried rrp) p)"
  using assms get_peer_Some [of now "rp_tried rrp" "ps_peer (us ! rp_peers rrp)" p]
  by (auto simp: pick_in_group_def Let_def usable_def eligible_def group_ok_def
      split: if_splits option.splits prod.splits)

lemma clear_tried_bit: "i < number \<Longrightarrow> \<not> tried_bit (clear_tried number tried) i"
proof -
  assume "i < number"
  then have "i div 64 < tried_words number" by (auto simp: tried_words_def)
  then show ?thesis by (simp add: tried_bit_def clear_tried_def nth_append)
qed

lemma get_choice:
  assumes "list_all group_ok us" "rp_peers rrp < length us"
    and "ngx_http_upstream_get_round_robin_peer now us rrp pc = (rc, us', rrp', pc')"
  shows "(rc = NGX_BUSY \<and>
      (\<forall>h p. rp_peers rrp \<le> h \<and> h < length us \<and> p < length (ps_peer (us ! h)) \<and> usable now (us ! h) (ps_peer (us ! h) ! p)
         \<longrightarrow> h = rp_peers rrp \<and> \<not> ps_single (us ! h) \<and> tried_bit (rp_tried rrp) p)) \<or>
    (rc = NGX_OK \<and>
      (\<exists>h p. rp_current rrp' = Some (h, p) \<and> rp_peers rrp \<le> h \<and> h < length us \<and> p < length (ps_peer (us ! h)) \<and>
         usable now (us ! h) (ps_peer (us ! h) ! p) \<and>
         (h = rp_peers rrp \<longrightarrow> ps_single (us ! h) \<or> \<not> tried_bit (rp_tried rrp) p)))"
  using assms
proof (induction now us rrp pc arbitrary: rc us' rrp' pc' rule: ngx_http_upstream_get_round_robin_peer.induct)
  case (1 now us rrp pc)
  let ?g = "rp_peers rrp"
  obtain x us1 rrp1 where p: "pick_in_group now us rrp = (x, us1, rrp1)" by (metis prod_cases3)
  have ok: "group_ok (us ! h)" if "h < length us" for h using 1(2) that by (simp add: list_all_length)
  note step = 1(4) [unfolded ngx_http_upstream_get_round_robin_peer.simps [of now us rrp pc] Let_def p prod.case]
  show ?case
  proof (cases x)
    case (Some q)
    then show ?thesis using step pick_Some [OF p [unfolded Some] ok [OF 1(3)]] 1(3) by auto
  next
    case None
    note pn = pick_None [OF p [unfolded None] ok [OF 1(3)]]
    show ?thesis
    proof (cases "?g + 1 < length us")
      case False
      then have "h = ?g" if "?g \<le> h" "h < length us" for h using that by simp
      moreover have "rc = NGX_BUSY" using step None False by simp
      ultimately show ?thesis using pn by blast
    next
      case True
      let ?rrp = "rrp1\<lparr>rp_peers := ?g + 1, rp_tried := clear_tried (ps_number (us ! (?g + 1))) (rp_tried rrp)\<rparr>"
      obtain rc2 us2 rrp2 pc2 where r: "ngx_http_upstream_get_round_robin_peer now us1 ?rrp pc = (rc2, us2, rrp2, pc2)"
        by (metis prod_cases4)
      have untried: "\<not> tried_bit (rp_tried ?rrp) q" if "q < length (ps_peer (us ! (?g + 1)))" for q
        using clear_tried_bit ok [OF True] that by (simp add: group_ok_def)
      have le: "Suc ?g \<le> h" if "?g \<le> h" "h \<noteq> ?g" for h using that by simp
      have us1: "us1 = us" using pn by simp
      have "rp_peers ?rrp = Suc ?g" by simp
      with 1(1) [OF refl p [symmetric] None refl True refl, unfolded us1, OF 1(2) _ r [unfolded us1]] True untried
      consider "rc2 = NGX_BUSY" "\<forall>h q. Suc ?g \<le> h \<and> h < length us \<and> q < length (ps_peer (us ! h)) \<longrightarrow>
          \<not> usable now (us ! h) (ps_peer (us ! h) ! q)"
        | h q where "rc2 = NGX_OK" "rp_current rrp2 = Some (h, q)" "Suc ?g \<le> h" "h < length us"
          "q < length (ps_peer (us ! h))" "usable now (us ! h) (ps_peer (us ! h) ! q)"
        by (simp only: ) (metis Suc_eq_plus1)
      then show ?thesis
      proof cases
        case 1
        have "rc = NGX_BUSY" using step None True r us1 1(1) by simp
        moreover have "h = ?g" if "?g \<le> h" "h < length us" "q < length (ps_peer (us ! h))"
          "usable now (us ! h) (ps_peer (us ! h) ! q)" for h q
          using 1(2) le that by blast
        ultimately show ?thesis using pn by blast
      next
        case 2
        then show ?thesis using step None True r us1 by auto
      qed
    qed
  qed
qed

text \<open>
  A request is answered \<open>NGX_BUSY\<close> exactly when there is no peer left for it: in any
  state the upstream can reach, either the call succeeds and the current peer of the request
  is a peer of its group or of a later group that is up, within its failure and connection
  limits and, in the request's own group, not tried before by the request; or it returns
  \<open>NGX_BUSY\<close> and every such peer of its group has been tried and no later group has one.
\<close>

theorem rr_busy_only_when_exhausted:
  assumes "rr_reachable host servers us" "rp_peers rrp < length us"
    and "ngx_http_upstream_get_round_robin_peer now us rrp pc = (rc, us', rrp', pc')"
  shows "(rc = NGX_BUSY \<and>
      (\<forall>h p. rp_peers rrp \<le> h \<and> h < length us \<and> p < length (ps_peer (us ! h)) \<and> usable now (us ! h) (ps_peer (us ! h) ! p)
         \<longrightarrow> h = rp_peers rrp \<and> \<not> ps_single (us ! h) \<and> tried_bit (rp_tried rrp) p)) \<or>
    (rc = NGX_OK \<and>
      (\<exists>h p. rp_current rrp' = Some (h, p) \<and> rp_peers rrp \<le> h \<and> h < length us \<and> p < length (ps_peer (us ! h)) \<and>
         usable now (us ! h) (ps_peer (us ! h) ! p) \<and>
         (h = rp_peers rrp \<longrightarrow> ps_single (us ! h) \<or> \<not> tried_bit (rp_tried rrp) p)))"
  using get_choice [OF _ assms(2,3)] reachable_ok [OF assms(1)] by blast

theorem rr_busy_only_when_exhausted_witness:
  "\<exists>us rc us' rrp' pc'. rr_reachable [ch_u] sample_servers us \<and>
     ngx_http_upstream_get_round_robin_peer 0 us \<lparr>rp_peers = 0, rp_current = None, rp_tried = [3]\<rparr> pc_init = (rc, us', rrp', pc') \<and>
     (rc = NGX_BUSY \<or> rc = NGX_OK)"
proof -
  have "ngx_http_upstream_init_round_robin [ch_u] sample_servers \<noteq> None" by code_simp
  then obtain us where us: "ngx_http_upstream_init_round_robin [ch_u] sample_servers = Some us" by blast
  then have r: "rr_reachable [ch_u] sample_servers us" by (rule rr_init)
  have "us \<noteq> []" using init_ok [OF us] by simp
  obtain rc us' rrp' pc' where
    g: "ngx_http_upstream_get_round_robin_peer 0 us \<lparr>rp_peers = 0, rp_current = None, rp_tried = [3]\<rparr> pc_init = (rc, us', rrp', pc')"
    by (metis prod_cases4)
  show ?thesis using rr_busy_only_when_exhausted [OF r _ g] r g \<open>us \<noteq> []\<close> by auto
qed

end
