(* ===== verification/Http_Range.thy ===== *)
theory Http_Range
  imports Ngx_Sprintf
begin

text \<open>
  Byte ranges, \<open>src/http/modules/ngx_http_range_filter_module.c\<close>: parsing the \<open>Range\<close>
  header, cutting the range out of the chain of response buffers, and the multipart form.
  Offsets are \<open>off_t\<close> values kept as integers: the code guards every computation against
  overflow before it makes it, and the guards are in the model.
\<close>

section \<open>Parsing the header\<close>

text \<open>
  The value is a C string: \<open>peek\<close> is \<open>*p\<close>, which is NUL at the end. Header values hold no
  other NUL.
\<close>

fun peek :: "byte list \<Rightarrow> byte" where
  "peek [] = ch_nul"
| "peek (c # p) = c"

fun skip_spaces :: "byte list \<Rightarrow> byte list" where
  "skip_spaces (c # p) = (if c = ch_sp then skip_spaces p else c # p)"
| "skip_spaces [] = []"

text \<open>The two loops that read a number, with \<open>cutoff\<close> and \<open>cutlim\<close>.\<close>

fun range_num :: "int \<Rightarrow> byte list \<Rightarrow> (int \<times> byte list) option" where
  "range_num v [] = Some (v, [])"
| "range_num v (c # p) =
     (if c \<ge> ch_0 \<and> c \<le> ch_9 then
        (if v \<ge> NGX_MAX_OFF_T_VALUE div 10
            \<and> (v > NGX_MAX_OFF_T_VALUE div 10 \<or> digit_val c > NGX_MAX_OFF_T_VALUE mod 10) then None
         else range_num (v * 10 + digit_val c) p)
      else Some (v, c # p))"

text \<open>One range: from the second number on, with \<open>suffix\<close>, and the whole, up to the label \<open>found\<close>.\<close>

definition range_end :: "bool \<Rightarrow> int \<Rightarrow> int \<Rightarrow> byte list \<Rightarrow> (int \<times> int \<times> byte list) option" where
  "range_end suffix start content_length p =
     (if peek p < ch_0 \<or> peek p > ch_9 then None
      else case range_num 0 p of
        None \<Rightarrow> None
      | Some (e, p) \<Rightarrow>
          (let p = skip_spaces p in
           if peek p \<noteq> ch_comma \<and> peek p \<noteq> ch_nul then None
           else
             (let (start, e) = (if suffix
                  then (if e < content_length then content_length - e else 0, content_length - 1)
                  else (start, e));
                  e = (if e \<ge> content_length then content_length else e + 1) in
              Some (start, e, p))))"

definition range_item :: "int \<Rightarrow> byte list \<Rightarrow> (int \<times> int \<times> byte list) option" where
  "range_item content_length p =
     (let p = skip_spaces p in
      if peek p \<noteq> ch_dash then
        (if peek p < ch_0 \<or> peek p > ch_9 then None
         else case range_num 0 p of
           None \<Rightarrow> None
         | Some (start, p) \<Rightarrow>
             (let p = skip_spaces p in
              if peek p \<noteq> ch_dash then None
              else
                (let p = skip_spaces (tl p) in
                 if peek p = ch_comma \<or> peek p = ch_nul then Some (start, content_length, p)
                 else range_end False start content_length p)))
      else range_end True 0 content_length (tl p))"

datatype range_error = NGX_HTTP_RANGE_NOT_SATISFIABLE | RANGE_DECLINED

lemma skip_spaces_length: "length (skip_spaces p) \<le> length p"
  by (induction p) auto

lemma range_num_length: "range_num v p = Some (e, p') \<Longrightarrow> length p' \<le> length p"
  by (induction v p rule: range_num.induct) (auto split: if_splits)

lemma range_end_length: "range_end suffix start cl p = Some (s, e, p') \<Longrightarrow> length p' \<le> length p"
  using order.trans [OF skip_spaces_length range_num_length]
  by (auto simp: range_end_def Let_def split: if_splits option.splits prod.splits)

lemma range_item_length: "range_item cl p = Some (s, e, p') \<Longrightarrow> length p' \<le> length p"
proof -
  assume i: "range_item cl p = Some (s, e, p')"
  let ?q = "skip_spaces p"
  have tl: "length (tl q) \<le> length q" for q :: "byte list" by simp
  have q: "length ?q \<le> length p" by (rule skip_spaces_length)
  show ?thesis
  proof (cases "peek ?q = ch_dash")
    case True
    then show ?thesis using i range_end_length [of True 0 cl "tl ?q"] q by (auto simp: range_item_def Let_def)
  next
    case False
    then obtain v r where r: "range_num 0 ?q = Some (v, r)" using i
      by (auto simp: range_item_def Let_def split: if_splits option.splits)
    let ?r = "skip_spaces (tl (skip_spaces r))"
    have "length ?r \<le> length p"
      using skip_spaces_length [of "tl (skip_spaces r)"] skip_spaces_length [of r] range_num_length [OF r] q
        tl [of "skip_spaces r"] by linarith
    moreover have "p' = ?r \<or> range_end False v cl ?r = Some (s, e, p')"
      using i False r by (auto simp: range_item_def Let_def split: if_splits)
    ultimately show ?thesis using range_end_length by fastforce
  qed
qed

lemma range_item_tl:
  "range_item cl p = Some (s, e, p') \<Longrightarrow> peek p' = ch_comma \<Longrightarrow> length (tl p') < length p"
  using range_item_length [of cl p s e p'] by (cases p') auto

text \<open>
  The loop, with the ranges pushed so far, \<open>size\<close> and the number of ranges still allowed:
  the ranges and \<open>size\<close>, or the error.
\<close>

function range_loop :: "int \<Rightarrow> byte list \<Rightarrow> nat \<Rightarrow> int \<Rightarrow> (int \<times> int) list \<Rightarrow>
    range_error + (int \<times> int) list \<times> int" where
  "range_loop content_length p ranges sz acc =
     (case range_item content_length p of
        None \<Rightarrow> Inl NGX_HTTP_RANGE_NOT_SATISFIABLE
      | Some (start, e, p') \<Rightarrow>
          if start < e then
            (if sz > NGX_MAX_OFF_T_VALUE - (e - start) then Inl NGX_HTTP_RANGE_NOT_SATISFIABLE
             else if ranges = 0 then Inl RANGE_DECLINED
             else if peek p' \<noteq> ch_comma then Inr (acc @ [(start, e)], sz + (e - start))
             else range_loop content_length (tl p') (ranges - 1) (sz + (e - start)) (acc @ [(start, e)]))
          else if start = 0 then Inl RANGE_DECLINED
          else if peek p' \<noteq> ch_comma then Inr (acc, sz)
          else range_loop content_length (tl p') ranges sz acc)"
  by pat_completeness auto
termination
  by (relation "measure (\<lambda>(cl, p, ranges, sz, acc). length p)") (auto dest: range_item_tl)

declare range_loop.simps [simp del]

text \<open>
  \<open>ngx_http_range_parse\<close> from the bytes after \<open>bytes=\<close>; \<open>mctx\<close> are the ranges of the main
  request when the request is a subrequest of one that has them.
\<close>

definition ngx_http_range_parse ::
  "(int \<times> int) list option \<Rightarrow> int \<Rightarrow> byte list \<Rightarrow> nat \<Rightarrow> range_error + (int \<times> int) list" where
  "ngx_http_range_parse mctx content_length p ranges =
     (case mctx of
        Some rs \<Rightarrow> Inr rs
      | None \<Rightarrow>
          (case range_loop content_length p ranges 0 [] of
             Inl err \<Rightarrow> Inl err
           | Inr (rs, sz) \<Rightarrow>
               if rs = [] then Inl NGX_HTTP_RANGE_NOT_SATISFIABLE
               else if sz > content_length then Inl RANGE_DECLINED
               else Inr rs))"


section \<open>Bounds\<close>

definition range_total :: "(int \<times> int) list \<Rightarrow> int" where
  "range_total rs = (\<Sum>(s, e)\<leftarrow>rs. e - s)"

lemma range_total_simps [simp]:
  "range_total [] = 0" "range_total ((s, e) # rs) = e - s + range_total rs"
  "range_total (rs @ rs') = range_total rs + range_total rs'"
  by (simp_all add: range_total_def)

lemma range_total_nonneg: "0 \<le> range_total (filter (\<lambda>(s, e). s < e) xs)"
  by (induction xs) auto

definition range_ok :: "int \<Rightarrow> int \<times> int \<Rightarrow> bool" where
  "range_ok cl r \<longleftrightarrow> 0 \<le> fst r \<and> fst r < snd r \<and> snd r \<le> cl"

text \<open>The guard of the number loops is exact.\<close>

lemma range_num_step:
  "is_digit c \<Longrightarrow> range_num v (c # p) =
    (if NGX_MAX_OFF_T_VALUE < v * 10 + digit_val c then None else range_num (v * 10 + digit_val c) p)"
proof -
  assume c: "is_digit c"
  then have "ch_0 \<le> c \<and> c \<le> ch_9" by (simp add: is_digit_def)
  then show ?thesis
    using cutoff_iff [where d = "digit_val c" and val = v and limit = NGX_MAX_OFF_T_VALUE] digit_val_bounds [OF c]
    by (simp only: range_num.simps) simp
qed

lemma range_num_stop: "\<not> is_digit c \<Longrightarrow> range_num v (c # p) = Some (v, c # p)"
  by (auto simp: is_digit_def)

declare range_num.simps(2) [simp del]

lemma range_num_bounds:
  "0 \<le> v \<Longrightarrow> v \<le> NGX_MAX_OFF_T_VALUE \<Longrightarrow> range_num v p = Some (e, p') \<Longrightarrow> 0 \<le> e \<and> e \<le> NGX_MAX_OFF_T_VALUE"
proof (induction p arbitrary: v)
  case (Cons c p)
  show ?case
  proof (cases "is_digit c")
    case True
    with Cons.prems have "v * 10 + digit_val c \<le> NGX_MAX_OFF_T_VALUE" "range_num (v * 10 + digit_val c) p = Some (e, p')"
      by (auto simp: range_num_step split: if_splits)
    with Cons.IH [of "v * 10 + digit_val c"] Cons.prems(1) digit_val_bounds [OF True] show ?thesis by simp
  next
    case False
    with Cons show ?thesis by (auto simp: range_num_stop)
  qed
qed simp

lemma range_end_bounds:
  assumes "range_end suffix start cl p = Some (s, e, p')" "0 \<le> start"
  shows "0 \<le> s \<and> e \<le> cl"
  using assms by (auto simp: range_end_def Let_def split: if_splits option.splits)

lemma range_item_bounds:
  assumes "range_item cl p = Some (s, e, p')"
  shows "0 \<le> s \<and> e \<le> cl"
proof -
  have "0 \<le> NGX_MAX_OFF_T_VALUE" by (simp add: ngx_limits)
  then have "0 \<le> v" if "range_num 0 q = Some (v, r)" for q v r using range_num_bounds [OF _ _ that] by simp
  then show ?thesis
    using assms range_end_bounds by (fastforce simp: range_item_def Let_def split: if_splits option.splits)
qed

lemma range_loop_sound:
  assumes "range_loop cl p ranges sz acc = Inr (rs, sz')"
    and "list_all (range_ok cl) acc" "sz = range_total acc" "sz \<le> NGX_MAX_OFF_T_VALUE"
  shows "list_all (range_ok cl) rs \<and> sz' = range_total rs \<and> sz' \<le> NGX_MAX_OFF_T_VALUE \<and>
    length rs \<le> length acc + ranges"
  using assms
proof (induction cl p ranges sz acc rule: range_loop.induct)
  case (1 cl p ranges sz acc)
  note step = 1(3) [unfolded range_loop.simps [of cl p ranges sz acc]]
  obtain s e p' where i: "range_item cl p = Some (s, e, p')" using step by (auto split: option.splits)
  note b = range_item_bounds [OF i]
  show ?case
  proof (cases "s < e")
    case False
    then show ?thesis using step i 1(2) [OF i refl refl] 1(4-6) by (auto split: if_splits)
  next
    case True
    then have "list_all (range_ok cl) (acc @ [(s, e)])" using 1(4) b by (simp add: range_ok_def [of cl "(s, e)"])
    moreover have "sz + (e - s) = range_total (acc @ [(s, e)])" using 1(5) by simp
    moreover have "sz + (e - s) \<le> NGX_MAX_OFF_T_VALUE" "0 < ranges" using step i True by (auto split: if_splits)
    ultimately show ?thesis
      using step i True 1(1) [OF i refl refl True] by (cases "peek p' = ch_comma") (auto split: if_splits)
  qed
qed

section \<open>Properties of the parser\<close>

text \<open>
  C4: What \<open>ngx_http_range_parse\<close> accepts is safe to cut out of the response: there is at
  least one range and no more than \<open>max_ranges\<close>, each is nonempty and lies within the
  content, and together they are no longer than the content, so that a request cannot make
  the server send more than a full response, whatever numbers the header holds.
\<close>

theorem range_parse_sound:
  assumes "ngx_http_range_parse None content_length p ranges = Inr rs"
  shows "rs \<noteq> [] \<and> length rs \<le> ranges \<and>
    list_all (\<lambda>(s, e). 0 \<le> s \<and> s < e \<and> e \<le> content_length) rs \<and> (\<Sum>(s, e)\<leftarrow>rs. e - s) \<le> content_length"
proof -
  obtain sz where l: "range_loop content_length p ranges 0 [] = Inr (rs, sz)" "rs \<noteq> []" "sz \<le> content_length"
    using assms by (auto simp: ngx_http_range_parse_def split: sum.splits if_splits)
  have "list_all (range_ok content_length) rs \<and> sz = range_total rs \<and> length rs \<le> ranges"
    using range_loop_sound [OF l(1)] by (simp add: ngx_limits)
  then show ?thesis using l(2,3) by (auto simp: range_total_def range_ok_def list_all_iff)
qed

theorem range_parse_sound_witness:
  "\<exists>rs. ngx_http_range_parse None 100 [ch_5, ch_dash, ch_9, ch_comma, ch_sp, ch_dash, ch_7] 2 = Inr rs \<and> length rs \<le> 2"
proof -
  have "ngx_http_range_parse None 100 [ch_5, ch_dash, ch_9, ch_comma, ch_sp, ch_dash, ch_7] 2 = Inr [(5, 10), (93, 100)]"
    by code_simp
  then show ?thesis using range_parse_sound by blast
qed


section \<open>The ranges a client may ask for\<close>

text \<open>The three forms of RFC 7233, section 2.1, as text and as the bytes they denote.\<close>

datatype range_spec = From nat | Between nat nat | Suffix nat

fun render_spec :: "range_spec \<Rightarrow> byte list" where
  "render_spec (From a) = dec_loop a [] @ [ch_dash]"
| "render_spec (Between a b) = dec_loop a [] @ ch_dash # dec_loop b []"
| "render_spec (Suffix n) = ch_dash # dec_loop n []"

fun render_ranges :: "range_spec list \<Rightarrow> byte list" where
  "render_ranges [] = []"
| "render_ranges [sp] = render_spec sp"
| "render_ranges (sp # sps) = render_spec sp @ ch_comma # render_ranges sps"

fun resolve :: "int \<Rightarrow> range_spec \<Rightarrow> int \<times> int" where
  "resolve cl (From a) = (int a, cl)"
| "resolve cl (Between a b) = (int a, min (int b + 1) cl)"
| "resolve cl (Suffix n) = (max 0 (cl - int n), cl)"

fun spec_ok :: "range_spec \<Rightarrow> bool" where
  "spec_ok (From a) = (int a \<le> NGX_MAX_OFF_T_VALUE)"
| "spec_ok (Between a b) = (int a \<le> NGX_MAX_OFF_T_VALUE \<and> int b \<le> NGX_MAX_OFF_T_VALUE)"
| "spec_ok (Suffix n) = (int n \<le> NGX_MAX_OFF_T_VALUE)"

lemma range_num_digits:
  assumes "\<forall>d \<in> set ds. is_digit d" "\<not> is_digit (peek rest)" "0 \<le> v"
    and "foldl (\<lambda>v d. v * 10 + digit_val d) v ds \<le> NGX_MAX_OFF_T_VALUE"
  shows "range_num v (ds @ rest) = Some (foldl (\<lambda>v d. v * 10 + digit_val d) v ds, rest)"
  using assms
proof (induction ds arbitrary: v)
  case Nil
  then show ?case by (cases rest) (simp_all add: range_num_stop)
next
  case (Cons d ds)
  have "0 \<le> v * 10 + digit_val d" using Cons.prems digit_val_bounds [of d] by simp
  moreover from this have "v * 10 + digit_val d \<le> NGX_MAX_OFF_T_VALUE"
    using foldl_dec_ge [of "v * 10 + digit_val d" ds] Cons.prems by fastforce
  ultimately show ?case using Cons by (simp add: range_num_step)
qed

text \<open>A printed number is read back, whatever separator follows.\<close>

lemma range_num_dec:
  assumes "int n \<le> NGX_MAX_OFF_T_VALUE" "\<not> is_digit (peek rest)"
  shows "range_num 0 (dec_loop n [] @ rest) = Some (int n, rest)"
  using range_num_digits [OF _ assms(2), of "dec_loop n []" 0] dec_loop_digits [of n] assms(1)
  by (simp add: dec_val_def)

lemma dec_loop_Cons: obtains c ds where "dec_loop n [] = c # ds" "is_digit c"
  using dec_loop_digits [of n] by (cases "dec_loop n []") auto

lemma digit_facts: "is_digit c \<Longrightarrow> c \<noteq> ch_sp \<and> c \<noteq> ch_dash \<and> c \<noteq> ch_comma \<and> c \<noteq> ch_nul \<and> ch_0 \<le> c \<and> c \<le> ch_9 \<and> \<not> c < ch_0 \<and> \<not> ch_9 < c"
  by (auto simp: is_digit_def)

lemma skip_dec: "skip_spaces (dec_loop n [] @ rest) = dec_loop n [] @ rest"
  by (rule dec_loop_Cons [of n]) (auto dest: digit_facts)

lemma peek_dec: "is_digit (peek (dec_loop n [] @ rest))"
  by (rule dec_loop_Cons [of n]) auto

lemma separator_facts: "rest = [] \<or> peek rest = ch_comma \<Longrightarrow>
  \<not> is_digit (peek rest) \<and> skip_spaces rest = rest \<and> (peek rest = ch_comma \<or> peek rest = ch_nul)"
  by (cases rest) (auto simp: is_digit_def)

lemma range_end_dec:
  assumes "int n \<le> NGX_MAX_OFF_T_VALUE" "rest = [] \<or> peek rest = ch_comma"
  shows "range_end suffix start cl (dec_loop n [] @ rest) =
    (let (start, e) = (if suffix then (if int n < cl then cl - int n else 0, cl - 1) else (start, int n)) in
     Some (start, if e \<ge> cl then cl else e + 1, rest))"
  using digit_facts [OF peek_dec [of n rest]] range_num_dec [OF assms(1)] separator_facts [OF assms(2)]
  by (auto simp: range_end_def Let_def)

lemma range_item_render:
  assumes "spec_ok sp" "rest = [] \<or> peek rest = ch_comma"
  shows "range_item cl (render_spec sp @ rest) = Some (fst (resolve cl sp), snd (resolve cl sp), rest)"
proof -
  note s = separator_facts [OF assms(2)]
  have dash: "\<not> is_digit (peek (ch_dash # q))" "skip_spaces (ch_dash # q) = ch_dash # q" for q
    by (simp_all add: is_digit_def)
  note num = digit_facts [OF peek_dec] skip_dec dash range_num_dec s
  show ?thesis
  proof (cases sp)
    case (From a)
    then show ?thesis using assms(1) num
      by (simp add: range_item_def)
  next
    case (Between a b)
    have "int a \<le> NGX_MAX_OFF_T_VALUE" "int b \<le> NGX_MAX_OFF_T_VALUE" using assms(1) Between by simp_all
    then show ?thesis using num digit_facts [OF peek_dec [of b rest]] range_end_dec [of b rest False "int a" cl] assms(2)
      by (simp add: range_item_def Between)
  next
    case (Suffix n)
    then show ?thesis using assms range_end_dec [of n rest True 0 cl] by (simp add: range_item_def max_def)
  qed
qed

lemma range_loop_render:
  assumes "sps \<noteq> []" "list_all spec_ok sps" "0 < cl" "cl \<le> NGX_MAX_OFF_T_VALUE"
    and "rs = filter (\<lambda>(s, e). s < e) (map (resolve cl) sps)"
    and "length rs \<le> ranges" "0 \<le> sz" "sz + range_total rs \<le> cl"
  shows "range_loop cl (render_ranges sps) ranges sz acc = Inr (acc @ rs, sz + range_total rs)"
  using assms
proof (induction sps arbitrary: rs ranges sz acc rule: render_ranges.induct)
  case (2 sp)
  obtain s e where r: "resolve cl sp = (s, e)" by fastforce
  then have "s < e \<or> s \<noteq> 0" using 2(3) by (cases sp) auto
  then show ?case
    using range_item_render [of sp "[]" cl] 2 r
    by (subst range_loop.simps) (auto split: if_splits)
next
  case (3 sp sp' sps)
  obtain s e where r: "resolve cl sp = (s, e)" by fastforce
  then have z: "s < e \<or> s \<noteq> 0" using 3(4) by (cases sp) auto
  define rs' where "rs' = filter (\<lambda>(s, e). s < e) (map (resolve cl) (sp' # sps))"
  have "0 \<le> range_total rs'" unfolding rs'_def by (rule range_total_nonneg)
  moreover have rs: "rs = (if s < e then [(s, e)] else []) @ rs'" using 3(6) r by (simp add: rs'_def)
  ultimately have b: "s < e \<Longrightarrow> sz + (e - s) \<le> NGX_MAX_OFF_T_VALUE" "length rs' \<le> ranges"
    "s < e \<Longrightarrow> 0 < ranges \<and> length rs' \<le> ranges - 1"
    "s < e \<Longrightarrow> 0 \<le> sz + (e - s) \<and> sz + (e - s) + range_total rs' \<le> cl" "\<not> s < e \<Longrightarrow> sz + range_total rs' \<le> cl"
    using 3(5,7,8,9) by auto
  note IH = 3(1) [OF _ _ 3(4,5) rs'_def]
  have i: "range_item cl (render_ranges (sp # sp' # sps)) = Some (s, e, ch_comma # render_ranges (sp' # sps))"
    using range_item_render [of sp "ch_comma # render_ranges (sp' # sps)" cl] 3(3) r by simp
  show ?case
  proof (cases "s < e")
    case True
    then show ?thesis
      using i b IH [of "ranges - 1" "sz + (e - s)" "acc @ [(s, e)]"] 3(3) rs
      by (subst range_loop.simps) simp
  next
    case False
    then show ?thesis
      using i b z IH [of ranges sz acc] 3(3,8) rs by (subst range_loop.simps) simp
  qed
qed simp

text \<open>
  Every set of ranges of RFC 7233, written in decimal and separated by commas, is parsed to
  exactly the bytes it denotes: a range without end runs to the end of the content, an end
  beyond the content is cut, a suffix counts from the end, and unsatisfiable ranges of the
  set are left out, provided something is left, \<open>max_ranges\<close> allows it, and it is no
  longer than the content.
\<close>

theorem range_parse_rendered:
  assumes "sps \<noteq> []" "list_all spec_ok sps" "0 < content_length" "content_length \<le> NGX_MAX_OFF_T_VALUE"
    and "filter (\<lambda>(s, e). s < e) (map (resolve content_length) sps) = rs" "rs \<noteq> []"
    and "length rs \<le> ranges" "(\<Sum>(s, e)\<leftarrow>rs. e - s) \<le> content_length"
  shows "ngx_http_range_parse None content_length (render_ranges sps) ranges = Inr rs"
  using range_loop_render [OF assms(1-4) assms(5) [symmetric] assms(7), of 0 "[]"] assms(6,8)
  by (simp add: ngx_http_range_parse_def range_total_def)

theorem range_parse_rendered_witness:
  "ngx_http_range_parse None 100 (render_ranges [Between 5 9, Suffix 7, From 300]) 5 = Inr [(5, 10), (93, 100)]"
  using range_parse_rendered [of "[Between 5 9, Suffix 7, From 300]" 100 "[(5, 10), (93, 100)]" 5]
  by (simp add: ngx_limits)


section \<open>Cutting one range out of the response\<close>

text \<open>
  A buffer of the chain: the bytes between \<open>pos\<close> and \<open>last\<close> (or \<open>file_pos\<close> and
  \<open>file_last\<close>, moved together), whether it is special (no bytes, only flags) and the flags
  the filter writes.
\<close>

record rbuf =
  rb_data :: "byte list"
  rb_special :: bool
  rb_last_buf :: bool
  rb_last_in_chain :: bool
  rb_sync :: bool

text \<open>
  The body of the loop of \<open>ngx_http_range_singlepart_body\<close> for a buffer that begins at
  \<open>start\<close>: the buffer as the filter leaves it, and whether it is linked to the output.
\<close>

definition range_buf :: "bool \<Rightarrow> int \<times> int \<Rightarrow> int \<Rightarrow> rbuf \<Rightarrow> rbuf \<times> bool" where
  "range_buf main rg start buf =
     (let last' = start + int (length (rb_data buf)) in
      if rb_special buf then (buf, \<not> snd rg \<le> start)
      else if snd rg \<le> start \<or> fst rg \<ge> last' then (buf\<lparr>rb_data := [], rb_sync := True\<rparr>, False)
      else
        (let buf = (if fst rg > start then buf\<lparr>rb_data := drop (nat (fst rg - start)) (rb_data buf)\<rparr> else buf) in
         if snd rg \<le> last' then
           (buf\<lparr>rb_data := take (length (rb_data buf) - nat (last' - snd rg)) (rb_data buf),
                rb_last_buf := main, rb_last_in_chain := True\<rparr>, True)
         else (buf, True)))"

text \<open>\<open>ngx_http_range_singlepart_body\<close>: the new \<open>ctx->offset\<close> and the output chain.\<close>

fun ngx_http_range_singlepart_body :: "bool \<Rightarrow> int \<times> int \<Rightarrow> int \<Rightarrow> rbuf list \<Rightarrow> int \<times> rbuf list" where
  "ngx_http_range_singlepart_body main rg offset [] = (offset, [])"
| "ngx_http_range_singlepart_body main rg offset (buf # cl) =
     (case range_buf main rg offset buf of (buf', linked) \<Rightarrow>
        apsnd (\<lambda>out. if linked then buf' # out else out)
          (ngx_http_range_singlepart_body main rg (offset + int (length (rb_data buf))) cl))"

text \<open>Successive calls, as the response comes in.\<close>

fun range_calls :: "bool \<Rightarrow> int \<times> int \<Rightarrow> int \<Rightarrow> rbuf list list \<Rightarrow> byte list" where
  "range_calls main rg offset [] = []"
| "range_calls main rg offset (cl # cls) =
     (case ngx_http_range_singlepart_body main rg offset cl of (offset', out) \<Rightarrow>
        concat (map rb_data out) @ range_calls main rg offset' cls)"

definition chain_data :: "rbuf list \<Rightarrow> byte list" where
  "chain_data cl = concat (map rb_data cl)"

text \<open>The part of \<open>data\<close>, which begins at \<open>offset\<close>, that lies in the range.\<close>

definition cut :: "int \<times> int \<Rightarrow> int \<Rightarrow> byte list \<Rightarrow> byte list" where
  "cut rg offset data = drop (nat (fst rg - offset)) (take (nat (snd rg - offset)) data)"

lemma cut_append:
  assumes "fst rg \<le> snd rg"
  shows "cut rg offset (xs @ ys) = cut rg offset xs @ cut rg (offset + int (length xs)) ys"
proof -
  have "nat (snd rg - offset) - length xs = nat (snd rg - (offset + int (length xs)))"
    "nat (fst rg - offset) - length xs = nat (fst rg - (offset + int (length xs)))"
    by auto
  moreover have "nat (fst rg - offset) - min (length xs) (nat (snd rg - offset)) =
      nat (fst rg - offset) - length xs \<or> nat (snd rg - offset) \<le> length xs" by auto
  ultimately show ?thesis using assms by (auto simp: cut_def)
qed

lemma range_buf_data:
  assumes "fst rg < snd rg" "rb_special buf \<longrightarrow> rb_data buf = []" "range_buf main rg offset buf = (buf', linked)"
  shows "(if linked then rb_data buf' else []) = cut rg offset (rb_data buf)"
proof -
  let ?d = "rb_data buf" and ?a = "nat (fst rg - offset)" and ?b = "nat (snd rg - offset)"
  let ?skip = "snd rg \<le> offset \<or> fst rg \<ge> offset + int (length ?d)"
  consider (special) "rb_special buf" | (skip) "\<not> rb_special buf" ?skip | (here) "\<not> rb_special buf" "\<not> ?skip" by blast
  then show ?thesis
  proof cases
    case special
    then show ?thesis using assms(2,3) by (auto simp: range_buf_def cut_def)
  next
    case skip
    then have "linked = False" using assms(3) by (auto simp: range_buf_def Let_def)
    then show ?thesis using skip(2) by (auto simp: cut_def)
  next
    case here
    have d: "rb_data (if fst rg > offset then buf\<lparr>rb_data := drop ?a ?d\<rparr> else buf) = drop ?a ?d" by simp
    show ?thesis
    proof (cases "snd rg \<le> offset + int (length ?d)")
      case True
      have "rb_data buf' = take (length ?d - ?a - nat (offset + int (length ?d) - snd rg)) (drop ?a ?d) \<and> linked"
        using assms(3) here True d by (auto simp: range_buf_def Let_def)
      moreover have "length ?d - ?a - nat (offset + int (length ?d) - snd rg) = ?b - ?a" using True here by linarith
      ultimately show ?thesis by (simp add: cut_def drop_take)
    next
      case False
      then have "rb_data buf' = drop ?a ?d \<and> linked"
        using assms(3) here d by (auto simp: range_buf_def Let_def)
      then show ?thesis using False by (simp add: cut_def)
    qed
  qed
qed

lemma singlepart_data:
  assumes "fst rg < snd rg" "list_all (\<lambda>b. rb_special b \<longrightarrow> rb_data b = []) cl"
    and "ngx_http_range_singlepart_body main rg offset cl = (offset', out)"
  shows "chain_data out = cut rg offset (chain_data cl) \<and> offset' = offset + int (length (chain_data cl))"
  using assms(2,3)
proof (induction cl arbitrary: offset out)
  case Nil
  then show ?case by (simp add: chain_data_def cut_def)
next
  case (Cons b cl)
  obtain b' l where b: "range_buf main rg offset b = (b', l)" by fastforce
  obtain out1 where o: "ngx_http_range_singlepart_body main rg (offset + int (length (rb_data b))) cl = (offset', out1)"
    "out = (if l then b' # out1 else out1)"
    using Cons.prems(2) b by (cases "ngx_http_range_singlepart_body main rg (offset + int (length (rb_data b))) cl") auto
  have "chain_data out = (if l then rb_data b' else []) @ chain_data out1" using o(2) by (simp add: chain_data_def)
  then show ?case
    using range_buf_data [OF assms(1) _ b] Cons.IH [OF _ o(1)] Cons.prems(1) assms(1)
    by (simp add: chain_data_def cut_append)
qed

text \<open>
  C25: Cutting a single range is exact. However the response is split into buffers and the
  buffers into calls of the filter, the bytes that leave
  \<open>ngx_http_range_singlepart_body\<close> are the bytes of the response from the start to the
  end of the range, no more and no less.
\<close>

theorem range_singlepart_exact:
  assumes "0 \<le> s" "s < e"
    and "list_all (list_all (\<lambda>b. rb_special b \<longrightarrow> rb_data b = [])) cls"
  shows "range_calls main (s, e) 0 cls = slice (concat (map chain_data cls)) (nat s) (nat e)"
proof -
  have "range_calls main (s, e) offset cls = cut (s, e) offset (concat (map chain_data cls))" for offset
    using assms(3)
  proof (induction cls arbitrary: offset)
    case (Cons cl cls)
    obtain offset' out where o: "ngx_http_range_singlepart_body main (s, e) offset cl = (offset', out)" by fastforce
    then show ?case
      using singlepart_data [OF _ _ o] Cons assms(2) by (simp add: cut_append chain_data_def)
  qed (simp add: cut_def)
  then show ?thesis using assms(1,2) by (simp add: cut_def slice_def drop_take nat_diff_distrib)
qed

theorem range_singlepart_exact_witness:
  "range_calls True (1, 3) 0
     [[\<lparr>rb_data = [ch_a, ch_b], rb_special = False, rb_last_buf = False, rb_last_in_chain = False, rb_sync = False\<rparr>],
      [\<lparr>rb_data = [ch_c, ch_d], rb_special = False, rb_last_buf = True, rb_last_in_chain = True, rb_sync = False\<rparr>]]
   = [ch_b, ch_c]"
  by (subst range_singlepart_exact) (simp_all add: chain_data_def slice_def)


section \<open>Several ranges\<close>

text \<open>The conversions \<open>%0muA\<close> of the boundary and \<open>%O\<close> of an offset.\<close>

definition boundary_text :: "u64 \<Rightarrow> byte list" where
  "boundary_text n = (let p = num_digits n 0 in replicate (unat NGX_ATOMIC_T_LEN - length p) ch_0 @ p)"

definition off_text :: "int \<Rightarrow> byte list" where
  "off_text v = dec_loop (nat v) []"

definition CRLF :: "byte list" where
  "CRLF = [ch_cr, ch_lf]"

definition content_type_text :: "byte list" where
  "content_type_text = [ch_C, ch_o, ch_n, ch_t, ch_e, ch_n, ch_t, ch_dash, ch_T, ch_y, ch_p, ch_e, ch_colon, ch_sp]"

definition charset_text :: "byte list" where
  "charset_text = [ch_semi, ch_sp, ch_c, ch_h, ch_a, ch_r, ch_s, ch_e, ch_t, ch_eq]"

definition content_range_text :: "byte list" where
  "content_range_text = [ch_C, ch_o, ch_n, ch_t, ch_e, ch_n, ch_t, ch_dash, ch_R, ch_a, ch_n, ch_g, ch_e, ch_colon, ch_sp,
     ch_b, ch_y, ch_t, ch_e, ch_s, ch_sp]"

text \<open>
  \<open>ctx->boundary_header\<close>; \<open>charset\<close> is given when \<open>content_type_len\<close> is the whole
  length and the charset is not empty.
\<close>

definition boundary_header :: "u64 \<Rightarrow> byte list \<Rightarrow> byte list option \<Rightarrow> byte list" where
  "boundary_header boundary content_type charset =
     CRLF @ [ch_dash, ch_dash] @ boundary_text boundary @ CRLF @
     (case charset of
        Some cs \<Rightarrow> content_type_text @ content_type @ charset_text @ cs @ CRLF
      | None \<Rightarrow> if content_type \<noteq> [] then content_type_text @ content_type @ CRLF else []) @
     content_range_text"

definition content_range :: "int \<Rightarrow> int \<times> int \<Rightarrow> byte list" where
  "content_range content_length rg =
     off_text (fst rg) @ ch_dash # off_text (snd rg - 1) @ ch_slash # off_text content_length @ CRLF @ CRLF"

text \<open>The \<open>Content-Length\<close> that \<open>ngx_http_range_multipart_header\<close> announces.\<close>

definition ngx_http_range_multipart_header :: "byte list \<Rightarrow> int \<Rightarrow> (int \<times> int) list \<Rightarrow> int" where
  "ngx_http_range_multipart_header bh content_length rs =
     foldl (\<lambda>len rg. len + (int (length bh) + int (length (content_range content_length rg)) + (snd rg - fst rg)))
       (int (length (CRLF @ [ch_dash, ch_dash]) + unat NGX_ATOMIC_T_LEN + length ([ch_dash, ch_dash] @ CRLF))) rs"

text \<open>The \<open>Content-Range\<close> values of a single range and of an unsatisfiable request.\<close>

definition bytes_text :: "byte list" where
  "bytes_text = [ch_b, ch_y, ch_t, ch_e, ch_s, ch_sp]"

definition ngx_http_range_singlepart_header :: "int \<Rightarrow> int \<times> int \<Rightarrow> byte list \<times> int" where
  "ngx_http_range_singlepart_header content_length rg =
     (bytes_text @ off_text (fst rg) @ ch_dash # off_text (snd rg - 1) @ ch_slash # off_text content_length,
      snd rg - fst rg)"

definition ngx_http_range_not_satisfiable :: "int \<Rightarrow> byte list" where
  "ngx_http_range_not_satisfiable content_length = bytes_text @ ch_star # ch_slash # off_text content_length"

text \<open>\<open>None\<close> is \<open>NGX_ERROR\<close>, else the new \<open>ctx->offset\<close>.\<close>

definition ngx_http_range_test_overlapped :: "int \<Rightarrow> (int \<times> int) list \<Rightarrow> rbuf \<Rightarrow> int option" where
  "ngx_http_range_test_overlapped offset rs buf =
     (if offset \<noteq> 0 then None
      else if \<not> rb_last_buf buf \<and>
        list_ex (\<lambda>rg. offset > fst rg \<or> offset + int (length (rb_data buf)) < snd rg) rs then None
      else Some (int (length (rb_data buf))))"

text \<open>The bytes \<open>ngx_http_range_multipart_body\<close> sends.\<close>

definition range_part :: "byte list \<Rightarrow> int \<Rightarrow> byte list \<Rightarrow> int \<times> int \<Rightarrow> byte list" where
  "range_part bh content_length data rg =
     bh @ content_range content_length rg @ slice data (nat (fst rg)) (nat (snd rg))"

definition ngx_http_range_multipart_body :: "byte list \<Rightarrow> int \<Rightarrow> byte list \<Rightarrow> (int \<times> int) list \<Rightarrow> byte list" where
  "ngx_http_range_multipart_body bh content_length data rs =
     concat (map (range_part bh content_length data) rs) @
     take (length (CRLF @ [ch_dash, ch_dash]) + unat NGX_ATOMIC_T_LEN) bh @ [ch_dash, ch_dash] @ CRLF"

lemma length_boundary_text: "length (boundary_text n) = 20"
  using num_digits_length [of n 0] by (simp add: boundary_text_def Let_def NGX_ATOMIC_T_LEN_def)

lemma multipart_header_sum:
  "ngx_http_range_multipart_header bh cl rs =
    28 + (\<Sum>rg\<leftarrow>rs. int (length bh) + int (length (content_range cl rg)) + (snd rg - fst rg))"
proof -
  have "foldl (\<lambda>len rg. len + f rg) v rs = v + (\<Sum>rg\<leftarrow>rs. f rg)" for f :: "int \<times> int \<Rightarrow> int" and v
    by (induction rs arbitrary: v) (simp_all add: algebra_simps)
  then show ?thesis by (simp add: ngx_http_range_multipart_header_def CRLF_def NGX_ATOMIC_T_LEN_def)
qed

text \<open>
  A multipart response has the length it announces. For the ranges the parser accepts and
  a buffer that holds the content, the number of bytes
  \<open>ngx_http_range_multipart_body\<close> sends, boundaries and part headers included, is the
  \<open>Content-Length\<close> computed by \<open>ngx_http_range_multipart_header\<close>, whatever the
  boundary number, type and charset.
\<close>

theorem range_multipart_length:
  assumes "ngx_http_range_parse None content_length p ranges = Inr rs" "content_length = int (length data)"
    and "bh = boundary_header boundary content_type charset"
  shows "int (length (ngx_http_range_multipart_body bh content_length data rs)) =
    ngx_http_range_multipart_header bh content_length rs"
proof -
  obtain sz where l: "range_loop content_length p ranges 0 [] = Inr (rs, sz)"
    using assms(1) by (auto simp: ngx_http_range_parse_def split: sum.splits if_splits)
  then have ok: "list_all (range_ok content_length) rs"
    using range_loop_sound [OF l] by (simp add: ngx_limits)
  have part: "int (length (range_part bh content_length data rg)) =
      int (length bh) + int (length (content_range content_length rg)) + (snd rg - fst rg)"
    if "rg \<in> set rs" for rg
    using ok that assms(2) by (auto simp: range_part_def range_ok_def list_all_iff)
  then have "int (length (concat (map (range_part bh content_length data) rs))) =
      (\<Sum>rg\<leftarrow>rs. int (length bh) + int (length (content_range content_length rg)) + (snd rg - fst rg))"
    by (induction rs) auto
  moreover have "24 \<le> length bh"
    unfolding assms(3) by (simp add: boundary_header_def length_boundary_text CRLF_def)
  ultimately show ?thesis
    by (simp add: ngx_http_range_multipart_body_def multipart_header_sum CRLF_def NGX_ATOMIC_T_LEN_def)
qed

theorem range_multipart_length_witness:
  "\<exists>rs. ngx_http_range_parse None 3 [ch_0, ch_dash, ch_0, ch_comma, ch_dash, ch_1] 5 = Inr rs \<and>
     int (length (ngx_http_range_multipart_body (boundary_header 7 [] None) 3 [ch_a, ch_b, ch_c] rs)) =
       ngx_http_range_multipart_header (boundary_header 7 [] None) 3 rs"
proof -
  have "ngx_http_range_parse None 3 [ch_0, ch_dash, ch_0, ch_comma, ch_dash, ch_1] 5 = Inr [(0, 1), (2, 3)]"
    by code_simp
  from range_multipart_length [OF this _ refl, of "[ch_a, ch_b, ch_c]" 7 "[]" None] this show ?thesis by auto
qed

end
