(* ===== verification/Ngx_Times.thy ===== *)
theory Ngx_Times
  imports Ngx_Sprintf
begin

text \<open>
  Calendar arithmetic: \<open>ngx_gmtime\<close>, \<open>ngx_http_time\<close> and \<open>ngx_http_cookie_time\<close> of
  \<open>src/core/ngx_times.c\<close>, and \<open>ngx_parse_http_time\<close> of
  \<open>src/core/ngx_parse_time.c\<close>. The reference is the Gregorian calendar counted day by
  day from January 1, 1970.
\<close>

section \<open>Breaking down a time\<close>

record ngx_tm =
  tm_sec :: int
  tm_min :: int
  tm_hour :: int
  tm_mday :: int
  tm_mon :: int
  tm_year :: int
  tm_wday :: int

text \<open>The year and the day of the year that begins on March 1, from the days since March 1, 1 BC.\<close>

definition gm_leap :: "int \<Rightarrow> int" where
  "gm_leap year = (if year mod 4 = 0 \<and> (year mod 100 \<noteq> 0 \<or> year mod 400 = 0) then 1 else 0)"

definition gm_year :: "int \<Rightarrow> int \<times> int" where
  "gm_year days =
     (let year = (days + 2) * 400 div (365 * 400 + 100 - 4 + 1);
          yday = days - (365 * year + year div 4 - year div 100 + year div 400) in
      if yday < 0 then (year - 1, 365 + gm_leap year + yday) else (year, yday))"

text \<open>The month and the day of the month; January and February belong to the next year.\<close>

definition gm_month :: "int \<times> int \<Rightarrow> int \<times> int \<times> int" where
  "gm_month yy =
     (let year = fst yy; yday = snd yy;
          mon = (yday + 31) * 10 div 306;
          mday = yday - (367 * mon div 12 - 30) + 1 in
      if yday \<ge> 306 then (year + 1, mon - 10, mday) else (year, mon + 2, mday))"

definition ngx_gmtime :: "int \<Rightarrow> ngx_tm" where
  "ngx_gmtime t =
     (let t = (if t < 0 then 0 else t);
          days = t div 86400; sec = t mod 86400;
          (days, sec) = (if days > 2932896 then (2932896, 86399) else (days, sec));
          wday = (4 + days) mod 7;
          hour = sec div 3600; sec = sec mod 3600;
          min' = sec div 60; sec = sec mod 60;
          (year, mon, mday) = gm_month (gm_year (days - (31 + 28) + 719527)) in
      \<lparr>tm_sec = sec, tm_min = min', tm_hour = hour, tm_mday = mday, tm_mon = mon,
       tm_year = year, tm_wday = wday\<rparr>)"

section \<open>Printing\<close>

definition week :: "byte list list" where
  "week = [[ch_S, ch_u, ch_n, 0], [ch_M, ch_o, ch_n, 0], [ch_T, ch_u, ch_e, 0], [ch_W, ch_e, ch_d, 0],
     [ch_T, ch_h, ch_u, 0], [ch_F, ch_r, ch_i, 0], [ch_S, ch_a, ch_t, 0]]"

definition months :: "byte list list" where
  "months = [[ch_J, ch_a, ch_n, 0], [ch_F, ch_e, ch_b, 0], [ch_M, ch_a, ch_r, 0], [ch_A, ch_p, ch_r, 0],
     [ch_M, ch_a, ch_y, 0], [ch_J, ch_u, ch_n, 0], [ch_J, ch_u, ch_l, 0], [ch_A, ch_u, ch_g, 0],
     [ch_S, ch_e, ch_p, 0], [ch_O, ch_c, ch_t, 0], [ch_N, ch_o, ch_v, 0], [ch_D, ch_e, ch_c, 0]]"

definition fmt_02d :: "byte list" where "fmt_02d = [ch_pct, ch_0, ch_2, ch_d]"

definition fmt_clock :: "byte list" where
  "fmt_clock = fmt_02d @ ch_colon # fmt_02d @ ch_colon # fmt_02d @ [ch_sp, ch_G, ch_M, ch_T]"

text \<open>\<open>"%s, %02d %s %4d %02d:%02d:%02d GMT"\<close>\<close>

definition http_time_fmt :: "byte list" where
  "http_time_fmt = [ch_pct, ch_s, ch_comma, ch_sp] @ fmt_02d @ [ch_sp, ch_pct, ch_s, ch_sp, ch_pct, ch_4, ch_d, ch_sp] @ fmt_clock"

text \<open>\<open>"%s, %02d-%s-%02d %02d:%02d:%02d GMT"\<close> and the same with \<open>%d\<close> for the year.\<close>

definition cookie_time_fmt :: "bool \<Rightarrow> byte list" where
  "cookie_time_fmt long = [ch_pct, ch_s, ch_comma, ch_sp] @ fmt_02d @ [ch_dash, ch_pct, ch_s, ch_dash] @
     (if long then [ch_pct, ch_d] else fmt_02d) @ ch_sp # fmt_clock"

abbreviation arg_of :: "int \<Rightarrow> fmt_arg" where
  "arg_of v \<equiv> Arg_int (word_of_int v)"

definition ngx_http_time :: "u64 \<Rightarrow> int \<Rightarrow> byte list option" where
  "ngx_http_time buf t =
     (let tm = ngx_gmtime t in
      ngx_sprintf buf http_time_fmt
        [Arg_cstr (week ! nat (tm_wday tm)), arg_of (tm_mday tm), Arg_cstr (months ! nat (tm_mon tm - 1)),
         arg_of (tm_year tm), arg_of (tm_hour tm), arg_of (tm_min tm), arg_of (tm_sec tm)])"

definition ngx_http_cookie_time :: "u64 \<Rightarrow> int \<Rightarrow> byte list option" where
  "ngx_http_cookie_time buf t =
     (let tm = ngx_gmtime t in
      ngx_sprintf buf (cookie_time_fmt (tm_year tm > 2037))
        [Arg_cstr (week ! nat (tm_wday tm)), arg_of (tm_mday tm), Arg_cstr (months ! nat (tm_mon tm - 1)),
         arg_of (if tm_year tm > 2037 then tm_year tm else tm_year tm mod 100),
         arg_of (tm_hour tm), arg_of (tm_min tm), arg_of (tm_sec tm)])"

section \<open>Parsing\<close>

datatype time_fmt = rfc822 | rfc850 | isoc

text \<open>The two loops at the start: up to a comma or a space, then over spaces.\<close>

fun time_sep :: "byte list \<Rightarrow> nat \<Rightarrow> nat \<times> bool" where
  "time_sep [] p = (p, False)"
| "time_sep (c # cs) p =
     (if c = ch_comma then (p, False) else if c = ch_sp then (p, True) else time_sep cs (p + 1))"

fun time_spaces :: "byte list \<Rightarrow> nat \<Rightarrow> nat" where
  "time_spaces [] p = p"
| "time_spaces (c # cs) p = (if c \<noteq> ch_sp then p else time_spaces cs (p + 1))"

definition two_digits :: "byte list \<Rightarrow> nat \<Rightarrow> int option" where
  "two_digits mem p =
     (if mem ! p < ch_0 \<or> mem ! p > ch_9 \<or> mem ! (p + 1) < ch_0 \<or> mem ! (p + 1) > ch_9 then None
      else Some (digit_val (mem ! p) * 10 + digit_val (mem ! (p + 1))))"

definition four_digits :: "byte list \<Rightarrow> nat \<Rightarrow> int option" where
  "four_digits mem p =
     (if mem ! p < ch_0 \<or> mem ! p > ch_9 \<or> mem ! (p + 1) < ch_0 \<or> mem ! (p + 1) > ch_9
         \<or> mem ! (p + 2) < ch_0 \<or> mem ! (p + 2) > ch_9 \<or> mem ! (p + 3) < ch_0 \<or> mem ! (p + 3) > ch_9 then None
      else Some (digit_val (mem ! p) * 1000 + digit_val (mem ! (p + 1)) * 100
        + digit_val (mem ! (p + 2)) * 10 + digit_val (mem ! (p + 3))))"

text \<open>The day and the separator that tells the first two formats apart; \<open>isoc\<close> has its day later.\<close>

definition time_head :: "byte list \<Rightarrow> nat \<Rightarrow> nat \<Rightarrow> bool \<Rightarrow> (time_fmt \<times> int \<times> nat) option" where
  "time_head mem e p is_isoc =
     (if is_isoc then Some (isoc, 0, p)
      else case two_digits mem p of
        None \<Rightarrow> None
      | Some day \<Rightarrow>
          (let p = p + 2 in
           if mem ! p = ch_sp then (if e - p < 18 then None else Some (rfc822, day, p + 1))
           else if mem ! p = ch_dash then Some (rfc850, day, p + 1)
           else None))"

definition time_month :: "byte list \<Rightarrow> nat \<Rightarrow> int option" where
  "time_month mem p =
     (if mem ! p = ch_J then Some (if mem ! (p + 1) = ch_a then 0 else if mem ! (p + 2) = ch_n then 5 else 6)
      else if mem ! p = ch_F then Some 1
      else if mem ! p = ch_M then Some (if mem ! (p + 2) = ch_r then 2 else 4)
      else if mem ! p = ch_A then Some (if mem ! (p + 1) = ch_p then 3 else 7)
      else if mem ! p = ch_S then Some 8
      else if mem ! p = ch_O then Some 9
      else if mem ! p = ch_N then Some 10
      else if mem ! p = ch_D then Some 11
      else None)"

definition time_year :: "byte list \<Rightarrow> time_fmt \<Rightarrow> nat \<Rightarrow> (int \<times> nat) option" where
  "time_year mem fmt p =
     (if fmt = rfc822 \<and> mem ! p \<noteq> ch_sp \<or> fmt = rfc850 \<and> mem ! p \<noteq> ch_dash then None
      else
        (let p = p + 1 in
         case fmt of
           rfc822 \<Rightarrow> map_option (\<lambda>y. (y, p + 4)) (four_digits mem p)
         | rfc850 \<Rightarrow> map_option (\<lambda>y. (y + (if y < 70 then 2000 else 1900), p + 2)) (two_digits mem p)
         | isoc \<Rightarrow> Some (0, p)))"

definition time_isoc_day :: "byte list \<Rightarrow> nat \<Rightarrow> nat \<Rightarrow> (int \<times> nat) option" where
  "time_isoc_day mem e p =
     (let p = (if mem ! p = ch_sp then p + 1 else p) in
      if mem ! p < ch_0 \<or> mem ! p > ch_9 then None
      else
        (let day = digit_val (mem ! p); p = p + 1 in
         case (if mem ! p \<noteq> ch_sp
               then (if mem ! p < ch_0 \<or> mem ! p > ch_9 then None
                     else Some (day * 10 + digit_val (mem ! p), p + 1))
               else Some (day, p)) of
           None \<Rightarrow> None
         | Some (day, p) \<Rightarrow> if e - p < 14 then None else Some (day, p)))"

text \<open>\<open>" hh:mm:ss"\<close>; the pointer is left at the seconds.\<close>

definition time_clock :: "byte list \<Rightarrow> nat \<Rightarrow> (int \<times> int \<times> int \<times> nat) option" where
  "time_clock mem p =
     (if mem ! p \<noteq> ch_sp then None
      else case two_digits mem (p + 1) of
        None \<Rightarrow> None
      | Some hour \<Rightarrow>
          if mem ! (p + 3) \<noteq> ch_colon then None
          else case two_digits mem (p + 4) of
            None \<Rightarrow> None
          | Some min' \<Rightarrow>
              if mem ! (p + 6) \<noteq> ch_colon then None
              else case two_digits mem (p + 7) of
                None \<Rightarrow> None
              | Some sec \<Rightarrow> Some (hour, min', sec, p + 7))"

definition mday :: "int list" where
  "mday = [31, 28, 31, 30, 31, 30, 31, 31, 30, 31, 30, 31]"

text \<open>
  The checks and the formula of Gauss. The computation is in 64-bit unsigned arithmetic;
  only \<open>year - 1\<close> can wrap before a division, the rest is reduced at the end and read as a
  signed \<open>time_t\<close>.
\<close>

definition time_value :: "int \<Rightarrow> int \<Rightarrow> int \<Rightarrow> int \<Rightarrow> int \<Rightarrow> int \<Rightarrow> int option" where
  "time_value day month year hour min' sec =
     (if hour > 23 \<or> min' > 59 \<or> sec > 59 then None
      else if day = 29 \<and> month = 1 \<and> (year mod 4 \<noteq> 0 \<or> year mod 100 = 0 \<and> year mod 400 \<noteq> 0) then None
      else if \<not> (day = 29 \<and> month = 1) \<and> day > mday ! nat month then None
      else
        (let month = month - 1;
             (month, year) = (if month \<le> 0 then (month + 12, (year - 1) mod 2 ^ 64) else (month, year));
             time = ((365 * year + year div 4 - year div 100 + year div 400
               + 367 * month div 12 - 30 + day - 1 - 719527 + 31 + 28) * 86400
               + hour * 3600 + min' * 60 + sec) mod 2 ^ 64 in
         Some (if time \<ge> 2 ^ 63 then time - 2 ^ 64 else time)))"

text \<open>From the day of \<open>isoc\<close> and the clock on.\<close>

definition time_tail :: "byte list \<Rightarrow> nat \<Rightarrow> time_fmt \<Rightarrow> int \<Rightarrow> int \<Rightarrow> int \<Rightarrow> nat \<Rightarrow> int option" where
  "time_tail mem e fmt day month year p =
     (case (if fmt = isoc then time_isoc_day mem e p else Some (day, p)) of
        None \<Rightarrow> None
      | Some (day, p) \<Rightarrow>
          (case time_clock mem p of
             None \<Rightarrow> None
           | Some (hour, min', sec, p) \<Rightarrow>
               if fmt = isoc then
                 (if mem ! (p + 2) \<noteq> ch_sp then None
                  else case four_digits mem (p + 3) of
                    None \<Rightarrow> None
                  | Some year \<Rightarrow> time_value day month year hour min' sec)
               else time_value day month year hour min' sec))"

definition parse_time :: "byte list \<Rightarrow> nat \<Rightarrow> nat \<Rightarrow> int option" where
  "parse_time mem val len =
     (let e = val + len; (p, is_isoc) = time_sep (slice mem val e) val;
          p = time_spaces (slice mem (p + 1) e) (p + 1) in
      if e - p < 18 then None
      else case time_head mem e p is_isoc of
        None \<Rightarrow> None
      | Some (fmt, day, p) \<Rightarrow>
          (case time_month mem p of
             None \<Rightarrow> None
           | Some month \<Rightarrow>
               (case time_year mem fmt (p + 3) of
                  None \<Rightarrow> None
                | Some (year, p) \<Rightarrow> time_tail mem e fmt day month year p)))"

text \<open>\<open>NGX_ERROR\<close> is \<open>-1\<close>, also as a \<open>time_t\<close>.\<close>

definition ngx_parse_http_time :: "byte list \<Rightarrow> nat \<Rightarrow> nat \<Rightarrow> int" where
  "ngx_parse_http_time mem val len = (case parse_time mem val len of None \<Rightarrow> - 1 | Some t \<Rightarrow> t)"

section \<open>The calendar\<close>

definition leap_year :: "int \<Rightarrow> bool" where
  "leap_year y \<longleftrightarrow> 4 dvd y \<and> (\<not> 100 dvd y \<or> 400 dvd y)"

definition month_days :: "int \<Rightarrow> int \<Rightarrow> int" where
  "month_days y m = (if m = 2 then (if leap_year y then 29 else 28) else if m \<in> {4, 6, 9, 11} then 30 else 31)"

definition valid_date :: "int \<times> int \<times> int \<Rightarrow> bool" where
  "valid_date = (\<lambda>(y, m, d). 1 \<le> m \<and> m \<le> 12 \<and> 1 \<le> d \<and> d \<le> month_days y m)"

text \<open>The day after a date, and the date some days after January 1, 1970.\<close>

definition next_day :: "int \<times> int \<times> int \<Rightarrow> int \<times> int \<times> int" where
  "next_day = (\<lambda>(y, m, d). if d < month_days y m then (y, m, d + 1)
     else if m < 12 then (y, m + 1, 1) else (y + 1, 1, 1))"

definition date_after :: "nat \<Rightarrow> int \<times> int \<times> int" where
  "date_after n = (next_day ^^ n) (1970, 1, 1)"

text \<open>
  The formula of Gauss the code rests on: the days before a year that begins on March 1 and
  the days before a month of it.
\<close>

definition year_days :: "int \<Rightarrow> int" where
  "year_days y = 365 * y + y div 4 - y div 100 + y div 400"

definition day_number :: "int \<times> int \<times> int \<Rightarrow> int" where
  "day_number = (\<lambda>(y, m, d).
     let m' = (if m \<le> 2 then m + 10 else m - 2); y' = (if m \<le> 2 then y - 1 else y) in
     year_days y' + 367 * m' div 12 - 30 + d - 1)"

lemma gm_leap_iff: "gm_leap y = (if leap_year y then 1 else 0)"
  by (simp add: gm_leap_def leap_year_def dvd_eq_mod_eq_0)

text \<open>The year formula lies within a day or two of its average.\<close>

lemma year_days_bounds: "146097 * y - 591 \<le> 400 * year_days y" "400 * year_days y \<le> 146097 * y + 288"
proof -
  define a b c where d: "a = y div 4" "b = y div 100" "c = y div 400"
  define r t u where m: "r = y mod 4" "t = a mod 25" "u = b mod 4"
  have "y = 4 * a + r" "0 \<le> r" "r \<le> 3" by (simp_all add: d m)
  moreover have "a = 25 * b + t" using zdiv_zmult2_eq [of 25 y 4] by (simp add: d m)
  moreover have "0 \<le> t" "t \<le> 24" by (simp_all add: m)
  moreover have "b = 4 * c + u" using zdiv_zmult2_eq [of 4 y 100] by (simp add: d m)
  moreover have "0 \<le> u" "u \<le> 3" by (simp_all add: m)
  ultimately show "146097 * y - 591 \<le> 400 * year_days y" "400 * year_days y \<le> 146097 * y + 288"
    unfolding year_days_def d [symmetric] by simp_all
qed

lemma div_pred: "0 < k \<Longrightarrow> (y :: int) div k - (y - 1) div k = (if k dvd y then 1 else 0)"
proof -
  assume k: "0 < k"
  show ?thesis
  proof (cases "k dvd y")
    case True
    then obtain q where q: "y = k * q" ..
    have "(y - 1) div k = q - 1" using k by (intro int_div_pos_eq [where r = "k - 1"]) (auto simp: q algebra_simps)
    then show ?thesis using True k q by simp
  next
    case False
    have "0 < y mod k" using k False by (simp add: dvd_eq_mod_eq_0 order_less_le)
    then have "(y - 1) div k = y div k"
      using k pos_mod_bound [OF k, of y] by (intro int_div_pos_eq [where r = "y mod k - 1"]) (auto simp: algebra_simps)
    then show ?thesis using False by simp
  qed
qed

lemma year_days_step: "year_days y - year_days (y - 1) = 365 + (if leap_year y then 1 else 0)"
proof -
  have dvd: "4 dvd y" if "100 dvd y" using that by (rule dvd_trans [rotated]) simp
  have dvd': "100 dvd y" if "400 dvd y" using that by (rule dvd_trans [rotated]) simp
  have eq: "year_days y - year_days (y - 1) = 365 + (y div 4 - (y - 1) div 4) - (y div 100 - (y - 1) div 100)
      + (y div 400 - (y - 1) div 400)" by (simp add: year_days_def)
  show ?thesis
    unfolding eq div_pred [of 4 y, simplified] div_pred [of 100 y, simplified] div_pred [of 400 y, simplified] leap_year_def
    using dvd dvd' by (cases "400 dvd y"; cases "100 dvd y"; cases "4 dvd y") simp_all
qed

text \<open>The estimate of the year is right or one too large, and the correction catches the latter.\<close>

lemma gm_year_correct:
  assumes "year_days y \<le> days" "days < year_days (y + 1)"
  shows "gm_year days = (y, days - year_days y)"
proof -
  define y' where "y' = (days + 2) * 400 div 146097"
  define r where "r = (days + 2) * 400 mod 146097"
  have "y' * 146097 + r = (days + 2) * 400"
    using div_mult_mod_eq [of "(days + 2) * 400" 146097] by (simp add: y'_def r_def)
  moreover have "0 \<le> r" "r < 146097" by (simp_all add: r_def)
  ultimately have "146097 * y < 146097 * (y' + 1)" "146097 * y' < 146097 * (y + 2)"
    using year_days_bounds(1) [of y] year_days_bounds(2) [of "y + 1"] assms by simp_all
  then have "y < y' + 1" "y' < y + 2" by simp_all
  have "365 * 400 + 100 - 4 + (1 :: int) = 146097" by simp
  then have code: "gm_year days = (if days - year_days y' < 0
      then (y' - 1, 365 + (if leap_year y' then 1 else 0) + (days - year_days y')) else (y', days - year_days y'))"
    unfolding gm_year_def Let_def year_days_def y'_def gm_leap_iff by simp
  from \<open>y < y' + 1\<close> \<open>y' < y + 2\<close> consider "y' = y" | "y' = y + 1" by linarith
  then show ?thesis
  proof cases
    case 1
    then show ?thesis using assms(1) unfolding code by simp
  next
    case 2
    have "days - year_days (y + 1) < 0" using assms(2) by simp
    then show ?thesis
      using 2 year_days_step [of "y + 1"] unfolding code by simp
  qed
qed


text \<open>Within a year that begins on March 1: the day of the year of a month and day, and back.\<close>

definition march_day :: "int \<Rightarrow> int \<Rightarrow> int" where
  "march_day m d = 367 * (if m \<le> 2 then m + 10 else m - 2) div 12 - 30 + d - 1"

lemma valid_dateD:
  assumes "valid_date (y, m, d)"
  shows "m \<in> {1, 2, 3, 4, 5, 6, 7, 8, 9, 10, 11, 12}" "1 \<le> d" "d \<le> month_days y m"
proof -
  have "1 \<le> m" "m \<le> 12" using assms by (simp_all add: valid_date_def)
  then show "m \<in> {1, 2, 3, 4, 5, 6, 7, 8, 9, 10, 11, 12}" 
    unfolding insert_iff empty_iff by presburger
qed (use assms in \<open>simp_all add: valid_date_def\<close>)

lemma gm_month_correct:
  assumes "valid_date (y, m, d)"
  shows "gm_month (if m \<le> 2 then y - 1 else y, march_day m d) = (y, m, d)"
proof -
  note m = valid_dateD [OF assms]
  have q: "(x :: int) div 306 = k" if "306 * k \<le> x" "x < 306 * k + 306" for x k
    using that by (intro int_div_pos_eq [where r = "x - 306 * k"]) auto
  let ?m = "if m \<le> 2 then m + 10 else m - 2"
  have "306 * ?m \<le> (march_day m d + 31) * 10 \<and> (march_day m d + 31) * 10 < 306 * ?m + 306 \<and>
      (306 \<le> march_day m d \<longleftrightarrow> m \<le> 2)"
    using m by (elim insertE) (auto simp: march_day_def month_days_def split: if_splits)
  moreover from this have "(march_day m d + 31) * 10 div 306 = ?m" by (intro q) auto
  moreover have "march_day m d - (367 * ?m div 12 - 30) + 1 = d" by (simp add: march_day_def)
  ultimately show ?thesis by (simp add: gm_month_def)
qed

lemma march_day_bounds:
  assumes "valid_date (y, m, d)"
  shows "0 \<le> march_day m d" "march_day m d < 365 + (if leap_year (if m \<le> 2 then y else y + 1) then 1 else 0)"
proof -
  note m = valid_dateD [OF assms]
  then show "0 \<le> march_day m d" "march_day m d < 365 + (if leap_year (if m \<le> 2 then y else y + 1) then 1 else 0)"
    by (auto simp: march_day_def month_days_def split: if_splits)
qed

text \<open>The code inverts the day number on every date.\<close>

lemma gm_inverts:
  assumes "valid_date (y, m, d)"
  shows "gm_month (gm_year (day_number (y, m, d))) = (y, m, d)"
proof -
  let ?y = "if m \<le> 2 then y - 1 else y"
  have n: "day_number (y, m, d) = year_days ?y + march_day m d"
    by (simp add: day_number_def march_day_def Let_def)
  have "gm_year (day_number (y, m, d)) = (?y, march_day m d)"
    using gm_year_correct [of ?y "day_number (y, m, d)"] march_day_bounds [OF assms] year_days_step [of "?y + 1"]
    unfolding n by (auto split: if_splits)
  then show ?thesis using gm_month_correct [OF assms] by simp
qed

lemma next_day_valid: "valid_date dt \<Longrightarrow> valid_date (next_day dt)"
  by (cases dt) (auto simp: valid_date_def next_day_def month_days_def)

lemma next_day_number:
  assumes "valid_date dt"
  shows "day_number (next_day dt) = day_number dt + 1"
proof -
  obtain y m d where dt: "dt = (y, m, d)" by (cases dt)
  note m = valid_dateD [OF assms [unfolded dt]]
  then show ?thesis
    using year_days_step [of y]
    by (elim insertE; auto simp: dt next_day_def day_number_def month_days_def Let_def split: if_splits)
qed

lemma date_after_number: "valid_date (date_after n) \<and> day_number (date_after n) = 719468 + int n"
proof (induction n)
  case 0
  have "year_days 1969 = 719162" by (simp add: year_days_def)
  then show ?case by (simp add: date_after_def valid_date_def month_days_def day_number_def)
next
  case (Suc n)
  then show ?case using next_day_valid next_day_number by (simp add: date_after_def)
qed

lemma div_bound: "0 \<le> x \<Longrightarrow> x < k * n \<Longrightarrow> 0 < k \<Longrightarrow> 0 \<le> x div k \<and> x div k < n" for x k n :: int
proof -
  assume x: "0 \<le> x" "x < k * n" "0 < k"
  have "k * (x div k) \<le> x" using x(3) pos_mod_sign [of k x] mult_div_mod_eq [of k x] by linarith
  then have "k * (x div k) < k * n" using x(2) by linarith
  then show ?thesis using x by (simp add: pos_imp_zdiv_nonneg_iff)
qed

text \<open>All fields of a time within the range the code supports.\<close>

lemma gmtime_fields:
  assumes "0 \<le> t" "t < 253402300800"
  shows "(tm_year (ngx_gmtime t), tm_mon (ngx_gmtime t), tm_mday (ngx_gmtime t)) = date_after (nat (t div 86400))"
    "tm_hour (ngx_gmtime t) * 3600 + tm_min (ngx_gmtime t) * 60 + tm_sec (ngx_gmtime t) = t mod 86400"
    "0 \<le> tm_hour (ngx_gmtime t) \<and> tm_hour (ngx_gmtime t) < 24"
    "0 \<le> tm_min (ngx_gmtime t) \<and> tm_min (ngx_gmtime t) < 60"
    "0 \<le> tm_sec (ngx_gmtime t) \<and> tm_sec (ngx_gmtime t) < 60"
    "tm_wday (ngx_gmtime t) = (4 + t div 86400) mod 7"
proof -
  define days sec where d: "days = t div 86400" "sec = t mod 86400"
  have days: "0 \<le> days" "days \<le> 2932896" using assms by (auto simp: d)
  have sec: "0 \<le> sec" "sec < 86400" by (simp_all add: d)
  obtain y m dd where dt: "date_after (nat days) = (y, m, dd)" by (cases "date_after (nat days)")
  then have "valid_date (y, m, dd)" "day_number (y, m, dd) = days - (31 + 28) + 719527"
    using date_after_number [of "nat days"] days by simp_all
  then have "gm_month (gm_year (days - (31 + 28) + 719527)) = (y, m, dd)" using gm_inverts by metis
  moreover have if_t: "(if t < 0 then 0 else t) = t" using assms(1) by simp
  ultimately have g: "ngx_gmtime t = \<lparr>tm_sec = sec mod 3600 mod 60, tm_min = sec mod 3600 div 60, tm_hour = sec div 3600,
      tm_mday = dd, tm_mon = m, tm_year = y, tm_wday = (4 + days) mod 7\<rparr>"
    using days(2) unfolding ngx_gmtime_def Let_def if_t d [symmetric] by simp
  show "(tm_year (ngx_gmtime t), tm_mon (ngx_gmtime t), tm_mday (ngx_gmtime t)) = date_after (nat (t div 86400))"
    "tm_wday (ngx_gmtime t) = (4 + t div 86400) mod 7"
    using dt by (simp_all add: g d)
  have "sec div 3600 * 3600 + sec mod 3600 = sec" "sec mod 3600 div 60 * 60 + sec mod 3600 mod 60 = sec mod 3600" by simp_all
  then show "tm_hour (ngx_gmtime t) * 3600 + tm_min (ngx_gmtime t) * 60 + tm_sec (ngx_gmtime t) = t mod 86400"
    unfolding g d(2) [symmetric] by simp
  have "0 \<le> sec mod 3600" "sec mod 3600 < 3600" by simp_all
  then show "0 \<le> tm_hour (ngx_gmtime t) \<and> tm_hour (ngx_gmtime t) < 24"
    "0 \<le> tm_min (ngx_gmtime t) \<and> tm_min (ngx_gmtime t) < 60"
    "0 \<le> tm_sec (ngx_gmtime t) \<and> tm_sec (ngx_gmtime t) < 60"
    using sec div_bound [of sec 3600 24] div_bound [of "sec mod 3600" 60 60] by (simp_all add: g)
qed

text \<open>
  C16: \<open>ngx_gmtime\<close> is the Gregorian calendar. For every time up to the end of the year 9999
  the date it computes with its estimates and empirical formulas is the one reached by
  counting days from Thursday, January 1, 1970, with the leap year rule of four, hundred
  and four hundred years; the time of day and the day of the week are right too.
\<close>

theorem gmtime_calendar:
  assumes "0 \<le> t" "t < 253402300800"
  shows "(tm_year (ngx_gmtime t), tm_mon (ngx_gmtime t), tm_mday (ngx_gmtime t)) = date_after (nat (t div 86400)) \<and>
    tm_hour (ngx_gmtime t) * 3600 + tm_min (ngx_gmtime t) * 60 + tm_sec (ngx_gmtime t) = t mod 86400 \<and>
    0 \<le> tm_min (ngx_gmtime t) \<and> tm_min (ngx_gmtime t) < 60 \<and> 0 \<le> tm_sec (ngx_gmtime t) \<and> tm_sec (ngx_gmtime t) < 60 \<and>
    tm_wday (ngx_gmtime t) = (4 + t div 86400) mod 7"
  using gmtime_fields [OF assms] by simp


theorem gmtime_calendar_witness:
  "(tm_year (ngx_gmtime 86400), tm_mon (ngx_gmtime 86400), tm_mday (ngx_gmtime 86400)) = (1970, 1, 2)"
proof -
  have "date_after 1 = (1970, 1, 2)" by (simp add: date_after_def next_day_def month_days_def)
  then show ?thesis using gmtime_calendar [of 86400] by simp
qed

section \<open>What is printed\<close>

definition dig :: "int \<Rightarrow> byte" where
  "dig k = word_of_int k + ch_0"

definition dig2 :: "int \<Rightarrow> byte list" where
  "dig2 v = [dig (v div 10), dig (v mod 10)]"

definition dig4 :: "int \<Rightarrow> byte list" where
  "dig4 v = [dig (v div 1000), dig (v div 100 mod 10), dig (v div 10 mod 10), dig (v mod 10)]"

lemma dig_nat: "word_of_nat k + ch_0 = dig (int k)"
  by (simp add: dig_def)

lemma slot_small:
  assumes "0 \<le> v" "v < 10000"
  shows "signed_slot 32 (word_of_int v) = word_of_int v" "\<not> sint (word_of_int v :: u64) < 0" "unat (word_of_int v :: u64) = nat v"
proof -
  have v: "v \<in> {0..<10000}" using assms by simp
  show "unat (word_of_int v :: u64) = nat v" using assms by (simp add: unsigned_of_int take_bit_int_eq_self)
  have "sint (word_of_int v :: u64) = v" using assms by (simp add: signed_of_int signed_take_bit_int_eq_self)
  then show "\<not> sint (word_of_int v :: u64) < 0" using assms by simp
  have "ucast (word_of_int v :: u64) = (word_of_int v :: u32)"
    using assms by (simp add: unsigned_of_int take_bit_int_eq_self)
  moreover have "scast (word_of_int v :: u32) = (word_of_int v :: u64)"
    using assms by (simp add: signed_of_int signed_take_bit_int_eq_self)
  ultimately show "signed_slot 32 (word_of_int v) = word_of_int v" by (simp add: signed_slot_def)
qed

lemma vsl_char: "c \<noteq> ch_pct \<Longrightarrow> length buf < cap \<Longrightarrow> ngx_vslprintf cap buf (c # fmt) args = ngx_vslprintf cap (buf @ [c]) fmt args"
  by simp

lemma vsl_02d:
  assumes "0 \<le> v" "v < 100" "length buf + 2 \<le> cap"
  shows "ngx_vslprintf cap buf (fmt_02d @ fmt) (arg_of v # args) = ngx_vslprintf cap (buf @ dig2 v) fmt args"
proof -
  note sl = slot_small [of v]
  have n: "num_digits (word_of_int v) 0 = (if v < 10 then [dig v] else dig2 v)"
    using assms(1,2) sl(3) dec_loop_rec [of "nat v"] dec_loop_rec [of "nat v div 10"]
    by (auto simp: num_digits_dec dig_nat dig2_def zdiv_int zmod_int)
  have "ngx_sprintf_num cap buf (word_of_int v) ch_0 0 2 = buf @ dig2 v"
    using assms unfolding ngx_sprintf_num_def n Let_def by (auto simp: dig2_def dig_def)
  then show ?thesis using assms sl
    by (simp add: fmt_02d_def is_digit_def fmt_conv_def conv_int_def fmt_init_def fmt_tail_def)
qed

lemma vsl_4d:
  assumes "1000 \<le> v" "v < 10000" "length buf + 4 \<le> cap"
  shows "ngx_vslprintf cap buf (ch_pct # ch_4 # ch_d # fmt) (arg_of v # args) = ngx_vslprintf cap (buf @ dig4 v) fmt args"
proof -
  note sl = slot_small [of v]
  have n: "num_digits (word_of_int v) 0 = dig4 v"
    using assms(1,2) sl(3) dec_loop_rec [of "nat v"] dec_loop_rec [of "nat v div 10"]
      dec_loop_rec [of "nat v div 100"] dec_loop_rec [of "nat v div 1000"]
    by (auto simp: num_digits_dec dig_nat dig4_def zdiv_int zmod_int div_mult2_eq [symmetric])
  have "ngx_sprintf_num cap buf (word_of_int v) ch_sp 0 4 = buf @ dig4 v"
    using assms unfolding ngx_sprintf_num_def n Let_def by (auto simp: dig4_def)
  then show ?thesis using assms sl
    by (simp add: is_digit_def fmt_conv_def conv_int_def fmt_init_def fmt_tail_def)
qed

lemma cstr_copy_all: "0 \<notin> set s \<Longrightarrow> length s \<le> room \<Longrightarrow> cstr_copy room (s @ [0]) = Some s"
  by (induction s arbitrary: room) (auto split: nat.splits)

lemma vsl_s:
  assumes "0 \<notin> set s" "length buf + length s \<le> cap" "length buf < cap"
  shows "ngx_vslprintf cap buf (ch_pct # ch_s # fmt) (Arg_cstr (s @ [0]) # args) = ngx_vslprintf cap (buf @ s) fmt args"
  using assms cstr_copy_all [OF assms(1), of "cap - length buf"]
  by (simp add: is_digit_def fmt_conv_def fmt_init_def fmt_tail_def ngx_sprintf_str_def)


lemma week_text:
  assumes "0 \<le> i" "i < 7"
  obtains a b c where "week ! nat i = [a, b, c] @ [0]" "list_all (\<lambda>x. x \<noteq> 0 \<and> x \<noteq> ch_comma \<and> x \<noteq> ch_sp) [a, b, c]"
proof -
  have "list_all (\<lambda>s. length s = 4 \<and> s ! 3 = 0 \<and> list_all (\<lambda>x. x \<noteq> 0 \<and> x \<noteq> ch_comma \<and> x \<noteq> ch_sp) (take 3 s)) week"
    by (simp add: week_def)
  moreover have "nat i < length week" using assms by (simp add: week_def)
  ultimately have w: "length (week ! nat i) = 4 \<and> week ! nat i ! 3 = 0 \<and>
      list_all (\<lambda>x. x \<noteq> 0 \<and> x \<noteq> ch_comma \<and> x \<noteq> ch_sp) (take 3 (week ! nat i))"
    by (simp add: list_all_length)
  then obtain a b c d where "week ! nat i = [a, b, c, d]" by (auto simp: numeral_eq_Suc length_Suc_conv)
  with w that show ?thesis by simp
qed

definition month_name :: "int \<Rightarrow> byte list" where
  "month_name m = butlast (months ! nat (m - 1))"

lemma month_text:
  assumes "valid_date (y, m, d)"
  shows "months ! nat (m - 1) = month_name m @ [0]" "0 \<notin> set (month_name m)" "length (month_name m) = 3"
    "time_month (xs @ month_name m @ ys) (length xs) = Some (m - 1)"
  using valid_dateD(1) [OF assms]
  by (elim insertE; simp add: month_name_def months_def time_month_def nth_append)+

definition clock_text :: "int \<Rightarrow> int \<Rightarrow> int \<Rightarrow> byte list" where
  "clock_text h mi sec = dig2 h @ ch_colon # dig2 mi @ ch_colon # dig2 sec @ [ch_sp, ch_G, ch_M, ch_T]"

lemma vsl_clock:
  assumes "0 \<le> h" "h < 100" "0 \<le> mi" "mi < 100" "0 \<le> sec" "sec < 100" "length buf + 12 \<le> cap"
  shows "ngx_vslprintf cap buf fmt_clock [arg_of h, arg_of mi, arg_of sec] = Some (buf @ clock_text h mi sec)"
  using assms unfolding fmt_clock_def
  by (simp add: vsl_02d vsl_char clock_text_def dig2_def del: ngx_vslprintf.simps(2))

lemma vsl_date:
  assumes "valid_date (y, m, d)" "1000 \<le> y" "y < 10000" "0 \<le> w" "w < 7"
    and "0 \<le> h" "h < 100" "0 \<le> mi" "mi < 100" "0 \<le> sec" "sec < 100" "29 \<le> cap"
  shows "ngx_vslprintf cap [] http_time_fmt
    [Arg_cstr (week ! nat w), arg_of d, Arg_cstr (months ! nat (m - 1)), arg_of y, arg_of h, arg_of mi, arg_of sec] =
    Some (butlast (week ! nat w) @ [ch_comma, ch_sp] @ dig2 d @ ch_sp # month_name m @ ch_sp # dig4 y @ ch_sp # clock_text h mi sec)"
proof -
  obtain a b c where wk: "week ! nat w = [a, b, c] @ [0]" "list_all (\<lambda>x. x \<noteq> 0 \<and> x \<noteq> ch_comma \<and> x \<noteq> ch_sp) [a, b, c]"
    using week_text [OF assms(4,5)] by blast
  note mt = month_text [OF assms(1)]
  have d: "0 \<le> d" "d < 100" using valid_dateD [OF assms(1)] by (auto simp: month_days_def split: if_splits)
  have s1: "ngx_vslprintf cap [] (ch_pct # ch_s # fmt) (Arg_cstr [a, b, c, 0] # args) = ngx_vslprintf cap [a, b, c] fmt args" for fmt args
    using vsl_s [of "[a, b, c]" "[]" cap fmt args] wk(2) assms(12) by simp
  have s2: "ngx_vslprintf cap buf (ch_pct # ch_s # fmt) (Arg_cstr (month_name m @ [0]) # args) =
      ngx_vslprintf cap (buf @ month_name m) fmt args" if "length buf + 3 \<le> cap" for buf fmt args
    using vsl_s [OF mt(2), of buf cap fmt args] mt(3) that by simp
  show ?thesis
    using assms(2,3,6-12) d mt(3) unfolding http_time_fmt_def wk(1) mt(1)
    by (simp add: s1 s2 vsl_02d vsl_4d vsl_char vsl_clock dig2_def dig4_def del: ngx_vslprintf.simps(2))
qed


section \<open>What is parsed\<close>

lemma dig_facts:
  assumes "0 \<le> k" "k < 10"
  shows "digit_val (dig k) = k" "\<not> dig k < ch_0" "\<not> dig k > ch_9"
proof -
  obtain n where n: "k = int n" "n < 10" using assms by (metis nonneg_int_cases of_nat_less_numeral_iff)
  show "digit_val (dig k) = k" "\<not> dig k < ch_0" "\<not> dig k > ch_9"
    using dec_digit [OF n(2)] not_digit_iff [of "dig k"] unfolding dig_nat n(1) by auto
qed

lemma two_digits_text:
  assumes "0 \<le> v" "v < 100" "mem ! p = dig (v div 10)" "mem ! (p + 1) = dig (v mod 10)"
  shows "two_digits mem p = Some v"
  using assms dig_facts [of "v div 10"] dig_facts [of "v mod 10"] div_bound [of v 10 10]
  by (simp add: two_digits_def)

lemma four_digits_text:
  assumes "0 \<le> v" "v < 10000" "mem ! p = dig (v div 1000)" "mem ! (p + 1) = dig (v div 100 mod 10)"
    "mem ! (p + 2) = dig (v div 10 mod 10)" "mem ! (p + 3) = dig (v mod 10)"
  shows "four_digits mem p = Some v"
proof -
  define x z where x: "x = v div 10" and z: "z = x div 10"
  have "v div 100 = z" "v div 1000 = z div 10"
    using zdiv_zmult2_eq [of 10 v 10] zdiv_zmult2_eq [of 10 v 100] by (simp_all add: x z)
  moreover have "z div 10 * 1000 + z mod 10 * 100 + x mod 10 * 10 + v mod 10 = v"
    using div_mult_mod_eq [of v 10] div_mult_mod_eq [of x 10] div_mult_mod_eq [of z 10] unfolding x [symmetric] z [symmetric] by linarith
  ultimately have v: "v div 1000 * 1000 + v div 100 mod 10 * 100 + v div 10 mod 10 * 10 + v mod 10 = v" by (simp add: x)
  have "0 \<le> v div 1000" "v div 1000 < 10" using div_bound [of v 1000 10] assms(1,2) by auto
  note d = dig_facts [OF this] dig_facts [of "v div 100 mod 10", simplified] dig_facts [of "v div 10 mod 10", simplified]
    dig_facts [of "v mod 10", simplified]
  show ?thesis unfolding four_digits_def assms(3-6) using d v by simp
qed

lemma time_value_date:
  assumes "valid_date (y, m, d)" "1970 \<le> y" "y < 10000"
    and "0 \<le> h" "h < 24" "0 \<le> mi" "mi < 60" "0 \<le> sec" "sec < 60" "719468 \<le> day_number (y, m, d)"
  shows "time_value d (m - 1) y h mi sec =
    Some ((day_number (y, m, d) - 719468) * 86400 + h * 3600 + mi * 60 + sec)"
proof -
  let ?t = "(day_number (y, m, d) - 719468) * 86400 + h * 3600 + mi * 60 + sec"
  note v = valid_dateD [OF assms(1)]
  have ok: "\<not> (d = 29 \<and> m - 1 = 1 \<and> (y mod 4 \<noteq> 0 \<or> y mod 100 = 0 \<and> y mod 400 \<noteq> 0))"
    "\<not> (\<not> (d = 29 \<and> m - 1 = 1) \<and> d > mday ! nat (m - 1))"
    using v by (auto simp: month_days_def leap_year_def mday_def dvd_eq_mod_eq_0 split: if_splits)
  have y: "(y - 1) mod 2 ^ 64 = y - 1" using assms(2,3) by simp
  have "day_number (y, m, d) \<le> year_days y + 367"
    using march_day_bounds(2) [OF assms(1)] year_days_step [of y]
    by (auto simp: day_number_def march_day_def Let_def split: if_splits)
  moreover have "400 * year_days y \<le> 146097 * y + 288" by (rule year_days_bounds)
  ultimately have "day_number (y, m, d) < 4000000" using assms(3) by linarith
  then have t: "0 \<le> ?t" "?t < 2 ^ 63" using assms(4-10) by auto
  have "(365 * year + year div 4 - year div 100 + year div 400 + 367 * month div 12 - 30 + d - 1 - 719527 + 31 + 28) * 86400
      + h * 3600 + mi * 60 + sec = (year_days year + 367 * month div 12 - 30 + d - 1 - 719468) * 86400 + h * 3600 + mi * 60 + sec"
    for year month by (simp add: year_days_def)
  note e = this
  show ?thesis
  proof (cases "m \<le> 2")
    case True
    then have "day_number (y, m, d) = year_days (y - 1) + 367 * (m - 1 - 1 + 12) div 12 - 30 + d - 1"
      by (simp add: day_number_def algebra_simps)
    then show ?thesis using True ok assms(4-9) t unfolding time_value_def Let_def y e by simp
  next
    case False
    then have "day_number (y, m, d) = year_days y + 367 * (m - 1 - 1) div 12 - 30 + d - 1"
      by (simp add: day_number_def)
    then show ?thesis using False ok assms(4-9) t unfolding time_value_def Let_def y e by simp
  qed
qed

lemma year_days_mono: "a \<le> b \<Longrightarrow> year_days a \<le> year_days b"
proof (induction b rule: int_ge_induct)
  case (step b)
  then show ?case using year_days_step [of "b + 1"] by (simp split: if_splits)
qed simp

lemma date_after_year:
  assumes "date_after n = (y, m, d)" "n \<le> 2932896"
  shows "1970 \<le> y" "y < 10000"
proof -
  have "1970 \<le> fst (date_after n)"
    by (induction n) (auto simp: date_after_def next_day_def split: prod.split)
  then show "1970 \<le> y" using assms(1) by simp
  show "y < 10000"
  proof (rule ccontr)
    assume y: "\<not> y < 10000"
    have v: "valid_date (y, m, d)" "day_number (y, m, d) = 719468 + int n" using date_after_number [of n] assms(1) by auto
    have "year_days 9999 = 3652059" "year_days 10000 = 3652425" by (simp_all add: year_days_def)
    then have "3652365 \<le> day_number (y, m, d)"
      using y valid_dateD [OF v(1)] march_day_bounds(1) [OF v(1)] year_days_mono [of 9999 "y - 1"] year_days_mono [of 10000 y]
      by (auto simp: day_number_def march_day_def Let_def split: if_splits)
    then show False using v(2) assms(2) by simp
  qed
qed

lemma parse_text:
  assumes "list_all (\<lambda>x. x \<noteq> 0 \<and> x \<noteq> ch_comma \<and> x \<noteq> ch_sp) [a, b, c]" "valid_date (y, m, d)" "1970 \<le> y" "y < 10000"
    and "0 \<le> h" "h < 24" "0 \<le> mi" "mi < 60" "0 \<le> sec" "sec < 60"
    and s: "s = [a, b, c] @ [ch_comma, ch_sp] @ dig2 d @ ch_sp # month_name m @ ch_sp # dig4 y @ ch_sp # clock_text h mi sec"
  shows "length s = 29" "parse_time s 0 29 = time_value d (m - 1) y h mi sec"
proof -
  note mt = month_text [OF assms(2)]
  obtain m1 m2 m3 where mn: "month_name m = [m1, m2, m3]" using mt(3) by (auto simp: numeral_eq_Suc length_Suc_conv)
  have d: "0 \<le> d" "d < 100" using valid_dateD [OF assms(2)] by (auto simp: month_days_def split: if_splits)
  show len: "length s = 29" by (simp add: s mn dig2_def dig4_def clock_text_def)
  have tm: "time_month s 8 = Some (m - 1)"
    using mt(4) [of "[a, b, c] @ [ch_comma, ch_sp] @ dig2 d @ [ch_sp]" "ch_sp # dig4 y @ ch_sp # clock_text h mi sec"]
    by (simp add: s dig2_def numeral_eq_Suc)
  have "two_digits s 5 = Some d" by (rule two_digits_text) (use d in \<open>simp_all add: s dig2_def\<close>)
  moreover have "four_digits s 12 = Some y" by (rule four_digits_text) (use assms(3,4) in \<open>simp_all add: s mn dig2_def dig4_def\<close>)
  moreover have "two_digits s 17 = Some h" by (rule two_digits_text) (use assms(5,6) in \<open>simp_all add: s mn dig2_def dig4_def clock_text_def\<close>)
  moreover have "two_digits s 20 = Some mi" by (rule two_digits_text) (use assms(7,8) in \<open>simp_all add: s mn dig2_def dig4_def clock_text_def\<close>)
  moreover have "two_digits s 23 = Some sec" by (rule two_digits_text) (use assms(9,10) in \<open>simp_all add: s mn dig2_def dig4_def clock_text_def\<close>)
  moreover have "s ! 7 = ch_sp" "s ! 11 = ch_sp" "s ! 16 = ch_sp" "s ! 19 = ch_colon" "s ! 22 = ch_colon"
    by (simp_all add: s mn dig2_def dig4_def clock_text_def)
  moreover have "time_sep (slice s 0 29) 0 = (3, False)"
    using assms(1) len by (simp add: slice_def) (simp add: s)
  moreover have "time_spaces (slice s 4 29) 4 = 5"
    using d dig_facts [of "d div 10"] div_bound [of d 10 10] unfolding slice_def by (auto simp: s dig2_def)
  ultimately show "parse_time s 0 29 = time_value d (m - 1) y h mi sec"
    by (simp add: parse_time_def time_head_def tm time_year_def time_tail_def time_clock_def)
qed

text \<open>
  C27: Dates survive the round trip. For every time from the epoch to the end of the year 9999,
  \<open>ngx_http_time\<close> writes 29 bytes and \<open>ngx_parse_http_time\<close> reads them back to the
  same time, so a \<open>Last-Modified\<close> header echoed in \<open>If-Modified-Since\<close> compares equal.
\<close>

theorem http_time_roundtrip:
  assumes "0 \<le> t" "t < 253402300800" "29 \<le> unat (- 1 - buf)"
  shows "\<exists>s. ngx_http_time buf t = Some s \<and> length s = 29 \<and> ngx_parse_http_time s 0 29 = t"
proof -
  let ?tm = "ngx_gmtime t"
  note f = gmtime_fields [OF assms(1,2)]
  define y m d where dt: "y = tm_year ?tm" "m = tm_mon ?tm" "d = tm_mday ?tm"
  have da: "date_after (nat (t div 86400)) = (y, m, d)" using f(1) by (simp add: dt)
  have v: "valid_date (y, m, d)" "day_number (y, m, d) = 719468 + t div 86400"
    using date_after_number [of "nat (t div 86400)"] assms(1) by (auto simp: da pos_imp_zdiv_nonneg_iff)
  have "nat (t div 86400) \<le> 2932896" using assms by auto
  note y = date_after_year [OF da this]
  have w: "0 \<le> tm_wday ?tm" "tm_wday ?tm < 7" by (simp_all add: f(6))
  obtain a b c where wk: "week ! nat (tm_wday ?tm) = [a, b, c] @ [0]" "list_all (\<lambda>x. x \<noteq> 0 \<and> x \<noteq> ch_comma \<and> x \<noteq> ch_sp) [a, b, c]"
    using week_text [OF w] by blast
  define s where s: "s = [a, b, c] @ [ch_comma, ch_sp] @ dig2 d @ ch_sp # month_name m @ ch_sp # dig4 y @ ch_sp #
    clock_text (tm_hour ?tm) (tm_min ?tm) (tm_sec ?tm)"
  have b: "0 \<le> tm_hour ?tm" "tm_hour ?tm < 24" "0 \<le> tm_min ?tm" "tm_min ?tm < 60" "0 \<le> tm_sec ?tm" "tm_sec ?tm < 60"
    using f(3-5) by auto
  have "ngx_http_time buf t = Some s"
    using vsl_date [OF v(1) _ y(2) w b(1) _ b(3) _ b(5) _ assms(3)] y b
    unfolding ngx_http_time_def Let_def dt [symmetric] ngx_sprintf_def s by (simp add: wk(1))
  moreover note p = parse_text [OF wk(2) v(1) y b s]
  moreover have "t div 86400 * 86400 + tm_hour ?tm * 3600 + tm_min ?tm * 60 + tm_sec ?tm = t"
    using f(2) div_mult_mod_eq [of t 86400] by linarith
  ultimately show ?thesis
    using time_value_date [OF v(1) y b] v(2) assms(1)
    by (simp add: ngx_parse_http_time_def pos_imp_zdiv_nonneg_iff)
qed

theorem http_time_roundtrip_witness:
  "\<exists>s. ngx_http_time 0x1000 784111777 = Some s \<and> length s = 29 \<and> ngx_parse_http_time s 0 29 = 784111777"
  by (rule http_time_roundtrip) simp_all


section \<open>Reads of the parser\<close>

text \<open>Two memories that agree below \<open>e\<close> give the same values to readers that stay below \<open>e\<close>.\<close>

lemma time_sep_pos: "time_sep cs p = (q, is_isoc) \<Longrightarrow> p \<le> q"
  by (induction cs p rule: time_sep.induct) (auto split: if_splits)

lemma reads_agree:
  assumes "\<And>i. i < e \<Longrightarrow> mem ! i = mem' ! i"
  shows "p + 2 \<le> e \<Longrightarrow> two_digits mem p = two_digits mem' p"
    "p + 4 \<le> e \<Longrightarrow> four_digits mem p = four_digits mem' p"
    "p + 3 \<le> e \<Longrightarrow> time_head mem e p is_isoc = time_head mem' e p is_isoc"
    "p + 3 \<le> e \<Longrightarrow> time_month mem p = time_month mem' p"
    "p + 5 \<le> e \<Longrightarrow> time_year mem rfc822 p = time_year mem' rfc822 p"
    "p + 3 \<le> e \<Longrightarrow> time_year mem rfc850 p = time_year mem' rfc850 p"
    "time_year mem isoc p = time_year mem' isoc p"
    "p + 3 \<le> e \<Longrightarrow> time_isoc_day mem e p = time_isoc_day mem' e p"
    "p + 9 \<le> e \<Longrightarrow> time_clock mem p = time_clock mem' p"
proof -
  show two: "p + 2 \<le> e \<Longrightarrow> two_digits mem p = two_digits mem' p" for p
    using assms [of p] assms [of "p + 1"] by (simp add: two_digits_def)
  show four: "p + 4 \<le> e \<Longrightarrow> four_digits mem p = four_digits mem' p" for p
    using assms [of p] assms [of "p + 1"] assms [of "p + 2"] assms [of "p + 3"] by (simp add: four_digits_def)
  show "p + 3 \<le> e \<Longrightarrow> time_head mem e p is_isoc = time_head mem' e p is_isoc"
    using two [of p] assms [of "p + 2"] by (simp add: time_head_def Let_def split: option.split)
  show "p + 3 \<le> e \<Longrightarrow> time_month mem p = time_month mem' p"
    using assms [of p] assms [of "p + 1"] assms [of "p + 2"] by (simp add: time_month_def)
  show "p + 5 \<le> e \<Longrightarrow> time_year mem rfc822 p = time_year mem' rfc822 p"
    using assms [of p] four [of "p + 1"] by (simp add: time_year_def)
  show "p + 3 \<le> e \<Longrightarrow> time_year mem rfc850 p = time_year mem' rfc850 p"
    using assms [of p] two [of "p + 1"] by (simp add: time_year_def)
  show "time_year mem isoc p = time_year mem' isoc p" by (simp add: time_year_def)
  show "p + 3 \<le> e \<Longrightarrow> time_isoc_day mem e p = time_isoc_day mem' e p"
    using assms [of p] assms [of "p + 1"] assms [of "p + 2"] by (simp add: time_isoc_day_def Let_def)
  show "p + 9 \<le> e \<Longrightarrow> time_clock mem p = time_clock mem' p"
    using assms [of p] assms [of "p + 3"] assms [of "p + 6"] two [of "p + 1"] two [of "p + 4"] two [of "p + 7"]
    by (simp add: time_clock_def cong: if_cong option.case_cong)
qed

text \<open>What each part leaves of the input.\<close>

lemma time_head_pos:
  assumes "time_head mem e p is_isoc = Some (fmt, day, q)" "18 \<le> e - p"
  shows "fmt = isoc \<and> q = p \<or> fmt = rfc822 \<and> 17 \<le> e - q \<or> fmt = rfc850 \<and> 15 \<le> e - q"
  using assms by (auto simp: time_head_def Let_def split: if_splits option.splits)

lemma time_year_pos:
  assumes "time_year mem fmt p = Some (y, q)"
  shows "q = (case fmt of rfc822 \<Rightarrow> p + 5 | rfc850 \<Rightarrow> p + 3 | isoc \<Rightarrow> p + 1)"
  using assms by (auto simp: time_year_def Let_def split: if_splits time_fmt.splits)

lemma time_isoc_day_pos: "time_isoc_day mem e p = Some (d, q) \<Longrightarrow> 14 \<le> e - q"
  by (auto simp: time_isoc_day_def Let_def split: if_splits option.splits)

lemma time_clock_pos: "time_clock mem p = Some (h, mi, sec, q) \<Longrightarrow> q = p + 7"
  by (auto simp: time_clock_def split: if_splits option.splits)

lemma time_tail_agrees:
  assumes "\<And>i. i < e \<Longrightarrow> mem ! i = mem' ! i" "if fmt = isoc then p + 3 \<le> e else p + 9 \<le> e"
  shows "time_tail mem e fmt day month year p = time_tail mem' e fmt day month year p"
proof (cases "fmt = isoc")
  case False
  then show ?thesis using assms(2) reads_agree(9) [OF assms(1), where p = p]
    by (simp add: time_tail_def split: option.split)
next
  case True
  then have id: "time_isoc_day mem e p = time_isoc_day mem' e p"
    using assms(2) reads_agree(8) [OF assms(1), where p = p] by simp
  show ?thesis
  proof (cases "time_isoc_day mem' e p")
    case None
    then show ?thesis using True id by (simp add: time_tail_def)
  next
    case (Some z)
    then obtain d q where z: "time_isoc_day mem' e p = Some (d, q)" by (cases z) auto
    note b = time_isoc_day_pos [OF z]
    have "time_clock mem q = time_clock mem' q" "four_digits mem (q + 10) = four_digits mem' (q + 10)"
      "mem ! (q + 9) = mem' ! (q + 9)"
      using b reads_agree(9) [OF assms(1), where p = q] reads_agree(2) [OF assms(1), where p = "q + 10"] assms(1) [of "q + 9"]
      by simp_all
    then show ?thesis
      using True id z by (auto simp: time_tail_def add.commute add.left_commute split: option.split dest!: time_clock_pos)
  qed
qed

lemma parse_time_agrees:
  assumes "val + len \<le> length mem" "val + len \<le> length mem'" "take (val + len) mem = take (val + len) mem'"
  shows "parse_time mem val len = parse_time mem' val len"
proof -
  define e where "e = val + len"
  have nth: "mem ! i = mem' ! i" if "i < e" for i using assms that unfolding e_def by (metis nth_take)
  note agree = reads_agree [of e mem mem', OF nth]
  have sl: "slice mem k e = slice mem' k e" for k
    using arg_cong [OF assms(3), of "drop k"] by (simp add: slice_def drop_take e_def)
  obtain p0 is_isoc where ts: "time_sep (slice mem' val e) val = (p0, is_isoc)" by fastforce
  define p where "p = time_spaces (slice mem' (p0 + 1) e) (p0 + 1)"
  have code: "parse_time m val len = (if e - p < 18 then None else case time_head m e p is_isoc of None \<Rightarrow> None
      | Some (fmt, day, p) \<Rightarrow> (case time_month m p of None \<Rightarrow> None | Some month \<Rightarrow>
          (case time_year m fmt (p + 3) of None \<Rightarrow> None | Some (year, p) \<Rightarrow> time_tail m e fmt day month year p)))"
    if "m = mem \<or> m = mem'" for m
    using that ts unfolding parse_time_def Let_def e_def [symmetric] by (auto simp: sl p_def)
  show ?thesis
  proof (cases "e - p < 18")
    case False
    then have head: "time_head mem e p is_isoc = time_head mem' e p is_isoc" using agree(3) by simp
    have "time_month mem q = time_month mem' q \<and> time_year mem fmt (q + 3) = time_year mem' fmt (q + 3) \<and>
        (\<forall>year r. time_year mem' fmt (q + 3) = Some (year, r) \<longrightarrow>
          time_tail mem e fmt day month year r = time_tail mem' e fmt day month year r)"
      if "time_head mem' e p is_isoc = Some (fmt, day, q)" for fmt day q month
    proof -
      note hp = time_head_pos [OF that]
      have "q + 3 \<le> e" using hp False by auto
      moreover have "time_year mem fmt (q + 3) = time_year mem' fmt (q + 3)"
        using agree(5-7) [of "q + 3"] hp False by (cases fmt) auto
      moreover have "if fmt = isoc then r + 3 \<le> e else r + 9 \<le> e" if "time_year mem' fmt (q + 3) = Some (year, r)" for year r
        using time_year_pos [OF that] hp False by (cases fmt) auto
      ultimately show ?thesis using agree(4) time_tail_agrees [OF nth] by blast
    qed
    then show ?thesis unfolding code [OF disjI1 [OF refl]] code [OF disjI2 [OF refl]] head by (auto split: option.split)
  qed (simp add: code)
qed

text \<open>
  \<open>ngx_parse_http_time\<close> never reads beyond the value it is given, although it tests the
  length at two places only: its result is a function of the \<open>len\<close> bytes at \<open>value\<close>,
  whatever follows them in memory.
\<close>

theorem parse_http_time_in_bounds:
  assumes "val + len \<le> length mem" "val + len \<le> length mem'" "take (val + len) mem = take (val + len) mem'"
  shows "ngx_parse_http_time mem val len = ngx_parse_http_time mem' val len"
  using parse_time_agrees [OF assms] by (simp add: ngx_parse_http_time_def)

theorem parse_http_time_in_bounds_witness:
  "ngx_parse_http_time [ch_T, ch_u, ch_e, ch_comma, ch_0] 0 4 = ngx_parse_http_time [ch_T, ch_u, ch_e, ch_comma, ch_1] 0 4"
  by (rule parse_http_time_in_bounds) simp_all

end
