(* ===== verification/Http_Limit_Req.thy ===== *)
theory Http_Limit_Req
  imports Ngx_Prelude
begin

text \<open>
  The request rate limiter, \<open>src/http/modules/ngx_http_limit_req_module.c\<close>: a leaky
  bucket per key. A shared zone keeps its nodes in a red-black tree, searched by the hash
  of the key and the key, and in a queue, the most recently used first. Both hold the same
  nodes, so the zone is modelled as the queue, searched by key. Whether the slab allocator
  has room for another node beside the nodes of the queue is the parameter \<open>alloc\<close>.
  Times are milliseconds; rates and excesses are in thousandths of a request. The limits of
  a location have distinct zones (\<open>ngx_http_limit_req\<close> refuses a second limit on a zone), so
  a location is a list of limits with the list of their zones.
\<close>

section \<open>Data\<close>

record lr_node =
  ln_key :: ngx_str
  ln_last :: int
  ln_excess :: int
  ln_count :: int

text \<open>\<open>ngx_http_limit_req_ctx_t\<close>; \<open>lz_node\<close> is the key of \<open>ctx->node\<close>.\<close>

record lr_zone =
  lz_queue :: "lr_node list"
  lz_rate :: int
  lz_node :: "ngx_str option"

record lr_limit =
  li_burst :: int
  li_delay :: int

section \<open>One zone\<close>

text \<open>The milliseconds since \<open>lr->last\<close>, with the treatment of a clock that went back.\<close>

definition lr_ms :: "int \<Rightarrow> int \<Rightarrow> int" where
  "lr_ms now last' =
     (let ms = now - last' in if ms < - 60000 then 1 else if ms < 0 then 0 else ms)"

text \<open>\<open>lr->excess - ctx->rate * ms / 1000 + 1000\<close>, the product in 64 bits, not below zero.\<close>

definition lr_excess :: "int \<Rightarrow> int \<Rightarrow> int \<Rightarrow> int" where
  "lr_excess rate ms excess =
     (let e = excess - (rate * ms) mod 2 ^ 64 div 1000 + 1000 in if e < 0 then 0 else e)"

text \<open>\<open>ngx_http_limit_req_expire\<close>: one entry by force for \<open>n = 0\<close>, then idle ones.\<close>

function lr_expire :: "int \<Rightarrow> int \<Rightarrow> nat \<Rightarrow> lr_node list \<Rightarrow> lr_node list" where
  "lr_expire now rate n q =
     (if n < 3 \<and> q \<noteq> [] then
        (let lr = last q in
         if ln_count lr \<noteq> 0 then q
         else if n \<noteq> 0 \<and> (\<bar>now - ln_last lr\<bar> < 60000
             \<or> ln_excess lr - (rate * \<bar>now - ln_last lr\<bar>) mod 2 ^ 64 div 1000 > 0) then q
         else lr_expire now rate (n + 1) (butlast q))
      else q)"
  by pat_completeness auto
termination by (relation "measure (\<lambda>(now, rate, n, q). 3 - n)") auto

declare lr_expire.simps [simp del]

definition lr_find :: "ngx_str \<Rightarrow> lr_node list \<Rightarrow> lr_node option" where
  "lr_find key q = find (\<lambda>n. ln_key n = key) q"

text \<open>\<open>ngx_queue_remove\<close> and \<open>ngx_queue_insert_head\<close> of the node with a key.\<close>

definition lr_front :: "lr_node \<Rightarrow> lr_node list \<Rightarrow> lr_node list" where
  "lr_front lr q = lr # filter (\<lambda>n. ln_key n \<noteq> ln_key lr) q"

text \<open>\<open>ngx_http_limit_req_lookup\<close>: the return code, \<open>*ep\<close> and the zone.\<close>

definition ngx_http_limit_req_lookup ::
  "(lr_node list \<Rightarrow> bool) \<Rightarrow> int \<Rightarrow> lr_limit \<Rightarrow> lr_zone \<Rightarrow> ngx_str \<Rightarrow> bool \<Rightarrow> ngx_rc \<times> int \<times> lr_zone" where
  "ngx_http_limit_req_lookup alloc now limit z key account =
     (case lr_find key (lz_queue z) of
        Some lr \<Rightarrow>
          (let ms = lr_ms now (ln_last lr); excess = lr_excess (lz_rate z) ms (ln_excess lr) in
           if excess > li_burst limit then (NGX_BUSY, excess, z\<lparr>lz_queue := lr_front lr (lz_queue z)\<rparr>)
           else if account then
             (let lr = lr\<lparr>ln_excess := excess, ln_last := (if ms \<noteq> 0 then now else ln_last lr)\<rparr> in
              (NGX_OK, excess, z\<lparr>lz_queue := lr_front lr (lz_queue z)\<rparr>))
           else
             (let lr = lr\<lparr>ln_count := ln_count lr + 1\<rparr> in
              (NGX_AGAIN, excess, z\<lparr>lz_queue := lr_front lr (lz_queue z), lz_node := Some key\<rparr>)))
      | None \<Rightarrow>
          (let q1 = lr_expire now (lz_rate z) 1 (lz_queue z);
               q = (if alloc q1 then q1 else lr_expire now (lz_rate z) 0 q1) in
           if \<not> alloc q then (NGX_ERROR, 0, z\<lparr>lz_queue := q\<rparr>)
           else if account then
             (NGX_OK, 0, z\<lparr>lz_queue := \<lparr>ln_key = key, ln_last = now, ln_excess = 0, ln_count = 0\<rparr> # q\<rparr>)
           else
             (NGX_AGAIN, 0, z\<lparr>lz_queue := \<lparr>ln_key = key, ln_last = 0, ln_excess = 0, ln_count = 1\<rparr> # q,
                lz_node := Some key\<rparr>)))"

section \<open>All zones of a request\<close>

definition lr_upd :: "ngx_str \<Rightarrow> (lr_node \<Rightarrow> lr_node) \<Rightarrow> lr_node list \<Rightarrow> lr_node list" where
  "lr_upd key f q = map (\<lambda>n. if ln_key n = key then f n else n) q"

text \<open>\<open>ngx_http_limit_req_unlock (limits, n)\<close>\<close>

fun ngx_http_limit_req_unlock :: "nat \<Rightarrow> lr_zone list \<Rightarrow> lr_zone list" where
  "ngx_http_limit_req_unlock 0 zs = zs"
| "ngx_http_limit_req_unlock (Suc n) zs =
     ngx_http_limit_req_unlock n
       (case lz_node (zs ! n) of
          None \<Rightarrow> zs
        | Some key \<Rightarrow> zs[n := (zs ! n)\<lparr>lz_queue := lr_upd key (\<lambda>lr. lr\<lparr>ln_count := ln_count lr - 1\<rparr>) (lz_queue (zs ! n)),
            lz_node := None\<rparr>])"

text \<open>The delay of an excess above \<open>limit->delay\<close>.\<close>

definition lr_delay :: "lr_limit \<Rightarrow> int \<Rightarrow> int \<Rightarrow> int" where
  "lr_delay limit rate excess =
     (if excess \<le> li_delay limit then 0 else (excess - li_delay limit) * 1000 div rate)"

text \<open>The accounting of a node counted by an earlier lookup: its new state and its excess.\<close>

definition lr_account_node :: "int \<Rightarrow> int \<Rightarrow> lr_node \<Rightarrow> lr_node" where
  "lr_account_node now rate lr =
     (let ms = lr_ms now (ln_last lr); excess = lr_excess rate ms (ln_excess lr) in
      lr\<lparr>ln_last := (if ms \<noteq> 0 then now else ln_last lr), ln_excess := excess, ln_count := ln_count lr - 1\<rparr>)"

text \<open>
  The loop of \<open>ngx_http_limit_req_account\<close>: \<open>max_delay\<close> and the zones. The node
  \<open>ctx->node\<close> is in the queue (\<open>lr_held\<close> below), so the search always finds it.
\<close>

fun account_loop :: "int \<Rightarrow> lr_limit list \<Rightarrow> nat \<Rightarrow> int \<Rightarrow> lr_zone list \<Rightarrow> int \<times> lr_zone list" where
  "account_loop now limits 0 max_delay zs = (max_delay, zs)"
| "account_loop now limits (Suc n) max_delay zs =
     (case lz_node (zs ! n) of
        None \<Rightarrow> account_loop now limits n max_delay zs
      | Some key \<Rightarrow>
          (let z = zs ! n;
               excess = (case lr_find key (lz_queue z) of
                   Some lr \<Rightarrow> ln_excess (lr_account_node now (lz_rate z) lr) | None \<Rightarrow> 0);
               zs = zs[n := z\<lparr>lz_queue := lr_upd key (lr_account_node now (lz_rate z)) (lz_queue z), lz_node := None\<rparr>];
               delay = lr_delay (limits ! n) (lz_rate z) excess in
           account_loop now limits n (if delay > max_delay then delay else max_delay) zs))"

text \<open>\<open>ngx_http_limit_req_account (limits, n, &excess, &limit)\<close>, \<open>i\<close> the index of \<open>limit\<close>.\<close>

definition ngx_http_limit_req_account :: "int \<Rightarrow> lr_limit list \<Rightarrow> nat \<Rightarrow> nat \<Rightarrow> int \<Rightarrow> lr_zone list \<Rightarrow> int \<times> lr_zone list" where
  "ngx_http_limit_req_account now limits n i excess zs =
     account_loop now limits n (lr_delay (limits ! i) (lz_rate (zs ! i)) excess) zs"

text \<open>What the handler returns; \<open>LR_AGAIN\<close> carries the delay of the timer it starts.\<close>

datatype lr_result = LR_DECLINED | LR_STATUS int | LR_AGAIN int

text \<open>\<open>r->main->limit_req_status\<close>; \<open>LR_NONE\<close> is zero, a request not yet looked at.\<close>

datatype lr_req_status = LR_NONE | LR_PASSED | LR_DELAYED | LR_REJECTED | LR_DELAYED_DRY_RUN | LR_REJECTED_DRY_RUN

record lr_conf =
  lc_limits :: "lr_limit list"
  lc_status_code :: int
  lc_dry_run :: bool

text \<open>
  The loop of \<open>ngx_http_limit_req_handler\<close> from the limit \<open>n\<close> on, the keys evaluated for
  each limit (\<open>None\<close> when \<open>ngx_http_complex_value\<close> fails): the number of the limit it
  stopped at, the return code (\<open>None\<close> for the early error return), the excess, the zones.
\<close>

fun handler_loop :: "(lr_node list \<Rightarrow> bool) \<Rightarrow> int \<Rightarrow> lr_limit list \<Rightarrow> nat \<Rightarrow> ngx_str option list \<Rightarrow> ngx_rc \<Rightarrow> int \<Rightarrow>
    lr_zone list \<Rightarrow> nat \<times> ngx_rc option \<times> int \<times> lr_zone list" where
  "handler_loop alloc now limits n [] rc excess zs = (n, Some rc, excess, zs)"
| "handler_loop alloc now limits n (None # keys) rc excess zs = (n, None, excess, ngx_http_limit_req_unlock n zs)"
| "handler_loop alloc now limits n (Some key # keys) rc excess zs =
     (if length key = 0 \<or> length key > 65535 then handler_loop alloc now limits (n + 1) keys rc excess zs
      else
        (case ngx_http_limit_req_lookup alloc now (limits ! n) (zs ! n) key (n = length limits - 1) of
           (rc, excess, z) \<Rightarrow>
             if rc \<noteq> NGX_AGAIN then (n, Some rc, excess, zs[n := z])
             else handler_loop alloc now limits (n + 1) keys rc excess (zs[n := z])))"

text \<open>
  \<open>ngx_http_limit_req_handler\<close>: its return value, \<open>r->main->limit_req_status\<close> and the
  zones. \<open>rd_ok\<close> tells whether the read event of a delayed request can be handled
  (\<open>read->ready\<close>, or \<open>ngx_handle_read_event\<close> succeeds). \<open>*ep\<close> and \<open>*limit\<close>, which
  \<open>ngx_http_limit_req_account\<close> sets for the log message, are not kept.
\<close>

definition ngx_http_limit_req_handler ::
  "(lr_node list \<Rightarrow> bool) \<Rightarrow> int \<Rightarrow> lr_conf \<Rightarrow> bool \<Rightarrow> ngx_str option list \<Rightarrow> lr_req_status \<Rightarrow> lr_zone list \<Rightarrow>
    lr_result \<times> lr_req_status \<times> lr_zone list" where
  "ngx_http_limit_req_handler alloc now lrcf rd_ok keys status zs =
     (if status \<noteq> LR_NONE then (LR_DECLINED, status, zs)
      else
        (case handler_loop alloc now (lc_limits lrcf) 0 keys NGX_DECLINED 0 zs of
           (n, None, excess, zs) \<Rightarrow> (LR_STATUS 500, status, zs)
         | (n, Some rc, excess, zs) \<Rightarrow>
             if rc = NGX_DECLINED then (LR_DECLINED, status, zs)
             else if rc = NGX_BUSY \<or> rc = NGX_ERROR then
               (let zs = ngx_http_limit_req_unlock n zs in
                if lc_dry_run lrcf then (LR_DECLINED, LR_REJECTED_DRY_RUN, zs)
                else (LR_STATUS (lc_status_code lrcf), LR_REJECTED, zs))
             else
               (let excess = (if rc = NGX_AGAIN then 0 else excess);
                    i = (if n < length (lc_limits lrcf) then n else n - 1) in
                case ngx_http_limit_req_account now (lc_limits lrcf) n i excess zs of
                  (delay, zs) \<Rightarrow>
                    if delay = 0 then (LR_DECLINED, LR_PASSED, zs)
                    else if lc_dry_run lrcf then (LR_DECLINED, LR_DELAYED_DRY_RUN, zs)
                    else if rd_ok then (LR_AGAIN delay, LR_DELAYED, zs)
                    else (LR_STATUS 500, LR_DELAYED, zs))))"

section \<open>Expiry removes idle nodes only\<close>

definition lr_idle :: "int \<Rightarrow> int \<Rightarrow> lr_node \<Rightarrow> bool" where
  "lr_idle now rate lr \<longleftrightarrow> ln_count lr = 0 \<and> 60000 \<le> \<bar>now - ln_last lr\<bar> \<and>
     ln_excess lr \<le> (rate * \<bar>now - ln_last lr\<bar>) mod 2 ^ 64 div 1000"

lemma lr_expire_idle:
  "\<exists>r. q = lr_expire now rate (Suc n) q @ r \<and> list_all (lr_idle now rate) r"
proof (induction q arbitrary: n rule: rev_induct)
  case Nil
  then show ?case by (simp add: lr_expire.simps)
next
  case (snoc lr q)
  let ?stop = "ln_count lr \<noteq> 0 \<or> \<bar>now - ln_last lr\<bar> < 60000 \<or>
      ln_excess lr - (rate * \<bar>now - ln_last lr\<bar>) mod 2 ^ 64 div 1000 > 0"
  show ?case
  proof (cases "Suc n < 3 \<and> \<not> ?stop")
    case True
    then have "lr_expire now rate (Suc n) (q @ [lr]) = lr_expire now rate (Suc (Suc n)) q"
      by (simp add: lr_expire.simps [of now rate "Suc n"])
    moreover have "lr_idle now rate lr" using True by (auto simp: lr_idle_def)
    moreover obtain r where "q = lr_expire now rate (Suc (Suc n)) q @ r" "list_all (lr_idle now rate) r"
      using snoc.IH by blast
    ultimately show ?thesis by (intro exI [of _ "r @ [lr]"]) auto
  next
    case False
    then have "lr_expire now rate (Suc n) (q @ [lr]) = q @ [lr]"
      by (auto simp: lr_expire.simps [of now rate "Suc n"])
    then show ?thesis by simp
  qed
qed

section \<open>Lookups\<close>

lemma lr_find_Some:
  "distinct (map ln_key q) \<Longrightarrow> lr_find k q = Some lr \<longleftrightarrow> lr \<in> set q \<and> ln_key lr = k"
  by (induction q) (auto simp: lr_find_def image_iff split: if_splits)

lemma lr_find_None: "lr_find k q = None \<longleftrightarrow> k \<notin> ln_key ` set q"
  by (auto simp: lr_find_def find_None_iff)

lemma lr_find_append: "lr_find k (q @ r) = (case lr_find k q of None \<Rightarrow> lr_find k r | x \<Rightarrow> x)"
  by (induction q) (simp_all add: lr_find_def)

lemma lr_front_distinct: "distinct (map ln_key q) \<Longrightarrow> distinct (map ln_key (lr_front lr q))"
  by (auto simp: lr_front_def distinct_map_filter)

lemma lr_find_front: "lr_find k (lr_front lr q) = (if k = ln_key lr then Some lr else lr_find k q)"
proof -
  have "k \<noteq> ln_key lr \<Longrightarrow> find (\<lambda>n. ln_key n = k) (filter (\<lambda>n. ln_key n \<noteq> ln_key lr) q) = find (\<lambda>n. ln_key n = k) q"
    by (induction q) auto
  then show ?thesis by (simp add: lr_front_def lr_find_def)
qed

lemma lr_excess_nonneg: "0 \<le> lr_excess rate ms e"
  by (simp add: lr_excess_def Let_def)

text \<open>What a lookup with accounting does to the node of its key and to the others.\<close>

lemma lookup_same:
  assumes "\<And>q. alloc q" "ngx_http_limit_req_lookup alloc now limit z key True = (rc, e, z')"
  shows "case lr_find key (lz_queue z) of
      Some lr \<Rightarrow>
        (let ms = lr_ms now (ln_last lr); e' = lr_excess (lz_rate z) ms (ln_excess lr) in
         if e' > li_burst limit then rc = NGX_BUSY \<and> lr_find key (lz_queue z') = Some lr
         else rc = NGX_OK \<and> lr_find key (lz_queue z') =
           Some (lr\<lparr>ln_excess := e', ln_last := (if ms \<noteq> 0 then now else ln_last lr)\<rparr>))
    | None \<Rightarrow> rc = NGX_OK \<and> lr_find key (lz_queue z') = Some \<lparr>ln_key = key, ln_last = now, ln_excess = 0, ln_count = 0\<rparr>"
proof (cases "lr_find key (lz_queue z)")
  case None
  then show ?thesis using assms by (auto simp: ngx_http_limit_req_lookup_def Let_def lr_find_def)
next
  case (Some lr)
  then have "ln_key lr = key" by (auto simp: lr_find_def find_Some_iff)
  then show ?thesis using Some assms(2)
    by (auto simp: ngx_http_limit_req_lookup_def Let_def lr_find_front split: if_splits)
qed

lemma lookup_other:
  assumes "\<And>q. alloc q" "ngx_http_limit_req_lookup alloc now limit z key True = (rc, e, z')" "k \<noteq> key"
  shows "lr_find k (lz_queue z') = lr_find k (lz_queue z) \<or>
    lr_find k (lz_queue z') = None \<and> (\<exists>lr. lr_find k (lz_queue z) = Some lr \<and> lr_idle now (lz_rate z) lr)"
proof (cases "lr_find key (lz_queue z)")
  case None
  obtain r where r: "lz_queue z = lr_expire now (lz_rate z) 1 (lz_queue z) @ r" "list_all (lr_idle now (lz_rate z)) r"
    using lr_expire_idle [of "lz_queue z" now "lz_rate z" 0] by auto
  let ?q = "lr_expire now (lz_rate z) 1 (lz_queue z)"
  have "lr_find k (lz_queue z') = lr_find k ?q"
    using None assms by (auto simp: ngx_http_limit_req_lookup_def Let_def lr_find_def)
  moreover have "lr_find k (lz_queue z) = (case lr_find k ?q of None \<Rightarrow> lr_find k r | x \<Rightarrow> x)"
    using arg_cong [OF r(1), of "lr_find k"] by (simp add: lr_find_append)
  moreover have "lr_idle now (lz_rate z) lr" if "lr_find k r = Some lr" for lr
    using that r(2) by (auto simp: lr_find_def find_Some_iff list_all_length)
  ultimately show ?thesis by (cases "lr_find k ?q"; cases "lr_find k r") auto
next
  case (Some lr)
  then have "ln_key lr = key" by (auto simp: lr_find_def find_Some_iff)
  then show ?thesis using Some assms(2,3)
    by (auto simp: ngx_http_limit_req_lookup_def Let_def lr_find_front split: if_splits)
qed

lemma lookup_rate:
  "ngx_http_limit_req_lookup alloc now limit z key account = (rc, e, z') \<Longrightarrow> lz_rate z' = lz_rate z"
  by (auto simp: ngx_http_limit_req_lookup_def Let_def split: option.splits if_splits)

section \<open>The rate limit\<close>

text \<open>
  Requests \<open>(now, key)\<close> handled one after the other in a location with one limit: the
  number of requests with the key \<open>k\<close> that were accepted, and the zone.
\<close>

fun lr_accepted :: "lr_conf \<Rightarrow> ngx_str \<Rightarrow> (int \<times> ngx_str) list \<Rightarrow> lr_zone \<Rightarrow> int" where
  "lr_accepted lrcf k [] z = 0"
| "lr_accepted lrcf k ((now, key) # rs) z =
     (case ngx_http_limit_req_handler (\<lambda>_. True) now lrcf True [Some key] LR_NONE [z] of
        (res, status, zs) \<Rightarrow>
          (if key = k \<and> status \<noteq> LR_REJECTED then 1 else 0) + lr_accepted lrcf k rs (zs ! 0))"

text \<open>What is known of a key after \<open>N\<close> accepted requests since \<open>t0\<close>; \<open>X\<close> counts expiries.\<close>

definition lr_inv :: "int \<Rightarrow> int \<Rightarrow> int \<Rightarrow> lr_zone \<Rightarrow> ngx_str \<Rightarrow> int \<Rightarrow> int \<Rightarrow> bool" where
  "lr_inv t0 burst now z k N X \<longleftrightarrow>
     (case lr_find k (lz_queue z) of
        None \<Rightarrow> 1000000 * N \<le> 1000000 * X + lz_rate z * (now - t0) \<and> 60000 * X \<le> now - t0
      | Some lr \<Rightarrow> 1000000 * N \<le> 1000000 * (1 + X) + 1000 * ln_excess lr + lz_rate z * (ln_last lr - t0) \<and>
          60000 * X \<le> ln_last lr - t0 \<and> t0 \<le> ln_last lr \<and> ln_last lr \<le> now \<and> ln_excess lr \<le> burst)"

lemma lr_excess_lower:
  assumes "0 \<le> rate * ms" "rate * ms < 2 ^ 64"
  shows "1000 * e - rate * ms + 1000000 \<le> 1000 * lr_excess rate ms e"
proof -
  have "1000 * ((rate * ms) div 1000) \<le> rate * ms" by simp
  then show ?thesis using assms by (simp add: lr_excess_def Let_def)
qed

lemma rate_mono: "0 \<le> rate \<Longrightarrow> (a::int) \<le> b \<Longrightarrow> rate * a \<le> rate * b"
  by (rule mult_left_mono)

lemma rate_window:
  assumes "0 \<le> rate" "rate * T < 2 ^ 64" "0 \<le> ms" "ms \<le> (T::int)"
  shows "0 \<le> rate * ms \<and> rate * ms < 2 ^ 64"
  using assms mult_left_mono [of ms T rate] by (auto intro: order.strict_trans1)

lemma rate_split: "(rate::int) * (c - a) = rate * (c - b) + rate * (b - a)"
  by (simp add: algebra_simps)

lemma lr_inv_later:
  assumes "lr_inv t0 burst t z k N X" "t \<le> now" "0 \<le> lz_rate z"
  shows "lr_inv t0 burst now z k N X"
  using assms rate_mono [of "lz_rate z" "t - t0" "now - t0"]
  by (auto simp: lr_inv_def split: option.splits)

lemma lr_inv_expire:
  assumes inv: "lr_inv t0 burst now z k N X" and idle: "lr_find k (lz_queue z) = Some lr" "lr_idle now (lz_rate z) lr"
    and rate: "0 \<le> lz_rate z" "lz_rate z * T < 2 ^ 64" "now \<le> t0 + T"
    and gone: "lr_find k (lz_queue z') = None" "lz_rate z' = lz_rate z"
  shows "lr_inv t0 burst now z' k N (X + 1)"
proof -
  let ?ms = "now - ln_last lr"
  have i: "1000000 * N \<le> 1000000 * (1 + X) + 1000 * ln_excess lr + lz_rate z * (ln_last lr - t0)"
      "60000 * X \<le> ln_last lr - t0" "t0 \<le> ln_last lr" "ln_last lr \<le> now"
    using inv idle by (auto simp: lr_inv_def)
  have "0 \<le> lz_rate z * ?ms \<and> lz_rate z * ?ms < 2 ^ 64"
    by (rule rate_window [of _ T]) (use rate i in auto)
  then have e: "ln_excess lr \<le> lz_rate z * ?ms div 1000" "60000 \<le> ?ms"
    using idle(2) i(4) by (auto simp: lr_idle_def)
  have "1000 * (lz_rate z * ?ms div 1000) \<le> lz_rate z * ?ms" by simp
  then have "1000 * ln_excess lr \<le> lz_rate z * ?ms" using e by linarith
  then show ?thesis using i e gone rate_split [of "lz_rate z" now t0 "ln_last lr"] by (simp add: lr_inv_def)
qed

text \<open>One request, the key's own or another one.\<close>

lemma lr_inv_step:
  assumes look: "ngx_http_limit_req_lookup (\<lambda>_. True) now limit z key True = (rc, e, z')"
    and inv: "lr_inv t0 (li_burst limit) t z k N X" "t \<le> now" "t0 \<le> t"
    and rate: "0 \<le> lz_rate z" "lz_rate z * T < 2 ^ 64" "now \<le> t0 + T" "0 \<le> li_burst limit"
  shows "\<exists>X'. lr_inv t0 (li_burst limit) now z' k (N + (if key = k \<and> rc \<noteq> NGX_BUSY then 1 else 0)) X'"
proof -
  have inv': "lr_inv t0 (li_burst limit) now z k N X" using inv(1,2) rate(1) by (rule lr_inv_later)
  have r: "lz_rate z' = lz_rate z" using look by (rule lookup_rate)
  show ?thesis
  proof (cases "key = k")
    case False
    then consider "lr_find k (lz_queue z') = lr_find k (lz_queue z)"
      | lr where "lr_find k (lz_queue z') = None" "lr_find k (lz_queue z) = Some lr" "lr_idle now (lz_rate z) lr"
      using lookup_other [OF _ look, of k] by auto
    then show ?thesis
    proof cases
      case 1
      then have "lr_inv t0 (li_burst limit) now z' k N X" using inv' r by (simp add: lr_inv_def split: option.splits)
      then show ?thesis using False by auto
    next
      case 2
      have "lr_inv t0 (li_burst limit) now z' k N (X + 1)"
        by (rule lr_inv_expire [OF inv' 2(2,3) rate(1-3) 2(1) r])
      then show ?thesis using False by auto
    qed
  next
    case True
    note same = lookup_same [OF _ look]
    show ?thesis
    proof (cases "lr_find key (lz_queue z)")
      case None
      then have "rc = NGX_OK" "lr_find k (lz_queue z') = Some \<lparr>ln_key = key, ln_last = now, ln_excess = 0, ln_count = 0\<rparr>"
        using same True by auto
      then have "lr_inv t0 (li_burst limit) now z' k (N + 1) X"
        using inv' None True r inv(2,3) rate(4) by (simp add: lr_inv_def)
      then show ?thesis using True \<open>rc = NGX_OK\<close> by auto
    next
      case (Some lr)
      have i: "1000000 * N \<le> 1000000 * (1 + X) + 1000 * ln_excess lr + lz_rate z * (ln_last lr - t0)"
          "60000 * X \<le> ln_last lr - t0" "t0 \<le> ln_last lr" "ln_last lr \<le> now" "ln_excess lr \<le> li_burst limit"
        using inv' Some True by (auto simp: lr_inv_def)
      have ms: "lr_ms now (ln_last lr) = now - ln_last lr" using i(4) by (simp add: lr_ms_def)
      let ?e = "lr_excess (lz_rate z) (now - ln_last lr) (ln_excess lr)"
      show ?thesis
      proof (cases "?e > li_burst limit")
        case gt: True
        then have "rc = NGX_BUSY" "lr_find k (lz_queue z') = Some lr"
          using same True Some ms by (auto simp: Let_def)
        then show ?thesis using inv' r True Some by (auto simp: lr_inv_def)
      next
        case le: False
        then have f: "rc = NGX_OK" "lr_find k (lz_queue z') = Some (lr\<lparr>ln_excess := ?e, ln_last := now\<rparr>)"
          using same True Some ms by (auto simp: Let_def)
        have "0 \<le> lz_rate z * (now - ln_last lr) \<and> lz_rate z * (now - ln_last lr) < 2 ^ 64"
          by (rule rate_window [of _ T]) (use rate i in auto)
        then have "1000 * ln_excess lr - lz_rate z * (now - ln_last lr) + 1000000 \<le> 1000 * ?e"
          using lr_excess_lower by blast
        then have "lr_inv t0 (li_burst limit) now z' k (N + 1) X"
          using i f r le rate_split [of "lz_rate z" now t0 "ln_last lr"] by (simp add: lr_inv_def)
        then show ?thesis using True f by auto
      qed
    qed
  qed
qed

lemma lr_inv_bound:
  assumes "lr_inv t0 burst now z k N X" "0 \<le> lz_rate z" "now \<le> t0 + T" "0 \<le> burst" "t0 \<le> now"
  shows "1000000 * N \<le> 1000000 * (1 + T div 60000) + 1000 * burst + lz_rate z * T"
proof (cases "lr_find k (lz_queue z)")
  case None
  have "lz_rate z * (now - t0) \<le> lz_rate z * T" using assms(2,3) by (intro rate_mono) auto
  moreover have "60000 * X \<le> T" using None assms by (simp add: lr_inv_def)
  then have "X \<le> T div 60000" using zdiv_mono1 [of "60000 * X" T 60000] by simp
  ultimately show ?thesis using None assms by (simp add: lr_inv_def)
next
  case (Some lr)
  have "lz_rate z * (ln_last lr - t0) \<le> lz_rate z * T"
    using Some assms by (intro rate_mono) (auto simp: lr_inv_def)
  moreover have "60000 * X \<le> T" using Some assms by (simp add: lr_inv_def)
  then have "X \<le> T div 60000" using zdiv_mono1 [of "60000 * X" T 60000] by simp
  ultimately show ?thesis using Some assms by (simp add: lr_inv_def)
qed


lemma lookup_account_rc:
  "ngx_http_limit_req_lookup (\<lambda>_. True) now limit z key True = (rc, e, z') \<Longrightarrow> rc = NGX_OK \<or> rc = NGX_BUSY"
  by (auto simp: ngx_http_limit_req_lookup_def Let_def split: option.splits if_splits)

lemma handler_single:
  assumes "lc_limits lrcf = [limit]" "\<not> lc_dry_run lrcf" "key \<noteq> []" "length key \<le> 65535"
    "ngx_http_limit_req_lookup (\<lambda>_. True) now limit z key True = (rc, e, z')"
    "ngx_http_limit_req_handler (\<lambda>_. True) now lrcf True [Some key] LR_NONE [z] = (res, status, zs)"
  shows "zs = [z'] \<and> (status \<noteq> LR_REJECTED \<longleftrightarrow> rc \<noteq> NGX_BUSY)"
  using assms lookup_account_rc [OF assms(5)]
  by (auto simp: ngx_http_limit_req_handler_def ngx_http_limit_req_account_def Let_def split: if_splits)

lemma handler_single_skip:
  assumes "key = [] \<or> length key > 65535"
    "ngx_http_limit_req_handler (\<lambda>_. True) now lrcf True [Some key] LR_NONE [z] = (res, status, zs)"
  shows "zs = [z]"
  using assms by (auto simp: ngx_http_limit_req_handler_def)

lemma lr_accepted_bound:
  assumes "lc_limits lrcf = [limit]" "\<not> lc_dry_run lrcf" "k \<noteq> []" "length k \<le> 65535" "0 \<le> li_burst limit"
  shows "lr_inv t0 (li_burst limit) t z k N X \<Longrightarrow> t0 \<le> t \<Longrightarrow> sorted (t # map fst rs) \<Longrightarrow> t \<le> t0 + T \<Longrightarrow>
    list_all (\<lambda>r. fst r \<le> t0 + T) rs \<Longrightarrow> 0 \<le> lz_rate z \<Longrightarrow> lz_rate z * T < 2 ^ 64 \<Longrightarrow>
    1000000 * (N + lr_accepted lrcf k rs z) \<le> 1000000 * (1 + T div 60000) + 1000 * li_burst limit + lz_rate z * T"
proof (induction rs arbitrary: t z N X)
  case Nil
  then show ?case using lr_inv_bound [of t0 "li_burst limit" t z k N X T] assms(5) by simp
next
  case (Cons r rs)
  obtain now key where r: "r = (now, key)" by (cases r)
  obtain res status zs where h:
      "ngx_http_limit_req_handler (\<lambda>_. True) now lrcf True [Some key] LR_NONE [z] = (res, status, zs)"
    using prod_cases3 by blast
  have now: "t \<le> now" "now \<le> t0 + T" "sorted (now # map fst rs)" using Cons.prems r by auto
  show ?case
  proof (cases "key = [] \<or> length key > 65535")
    case True
    then have "zs = [z]" "key \<noteq> k" using handler_single_skip [OF _ h] assms(3,4) by auto
    moreover have "lr_inv t0 (li_burst limit) now z k N X"
      using Cons.prems(1) now(1) Cons.prems(6) by (rule lr_inv_later)
    moreover have "lr_accepted lrcf k (r # rs) z = lr_accepted lrcf k rs z" using calculation(1,2) r h by simp
    moreover have "t0 \<le> now" "list_all (\<lambda>r. fst r \<le> t0 + T) rs" using Cons.prems now by auto
    ultimately show ?thesis
      using Cons.IH [of now z N X] Cons.prems(6,7) now(2,3) by (simp only: simp_thms)
  next
    case False
    obtain rc e z' where look: "ngx_http_limit_req_lookup (\<lambda>_. True) now limit z key True = (rc, e, z')"
      using prod_cases3 by blast
    have s: "zs = [z']" "status \<noteq> LR_REJECTED \<longleftrightarrow> rc \<noteq> NGX_BUSY"
      using handler_single [OF assms(1,2) _ _ look h] False by auto
    obtain X' where "lr_inv t0 (li_burst limit) now z' k (N + (if key = k \<and> rc \<noteq> NGX_BUSY then 1 else 0)) X'"
      using lr_inv_step [OF look] Cons.prems now assms(5) by blast
    from Cons.IH [OF this] show ?thesis
      using Cons.prems now lookup_rate [OF look] r h s by (simp add: add.assoc)
  qed
qed


lemma limit_req_example:
  "lr_accepted \<lparr>lc_limits = [\<lparr>li_burst = 1000, li_delay = 0\<rparr>], lc_status_code = 503, lc_dry_run = False\<rparr> [97]
      [(0, [97]), (100, [98]), (200, [97]), (300, [97]), (1500, [97])] \<lparr>lz_queue = [], lz_rate = 1000, lz_node = None\<rparr> = 3"
  by (simp add: ngx_http_limit_req_handler_def ngx_http_limit_req_lookup_def ngx_http_limit_req_account_def
      lr_find_def lr_front_def lr_expire.simps lr_ms_def lr_excess_def lr_delay_def Let_def)


section \<open>References to nodes\<close>

text \<open>
  \<open>ctx->node\<close> points to a node that is still in the zone and holds the only count on it; a
  zone is quiet when nothing points into it.
\<close>

definition lr_held :: "lr_zone \<Rightarrow> bool" where
  "lr_held z \<longleftrightarrow> distinct (map ln_key (lz_queue z)) \<and>
     (\<forall>k. lz_node z = Some k \<longrightarrow> k \<in> ln_key ` set (lz_queue z)) \<and>
     (\<forall>lr \<in> set (lz_queue z). ln_count lr = (if lz_node z = Some (ln_key lr) then 1 else 0))"

definition lr_quiet :: "lr_zone \<Rightarrow> bool" where
  "lr_quiet z \<longleftrightarrow> lr_held z \<and> lz_node z = None"

lemma lr_expire_prefix: "\<exists>r. q = lr_expire now rate n q @ r"
proof (induction now rate n q rule: lr_expire.induct)
  case (1 now rate n q)
  show ?case
  proof (cases "lr_expire now rate n q = q")
    case False
    then have *: "lr_expire now rate n q = lr_expire now rate (n + 1) (butlast q)" "q \<noteq> []"
      using lr_expire.simps [of now rate n q] by (auto simp: Let_def split: if_splits)
    have "\<exists>r. butlast q = lr_expire now rate (n + 1) (butlast q) @ r"
      using 1 False lr_expire.simps [of now rate n q] by (auto simp: Let_def split: if_splits)
    then show ?thesis using * append_butlast_last_id [of q] by (metis append_assoc)
  qed simp
qed

lemma lr_expire_sub:
  "distinct (map ln_key q) \<Longrightarrow> distinct (map ln_key (lr_expire now rate n q))"
  "set (lr_expire now rate n q) \<subseteq> set q"
  using lr_expire_prefix [of q now rate n] by (metis distinct_append map_append, metis set_append sup_ge1)

lemma lr_front_held:
  assumes "lr_quiet z"
  shows "ln_count lr' = 0 \<Longrightarrow> lr_held (z\<lparr>lz_queue := lr_front lr' (lz_queue z)\<rparr>)"
    "ln_count lr' = 1 \<Longrightarrow> ln_key lr' = k \<Longrightarrow> lr_held (z\<lparr>lz_queue := lr_front lr' (lz_queue z), lz_node := Some k\<rparr>)"
  using assms lr_front_distinct [of "lz_queue z" lr']
  by (auto simp: lr_quiet_def lr_held_def lr_front_def)

lemma lr_new_held:
  assumes "lr_quiet z" "set q \<subseteq> set (lz_queue z)" "distinct (map ln_key q)" "k \<notin> ln_key ` set (lz_queue z)"
  shows "lr_held (z\<lparr>lz_queue := q\<rparr>)"
    "ln_count lr' = 0 \<Longrightarrow> ln_key lr' = k \<Longrightarrow> lr_held (z\<lparr>lz_queue := lr' # q\<rparr>)"
    "ln_count lr' = 1 \<Longrightarrow> ln_key lr' = k \<Longrightarrow> lr_held (z\<lparr>lz_queue := lr' # q, lz_node := Some k\<rparr>)"
  using assms by (auto simp: lr_quiet_def lr_held_def subset_iff image_iff)

lemma lookup_held:
  assumes "lr_quiet z" "ngx_http_limit_req_lookup alloc now limit z key account = (rc, e, z')"
  shows "lr_held z' \<and> (rc \<noteq> NGX_AGAIN \<longrightarrow> lr_quiet z')"
proof (cases "lr_find key (lz_queue z)")
  case (Some lr)
  then have lr: "ln_key lr = key" "lr \<in> set (lz_queue z)" by (auto simp: lr_find_def find_Some_iff)
  then have c: "ln_count lr = 0" "lz_node z = None" using assms(1) by (auto simp: lr_quiet_def lr_held_def)
  show ?thesis using assms(2) Some lr c
    by (auto simp: ngx_http_limit_req_lookup_def Let_def lr_quiet_def lr_front_held [OF assms(1)] split: if_splits)
next
  case None
  let ?q1 = "lr_expire now (lz_rate z) 1 (lz_queue z)"
  define q where "q = (if alloc ?q1 then ?q1 else lr_expire now (lz_rate z) 0 ?q1)"
  have q: "set q \<subseteq> set (lz_queue z)" "distinct (map ln_key q)"
    using lr_expire_sub [where q = "lz_queue z" and now = now and rate = "lz_rate z" and n = 1]
      lr_expire_sub [where q = ?q1 and now = now and rate = "lz_rate z" and n = 0] assms(1)
    by (auto simp: q_def lr_quiet_def lr_held_def)
  have "key \<notin> ln_key ` set (lz_queue z)" using None by (simp add: lr_find_None)
  note new = lr_new_held [OF assms(1) q this]
  have "lz_node z = None" using assms(1) by (simp add: lr_quiet_def)
  moreover have "(rc, e, z') =
     (if \<not> alloc q then (NGX_ERROR, 0, z\<lparr>lz_queue := q\<rparr>)
      else if account then
        (NGX_OK, 0, z\<lparr>lz_queue := \<lparr>ln_key = key, ln_last = now, ln_excess = 0, ln_count = 0\<rparr> # q\<rparr>)
      else
        (NGX_AGAIN, 0, z\<lparr>lz_queue := \<lparr>ln_key = key, ln_last = 0, ln_excess = 0, ln_count = 1\<rparr> # q, lz_node := Some key\<rparr>))"
    unfolding assms(2) [symmetric] q_def by (simp add: ngx_http_limit_req_lookup_def None Let_def)
  ultimately show ?thesis by (auto simp: lr_quiet_def new split: if_splits)
qed

text \<open>Giving up the reference of one zone.\<close>

lemma lr_release:
  assumes "lr_held z" "lz_node z = Some k" "\<And>lr. ln_key (f lr) = ln_key lr" "\<And>lr. ln_count (f lr) = ln_count lr - 1"
  shows "lr_quiet (z\<lparr>lz_queue := lr_upd k f (lz_queue z), lz_node := None\<rparr>)"
proof -
  have "map ln_key (lr_upd k f q) = map ln_key q" for q using assms(3) by (simp add: lr_upd_def)
  moreover have "ln_count lr = 0" if "lr \<in> set (lr_upd k f (lz_queue z))" for lr
    using that assms by (auto simp: lr_held_def lr_upd_def)
  ultimately show ?thesis using assms(1) by (simp add: lr_quiet_def lr_held_def)
qed

lemma list_all_drop_Suc: "n < length xs \<Longrightarrow> list_all P (drop n xs) \<longleftrightarrow> P (xs ! n) \<and> list_all P (drop (Suc n) xs)"
  by (simp add: Cons_nth_drop_Suc [symmetric])

lemma list_all_take_Suc: "n < length xs \<Longrightarrow> list_all P (take (Suc n) xs) \<longleftrightarrow> list_all P (take n xs) \<and> P (xs ! n)"
  by (simp add: take_Suc_conv_app_nth)

lemma unlock_quiet:
  "n \<le> length zs \<Longrightarrow> list_all lr_held (take n zs) \<Longrightarrow> list_all lr_quiet (drop n zs) \<Longrightarrow>
    list_all lr_quiet (ngx_http_limit_req_unlock n zs)"
proof (induction n arbitrary: zs)
  case (Suc n)
  then have n: "n < length zs" "lr_held (zs ! n)" "list_all lr_held (take n zs)" "list_all lr_quiet (drop (Suc n) zs)"
    by (auto simp: list_all_take_Suc)
  show ?case
  proof (cases "lz_node (zs ! n)")
    case None
    then have "list_all lr_quiet (drop n zs)" using n by (simp add: list_all_drop_Suc lr_quiet_def)
    then show ?thesis using Suc.IH [of zs] n None by simp
  next
    case (Some k)
    let ?z = "(zs ! n)\<lparr>lz_queue := lr_upd k (\<lambda>lr. lr\<lparr>ln_count := ln_count lr - 1\<rparr>) (lz_queue (zs ! n)), lz_node := None\<rparr>"
    have "lr_quiet ?z" by (rule lr_release [OF n(2) Some]) simp_all
    then have "list_all lr_quiet (drop n (zs[n := ?z]))" using n by (simp add: list_all_drop_Suc)
    then show ?thesis using Suc.IH [of "zs[n := ?z]"] n Some by simp
  qed
qed simp

lemma account_quiet:
  "n \<le> length zs \<Longrightarrow> list_all lr_held (take n zs) \<Longrightarrow> list_all lr_quiet (drop n zs) \<Longrightarrow>
    list_all lr_quiet (snd (account_loop now limits n d zs))"
proof (induction n arbitrary: zs d)
  case (Suc n)
  then have n: "n < length zs" "lr_held (zs ! n)" "list_all lr_held (take n zs)" "list_all lr_quiet (drop (Suc n) zs)"
    by (auto simp: list_all_take_Suc)
  show ?case
  proof (cases "lz_node (zs ! n)")
    case None
    then have "list_all lr_quiet (drop n zs)" using n by (simp add: list_all_drop_Suc lr_quiet_def)
    then show ?thesis using Suc.IH [of zs] n None by simp
  next
    case (Some k)
    let ?z = "(zs ! n)\<lparr>lz_queue := lr_upd k (lr_account_node now (lz_rate (zs ! n))) (lz_queue (zs ! n)), lz_node := None\<rparr>"
    have "lr_quiet ?z" by (rule lr_release [OF n(2) Some]) (simp_all add: lr_account_node_def Let_def)
    then have "list_all lr_quiet (drop n (zs[n := ?z]))" using n by (simp add: list_all_drop_Suc)
    then show ?thesis using Suc.IH [of "zs[n := ?z]"] n Some by (simp add: Let_def)
  qed
qed simp

text \<open>The zones when the loop of the handler stops at the limit \<open>n\<close>.\<close>

lemma handler_loop_held:
  assumes "handler_loop alloc now limits n keys rc excess zs = (n', rc', excess', zs')"
    "list_all lr_held (take n zs)" "list_all lr_quiet (drop n zs)" "n + length keys \<le> length zs"
    "rc = NGX_DECLINED \<Longrightarrow> list_all lr_quiet zs"
  shows "case rc' of None \<Rightarrow> list_all lr_quiet zs'
    | Some rc' \<Rightarrow> n' \<le> length zs' \<and> list_all lr_held (take n' zs') \<and> list_all lr_quiet (drop n' zs') \<and>
        (rc' = NGX_DECLINED \<longrightarrow> list_all lr_quiet zs')"
  using assms
proof (induction alloc now limits n keys rc excess zs arbitrary: n' rc' excess' zs' rule: handler_loop.induct)
  case (2 alloc now limits n keys rc excess zs)
  then show ?case using unlock_quiet [of n zs] by auto
next
  case (3 alloc now limits n key keys rc excess zs)
  have n: "n < length zs" "lr_quiet (zs ! n)" "list_all lr_quiet (drop (Suc n) zs)"
    using 3(4-6) by (auto simp: list_all_drop_Suc)
  show ?case
  proof (cases "length key = 0 \<or> length key > 65535")
    case True
    have "lr_held (zs ! n)" using n by (simp add: lr_quiet_def)
    then show ?thesis using 3(1) [OF True] 3(3-7) True n by (simp add: list_all_take_Suc)
  next
    case False
    obtain rc1 e1 z1 where look:
        "ngx_http_limit_req_lookup alloc now (limits ! n) (zs ! n) key (n = length limits - 1) = (rc1, e1, z1)"
      using prod_cases3 by blast
    note held = lookup_held [OF n(2) look]
    show ?thesis
    proof (cases "rc1 = NGX_AGAIN")
      case False': False
      then have "list_all lr_quiet (drop n (zs[n := z1]))" using held n by (simp add: list_all_drop_Suc)
      moreover have "rc1 \<noteq> NGX_DECLINED" using look
        by (auto simp: ngx_http_limit_req_lookup_def Let_def split: option.splits if_splits)
      ultimately show ?thesis using 3(3,4) False False' look n by auto
    next
      case True
      then show ?thesis
        using 3(2) [OF False look [symmetric] refl] 3(3,4,6) False look n held
        by (simp add: list_all_take_Suc)
    qed
  qed
qed auto



end
