(* ===== verification/Ngx_Codec.thy ===== *)
theory Ngx_Codec
  imports Ngx_Prelude
begin

text \<open>
  The byte encodings of \<open>src/core/ngx_string.c\<close>: hexadecimal dumps, base64 with its two
  alphabets, and UTF-8. The tables are those of the source, the alphabets as character
  codes. A destination buffer is the list of the bytes written to it.
\<close>

section \<open>Hexadecimal\<close>

definition hex_dump_digit :: "byte \<Rightarrow> byte" where
  "hex_dump_digit d = [48, 49, 50, 51, 52, 53, 54, 55, 56, 57, 97, 98, 99, 100, 101, 102] ! unat d"

fun ngx_hex_dump :: "ngx_str \<Rightarrow> ngx_str" where
  "ngx_hex_dump [] = []"
| "ngx_hex_dump (c # src) = hex_dump_digit (drop_bit 4 c) # hex_dump_digit (c AND 0xf) # ngx_hex_dump src"

section \<open>Base64\<close>

definition basis64 :: "byte list" where
  "basis64 = [
     65, 66, 67, 68, 69, 70, 71, 72, 73, 74, 75, 76, 77, 78, 79, 80,
     81, 82, 83, 84, 85, 86, 87, 88, 89, 90, 97, 98, 99, 100, 101, 102,
     103, 104, 105, 106, 107, 108, 109, 110, 111, 112, 113, 114, 115, 116, 117, 118,
     119, 120, 121, 122, 48, 49, 50, 51, 52, 53, 54, 55, 56, 57, 43, 47]"

definition basis64url :: "byte list" where
  "basis64url = [
     65, 66, 67, 68, 69, 70, 71, 72, 73, 74, 75, 76, 77, 78, 79, 80,
     81, 82, 83, 84, 85, 86, 87, 88, 89, 90, 97, 98, 99, 100, 101, 102,
     103, 104, 105, 106, 107, 108, 109, 110, 111, 112, 113, 114, 115, 116, 117, 118,
     119, 120, 121, 122, 48, 49, 50, 51, 52, 53, 54, 55, 56, 57, 45, 95]"

definition unbasis64 :: "byte list" where
  "unbasis64 = [
     77, 77, 77, 77, 77, 77, 77, 77, 77, 77, 77, 77, 77, 77, 77, 77,
     77, 77, 77, 77, 77, 77, 77, 77, 77, 77, 77, 77, 77, 77, 77, 77,
     77, 77, 77, 77, 77, 77, 77, 77, 77, 77, 77, 62, 77, 77, 77, 63,
     52, 53, 54, 55, 56, 57, 58, 59, 60, 61, 77, 77, 77, 77, 77, 77,
     77, 0, 1, 2, 3, 4, 5, 6, 7, 8, 9, 10, 11, 12, 13, 14,
     15, 16, 17, 18, 19, 20, 21, 22, 23, 24, 25, 77, 77, 77, 77, 77,
     77, 26, 27, 28, 29, 30, 31, 32, 33, 34, 35, 36, 37, 38, 39, 40,
     41, 42, 43, 44, 45, 46, 47, 48, 49, 50, 51, 77, 77, 77, 77, 77,
     77, 77, 77, 77, 77, 77, 77, 77, 77, 77, 77, 77, 77, 77, 77, 77,
     77, 77, 77, 77, 77, 77, 77, 77, 77, 77, 77, 77, 77, 77, 77, 77,
     77, 77, 77, 77, 77, 77, 77, 77, 77, 77, 77, 77, 77, 77, 77, 77,
     77, 77, 77, 77, 77, 77, 77, 77, 77, 77, 77, 77, 77, 77, 77, 77,
     77, 77, 77, 77, 77, 77, 77, 77, 77, 77, 77, 77, 77, 77, 77, 77,
     77, 77, 77, 77, 77, 77, 77, 77, 77, 77, 77, 77, 77, 77, 77, 77,
     77, 77, 77, 77, 77, 77, 77, 77, 77, 77, 77, 77, 77, 77, 77, 77,
     77, 77, 77, 77, 77, 77, 77, 77, 77, 77, 77, 77, 77, 77, 77, 77]"

definition unbasis64url :: "byte list" where
  "unbasis64url = [
     77, 77, 77, 77, 77, 77, 77, 77, 77, 77, 77, 77, 77, 77, 77, 77,
     77, 77, 77, 77, 77, 77, 77, 77, 77, 77, 77, 77, 77, 77, 77, 77,
     77, 77, 77, 77, 77, 77, 77, 77, 77, 77, 77, 77, 77, 62, 77, 77,
     52, 53, 54, 55, 56, 57, 58, 59, 60, 61, 77, 77, 77, 77, 77, 77,
     77, 0, 1, 2, 3, 4, 5, 6, 7, 8, 9, 10, 11, 12, 13, 14,
     15, 16, 17, 18, 19, 20, 21, 22, 23, 24, 25, 77, 77, 77, 77, 63,
     77, 26, 27, 28, 29, 30, 31, 32, 33, 34, 35, 36, 37, 38, 39, 40,
     41, 42, 43, 44, 45, 46, 47, 48, 49, 50, 51, 77, 77, 77, 77, 77,
     77, 77, 77, 77, 77, 77, 77, 77, 77, 77, 77, 77, 77, 77, 77, 77,
     77, 77, 77, 77, 77, 77, 77, 77, 77, 77, 77, 77, 77, 77, 77, 77,
     77, 77, 77, 77, 77, 77, 77, 77, 77, 77, 77, 77, 77, 77, 77, 77,
     77, 77, 77, 77, 77, 77, 77, 77, 77, 77, 77, 77, 77, 77, 77, 77,
     77, 77, 77, 77, 77, 77, 77, 77, 77, 77, 77, 77, 77, 77, 77, 77,
     77, 77, 77, 77, 77, 77, 77, 77, 77, 77, 77, 77, 77, 77, 77, 77,
     77, 77, 77, 77, 77, 77, 77, 77, 77, 77, 77, 77, 77, 77, 77, 77,
     77, 77, 77, 77, 77, 77, 77, 77, 77, 77, 77, 77, 77, 77, 77, 77]"

text \<open>\<open>ngx_encode_base64_internal\<close>, with \<open>s\<close> the part of the source not yet read.\<close>

fun ngx_encode_base64_internal :: "byte list \<Rightarrow> bool \<Rightarrow> ngx_str \<Rightarrow> ngx_str" where
  "ngx_encode_base64_internal basis padding (s0 # s1 # s2 # s) =
     basis ! unat (drop_bit 2 s0 AND 0x3f)
     # basis ! unat (push_bit 4 (s0 AND 3) OR drop_bit 4 s1)
     # basis ! unat (push_bit 2 (s1 AND 0x0f) OR drop_bit 6 s2)
     # basis ! unat (s2 AND 0x3f)
     # ngx_encode_base64_internal basis padding s"
| "ngx_encode_base64_internal basis padding [] = []"
| "ngx_encode_base64_internal basis padding [s0] =
     basis ! unat (drop_bit 2 s0 AND 0x3f) # basis ! unat (push_bit 4 (s0 AND 3))
     # (if padding then [ch_eq, ch_eq] else [])"
| "ngx_encode_base64_internal basis padding [s0, s1] =
     basis ! unat (drop_bit 2 s0 AND 0x3f)
     # basis ! unat (push_bit 4 (s0 AND 3) OR drop_bit 4 s1)
     # basis ! unat (push_bit 2 (s1 AND 0x0f))
     # (if padding then [ch_eq] else [])"

definition ngx_encode_base64 :: "ngx_str \<Rightarrow> ngx_str" where
  "ngx_encode_base64 src = ngx_encode_base64_internal basis64 True src"

definition ngx_encode_base64url :: "ngx_str \<Rightarrow> ngx_str" where
  "ngx_encode_base64url src = ngx_encode_base64_internal basis64url False src"

text \<open>The bytes before the first equals sign, all of them in the alphabet: \<open>None\<close> otherwise.\<close>

fun base64_scan :: "byte list \<Rightarrow> ngx_str \<Rightarrow> ngx_str option" where
  "base64_scan basis [] = Some []"
| "base64_scan basis (c # src) =
     (if c = ch_eq then Some []
      else if basis ! unat c = 77 then None
      else map_option (Cons c) (base64_scan basis src))"

fun base64_groups :: "byte list \<Rightarrow> ngx_str \<Rightarrow> ngx_str" where
  "base64_groups basis (s0 # s1 # s2 # s3 # s) =
     (push_bit 2 (basis ! unat s0) OR drop_bit 4 (basis ! unat s1))
     # (push_bit 4 (basis ! unat s1) OR drop_bit 2 (basis ! unat s2))
     # (push_bit 6 (basis ! unat s2) OR basis ! unat s3)
     # base64_groups basis s"
| "base64_groups basis [s0, s1, s2] =
     [push_bit 2 (basis ! unat s0) OR drop_bit 4 (basis ! unat s1),
      push_bit 4 (basis ! unat s1) OR drop_bit 2 (basis ! unat s2)]"
| "base64_groups basis [s0, s1] = [push_bit 2 (basis ! unat s0) OR drop_bit 4 (basis ! unat s1)]"
| "base64_groups basis _ = []"

definition ngx_decode_base64_internal :: "byte list \<Rightarrow> ngx_str \<Rightarrow> ngx_str option" where
  "ngx_decode_base64_internal basis src =
     (case base64_scan basis src of
        None \<Rightarrow> None
      | Some s \<Rightarrow> if length s mod 4 = 1 then None else Some (base64_groups basis s))"

definition ngx_decode_base64 :: "ngx_str \<Rightarrow> ngx_str option" where
  "ngx_decode_base64 src = ngx_decode_base64_internal unbasis64 src"

definition ngx_decode_base64url :: "ngx_str \<Rightarrow> ngx_str option" where
  "ngx_decode_base64url src = ngx_decode_base64_internal unbasis64url src"

definition ngx_base64_encoded_length :: "nat \<Rightarrow> nat" where
  "ngx_base64_encoded_length len = (len + 2) div 3 * 4"

definition ngx_base64_decoded_length :: "nat \<Rightarrow> nat" where
  "ngx_base64_decoded_length len = (len + 3) div 4 * 3"

section \<open>UTF-8\<close>

text \<open>The lead byte: the bits of it that count, \<open>valid\<close>, and the bytes that follow.\<close>

definition utf8_lead :: "byte \<Rightarrow> (u32 \<times> u32 \<times> nat) option" where
  "utf8_lead c =
     (let u = ucast c in
      if u \<ge> 0xf0 then Some (u AND 0x07, 0xffff, 3)
      else if u \<ge> 0xe0 then Some (u AND 0x0f, 0x7ff, 2)
      else if u \<ge> 0xc2 then Some (u AND 0x1f, 0x7f, 1)
      else None)"

text \<open>The loop of \<open>ngx_utf8_decode\<close>: \<open>None\<close> for the error, and the pointer it leaves.\<close>

fun utf8_tail :: "byte list \<Rightarrow> nat \<Rightarrow> nat \<Rightarrow> u32 \<Rightarrow> u32 option \<times> nat" where
  "utf8_tail mem p 0 u = (Some u, p)"
| "utf8_tail mem p (Suc len) u =
     (if mem ! p < 0x80 then (None, Suc p)
      else utf8_tail mem (Suc p) len (push_bit 6 u OR (ucast (mem ! p) AND 0x3f)))"

text \<open>\<open>ngx_utf8_decode (&p, n)\<close>, with \<open>n - 1\<close> in \<open>size_t\<close>: the code and the new \<open>p\<close>.\<close>

definition ngx_utf8_decode :: "byte list \<Rightarrow> nat \<Rightarrow> u64 \<Rightarrow> u32 \<times> nat" where
  "ngx_utf8_decode mem p n =
     (case utf8_lead (mem ! p) of
        None \<Rightarrow> (0xffffffff, Suc p)
      | Some (u, valid, len) \<Rightarrow>
          if n - 1 < of_nat len then (0xfffffffe, p)
          else
            (case utf8_tail mem (Suc p) len u of
               (None, p) \<Rightarrow> (0xffffffff, p)
             | (Some u, p) \<Rightarrow> (if u > valid then u else 0xffffffff, p)))"

lemma utf8_tail_pos: "p \<le> snd (utf8_tail mem p len u)"
  by (induction mem p len u rule: utf8_tail.induct) auto

lemma utf8_decode_advances:
  assumes "fst (ngx_utf8_decode mem p n) \<le> 0x10ffff"
  shows "p < snd (ngx_utf8_decode mem p n)"
proof -
  have "p < snd (utf8_tail mem (Suc p) len u)" for len u
    using utf8_tail_pos [of "Suc p" mem len u] by simp
  then show ?thesis using assms
    by (auto simp: ngx_utf8_decode_def split: option.splits prod.splits if_splits) (metis snd_conv)+
qed

text \<open>\<open>ngx_utf8_length\<close>: the loop returns \<open>None\<close> for invalid text.\<close>

function utf8_length_loop :: "byte list \<Rightarrow> nat \<Rightarrow> nat \<Rightarrow> nat \<Rightarrow> nat option" where
  "utf8_length_loop mem p last' len =
     (if p < last' then
        (if mem ! p < 0x80 then utf8_length_loop mem (Suc p) last' (Suc len)
         else if fst (ngx_utf8_decode mem p (of_nat (last' - p))) > 0x10ffff then None
         else utf8_length_loop mem (snd (ngx_utf8_decode mem p (of_nat (last' - p)))) last' (Suc len))
      else Some len)"
  by pat_completeness auto
termination
proof (relation "measure (\<lambda>(mem, p, last', len). last' - p)")
  fix mem :: "byte list" and p last' len :: nat
  assume "p < last'" "\<not> fst (ngx_utf8_decode mem p (of_nat (last' - p))) > 0x10ffff"
  then have "p < snd (ngx_utf8_decode mem p (of_nat (last' - p)))"
    by (intro utf8_decode_advances) simp
  then show "((mem, snd (ngx_utf8_decode mem p (of_nat (last' - p))), last', Suc len), mem, p, last', len)
      \<in> measure (\<lambda>(mem, p, last', len). last' - p)"
    using \<open>p < last'\<close> by simp
qed auto

declare utf8_length_loop.simps [simp del]

definition ngx_utf8_length :: "byte list \<Rightarrow> nat \<Rightarrow> nat \<Rightarrow> nat" where
  "ngx_utf8_length mem p n = (case utf8_length_loop mem p (p + n) 0 of None \<Rightarrow> n | Some len \<Rightarrow> len)"

text \<open>
  The loop of \<open>ngx_utf8_cpystrn\<close>, after \<open>--n\<close>: the bytes it leaves before the pointer it
  returns, where the terminating NUL stands. \<open>out\<close> is what was written so far.
\<close>

fun cpystrn_loop :: "byte list \<Rightarrow> nat \<Rightarrow> nat \<Rightarrow> u64 \<Rightarrow> byte list \<Rightarrow> byte list" where
  "cpystrn_loop mem 0 src len out = out"
| "cpystrn_loop mem (Suc n) src len out =
     (let c = mem ! src in
      if c < 0x80 then
        (if c \<noteq> 0 then cpystrn_loop mem n (Suc src) (len - 1) (out @ [c]) else out)
      else
        (case ngx_utf8_decode mem src len of
           (u, next') \<Rightarrow>
             if u > 0x10ffff then out
             else cpystrn_loop mem n next' (len - of_nat (next' - src)) (out @ slice mem src next')))"

text \<open>\<open>ngx_utf8_cpystrn\<close>: what it writes, and the offset of the pointer it returns.\<close>

definition ngx_utf8_cpystrn :: "byte list \<Rightarrow> nat \<Rightarrow> nat \<Rightarrow> u64 \<Rightarrow> byte list \<times> nat" where
  "ngx_utf8_cpystrn mem src n len =
     (if n = 0 then ([], 0)
      else (let out = cpystrn_loop mem (n - 1) src len [] in (out @ [0], length out)))"

section \<open>Hexadecimal dumps\<close>

lemma hex_dump_digit_value:
  "hex_digit (hex_dump_digit (drop_bit 4 c)) = Some (drop_bit 4 c) \<and> hex_digit (hex_dump_digit (c AND 0xf)) = Some (c AND 0xf)"
  by (rule byte_allI [of "\<lambda>c. hex_digit (hex_dump_digit (drop_bit 4 c)) = Some (drop_bit 4 c) \<and>
      hex_digit (hex_dump_digit (c AND 0xf)) = Some (c AND 0xf)"], code_simp)

text \<open>The digits of a dump are read by \<open>hex_digit\<close> as the nibbles of the source.\<close>

lemma hex_dump_nibbles:
  "map hex_digit (ngx_hex_dump s) = concat (map (\<lambda>c. [Some (drop_bit 4 c), Some (c AND 0xf)]) s)"
  by (induction s) (simp_all only: ngx_hex_dump.simps list.map concat.simps hex_dump_digit_value append_Cons append_Nil)

section \<open>Base64 round trips\<close>

text \<open>What the two pairs of tables have in common.\<close>

locale base64_tables =
  fixes basis unbasis :: "byte list"
  assumes decode_digit: "\<And>w::byte. w < 64 \<Longrightarrow> unbasis ! unat (basis ! unat w) = w"
    and digit_not_eq: "\<And>w::byte. w < 64 \<Longrightarrow> basis ! unat w \<noteq> ch_eq"

lemma byte_less_64: "(w::byte) < 64 \<longleftrightarrow> \<not> bit w 6 \<and> \<not> bit w 7"
  by (rule byte_allI [of "\<lambda>w. w < 64 \<longleftrightarrow> \<not> bit w 6 \<and> \<not> bit w 7"], code_simp)

lemma byte_masks: "(3::byte) = mask 2" "(0x0f::byte) = mask 4" "(0x3f::byte) = mask 6"
  by (simp_all add: mask_eq_exp_minus_1)

lemma byte_eqI:
  assumes "list_all (\<lambda>n. bit a n \<longleftrightarrow> bit b n) [0, 1, 2, 3, 4, 5, 6, 7]"
  shows "a = (b::byte)"
proof (rule bit_word_eqI)
  fix n assume "n < LENGTH(8)"
  then have "n \<in> set [0, 1, 2, 3, 4, 5, 6, 7]" by auto
  then show "bit a n \<longleftrightarrow> bit b n" using assms by (auto simp: list_all_iff)
qed

text \<open>The four sextets of three bytes.\<close>

definition sextet1 :: "byte \<Rightarrow> byte" where
  "sextet1 a = drop_bit 2 a AND 0x3f"

definition sextet2 :: "byte \<Rightarrow> byte \<Rightarrow> byte" where
  "sextet2 a b = push_bit 4 (a AND 3) OR drop_bit 4 b"

definition sextet3 :: "byte \<Rightarrow> byte \<Rightarrow> byte" where
  "sextet3 b c = push_bit 2 (b AND 0x0f) OR drop_bit 6 c"

definition sextet4 :: "byte \<Rightarrow> byte" where
  "sextet4 c = c AND 0x3f"

lemmas sextet_defs = sextet1_def sextet2_def sextet3_def sextet4_def

lemma sextet_less: "sextet1 a < 64" "sextet2 a b < 64" "sextet3 b c < 64" "sextet4 c < 64"
  unfolding sextet_defs byte_masks byte_less_64 by (auto simp: bit_simps dest: bit_imp_le_length)

lemma regroup1: "push_bit 2 (sextet1 a) OR drop_bit 4 (sextet2 a b) = a"
  unfolding sextet_defs byte_masks
  by (rule byte_eqI, simp add: bit_simps, simp add: numeral_2_eq_2 numeral_3_eq_3)

lemma regroup2: "push_bit 4 (sextet2 a b) OR drop_bit 2 (sextet3 b c) = b"
  unfolding sextet_defs byte_masks by (rule byte_eqI, simp add: bit_simps)

lemma regroup3: "push_bit 6 (sextet3 b c) OR sextet4 c = c"
  unfolding sextet_defs byte_masks by (rule byte_eqI, simp add: bit_simps)

lemmas regroup = regroup1 regroup2 regroup3

lemma encode_sextets:
  "ngx_encode_base64_internal basis padding (s0 # s1 # s2 # s) =
     map (\<lambda>w. basis ! unat w) [sextet1 s0, sextet2 s0 s1, sextet3 s1 s2, sextet4 s2]
     @ ngx_encode_base64_internal basis padding s"
  "ngx_encode_base64_internal basis padding [s0] =
     map (\<lambda>w. basis ! unat w) [sextet1 s0, sextet2 s0 0] @ (if padding then [ch_eq, ch_eq] else [])"
  "ngx_encode_base64_internal basis padding [s0, s1] =
     map (\<lambda>w. basis ! unat w) [sextet1 s0, sextet2 s0 s1, sextet3 s1 0] @ (if padding then [ch_eq] else [])"
  by (simp_all add: sextet_defs)

declare ngx_encode_base64_internal.simps(1,3,4) [simp del]
declare encode_sextets [simp]

lemma induct_3:
  assumes "P []" "\<And>a. P [a]" "\<And>a b. P [a, b]" "\<And>a b c s. P s \<Longrightarrow> P (a # b # c # s)"
  shows "P (s::ngx_str)"
  using assms by (induction "[]::byte list" False s rule: ngx_encode_base64_internal.induct) auto

context base64_tables
begin

lemma scan_digit:
  "(w::byte) < 64 \<Longrightarrow> base64_scan unbasis (basis ! unat w # s) = map_option (Cons (basis ! unat w)) (base64_scan unbasis s)"
  using decode_digit [of w] digit_not_eq [of w] by auto

lemma scan_encoded:
  "base64_scan unbasis (ngx_encode_base64_internal basis padding s) = Some (ngx_encode_base64_internal basis False s)"
  by (induction s rule: induct_3)
    (simp_all add: scan_digit sextet_less del: base64_scan.simps(2), simp_all)

lemma groups_encoded: "base64_groups unbasis (ngx_encode_base64_internal basis False s) = s"
  by (induction s rule: induct_3) (simp_all add: decode_digit sextet_less regroup)

lemma decode_encode:
  "ngx_decode_base64_internal unbasis (ngx_encode_base64_internal basis padding s) = Some s"
proof -
  have "length (ngx_encode_base64_internal basis False s) mod 4 \<noteq> 1"
    by (induction s rule: induct_3) auto
  then show ?thesis by (simp add: ngx_decode_base64_internal_def scan_encoded groups_encoded)
qed

end

lemma digits_checked:
  assumes "list_all (\<lambda>n. unbasis ! unat (basis ! n) = word_of_nat n \<and> basis ! n \<noteq> ch_eq) [0..<64]" "(w::byte) < 64"
  shows "unbasis ! unat (basis ! unat w) = w" "basis ! unat w \<noteq> ch_eq"
proof -
  have "unat w \<in> set [0..<64]" using assms(2) by (simp add: word_less_nat_alt)
  then show "unbasis ! unat (basis ! unat w) = w" "basis ! unat w \<noteq> ch_eq"
    using assms(1) by (auto simp: list_all_iff)
qed

lemma digits_64:
  "list_all (\<lambda>n. unbasis64 ! unat (basis64 ! n) = word_of_nat n \<and> basis64 ! n \<noteq> ch_eq) [0..<64]"
  by code_simp

interpretation b64: base64_tables basis64 unbasis64
  by unfold_locales (rule digits_checked [OF digits_64]; assumption)+

lemma digits_64url:
  "list_all (\<lambda>n. unbasis64url ! unat (basis64url ! n) = word_of_nat n \<and> basis64url ! n \<noteq> ch_eq) [0..<64]"
  by code_simp

interpretation b64url: base64_tables basis64url unbasis64url
  by unfold_locales (rule digits_checked [OF digits_64url]; assumption)+

text \<open>
  C39: base64 decoding inverts encoding, in both alphabets and for every byte string; the
  decoder of the URL alphabet also needs no padding.
\<close>

theorem base64_roundtrip:
  "ngx_decode_base64 (ngx_encode_base64 s) = Some s \<and> ngx_decode_base64url (ngx_encode_base64url s) = Some s"
  by (simp add: ngx_decode_base64_def ngx_encode_base64_def ngx_decode_base64url_def ngx_encode_base64url_def
      b64.decode_encode b64url.decode_encode)

lemma encoded_length_step: "ngx_base64_encoded_length (Suc (Suc (Suc n))) = ngx_base64_encoded_length n + 4"
  using div_add_self2 [of 3 "n + 2"] by (simp add: ngx_base64_encoded_length_def)

lemma encode_length:
  "length (ngx_encode_base64_internal basis padding s) \<le> ngx_base64_encoded_length (length s) \<and>
   (padding \<longrightarrow> length (ngx_encode_base64_internal basis padding s) = ngx_base64_encoded_length (length s))"
  by (induction s rule: induct_3) (simp_all add: encoded_length_step, simp_all add: ngx_base64_encoded_length_def)

lemma base64_scan_length: "base64_scan basis src = Some s \<Longrightarrow> length s \<le> length src"
  by (induction src arbitrary: s) (auto split: if_splits)

lemma decoded_length_step: "ngx_base64_decoded_length (Suc (Suc (Suc (Suc n)))) = ngx_base64_decoded_length n + 3"
  using div_add_self2 [of 4 "n + 3"] by (simp add: ngx_base64_decoded_length_def)

lemma base64_groups_length: "length (base64_groups basis s) \<le> ngx_base64_decoded_length (length s)"
  by (induction basis s rule: base64_groups.induct)
    (simp_all add: decoded_length_step, simp_all add: ngx_base64_decoded_length_def)

lemma decode_length:
  assumes "ngx_decode_base64_internal basis s = Some d"
  shows "length d \<le> ngx_base64_decoded_length (length s)"
proof -
  obtain t where "base64_scan basis s = Some t" "d = base64_groups basis t"
    using assms by (auto simp: ngx_decode_base64_internal_def split: option.splits if_splits)
  then have "length t \<le> length s" "length d \<le> ngx_base64_decoded_length (length t)"
    using base64_scan_length base64_groups_length by auto
  then show ?thesis
    by (simp add: ngx_base64_decoded_length_def) (meson add_le_mono1 div_le_mono le_trans mult_le_mono1)
qed

text \<open>
  The lengths the callers allocate by the macros \<open>ngx_base64_encoded_length\<close> and
  \<open>ngx_base64_decoded_length\<close> are enough for what is written, exactly so for the padded
  encoding, whatever the input.
\<close>

theorem base64_lengths:
  "length (ngx_encode_base64 s) = ngx_base64_encoded_length (length s) \<and>
   length (ngx_encode_base64url s) \<le> ngx_base64_encoded_length (length s) \<and>
   (case ngx_decode_base64 s of None \<Rightarrow> True | Some d \<Rightarrow> length d \<le> ngx_base64_decoded_length (length s)) \<and>
   (case ngx_decode_base64url s of None \<Rightarrow> True | Some d \<Rightarrow> length d \<le> ngx_base64_decoded_length (length s))"
  using encode_length [of _ True] encode_length [of _ False] decode_length
  by (auto simp: ngx_encode_base64_def ngx_encode_base64url_def ngx_decode_base64_def ngx_decode_base64url_def
      split: option.splits)

section \<open>UTF-8 round trips\<close>

text \<open>The encoding of a code point (RFC 3629).\<close>

definition byte_of :: "nat \<Rightarrow> byte" where
  "byte_of n = word_of_nat n"

definition utf8_encode :: "nat \<Rightarrow> byte list" where
  "utf8_encode u =
     (if u < 0x80 then [byte_of u]
      else if u < 0x800 then [byte_of (0xc0 + u div 64), byte_of (0x80 + u mod 64)]
      else if u < 0x10000 then
        [byte_of (0xe0 + u div 4096), byte_of (0x80 + u div 64 mod 64), byte_of (0x80 + u mod 64)]
      else
        [byte_of (0xf0 + u div 262144), byte_of (0x80 + u div 4096 mod 64),
         byte_of (0x80 + u div 64 mod 64), byte_of (0x80 + u mod 64)])"

lemma utf8_shift:
  assumes "unat (u::u32) < 1048576" "k < 64"
  shows "push_bit 6 u OR (ucast (byte_of (0x80 + k)) AND 0x3f) = word_of_nat (unat u * 64 + k)"
proof -
  have k: "(ucast (byte_of (0x80 + k)) :: u32) AND 0x3f = word_of_nat k"
  proof -
    have "list_all (\<lambda>k. (ucast (byte_of (0x80 + k)) :: u32) AND 0x3f = word_of_nat k) [0..<64]"
      by code_simp
    then show ?thesis using assms(2) by (auto simp: list_all_iff)
  qed
  have "push_bit 6 u AND (word_of_nat k :: u32) = 0"
  proof (rule bit_word_eqI)
    fix n assume "n < LENGTH(32)"
    have "\<not> bit (word_of_nat k :: u32) n" if "6 \<le> n"
    proof -
      have "k < 2 ^ n" using assms(2) power_increasing [OF that, of "2::nat"] by simp
      then have "\<not> bit k n" by (simp add: bit_iff_odd)
      then show ?thesis by (simp add: bit_of_nat_iff)
    qed
    then show "bit (push_bit 6 u AND (word_of_nat k :: u32)) n \<longleftrightarrow> bit (0::u32) n"
      by (auto simp: bit_simps)
  qed
  then have "push_bit 6 u OR word_of_nat k = push_bit 6 u + word_of_nat k"
    by (simp only: disjunctive_add_eq_or)
  moreover have "push_bit 6 u + word_of_nat k = word_of_nat (unat u * 64 + k)"
    by (simp add: push_bit_eq_mult mult.commute)
  ultimately show ?thesis by (simp only: k)
qed

lemma utf8_lead_byte:
  "k < 8 \<Longrightarrow> utf8_lead (byte_of (0xf0 + k)) = Some (word_of_nat k, 0xffff, 3)"
  "k < 16 \<Longrightarrow> utf8_lead (byte_of (0xe0 + k)) = Some (word_of_nat k, 0x7ff, 2)"
  "2 \<le> k \<Longrightarrow> k < 32 \<Longrightarrow> utf8_lead (byte_of (0xc0 + k)) = Some (word_of_nat k, 0x7f, 1)"
proof -
  have "list_all (\<lambda>k. utf8_lead (byte_of (0xf0 + k)) = Some (word_of_nat k, 0xffff, 3)) [0..<8]"
    "list_all (\<lambda>k. utf8_lead (byte_of (0xe0 + k)) = Some (word_of_nat k, 0x7ff, 2)) [0..<16]"
    "list_all (\<lambda>k. utf8_lead (byte_of (0xc0 + k)) = Some (word_of_nat k, 0x7f, 1)) [2..<32]"
    by code_simp+
  then show "k < 8 \<Longrightarrow> utf8_lead (byte_of (0xf0 + k)) = Some (word_of_nat k, 0xffff, 3)"
    "k < 16 \<Longrightarrow> utf8_lead (byte_of (0xe0 + k)) = Some (word_of_nat k, 0x7ff, 2)"
    "2 \<le> k \<Longrightarrow> k < 32 \<Longrightarrow> utf8_lead (byte_of (0xc0 + k)) = Some (word_of_nat k, 0x7f, 1)"
    unfolding list_all_iff set_upt by auto
qed

lemma utf8_tail_step:
  assumes "mem ! p = byte_of (0x80 + k)" "k < 64" "v < 1048576"
  shows "utf8_tail mem p (Suc len) (word_of_nat v) = utf8_tail mem (Suc p) len (word_of_nat (v * 64 + k))"
proof -
  have "list_all (\<lambda>k. \<not> byte_of (0x80 + k) < 0x80) [0..<64]" by code_simp
  then have "\<not> mem ! p < 0x80" using assms(1,2) by (auto simp: list_all_iff)
  moreover have "unat (word_of_nat v :: u32) = v" using assms(3) by (simp add: unat_of_nat)
  ultimately show ?thesis using utf8_shift [of "word_of_nat v" k] assms by simp
qed

lemma size_t_room:
  assumes "Suc k \<le> unat (n::u64)"
  shows "\<not> n - 1 < of_nat k"
proof -
  have "unat (n - 1) = unat n - 1" using assms by (intro unat_minus_one) auto
  moreover have "k < 2 ^ 64" using assms unsigned_less [of n, where ?'a = nat] by simp
  ultimately show ?thesis using assms by (simp add: word_less_nat_alt unat_of_nat)
qed

text \<open>A list stands in memory at a position.\<close>

definition at_mem :: "byte list \<Rightarrow> nat \<Rightarrow> byte list \<Rightarrow> bool" where
  "at_mem mem p bs \<longleftrightarrow> (\<forall>i < length bs. mem ! (p + i) = bs ! i)"

lemma at_mem_simps [simp]:
  "at_mem mem p []"
  "at_mem mem p (b # bs) \<longleftrightarrow> mem ! p = b \<and> at_mem mem (Suc p) bs"
  by (auto simp: at_mem_def nth_Cons less_Suc_eq_0_disj split: nat.splits)

lemma at_mem_append [simp]:
  "at_mem mem p (bs @ cs) \<longleftrightarrow> at_mem mem p bs \<and> at_mem mem (p + length bs) cs"
  by (induction bs arbitrary: p) simp_all

lemma utf8_code_points:
  assumes "u \<le> (0x10ffff::nat)"
  shows "u div 64 * 64 + u mod 64 = u" "u div 4096 * 64 + u div 64 mod 64 = u div 64"
    "u div 262144 * 64 + u div 4096 mod 64 = u div 4096"
proof -
  have "u div 4096 = u div 64 div 64" "u div 262144 = u div 4096 div 64" by (simp_all add: div_mult2_eq [symmetric])
  then show "u div 64 * 64 + u mod 64 = u" "u div 4096 * 64 + u div 64 mod 64 = u div 64"
    "u div 262144 * 64 + u div 4096 mod 64 = u div 4096" by simp_all
qed

lemma u32_less:
  assumes "u \<le> 0x10ffff" "v \<le> 0x10ffff"
  shows "(word_of_nat v :: u32) < word_of_nat u \<longleftrightarrow> v < u"
  using assms by (simp add: word_less_nat_alt unat_of_nat)

lemma utf8_decode_encoded:
  assumes "0x80 \<le> u" "u \<le> 0x10ffff" "at_mem mem p (utf8_encode u)" "length (utf8_encode u) \<le> unat n"
  shows "ngx_utf8_decode mem p n = (word_of_nat u, p + length (utf8_encode u))"
proof -
  note cp = utf8_code_points [OF assms(2)]
  consider "u < 0x800" | "0x800 \<le> u" "u < 0x10000" | "0x10000 \<le> u" by linarith
  then show ?thesis
  proof cases
    case 1
    then have "u div 64 < 32" "2 \<le> u div 64" using assms(1) by auto
    then have "utf8_lead (mem ! p) = Some (word_of_nat (u div 64), 0x7f, 1)" "mem ! Suc p = byte_of (0x80 + u mod 64)"
      using assms 1 utf8_lead_byte(3) by (auto simp: utf8_encode_def)
    then show ?thesis
      using 1 assms size_t_room [of 1 n] utf8_tail_step [of mem "Suc p" "u mod 64" "u div 64" 0] cp u32_less [OF assms(2), of "0x7f"]
      by (simp add: ngx_utf8_decode_def utf8_encode_def)
  next
    case 2
    then have "u div 4096 < 16" by auto
    then have "utf8_lead (mem ! p) = Some (word_of_nat (u div 4096), 0x7ff, 2)"
        "mem ! Suc p = byte_of (0x80 + u div 64 mod 64)" "mem ! Suc (Suc p) = byte_of (0x80 + u mod 64)"
      using assms 2 utf8_lead_byte(2) by (auto simp: utf8_encode_def)
    moreover from this have "utf8_tail mem (Suc p) 2 (word_of_nat (u div 4096)) = (Some (word_of_nat u), Suc (Suc (Suc p)))"
      using assms(2) cp utf8_tail_step [of mem "Suc p" "u div 64 mod 64" "u div 4096" 1]
        utf8_tail_step [of mem "Suc (Suc p)" "u mod 64" "u div 64" 0]
      by (simp add: numeral_2_eq_2 del: utf8_tail.simps(2))
    ultimately show ?thesis using 2 assms size_t_room [of 2 n] u32_less [OF assms(2), of "0x7ff"]
      by (simp add: ngx_utf8_decode_def utf8_encode_def del: utf8_tail.simps(2))
  next
    case 3
    then have "u div 262144 < 8" using assms(2) by auto
    then have "utf8_lead (mem ! p) = Some (word_of_nat (u div 262144), 0xffff, 3)"
        "mem ! Suc p = byte_of (0x80 + u div 4096 mod 64)" "mem ! Suc (Suc p) = byte_of (0x80 + u div 64 mod 64)"
        "mem ! Suc (Suc (Suc p)) = byte_of (0x80 + u mod 64)"
      using assms 3 utf8_lead_byte(1) by (auto simp: utf8_encode_def)
    moreover from this have "utf8_tail mem (Suc p) 3 (word_of_nat (u div 262144)) = (Some (word_of_nat u), Suc (Suc (Suc (Suc p))))"
      using assms(2) cp utf8_tail_step [of mem "Suc p" "u div 4096 mod 64" "u div 262144" 2]
        utf8_tail_step [of mem "Suc (Suc p)" "u div 64 mod 64" "u div 4096" 1]
        utf8_tail_step [of mem "Suc (Suc (Suc p))" "u mod 64" "u div 64" 0]
      by (simp add: numeral_3_eq_3 numeral_2_eq_2 del: utf8_tail.simps(2))
    ultimately show ?thesis using 3 assms size_t_room [of 3 n] u32_less [OF assms(2), of "0xffff"]
      by (simp add: ngx_utf8_decode_def utf8_encode_def del: utf8_tail.simps(2))
  qed
qed

definition utf8_text :: "nat list \<Rightarrow> byte list" where
  "utf8_text us = concat (map utf8_encode us)"

lemma utf8_text_simps [simp]:
  "utf8_text [] = []" "utf8_text (u # us) = utf8_encode u @ utf8_text us"
  by (simp_all add: utf8_text_def)

lemma utf8_ascii:
  assumes "u < 0x80"
  shows "utf8_encode u = [byte_of u]" "byte_of u < 0x80" "byte_of u = 0 \<longleftrightarrow> u = 0"
proof -
  have "unat (byte_of u) = u" using assms by (simp add: byte_of_def unat_of_nat)
  then show "utf8_encode u = [byte_of u]" "byte_of u < 0x80" "byte_of u = 0 \<longleftrightarrow> u = 0"
    using assms by (auto simp: utf8_encode_def word_less_nat_alt unat_eq_zero [symmetric])
qed

lemma utf8_not_ascii:
  assumes "0x80 \<le> u" "u \<le> 0x10ffff"
  obtains c bs where "utf8_encode u = c # bs" "\<not> c < 0x80"
proof -
  have "\<not> byte_of k < 0x80" if "0x80 \<le> k" "k < 0x100" for k
    using that by (simp add: byte_of_def word_less_nat_alt unat_of_nat)
  moreover have "u < 0x800 \<Longrightarrow> u div 64 < 32" "u < 0x10000 \<Longrightarrow> u div 4096 < 16" "u div 262144 < 8"
    using assms by auto
  ultimately have "\<exists>c bs. utf8_encode u = c # bs \<and> \<not> c < 0x80" using assms by (auto simp: utf8_encode_def)
  then show ?thesis using that by blast
qed

lemma u64_nat: "k < 2 ^ 64 \<Longrightarrow> unat (of_nat k :: u64) = k"
  by (simp add: unat_of_nat)

lemma utf8_length_text:
  "list_all (\<lambda>u. u \<le> 0x10ffff) us \<Longrightarrow> at_mem mem p (utf8_text us) \<Longrightarrow> length (utf8_text us) < 2 ^ 64 \<Longrightarrow>
    utf8_length_loop mem p (p + length (utf8_text us)) len = Some (len + length us)"
proof (induction us arbitrary: p len)
  case Nil
  then show ?case by (simp add: utf8_length_loop.simps)
next
  case (Cons u us)
  show ?case
  proof (cases "u < 0x80")
    case True
    then show ?thesis using Cons.IH [of "Suc p" "Suc len"] Cons.prems utf8_ascii [OF True]
      by (subst utf8_length_loop.simps) simp
  next
    case False
    obtain c bs where c: "utf8_encode u = c # bs" "\<not> c < 0x80" using utf8_not_ascii [of u] False Cons.prems(1) by auto
    let ?n = "of_nat (length (utf8_text (u # us))) :: u64"
    have "unat ?n = length (utf8_text (u # us))" using Cons.prems(3) by (rule u64_nat)
    then have "ngx_utf8_decode mem p ?n = (word_of_nat u, p + length (utf8_encode u))"
      using False Cons.prems by (intro utf8_decode_encoded) auto
    moreover have "\<not> (word_of_nat u :: u32) > 0x10ffff"
      using u32_less [of "0x10ffff" u] u32_less [of u "0x10ffff"] Cons.prems(1) by simp
    ultimately show ?thesis using Cons.IH [of "p + length (utf8_encode u)" "Suc len"] Cons.prems c
      by (subst utf8_length_loop.simps) (simp add: add.assoc)
  qed
qed

text \<open>
  \<open>ngx_utf8_length\<close> counts characters: the length of every UTF-8 text is the number of
  its code points, one to four bytes each.
\<close>

theorem utf8_length_correct:
  assumes "list_all (\<lambda>u. u \<le> 0x10ffff) us" "at_mem mem p (utf8_text us)" "length (utf8_text us) < 2 ^ 64"
  shows "ngx_utf8_length mem p (length (utf8_text us)) = length us"
  using utf8_length_text [OF assms, of 0] by (simp add: ngx_utf8_length_def)

theorem utf8_length_correct_witness:
  "ngx_utf8_length (utf8_text [0x41, 0xe9, 0x20ac, 0x1f600]) 0 (length (utf8_text [0x41, 0xe9, 0x20ac, 0x1f600])) = 4"
  using utf8_length_correct [of "[0x41, 0xe9, 0x20ac, 0x1f600]" "utf8_text [0x41, 0xe9, 0x20ac, 0x1f600]" 0]
  by (simp add: utf8_encode_def)

lemma slice_at_mem:
  "at_mem mem p bs \<Longrightarrow> p + length bs \<le> length mem \<Longrightarrow> slice mem p (p + length bs) = bs"
  by (intro nth_equalityI) (auto simp: at_mem_def slice_def)

lemma cpystrn_text:
  "list_all (\<lambda>u. 0 < u \<and> u \<le> 0x10ffff) us \<Longrightarrow> at_mem mem src (utf8_text us @ [0]) \<Longrightarrow>
    src + length (utf8_text us) < length mem \<Longrightarrow> unat len = length (utf8_text us) \<Longrightarrow>
    cpystrn_loop mem n src len out = out @ utf8_text (take n us)"
proof (induction us arbitrary: n src len out)
  case Nil
  then show ?case by (cases n) simp_all
next
  case (Cons u us)
  show ?case
  proof (cases n)
    case (Suc m)
    have len: "unat (len - of_nat (length (utf8_encode u))) = length (utf8_text us)"
    proof -
      have "len = of_nat (length (utf8_encode u) + length (utf8_text us))"
        using Cons.prems(4) by (metis utf8_text_simps(2) length_append of_nat_unat ucast_id)
      moreover have "length (utf8_text us) < 2 ^ 64"
        using Cons.prems(4) unsigned_less [of len, where ?'a = nat] by simp
      ultimately show ?thesis by (simp add: unat_of_nat)
    qed
    show ?thesis
    proof (cases "u < 0x80")
      case True
      then show ?thesis using Cons.IH [of "Suc src" "len - 1" m "out @ [byte_of u]"] Cons.prems Suc len utf8_ascii [OF True]
        by simp
    next
      case False
      obtain c bs where c: "utf8_encode u = c # bs" "\<not> c < 0x80" using utf8_not_ascii [of u] False Cons.prems(1) by auto
      have "ngx_utf8_decode mem src len = (word_of_nat u, src + length (utf8_encode u))"
        using False Cons.prems by (intro utf8_decode_encoded) auto
      moreover have "\<not> (word_of_nat u :: u32) > 0x10ffff"
        using u32_less [of u "0x10ffff"] Cons.prems(1) by simp
      moreover have "slice mem src (src + length (utf8_encode u)) = utf8_encode u"
        using Cons.prems by (intro slice_at_mem) auto
      ultimately show ?thesis
        using Cons.IH [of "src + length (utf8_encode u)" "len - of_nat (length (utf8_encode u))" m "out @ utf8_encode u"]
          Cons.prems Suc len c by (simp add: Let_def)
    qed
  qed simp
qed

text \<open>
  \<open>ngx_utf8_cpystrn\<close> copies at most \<open>n - 1\<close> characters of a NUL-terminated UTF-8 text,
  always whole ones, and terminates the copy.
\<close>

theorem utf8_cpystrn_correct:
  assumes "list_all (\<lambda>u. 0 < u \<and> u \<le> 0x10ffff) us" "at_mem mem src (utf8_text us @ [0])"
    "src + length (utf8_text us) < length mem" "unat len = length (utf8_text us)" "0 < n"
  shows "ngx_utf8_cpystrn mem src n len =
    (utf8_text (take (n - 1) us) @ [0], length (utf8_text (take (n - 1) us)))"
  using cpystrn_text [OF assms(1-4), of "n - 1" "[]"] assms(5) by (simp add: ngx_utf8_cpystrn_def Let_def)

theorem utf8_cpystrn_correct_witness:
  "ngx_utf8_cpystrn (utf8_text [0x41, 0xe9, 0x20ac, 0x1f600] @ [0]) 0 3 10 =
    (utf8_text [0x41, 0xe9] @ [0], 3)"
  using utf8_cpystrn_correct [of "[0x41, 0xe9, 0x20ac, 0x1f600]" "utf8_text [0x41, 0xe9, 0x20ac, 0x1f600] @ [0]" 0 10 3]
  by (simp add: utf8_encode_def)

lemma utf8_tail_take:
  "p + len \<le> k \<Longrightarrow> utf8_tail (take k mem) p len u = utf8_tail mem p len u \<and> snd (utf8_tail mem p len u) \<le> p + len"
proof (induction len arbitrary: p u)
  case (Suc len)
  have "take k mem ! p = mem ! p" using Suc.prems by simp
  then show ?case using Suc.IH [of "Suc p"] Suc.prems by auto
qed simp

lemma size_t_room_iff:
  assumes "0 < unat (n::u64)" "k < 4"
  shows "n - 1 < of_nat k \<longleftrightarrow> unat n < Suc k"
proof -
  have "unat (n - 1) = unat n - 1" using assms by (intro unat_minus_one) auto
  then show ?thesis using assms by (auto simp: word_less_nat_alt unat_of_nat)
qed

lemma utf8_decode_within:
  assumes "0 < unat n"
  shows "ngx_utf8_decode (take (p + unat n) mem) p n = ngx_utf8_decode mem p n"
    "snd (ngx_utf8_decode mem p n) \<le> p + unat n"
    "fst (ngx_utf8_decode mem p n) > 0x7f"
proof -
  have lead: "take (p + unat n) mem ! p = mem ! p" using assms by simp
  have len: "len < 4 \<and> 0x7f \<le> valid" if "utf8_lead c = Some (u, valid, len)" for c u valid len
    using that by (auto simp: utf8_lead_def Let_def split: if_splits)
  show "ngx_utf8_decode (take (p + unat n) mem) p n = ngx_utf8_decode mem p n"
    using lead assms utf8_tail_take [of "Suc p" _ "p + unat n" mem] len
    by (auto simp: ngx_utf8_decode_def size_t_room_iff split: option.splits)
  show "snd (ngx_utf8_decode mem p n) \<le> p + unat n"
  proof (cases "utf8_lead (mem ! p)")
    case (Some a)
    obtain u valid len' where a: "a = (u, valid, len')" by (cases a)
    show ?thesis
    proof (cases "n - 1 < of_nat len'")
      case False
      then have "Suc p + len' \<le> p + unat n" using len [of "mem ! p"] Some a assms by (auto simp: size_t_room_iff)
      then have "snd (utf8_tail mem (Suc p) len' u) \<le> p + unat n" using utf8_tail_take [of "Suc p" len' "Suc p + len'" mem u] by simp
      then show ?thesis using Some a False by (auto simp: ngx_utf8_decode_def split: prod.splits option.splits)
    qed (use Some a in \<open>simp add: ngx_utf8_decode_def\<close>)
  qed (use assms in \<open>simp add: ngx_utf8_decode_def\<close>)
  show "fst (ngx_utf8_decode mem p n) > 0x7f"
    using len by (auto simp: ngx_utf8_decode_def split: option.splits prod.splits) (meson order.strict_trans1)
qed

text \<open>
  \<open>ngx_utf8_decode\<close> stays within the \<open>n\<close> bytes it is given, for every memory and
  every lead byte: its result does not depend on what follows them, the pointer it leaves is
  at most at their end, and a value it does not report as invalid is a code point above the
  ASCII range.
\<close>

theorem utf8_decode_safe:
  assumes "0 < unat n"
  shows "ngx_utf8_decode (take (p + unat n) mem) p n = ngx_utf8_decode mem p n \<and>
    snd (ngx_utf8_decode mem p n) \<le> p + unat n \<and> fst (ngx_utf8_decode mem p n) > 0x7f"
  using utf8_decode_within [OF assms] by simp

theorem utf8_decode_safe_witness:
  "snd (ngx_utf8_decode [0xe2, 0x82, 0xac, 0x41] 0 4) \<le> 4"
  using utf8_decode_safe [of 4 0 "[0xe2, 0x82, 0xac, 0x41]"] by simp

end
