(* ===== verification/Http_Location.thy ===== *)
theory Http_Location
  imports Ngx_Prelude "HOL-Library.Sublist" "HOL-Library.Multiset"
begin

text \<open>
  Locations: how the \<open>location\<close> blocks of a server become a search tree and how the
  location of a request is found in it. \<open>ngx_queue_t\<close> lists are lists
  (\<open>src/core/ngx_queue.c\<close>); the comparison of names is \<open>ngx_filename_cmp\<close> of
  \<open>src/core/ngx_string.c\<close>; the tree is built in \<open>src/http/ngx_http.c\<close> and searched in
  \<open>src/http/ngx_http_core_module.c\<close>. Names come from the configuration and end with a NUL,
  which the comparison may read.
\<close>

section \<open>Queues\<close>

text \<open>
  \<open>ngx_queue_middle\<close>: the loop moves \<open>next\<close> twice as fast as \<open>middle\<close>, from the head of
  a queue of several elements until it is the last one.
\<close>

function queue_middle_loop :: "nat \<Rightarrow> nat \<Rightarrow> nat \<Rightarrow> nat" where
  "queue_middle_loop last' middle next' =
     (let middle = middle + 1; next' = next' + 1 in
      if next' \<ge> last' then middle
      else (let next' = next' + 1 in
            if next' \<ge> last' then middle else queue_middle_loop last' middle next'))"
  by pat_completeness auto
termination by (relation "measure (\<lambda>(l, m, n). l - n)") auto

declare queue_middle_loop.simps [simp del]

definition ngx_queue_middle :: "'a list \<Rightarrow> nat" where
  "ngx_queue_middle queue =
     (if length queue = 1 then 0 else queue_middle_loop (length queue - 1) 0 0)"

lemma queue_middle_loop_eq: "2 * m < l \<Longrightarrow> queue_middle_loop l m (2 * m) = (l + 1) div 2"
proof (induction "l - m" arbitrary: m rule: less_induct)
  case less
  show ?case
  proof (cases "2 * Suc m < l")
    case True
    then have "queue_middle_loop l m (2 * m) = queue_middle_loop l (Suc m) (2 * Suc m)"
      by (subst queue_middle_loop.simps) (simp add: Let_def)
    then show ?thesis using less(1) [of "Suc m"] True by simp
  next
    case False
    then have "l = 2 * m + 1 \<or> l = 2 * m + 2" using less.prems by arith
    then show ?thesis by (subst queue_middle_loop.simps) auto
  qed
qed

lemma queue_middle_eq:
  assumes "queue \<noteq> []"
  shows "ngx_queue_middle queue = length queue div 2"
proof (cases "length queue = 1")
  case True
  then show ?thesis by (simp add: ngx_queue_middle_def)
next
  case False
  then have "1 < length queue" using assms by (cases queue) auto
  then show ?thesis using queue_middle_loop_eq [of 0 "length queue - 1"] by (simp add: ngx_queue_middle_def)
qed

text \<open>
  \<open>ngx_queue_sort\<close>: \<open>q\<close> is put after the last element of the sorted part, seen from its
  end, that is not greater.
\<close>

fun queue_insert_back :: "('a \<Rightarrow> 'a \<Rightarrow> int) \<Rightarrow> 'a \<Rightarrow> 'a list \<Rightarrow> 'a list" where
  "queue_insert_back cmp q [] = [q]"
| "queue_insert_back cmp q (prev # bs) =
     (if cmp prev q \<le> 0 then q # prev # bs else prev # queue_insert_back cmp q bs)"

definition ngx_queue_sort :: "('a \<Rightarrow> 'a \<Rightarrow> int) \<Rightarrow> 'a list \<Rightarrow> 'a list" where
  "ngx_queue_sort cmp queue = rev (foldl (\<lambda>bs q. queue_insert_back cmp q bs) [] queue)"

section \<open>Comparison of names\<close>

text \<open>The byte under a pointer into a name, the terminating NUL at its end.\<close>

definition hd0 :: "ngx_str \<Rightarrow> byte" where
  "hd0 s = (case s of [] \<Rightarrow> 0 | c # _ \<Rightarrow> c)"

fun ngx_filename_cmp :: "ngx_str \<Rightarrow> ngx_str \<Rightarrow> nat \<Rightarrow> int" where
  "ngx_filename_cmp s1 s2 0 = 0"
| "ngx_filename_cmp s1 s2 (Suc n) =
     (let c1 = hd0 s1; c2 = hd0 s2 in
      if c1 = c2 then (if c1 \<noteq> 0 then ngx_filename_cmp (tl s1) (tl s2) n else 0)
      else if c1 = 0 \<or> c2 = 0 then uint c1 - uint c2
      else (let c1 = (if c1 = ch_slash then 0 else c1); c2 = (if c2 = ch_slash then 0 else c2) in
            uint c1 - uint c2))"

text \<open>\<open>ngx_strcmp\<close> is the C library's \<open>strcmp\<close>; only the sign of its result is used.\<close>

fun ngx_strcmp :: "ngx_str \<Rightarrow> ngx_str \<Rightarrow> int" where
  "ngx_strcmp [] s2 = - uint (hd0 s2)"
| "ngx_strcmp (c # s1) s2 =
     (if c \<noteq> hd0 s2 then uint c - uint (hd0 s2) else if c = 0 then 0 else ngx_strcmp s1 (tl s2))"

section \<open>Locations\<close>

text \<open>
  The fields of \<open>ngx_http_core_loc_conf_t\<close> that locations use; \<open>cl_loc_conf\<close> is the pointer
  \<open>clcf->loc_conf\<close> a request is given when the location is chosen. For a regular expression
  \<open>cl_name\<close> is its text.
\<close>

record clcf =
  cl_name :: ngx_str
  cl_exact_match :: bool
  cl_noregex :: bool
  cl_regex :: bool
  cl_named :: bool
  cl_noname :: bool
  cl_auto_redirect :: bool
  cl_loc_conf :: nat

text \<open>\<open>ngx_http_location_queue_t\<close>\<close>

datatype lq = LQ (lq_exact: "clcf option") (lq_inclusive: "clcf option") (lq_name: ngx_str) (lq_list: "lq list")

text \<open>\<open>ngx_http_location_tree_node_t\<close>; \<open>len\<close> is an \<open>u_char\<close>.\<close>

datatype loc_tree =
    NullTree
  | Node (nd_left: loc_tree) (nd_right: loc_tree) (nd_tree: loc_tree) (nd_exact: "clcf option")
      (nd_inclusive: "clcf option") (nd_auto_redirect: bool) (nd_len: byte) (nd_name: ngx_str)

section \<open>The directive\<close>

definition new_clcf :: "nat \<Rightarrow> clcf" where
  "new_clcf loc_conf = \<lparr>cl_name = [], cl_exact_match = False, cl_noregex = False, cl_regex = False,
     cl_named = False, cl_noname = False, cl_auto_redirect = False, cl_loc_conf = loc_conf\<rparr>"

text \<open>
  The modifier and the name of \<open>ngx_http_core_location\<close>, from the arguments after the
  directive's own name; \<open>compiles\<close> tells whether a regular expression can be compiled.
\<close>

definition regex_location :: "(ngx_str \<Rightarrow> bool \<Rightarrow> bool) \<Rightarrow> clcf \<Rightarrow> ngx_str \<Rightarrow> bool \<Rightarrow> clcf option" where
  "regex_location compiles c regex caseless =
     (if compiles regex caseless then Some (c\<lparr>cl_regex := True, cl_name := regex\<rparr>) else None)"

definition location_args :: "(ngx_str \<Rightarrow> bool \<Rightarrow> bool) \<Rightarrow> clcf \<Rightarrow> ngx_str list \<Rightarrow> clcf option" where
  "location_args compiles c args =
     (case args of
        [m, name] \<Rightarrow>
          if m = [ch_eq] then Some (c\<lparr>cl_name := name, cl_exact_match := True\<rparr>)
          else if m = [0x5e, ch_tilde] then Some (c\<lparr>cl_name := name, cl_noregex := True\<rparr>)
          else if m = [ch_tilde] then regex_location compiles c name False
          else if m = [ch_tilde, ch_star] then regex_location compiles c name True
          else None
      | [name] \<Rightarrow>
          if hd0 name = ch_eq then Some (c\<lparr>cl_name := tl name, cl_exact_match := True\<rparr>)
          else if hd0 name = 0x5e \<and> hd0 (tl name) = ch_tilde then
            Some (c\<lparr>cl_name := drop 2 name, cl_noregex := True\<rparr>)
          else if hd0 name = ch_tilde then
            (let name = tl name in
             if hd0 name = ch_star then regex_location compiles c (tl name) True
             else regex_location compiles c name False)
          else Some (c\<lparr>cl_name := name, cl_named := (hd0 name = 0x40)\<rparr>)
      | _ \<Rightarrow> None)"

text \<open>The checks for a location inside another one, \<open>parent\<close>.\<close>

definition nested_ok :: "clcf \<Rightarrow> clcf \<Rightarrow> bool" where
  "nested_ok parent c \<longleftrightarrow> \<not> cl_exact_match parent \<and> \<not> cl_named parent \<and> \<not> cl_named c \<and>
     (cl_regex c \<or> ngx_filename_cmp (cl_name c) (cl_name parent) (length (cl_name parent)) = 0)"

text \<open>\<open>ngx_http_add_location\<close>\<close>

definition location_queue :: "clcf \<Rightarrow> lq" where
  "location_queue c =
     (if cl_exact_match c \<or> cl_regex c \<or> cl_named c \<or> cl_noname c then LQ (Some c) None (cl_name c) []
      else LQ None (Some c) (cl_name c) [])"

definition ngx_http_add_location :: "lq list \<Rightarrow> clcf \<Rightarrow> lq list" where
  "ngx_http_add_location locations c = locations @ [location_queue c]"

text \<open>
  \<open>ngx_http_core_location\<close> up to the body of the block: the new queue of the parent, or
  \<open>None\<close> for \<open>NGX_CONF_ERROR\<close>. \<open>inside\<close> is the parent when it is a location itself.
\<close>

definition ngx_http_core_location ::
  "(ngx_str \<Rightarrow> bool \<Rightarrow> bool) \<Rightarrow> nat \<Rightarrow> ngx_str list \<Rightarrow> clcf option \<Rightarrow> lq list \<Rightarrow> lq list option" where
  "ngx_http_core_location compiles loc_conf args inside locations =
     (case location_args compiles (new_clcf loc_conf) args of
        None \<Rightarrow> None
      | Some c \<Rightarrow>
          (case inside of
             Some parent \<Rightarrow> if nested_ok parent c then Some (ngx_http_add_location locations c) else None
           | None \<Rightarrow> Some (ngx_http_add_location locations c)))"

section \<open>The tree\<close>

text \<open>\<open>lq->exact ? lq->exact : lq->inclusive\<close>; a queue element has one of them.\<close>

definition lq_clcf :: "lq \<Rightarrow> clcf" where
  "lq_clcf q = (case lq_exact q of Some c \<Rightarrow> c | None \<Rightarrow> the (lq_inclusive q))"

definition ngx_http_cmp_locations :: "lq \<Rightarrow> lq \<Rightarrow> int" where
  "ngx_http_cmp_locations one two =
     (let first = lq_clcf one; second = lq_clcf two in
      if cl_noname first \<and> \<not> cl_noname second then 1
      else if \<not> cl_noname first \<and> cl_noname second then - 1
      else if cl_noname first \<or> cl_noname second then 0
      else if cl_named first \<and> \<not> cl_named second then 1
      else if \<not> cl_named first \<and> cl_named second then - 1
      else if cl_named first \<and> cl_named second then ngx_strcmp (cl_name first) (cl_name second)
      else if cl_regex first \<and> \<not> cl_regex second then 1
      else if \<not> cl_regex first \<and> cl_regex second then - 1
      else if cl_regex first \<or> cl_regex second then 0
      else
        (let rc = ngx_filename_cmp (cl_name first) (cl_name second)
               (min (length (cl_name first)) (length (cl_name second)) + 1) in
         if rc = 0 \<and> \<not> cl_exact_match first \<and> cl_exact_match second then 1 else rc))"

text \<open>
  \<open>ngx_http_init_locations\<close> for one level: the queue sorted and split into the static
  locations, the regular expressions, the named locations; what follows the first location
  without a name is cut off.
\<close>

definition ngx_http_init_locations :: "lq list \<Rightarrow> lq list \<times> lq list \<times> lq list" where
  "ngx_http_init_locations locations =
     (let sorted = takeWhile (\<lambda>q. cl_regex (lq_clcf q) \<or> cl_named (lq_clcf q) \<or> \<not> cl_noname (lq_clcf q))
            (ngx_queue_sort ngx_http_cmp_locations locations);
          is_regex = (\<lambda>q. cl_regex (lq_clcf q));
          is_named = (\<lambda>q. \<not> cl_regex (lq_clcf q) \<and> cl_named (lq_clcf q));
          named = dropWhile (\<lambda>q. \<not> is_named q) sorted;
          rest = takeWhile (\<lambda>q. \<not> is_named q) sorted in
      (takeWhile (\<lambda>q. \<not> is_regex q) rest, dropWhile (\<lambda>q. \<not> is_regex q) rest, named))"

fun ngx_http_join_exact_locations :: "lq list \<Rightarrow> lq list option" where
  "ngx_http_join_exact_locations (q # x # rest) =
     (if length (lq_name q) = length (lq_name x)
         \<and> ngx_filename_cmp (lq_name q) (lq_name x) (length (lq_name x)) = 0 then
        (if lq_exact q \<noteq> None \<and> lq_exact x \<noteq> None \<or> lq_inclusive q \<noteq> None \<and> lq_inclusive x \<noteq> None then None
         else ngx_http_join_exact_locations (LQ (lq_exact q) (lq_inclusive x) (lq_name q) (lq_list q) # rest))
      else map_option (Cons q) (ngx_http_join_exact_locations (x # rest)))"
| "ngx_http_join_exact_locations locations = Some locations"

text \<open>The loop of \<open>ngx_http_create_locations_list\<close> stops at the first name that does not continue.\<close>

definition continues :: "ngx_str \<Rightarrow> lq \<Rightarrow> bool" where
  "continues name x \<longleftrightarrow>
     \<not> (length name > length (lq_name x) \<or> ngx_filename_cmp name (lq_name x) (length name) \<noteq> 0)"

lemma size_list_takeWhile: "size_list size (takeWhile P (xs :: lq list)) \<le> size_list size xs"
  by (induction xs) auto

lemma size_list_dropWhile: "size_list size (dropWhile P (xs :: lq list)) \<le> size_list size xs"
  by (induction xs) auto

lemma size_list_lq_list: "size_list size (lq_list q) < size q"
  by (cases q) simp

lemma size_list_append: "size_list size (xs @ ys) = size_list size xs + size_list size (ys :: lq list)"
  by (induction xs) auto

function ngx_http_create_locations_list :: "lq list \<Rightarrow> lq list" where
  "ngx_http_create_locations_list [] = []"
| "ngx_http_create_locations_list [q] = [q]"
| "ngx_http_create_locations_list (q # x # rest) =
     (if lq_inclusive q = None then q # ngx_http_create_locations_list (x # rest)
      else
        (let inside = takeWhile (continues (lq_name q)) (x # rest);
             after = dropWhile (continues (lq_name q)) (x # rest) in
         if inside = [] then q # ngx_http_create_locations_list after
         else LQ (lq_exact q) (lq_inclusive q) (lq_name q) (ngx_http_create_locations_list (lq_list q @ inside))
           # ngx_http_create_locations_list after))"
  by pat_completeness auto
termination
proof (relation "measure (size_list size)")
  fix q x :: lq and rest inside after
  let ?P = "continues (lq_name q)"
  have *: "size_list size (takeWhile ?P rest) \<le> size_list size rest"
    "size_list size (dropWhile ?P rest) \<le> size_list size rest"
    by (rule size_list_takeWhile size_list_dropWhile)+
  note * = * size_list_lq_list [of q]
  show "inside = takeWhile ?P (x # rest) \<Longrightarrow> (lq_list q @ inside, q # x # rest) \<in> measure (size_list size)"
    "after = dropWhile ?P (x # rest) \<Longrightarrow> (after, q # x # rest) \<in> measure (size_list size)"
    "after = dropWhile ?P (x # rest) \<Longrightarrow> (after, q # x # rest) \<in> measure (size_list size)"
    using * by (auto simp: size_list_append split: if_splits)
qed auto

lemma size_list_nth: "i < length xs \<Longrightarrow> size_list size (take i xs) + size (xs ! i) + size_list size (drop (Suc i) xs)
    < size_list size (xs :: lq list)"
  by (induction xs arbitrary: i) (auto simp: nth_Cons add.assoc split: nat.splits)

text \<open>
  \<open>ngx_http_create_locations_tree\<close>: the middle element is the node, and its name without the
  prefix. When the part before it is empty, so is the part after it.
\<close>

function ngx_http_create_locations_tree :: "nat \<Rightarrow> lq list \<Rightarrow> loc_tree" where
  "ngx_http_create_locations_tree prefix' locations =
     (if locations = [] then NullTree
      else
        (let m = ngx_queue_middle locations; q = locations ! m; len = length (lq_name q) - prefix';
             before = take m locations; tail = drop (Suc m) locations in
         Node (if before = [] then NullTree else ngx_http_create_locations_tree prefix' before)
           (if before = [] \<or> tail = [] then NullTree else ngx_http_create_locations_tree prefix' tail)
           (if lq_list q = [] then NullTree else ngx_http_create_locations_tree (prefix' + len) (lq_list q))
           (lq_exact q) (lq_inclusive q)
           (case lq_exact q of Some c \<Rightarrow> cl_auto_redirect c
              \<or> (case lq_inclusive q of Some c \<Rightarrow> cl_auto_redirect c | None \<Rightarrow> False)
            | None \<Rightarrow> (case lq_inclusive q of Some c \<Rightarrow> cl_auto_redirect c | None \<Rightarrow> False))
           (of_nat len) (drop prefix' (lq_name q))))"
  by pat_completeness auto
termination
proof (relation "measure (\<lambda>(prefix', locations). size_list size locations)")
  fix prefix' m len :: nat and locations before tail :: "lq list" and q
  assume l: "locations \<noteq> []" "m = ngx_queue_middle locations" "q = locations ! m"
  then have "m < length locations" by (simp add: queue_middle_eq)
  note size_list_nth [OF this] size_list_lq_list [of q]
  then show "before = take m locations \<Longrightarrow>
      ((prefix', before), prefix', locations) \<in> measure (\<lambda>(prefix', locations). size_list size locations)"
    "tail = drop (Suc m) locations \<Longrightarrow>
      ((prefix', tail), prefix', locations) \<in> measure (\<lambda>(prefix', locations). size_list size locations)"
    "((prefix' + len, lq_list q), prefix', locations) \<in> measure (\<lambda>(prefix', locations). size_list size locations)"
    using l(3) by auto
qed auto

declare ngx_http_create_locations_tree.simps [simp del]

text \<open>
  \<open>ngx_http_init_static_location_trees\<close> for one level; \<open>None\<close> for the error of a duplicate
  location. An empty queue leaves \<open>static_locations\<close> at \<open>NULL\<close>.
\<close>

definition ngx_http_init_static_location_trees :: "lq list \<Rightarrow> loc_tree option" where
  "ngx_http_init_static_location_trees locations =
     (if locations = [] then Some NullTree
      else
        (case ngx_http_join_exact_locations locations of
           None \<Rightarrow> None
         | Some locations \<Rightarrow>
             Some (ngx_http_create_locations_tree 0 (ngx_http_create_locations_list locations))))"

section \<open>The search\<close>

text \<open>
  \<open>ngx_http_core_find_static_location\<close>, the rest of the URI and \<open>rv\<close> and \<open>r->loc_conf\<close> as
  they are at the head of the loop. A node has an exact or an inclusive location.
\<close>

primrec find_static :: "loc_tree \<Rightarrow> ngx_str \<Rightarrow> ngx_rc \<Rightarrow> nat \<Rightarrow> ngx_rc \<times> nat" where
  "find_static NullTree uri rv loc = (rv, loc)"
| "find_static (Node left right tree exact inclusive auto_redirect len' name) uri rv loc =
     (let len = length uri; nlen = unat len'; n = (if len \<le> nlen then len else nlen);
          rc = ngx_filename_cmp uri name n in
      if rc \<noteq> 0 then (if rc < 0 then find_static left uri rv loc else find_static right uri rv loc)
      else if len > nlen then
        (case inclusive of
           Some c \<Rightarrow> find_static tree (drop n uri) NGX_AGAIN (cl_loc_conf c)
         | None \<Rightarrow> find_static right uri rv loc)
      else if len = nlen then
        (case exact of
           Some c \<Rightarrow> (NGX_OK, cl_loc_conf c)
         | None \<Rightarrow> (NGX_AGAIN, cl_loc_conf (the inclusive)))
      else if len + 1 = nlen \<and> auto_redirect then
        find_static left uri NGX_DONE (cl_loc_conf (case exact of Some c \<Rightarrow> c | None \<Rightarrow> the inclusive))
      else find_static left uri rv loc)"

definition ngx_http_core_find_static_location :: "loc_tree \<Rightarrow> ngx_str \<Rightarrow> nat \<Rightarrow> ngx_rc \<times> nat" where
  "ngx_http_core_find_static_location node uri loc = find_static node uri NGX_DECLINED loc"

text \<open>
  The part of \<open>ngx_http_core_loc_conf_t\<close> the search uses, reached from the pointer
  \<open>r->loc_conf\<close>; the regular expressions are an array of locations.
\<close>

record core_conf =
  cc_static_locations :: loc_tree
  cc_regex_locations :: "clcf list"
  cc_noregex :: bool

text \<open>
  The loop over the regular expressions: \<open>exec\<close> is \<open>ngx_http_regex_exec\<close>. \<open>None\<close> when none
  matches, \<open>Some None\<close> for its error.
\<close>

fun regex_first :: "(ngx_str \<Rightarrow> ngx_str \<Rightarrow> ngx_rc) \<Rightarrow> ngx_str \<Rightarrow> clcf list \<Rightarrow> clcf option option" where
  "regex_first exec uri [] = None"
| "regex_first exec uri (c # cs) =
     (case exec (cl_name c) uri of
        NGX_OK \<Rightarrow> Some (Some c)
      | NGX_DECLINED \<Rightarrow> regex_first exec uri cs
      | _ \<Rightarrow> Some None)"

text \<open>
  \<open>ngx_http_core_find_location\<close>: the return code and \<open>r->loc_conf\<close>, which it reads and
  changes. \<open>store\<close> is the memory the pointers lead to.
\<close>

partial_function (option) ngx_http_core_find_location ::
  "(nat \<Rightarrow> core_conf) \<Rightarrow> (ngx_str \<Rightarrow> ngx_str \<Rightarrow> ngx_rc) \<Rightarrow> ngx_str \<Rightarrow> nat \<Rightarrow> (ngx_rc \<times> nat) option" where
  "ngx_http_core_find_location store exec uri loc =
     (let pclcf = store loc;
          (rc, loc1) = ngx_http_core_find_static_location (cc_static_locations pclcf) uri loc;
          noregex = (rc = NGX_AGAIN \<and> cc_noregex (store loc1)) in
      Option.bind
        (if rc = NGX_AGAIN then ngx_http_core_find_location store exec uri loc1 else Some (rc, loc1))
        (\<lambda>(rc, loc2).
           if rc = NGX_OK \<or> rc = NGX_DONE then Some (rc, loc2)
           else if noregex then Some (rc, loc2)
           else
             (case regex_first exec uri (cc_regex_locations pclcf) of
                None \<Rightarrow> Some (rc, loc2)
              | Some None \<Rightarrow> Some (NGX_ERROR, loc2)
              | Some (Some c) \<Rightarrow>
                  Option.bind (ngx_http_core_find_location store exec uri (cl_loc_conf c))
                    (\<lambda>(rc, loc3). Some (if rc = NGX_ERROR then rc else NGX_OK, loc3)))))"

section \<open>The order of names\<close>

text \<open>The slash is the lowest character; names hold no NUL.\<close>

definition fkey :: "byte \<Rightarrow> int" where
  "fkey c = (if c = ch_slash then 0 else uint c)"

definition nul_free :: "ngx_str \<Rightarrow> bool" where
  "nul_free s \<longleftrightarrow> 0 \<notin> set s"

definition name_less :: "ngx_str \<Rightarrow> ngx_str \<Rightarrow> bool" where
  "name_less a b \<longleftrightarrow> ord_class.lexordp (map fkey a) (map fkey b)"

lemma nul_free_simps [simp]:
  "nul_free []" "nul_free (c # s) \<longleftrightarrow> c \<noteq> 0 \<and> nul_free s" "nul_free (s @ t) \<longleftrightarrow> nul_free s \<and> nul_free t"
  by (auto simp: nul_free_def)

lemma nul_free_drop: "nul_free s \<Longrightarrow> nul_free (drop n s)"
  by (auto simp: nul_free_def dest: in_set_dropD)

lemma hd0_simps [simp]: "hd0 [] = 0" "hd0 (c # s) = c"
  by (simp_all add: hd0_def)

lemma fkey_slash_least: "c \<noteq> 0 \<Longrightarrow> fkey ch_slash \<le> fkey c" "c \<noteq> 0 \<Longrightarrow> c \<noteq> ch_slash \<Longrightarrow> fkey ch_slash < fkey c"
  by (auto simp: fkey_def word_neq_0_conv word_less_def)

lemma fkey_inj: "c \<noteq> 0 \<Longrightarrow> d \<noteq> 0 \<Longrightarrow> fkey c = fkey d \<longleftrightarrow> c = d"
  by (auto simp: fkey_def word_uint_eq_iff)

lemma map_fkey_inj: "nul_free a \<Longrightarrow> nul_free b \<Longrightarrow> map fkey a = map fkey b \<longleftrightarrow> a = b"
proof (rule inj_on_map_eq_map, rule inj_onI)
  fix x y assume "nul_free a" "nul_free b" "x \<in> set a \<union> set b" "y \<in> set a \<union> set b" "fkey x = fkey y"
  moreover from this have "x \<noteq> 0" "y \<noteq> 0" by (auto simp: nul_free_def)
  ultimately show "x = y" by (simp add: fkey_inj)
qed

lemma name_less_simps [simp]:
  "name_less [] b \<longleftrightarrow> b \<noteq> []" "\<not> name_less a []"
  "c \<noteq> 0 \<Longrightarrow> d \<noteq> 0 \<Longrightarrow> name_less (c # a) (d # b) \<longleftrightarrow> fkey c < fkey d \<or> c = d \<and> name_less a b"
  by (auto simp: name_less_def fkey_inj lexordp_simps neq_Nil_conv)

lemma name_less_irrefl: "\<not> name_less a a"
  by (simp add: name_less_def lexordp_irreflexive')

lemma name_less_trans: "name_less a b \<Longrightarrow> name_less b c \<Longrightarrow> name_less a c"
  unfolding name_less_def by (rule lexordp_trans)

lemma name_less_total: "nul_free a \<Longrightarrow> nul_free b \<Longrightarrow> name_less a b \<or> a = b \<or> name_less b a"
  using lexordp_linear [of "map fkey a" "map fkey b"] by (auto simp: name_less_def map_fkey_inj)

lemma name_less_append [simp]: "name_less (p @ a) (p @ b) \<longleftrightarrow> name_less a b"
  by (induction p) (auto simp: name_less_def lexordp_simps)

lemma strict_prefix_less: "strict_prefix a b \<Longrightarrow> name_less a b"
  using name_less_append [of a "[]"] by (auto simp: strict_prefix_def prefix_def)

text \<open>The comparison up to a length both names have, and the one of two whole names.\<close>

lemma filename_cmp_zero:
  "nul_free a \<Longrightarrow> nul_free b \<Longrightarrow> n \<le> length a \<Longrightarrow> n \<le> length b \<Longrightarrow> ngx_filename_cmp a b n = 0 \<longleftrightarrow> take n a = take n b"
proof (induction a b n rule: ngx_filename_cmp.induct)
  case (2 s1 s2 n)
  then obtain c a d b where [simp]: "s1 = c # a" "s2 = d # b" by (cases s1; cases s2) auto
  have "uint (if c = ch_slash then 0 else c) \<noteq> uint (if d = ch_slash then 0 else d)" if "c \<noteq> d" "c \<noteq> 0" "d \<noteq> 0"
    using that by (auto simp: word_uint_eq_iff)
  then show ?case using 2 by (auto simp: Let_def)
qed simp

lemma filename_cmp_whole:
  "nul_free a \<Longrightarrow> nul_free b \<Longrightarrow> ngx_filename_cmp a b (min (length a) (length b) + 1) < 0 \<longleftrightarrow> name_less a b"
  "nul_free a \<Longrightarrow> nul_free b \<Longrightarrow> ngx_filename_cmp a b (min (length a) (length b) + 1) = 0 \<longleftrightarrow> a = b"
proof (induction a arbitrary: b)
  case (Cons c a)
  { case 1
    then show ?case using Cons.IH(1) [of "tl b"] by (cases b) (auto simp: Let_def fkey_def word_less_def)
  next
    case 2
    then show ?case using Cons.IH(2) [of "tl b"] by (cases b) (auto simp: Let_def word_uint_eq_iff) }
next
  case Nil
  { case 1
    then show ?case by (cases b) (auto simp: Let_def word_less_def word_neq_0_conv)
  next
    case 2
    then show ?case by (cases b) (auto simp: Let_def uint_0_iff) }
qed


text \<open>
  Where the search may go on: \<open>u\<close> is what is left of the URI, \<open>w\<close> the name of a node, and
  \<open>x\<close> another name that matters for \<open>u\<close>, a prefix of \<open>u\<close> or of \<open>u\<close> with a slash.
\<close>

lemma cmp_less:
  assumes "nul_free u" "nul_free w" "prefix x (u @ [ch_slash])" "ngx_filename_cmp u w (min (length u) (length w)) < 0"
  shows "name_less x w"
  using assms
proof (induction u arbitrary: w x)
  case (Cons c u)
  then obtain d w' where w: "w = d # w'" by (cases w) auto
  show ?case
  proof (cases x)
    case (Cons e x')
    then show ?thesis using Cons.IH [of w' x'] Cons.prems w
      by (auto simp: Let_def fkey_def word_less_def split: if_splits)
  qed (use w in simp)
qed simp

lemma cmp_greater:
  assumes "nul_free u" "nul_free w" "prefix x (u @ [ch_slash])" "ngx_filename_cmp u w (min (length u) (length w)) > 0"
  shows "(name_less w x \<or> strict_prefix x w \<and> length x < length u) \<and> \<not> prefix w x"
  using assms
proof (induction u arbitrary: w x)
  case (Cons c u)
  then obtain d w' where w: "w = d # w'" by (cases w) auto
  show ?case
  proof (cases x)
    case (Cons e x')
    then show ?thesis using Cons.IH [of w' x'] Cons.prems w
      by (auto simp: Let_def fkey_def word_less_def split: if_splits)
  qed (use w in simp)
qed simp

lemma cmp_longer:
  assumes "nul_free w" "strict_prefix u w" "prefix x (u @ [ch_slash])" "x \<noteq> w"
  shows "name_less x w"
  using assms
proof (induction u arbitrary: w x)
  case Nil
  then obtain d w' where w: "w = d # w'" by (cases w) auto
  have "x = [] \<or> x = [ch_slash]" using Nil by (cases x) auto
  then show ?case using w Nil fkey_slash_least [of d] by (cases "d = ch_slash"; cases w') auto
next
  case (Cons c u)
  then obtain w' where w: "w = c # w'" "strict_prefix u w'" by (auto simp: strict_prefix_def prefix_def)
  show ?case
  proof (cases x)
    case (Cons e x')
    then show ?thesis using Cons.IH [of w' x'] Cons.prems w by auto
  qed (use w in simp)
qed

section \<open>What the search should find\<close>

text \<open>An entry is a name with its exact and its inclusive location.\<close>

type_synonym entry = "clcf option \<times> clcf option \<times> ngx_str"

definition en_name :: "entry \<Rightarrow> ngx_str" where
  "en_name e = snd (snd e)"

definition en_exact :: "entry \<Rightarrow> clcf option" where
  "en_exact e = fst e"

definition en_inclusive :: "entry \<Rightarrow> clcf option" where
  "en_inclusive e = fst (snd e)"

definition en_auto :: "entry \<Rightarrow> bool" where
  "en_auto e \<longleftrightarrow> (\<exists>c. (en_exact e = Some c \<or> en_inclusive e = Some c) \<and> cl_auto_redirect c)"

definition en_any :: "entry \<Rightarrow> clcf" where
  "en_any e = (case en_exact e of Some c \<Rightarrow> c | None \<Rightarrow> the (en_inclusive e))"

definition en_hit :: "entry \<Rightarrow> ngx_rc \<times> nat" where
  "en_hit e = (case en_exact e of Some c \<Rightarrow> (NGX_OK, cl_loc_conf c)
     | None \<Rightarrow> (NGX_AGAIN, cl_loc_conf (the (en_inclusive e))))"

definition en_covers :: "ngx_str \<Rightarrow> entry \<Rightarrow> bool" where
  "en_covers uri e \<longleftrightarrow> en_inclusive e \<noteq> None \<and> strict_prefix (en_name e) uri"

definition en_redirects :: "ngx_str \<Rightarrow> entry \<Rightarrow> bool" where
  "en_redirects uri e \<longleftrightarrow> en_name e = uri @ [ch_slash] \<and> en_auto e"

text \<open>
  The location of a URI: the one of that name; else a redirect to the name with a slash
  appended; else the longest inclusive location that is a prefix; else the given default.
\<close>

definition loc_spec :: "entry set \<Rightarrow> ngx_str \<Rightarrow> ngx_rc \<times> nat \<Rightarrow> ngx_rc \<times> nat \<Rightarrow> bool" where
  "loc_spec es uri d r \<longleftrightarrow>
     (if \<exists>e \<in> es. en_name e = uri then \<exists>e \<in> es. en_name e = uri \<and> r = en_hit e
      else if \<exists>e \<in> es. en_redirects uri e then \<exists>e \<in> es. en_redirects uri e \<and> r = (NGX_DONE, cl_loc_conf (en_any e))
      else if \<exists>e \<in> es. en_covers uri e then
        \<exists>e \<in> es. en_covers uri e \<and> (\<forall>e' \<in> es. en_covers uri e' \<longrightarrow> length (en_name e') \<le> length (en_name e)) \<and>
          r = (NGX_AGAIN, cl_loc_conf (the (en_inclusive e)))
      else r = d)"

definition relevant :: "ngx_str \<Rightarrow> entry \<Rightarrow> bool" where
  "relevant uri e \<longleftrightarrow> en_name e = uri \<or> en_redirects uri e \<or> en_covers uri e"

lemma relevant_prefix: "relevant uri e \<Longrightarrow> prefix (en_name e) (uri @ [ch_slash])"
  by (auto simp: relevant_def en_redirects_def en_covers_def strict_prefix_def prefix_def)

lemma loc_spec_cong:
  assumes "\<And>e. relevant uri e \<Longrightarrow> e \<in> es \<longleftrightarrow> e \<in> es'"
  shows "loc_spec es uri d r \<longleftrightarrow> loc_spec es' uri d r"
proof -
  have "(\<exists>e \<in> es. en_name e = uri \<and> P e) \<longleftrightarrow> (\<exists>e \<in> es'. en_name e = uri \<and> P e)"
    "(\<exists>e \<in> es. en_redirects uri e \<and> P e) \<longleftrightarrow> (\<exists>e \<in> es'. en_redirects uri e \<and> P e)"
    "(\<exists>e \<in> es. en_covers uri e \<and> P e) \<longleftrightarrow> (\<exists>e \<in> es'. en_covers uri e \<and> P e)"
    "(\<forall>e \<in> es. en_covers uri e \<longrightarrow> P e) \<longleftrightarrow> (\<forall>e \<in> es'. en_covers uri e \<longrightarrow> P e)" for P
    using assms by (auto simp: relevant_def)
  note this this [of "\<lambda>_. True", simplified]
  then show ?thesis by (simp only: loc_spec_def)
qed

lemma loc_spec_none: "(\<And>e. e \<in> es \<Longrightarrow> \<not> relevant uri e) \<Longrightarrow> loc_spec es uri d r \<longleftrightarrow> r = d"
  by (auto simp: loc_spec_def relevant_def)

text \<open>A covering entry is the default for longer names.\<close>

lemma loc_spec_default:
  assumes "loc_spec es uri (NGX_AGAIN, cl_loc_conf (the (en_inclusive q))) r" "en_covers uri q"
    "\<And>e. e \<in> es \<Longrightarrow> en_covers uri e \<Longrightarrow> length (en_name q) \<le> length (en_name e)"
  shows "loc_spec (insert q es) uri d r"
proof -
  have q: "en_name q \<noteq> uri" "\<not> en_redirects uri q"
    using assms(2) by (auto simp: en_covers_def en_redirects_def strict_prefix_def prefix_def)
  show ?thesis
  proof (cases "\<exists>e \<in> es. relevant uri e")
    case True
    then show ?thesis using assms q by (auto simp: loc_spec_def relevant_def split: if_splits)
  next
    case False
    then show ?thesis using assms q loc_spec_none [of es uri] by (auto simp: loc_spec_def relevant_def)
  qed
qed


section \<open>Levels\<close>

primrec lq_entries :: "lq \<Rightarrow> entry list" where
  "lq_entries (LQ e i n l) = (e, i, n) # concat (map lq_entries l)"

definition entries :: "lq list \<Rightarrow> entry set" where
  "entries qs = set (concat (map lq_entries qs))"

definition lq_entry :: "lq \<Rightarrow> entry" where
  "lq_entry q = (lq_exact q, lq_inclusive q, lq_name q)"

lemma entries_Cons: "entries (q # qs) = insert (lq_entry q) (entries (lq_list q)) \<union> entries qs"
  by (cases q) (simp add: entries_def lq_entry_def)

lemma entries_simps [simp]: "entries [] = {}" "entries (qs @ rs) = entries qs \<union> entries rs"
  by (simp_all add: entries_def)

lemma in_entries: "e \<in> entries qs \<longleftrightarrow> (\<exists>q \<in> set qs. e = lq_entry q \<or> e \<in> entries (lq_list q))"
  by (induction qs) (auto simp: entries_Cons)

lemma lq_entry_simps [simp]:
  "en_name (lq_entry q) = lq_name q" "en_exact (lq_entry q) = lq_exact q" "en_inclusive (lq_entry q) = lq_inclusive q"
  by (simp_all add: lq_entry_def en_name_def en_exact_def en_inclusive_def)

text \<open>
  A level of the nested lists: names that continue \<open>p\<close>, in order; no name continues that of
  an inclusive location before it, those are in the list of that location.
\<close>

definition lq_before :: "lq \<Rightarrow> lq \<Rightarrow> bool" where
  "lq_before q x \<longleftrightarrow> name_less (lq_name q) (lq_name x) \<and> (lq_inclusive q \<noteq> None \<longrightarrow> \<not> prefix (lq_name q) (lq_name x))"

definition lq_ok :: "ngx_str \<Rightarrow> lq \<Rightarrow> bool" where
  "lq_ok p q \<longleftrightarrow> prefix p (lq_name q) \<and> nul_free (lq_name q) \<and> length (lq_name q) - length p < 256 \<and>
     (lq_exact q \<noteq> None \<or> lq_inclusive q \<noteq> None) \<and> (lq_inclusive q = None \<longrightarrow> lq_list q = []) \<and>
     lq_name q \<notin> lq_name ` set (lq_list q)"

inductive level :: "ngx_str \<Rightarrow> lq list \<Rightarrow> bool" where
  levelI: "sorted_wrt lq_before qs \<Longrightarrow> (\<And>q. q \<in> set qs \<Longrightarrow> lq_ok p q) \<Longrightarrow>
    (\<And>q. q \<in> set qs \<Longrightarrow> level (lq_name q) (lq_list q)) \<Longrightarrow> level p qs"

lemma level_append: "level p (qs @ rs) \<Longrightarrow> level p qs \<and> level p rs \<and> (\<forall>q \<in> set qs. \<forall>x \<in> set rs. lq_before q x)"
  by (auto simp: level.simps [of p] sorted_wrt_append)

lemma level_own: "level p qs \<Longrightarrow> q \<in> set qs \<Longrightarrow> lq_ok p q \<and> level (lq_name q) (lq_list q)"
  by (auto elim: level.cases)

lemma own_entry_longer: "level p qs \<Longrightarrow> q \<in> set qs \<Longrightarrow> e \<in> entries (lq_list q) \<Longrightarrow> strict_prefix (lq_name q) (en_name e)"
proof (induction arbitrary: q e rule: level.induct)
  case (levelI qs p)
  obtain x where x: "x \<in> set (lq_list q)" "e = lq_entry x \<or> e \<in> entries (lq_list x)"
    using levelI.prems(2) in_entries [of e "lq_list q"] by blast
  then have "lq_ok (lq_name q) x" "lq_ok p q" using levelI.hyps levelI.prems level_own by blast+
  then have "strict_prefix (lq_name q) (lq_name x)" using x(1) by (auto simp: lq_ok_def strict_prefix_def)
  moreover have "prefix (lq_name x) (en_name e)" using x levelI.IH [OF levelI.prems(1), of x e] by (auto simp: strict_prefix_def)
  ultimately show ?case by (metis prefix_order.less_le_trans)
qed

text \<open>An entry that matters for \<open>p @ u\<close> lies below an element whose own name leads there.\<close>

lemma relevant_element:
  assumes "level p qs" "e \<in> entries qs" "relevant (p @ u) e"
  obtains x w where "x \<in> set qs" "lq_name x = p @ w" "prefix w (u @ [ch_slash])"
    "lq_inclusive x \<noteq> None \<or> length u \<le> length w" "e = lq_entry x \<or> e \<in> entries (lq_list x)"
proof -
  obtain x where x: "x \<in> set qs" "e = lq_entry x \<or> e \<in> entries (lq_list x)"
    using assms(2) in_entries [of e qs] by blast
  have ok: "lq_ok p x" using assms(1) x(1) level_own by blast
  then obtain w where w: "lq_name x = p @ w" by (auto simp: lq_ok_def prefix_def)
  have "prefix (lq_name x) (en_name e)" using x own_entry_longer [OF assms(1) x(1), of e] by (auto simp: strict_prefix_def)
  then have "prefix w (u @ [ch_slash])"
    using relevant_prefix [OF assms(3)] w by (metis append.assoc prefix_order.trans same_prefix_prefix)
  moreover have "lq_inclusive x \<noteq> None \<or> length u \<le> length w"
  proof (cases "lq_inclusive x")
    case None
    then have "e = lq_entry x" using x ok by (auto simp: lq_ok_def)
    then show ?thesis using assms(3) None w by (auto simp: relevant_def en_redirects_def en_covers_def)
  qed simp
  ultimately show ?thesis using x w that by blast
qed

section \<open>The search finds it\<close>

lemma create_tree_split:
  assumes "locations \<noteq> []"
  obtains before q tail where "locations = before @ q # tail" "length before < length locations" "length tail < length locations"
    "ngx_http_create_locations_tree k locations =
       Node (ngx_http_create_locations_tree k before) (ngx_http_create_locations_tree k tail)
         (ngx_http_create_locations_tree (k + (length (lq_name q) - k)) (lq_list q)) (lq_exact q) (lq_inclusive q)
         (en_auto (lq_entry q)) (of_nat (length (lq_name q) - k)) (drop k (lq_name q))"
proof -
  let ?m = "ngx_queue_middle locations"
  have m: "?m = length locations div 2" "?m < length locations" using assms by (simp_all add: queue_middle_eq)
  have e: "ngx_http_create_locations_tree k [] = NullTree" for k by (simp add: ngx_http_create_locations_tree.simps)
  have "take ?m locations = [] \<Longrightarrow> drop (Suc ?m) locations = []" using m assms by (auto simp: div_eq_0_iff)
  then have "ngx_http_create_locations_tree k locations =
       Node (ngx_http_create_locations_tree k (take ?m locations)) (ngx_http_create_locations_tree k (drop (Suc ?m) locations))
         (ngx_http_create_locations_tree (k + (length (lq_name (locations ! ?m)) - k)) (lq_list (locations ! ?m)))
         (lq_exact (locations ! ?m)) (lq_inclusive (locations ! ?m))
         (en_auto (lq_entry (locations ! ?m))) (of_nat (length (lq_name (locations ! ?m)) - k)) (drop k (lq_name (locations ! ?m)))"
    using assms by (subst ngx_http_create_locations_tree.simps) (auto simp: Let_def e en_auto_def split: option.splits)
  then show ?thesis using that [of "take ?m locations" "locations ! ?m" "drop (Suc ?m) locations"] m
    by (simp add: id_take_nth_drop [symmetric])
qed

lemma filename_cmp_prefix:
  assumes "nul_free u" "nul_free w" "ngx_filename_cmp u w (min (length u) (length w)) = 0"
  shows "length w < length u \<Longrightarrow> strict_prefix w u" "length u = length w \<Longrightarrow> u = w" "length u < length w \<Longrightarrow> strict_prefix u w"
proof -
  have *: "take (min (length u) (length w)) u = take (min (length u) (length w)) w"
    using assms filename_cmp_zero [of u w "min (length u) (length w)"] by simp
  show "length w < length u \<Longrightarrow> strict_prefix w u"
    using * take_is_prefix [of "length w" u] by (auto simp: strict_prefix_def min_def)
  show "length u = length w \<Longrightarrow> u = w" using * by simp
  show "length u < length w \<Longrightarrow> strict_prefix u w"
    using * take_is_prefix [of "length u" w] by (auto simp: strict_prefix_def min_def)
qed

text \<open>
  One step of the search, at an element \<open>q\<close> between the elements \<open>before\<close> and \<open>tail\<close> of its
  level: which entries still matter.
\<close>

definition at_node :: "ngx_str \<Rightarrow> ngx_str \<Rightarrow> lq list \<Rightarrow> lq \<Rightarrow> lq list \<Rightarrow> ngx_str \<Rightarrow> bool" where
  "at_node p u before q tail w \<longleftrightarrow> level p (before @ q # tail) \<and> nul_free u \<and> lq_name q = p @ w"

lemma at_node_levels:
  assumes "at_node p u before q tail w"
  shows "level p before" "level p tail" "level p [q]" "lq_ok p q" "level (p @ w) (lq_list q)" "nul_free w"
    "lq_name q = p @ w" "x \<in> set before \<Longrightarrow> lq_before x q" "x \<in> set tail \<Longrightarrow> lq_before q x"
  using assms level_append [of p before "q # tail"] level_append [of p "[q]" tail] level_own [of p "[q]" q]
  by (auto simp: lq_ok_def at_node_def)

lemma before_element:
  assumes "at_node p u before q tail w" "e \<in> entries before" "relevant (p @ u) e"
  obtains x where "prefix x (u @ [ch_slash])" "name_less x w" "prefix x w \<longrightarrow> length u \<le> length x \<and> en_name e = p @ x"
proof -
  obtain y x where y: "y \<in> set before" "lq_name y = p @ x" "prefix x (u @ [ch_slash])"
      "lq_inclusive y \<noteq> None \<or> length u \<le> length x" "e = lq_entry y \<or> e \<in> entries (lq_list y)"
    by (rule relevant_element [OF at_node_levels(1) [OF assms(1)] assms(2,3)]) blast
  have "lq_inclusive y = None \<longrightarrow> lq_list y = []"
    using level_own [OF at_node_levels(1) [OF assms(1)] y(1)] by (auto simp: lq_ok_def)
  then show ?thesis using y at_node_levels(8) [OF assms(1), of y] at_node_levels(7) [OF assms(1)] that [of x]
    by (auto simp: lq_before_def)
qed

lemma tail_element:
  assumes "at_node p u before q tail w" "e \<in> entries tail" "relevant (p @ u) e"
  obtains x where "prefix x (u @ [ch_slash])" "name_less w x" "lq_inclusive q \<noteq> None \<longrightarrow> \<not> prefix w x"
proof -
  obtain y x where y: "y \<in> set tail" "lq_name y = p @ x" "prefix x (u @ [ch_slash])"
    by (rule relevant_element [OF at_node_levels(2) [OF assms(1)] assms(2,3)]) blast
  then show ?thesis using at_node_levels(9) [OF assms(1), of y] at_node_levels(7) [OF assms(1)] that [of x]
    by (auto simp: lq_before_def)
qed

lemma own_element:
  assumes "at_node p u before q tail w" "e \<in> insert (lq_entry q) (entries (lq_list q))" "relevant (p @ u) e"
  shows "prefix w (u @ [ch_slash])" "e \<in> entries (lq_list q) \<Longrightarrow> length w \<le> length u"
proof -
  note w = at_node_levels(7) [OF assms(1)]
  have e: "prefix (lq_name q) (en_name e)" "e \<in> entries (lq_list q) \<Longrightarrow> strict_prefix (lq_name q) (en_name e)"
    using assms(2) own_entry_longer [OF at_node_levels(3) [OF assms(1)], of q e] by (auto simp: strict_prefix_def)
  have "prefix (p @ w) (p @ u @ [ch_slash])"
    using relevant_prefix [OF assms(3)] e(1) w by (metis append.assoc prefix_order.trans)
  then show "prefix w (u @ [ch_slash])" by simp
  have "length (en_name e) \<le> length p + length u + 1"
    using prefix_length_le [OF relevant_prefix [OF assms(3)]] by simp
  then show "e \<in> entries (lq_list q) \<Longrightarrow> length w \<le> length u"
    using prefix_length_less [OF e(2)] w by simp
qed

lemma entries_split: "entries (before @ q # tail) = entries before \<union> insert (lq_entry q) (entries (lq_list q)) \<union> entries tail"
  by (simp add: entries_Cons Un_assoc)

lemma node_less:
  assumes n: "at_node p u before q tail w" and "ngx_filename_cmp u w (min (length u) (length w)) < 0"
    and e: "relevant (p @ u) e" "e \<in> entries (before @ q # tail)"
  shows "e \<in> entries before"
proof -
  have less: "name_less x w" if "prefix x (u @ [ch_slash])" for x
    using cmp_less [OF _ at_node_levels(6) [OF n] that assms(2)] n by (auto simp: at_node_def)
  have "e \<notin> entries tail"
    using tail_element [OF n _ e(1)] less name_less_trans name_less_irrefl by metis
  moreover have "e \<notin> insert (lq_entry q) (entries (lq_list q))"
    using own_element(1) [OF n _ e(1)] less name_less_irrefl by blast
  ultimately show ?thesis using e(2) by (auto simp: entries_Cons)
qed

lemma node_greater:
  assumes n: "at_node p u before q tail w" and "ngx_filename_cmp u w (min (length u) (length w)) > 0"
    and e: "relevant (p @ u) e" "e \<in> entries (before @ q # tail)"
  shows "e \<in> entries tail"
proof -
  have gt: "(name_less w x \<or> strict_prefix x w \<and> length x < length u) \<and> \<not> prefix w x"
    if "prefix x (u @ [ch_slash])" for x
    using cmp_greater [OF _ at_node_levels(6) [OF n] that assms(2)] n by (auto simp: at_node_def)
  have "e \<notin> entries before"
  proof
    assume "e \<in> entries before"
    then obtain x where "prefix x (u @ [ch_slash])" "name_less x w" "prefix x w \<longrightarrow> length u \<le> length x"
      using before_element [OF n _ e(1)] by metis
    then show False using gt [of x] name_less_trans [of x w x] name_less_irrefl by (auto simp: strict_prefix_def)
  qed
  moreover have "e \<notin> insert (lq_entry q) (entries (lq_list q))"
    using own_element(1) [OF n _ e(1)] gt by blast
  ultimately show ?thesis using e(2) by (auto simp: entries_Cons)
qed

lemma node_before_shorter:
  assumes n: "at_node p u before q tail w" and "strict_prefix w u" and e: "relevant (p @ u) e"
  shows "e \<notin> entries before"
proof
  assume "e \<in> entries before"
  then obtain x where x: "prefix x (u @ [ch_slash])" "name_less x w" "prefix x w \<longrightarrow> length u \<le> length x"
    using before_element [OF n _ e(1)] by metis
  have "prefix w (u @ [ch_slash])" using assms(2) by (simp add: strict_prefix_def)
  then have "prefix x w \<or> prefix w x" using x(1) prefix_same_cases by blast
  then show False
  proof
    assume "prefix x w"
    then show False using x(3) assms(2) prefix_length_le [of x w] prefix_length_less [of w u] by simp
  next
    assume "prefix w x"
    then have "w = x \<or> name_less w x" using strict_prefix_less [of w x] by (auto simp: strict_prefix_def)
    then show False using x(2) name_less_trans name_less_irrefl by blast
  qed
qed

lemma node_inside:
  assumes n: "at_node p u before q tail w" and "strict_prefix w u" "lq_inclusive q \<noteq> None"
    and e: "relevant (p @ u) e" "e \<in> entries (before @ q # tail)"
  shows "e \<in> insert (lq_entry q) (entries (lq_list q))"
proof -
  have "e \<notin> entries tail"
  proof
    assume "e \<in> entries tail"
    then obtain x where x: "prefix x (u @ [ch_slash])" "name_less w x" "\<not> prefix w x"
      using tail_element [OF n _ e(1)] assms(3) by metis
    have "prefix w (u @ [ch_slash])" using assms(2) by (simp add: strict_prefix_def)
    then have "strict_prefix x w" using x(1,3) prefix_same_cases by (metis strict_prefixI prefix_order.refl)
    then show False using x(2) strict_prefix_less name_less_trans name_less_irrefl by blast
  qed
  then show ?thesis using e(2) node_before_shorter [OF n assms(2) e(1)] by (auto simp: entries_Cons)
qed

lemma node_exact_only:
  assumes n: "at_node p u before q tail w" and "strict_prefix w u" "lq_inclusive q = None"
    and e: "relevant (p @ u) e" "e \<in> entries (before @ q # tail)"
  shows "e \<in> entries tail"
proof -
  have "lq_list q = []" using at_node_levels(4) [OF n] assms(3) by (simp add: lq_ok_def)
  moreover have "\<not> relevant (p @ u) (lq_entry q)"
    using assms(2,3) at_node_levels(7) [OF n]
    by (auto simp: relevant_def en_redirects_def en_covers_def strict_prefix_def prefix_def)
  ultimately show ?thesis using e node_before_shorter [OF n assms(2) e(1)] by (auto simp: entries_Cons)
qed

lemma node_longer:
  assumes n: "at_node p u before q tail w" and "strict_prefix u w"
    and e: "relevant (p @ u) e" "e \<in> entries (before @ q # tail)"
  shows "e \<in> entries before \<or> e = lq_entry q \<and> en_redirects (p @ u) e"
proof -
  have less: "x = w \<or> name_less x w" if "prefix x (u @ [ch_slash])" for x
    using cmp_longer [OF at_node_levels(6) [OF n] assms(2) that] by blast
  have "e \<notin> entries tail"
    using tail_element [OF n _ e(1)] less name_less_trans name_less_irrefl by metis
  moreover have "e \<notin> entries (lq_list q)"
    using own_element(2) [OF n _ e(1)] prefix_length_less [OF assms(2)] by fastforce
  moreover have "e = lq_entry q \<Longrightarrow> en_redirects (p @ u) e"
    using e(1) assms(2) at_node_levels(7) [OF n]
    by (auto simp: relevant_def en_covers_def strict_prefix_def prefix_def)
  ultimately show ?thesis using e(2) by (auto simp: entries_Cons)
qed

lemma node_redirect:
  assumes n: "at_node p u before q tail (u @ [ch_slash])" and e: "relevant (p @ u) e" "e \<in> entries before"
  shows "en_name e = p @ u"
proof -
  obtain x where x: "prefix x (u @ [ch_slash])" "name_less x (u @ [ch_slash])" "length u \<le> length x" "en_name e = p @ x"
    using before_element [OF n e(2,1)] by metis
  then have "x \<noteq> u @ [ch_slash]" using name_less_irrefl by auto
  then have "prefix x u" using x(1) by (simp add: prefix_snoc)
  then have "x = u" using x(3) by (auto simp: prefix_def)
  then show ?thesis using x by simp
qed

text \<open>Only names that end with a slash are redirected to.\<close>

definition redirects_ok :: "entry set \<Rightarrow> bool" where
  "redirects_ok es \<longleftrightarrow> (\<forall>e \<in> es. en_auto e \<longrightarrow> (\<exists>v. en_name e = v @ [ch_slash]))"

lemma redirects_ok_simps [simp]:
  "redirects_ok (A \<union> B) \<longleftrightarrow> redirects_ok A \<and> redirects_ok B"
  "redirects_ok (insert e A) \<longleftrightarrow> (en_auto e \<longrightarrow> (\<exists>v. en_name e = v @ [ch_slash])) \<and> redirects_ok A"
  unfolding redirects_ok_def by blast+

text \<open>Going on in a part of the level is right when all that matters is there.\<close>

lemma loc_spec_part:
  assumes "loc_spec es uri d r" "es \<subseteq> es'" "\<And>e. relevant uri e \<Longrightarrow> e \<in> es' \<Longrightarrow> e \<in> es"
  shows "loc_spec es' uri d r"
  using loc_spec_cong [of uri es es'] assms by blast

lemma entries_parts:
  "entries before \<subseteq> entries (before @ q # tail)" "entries tail \<subseteq> entries (before @ q # tail)"
  "insert (lq_entry q) (entries (lq_list q)) \<subseteq> entries (before @ q # tail)"
  by (auto simp: entries_Cons)

lemma en_any_lq: "en_any (lq_entry q) = (case lq_exact q of None \<Rightarrow> the (lq_inclusive q) | Some c \<Rightarrow> c)"
  by (simp add: en_any_def split: option.split)

lemma redirect_step:
  assumes n: "at_node p u before q tail w" "w = u @ [ch_slash]" "en_auto (lq_entry q)"
    and left: "loc_spec (entries before) (p @ u) (NGX_DONE, cl_loc_conf (en_any (lq_entry q))) r"
  shows "loc_spec (entries (before @ q # tail)) (p @ u) d r"
proof -
  let ?es = "entries (before @ q # tail)"
  have q: "lq_entry q \<in> ?es" "en_redirects (p @ u) (lq_entry q)" "en_name (lq_entry q) \<noteq> p @ u"
    using n(2,3) at_node_levels(7) [OF n(1)] by (auto simp: en_redirects_def entries_Cons)
  have before: "en_name e = p @ u" if "relevant (p @ u) e" "e \<in> entries before" for e
    using node_redirect n that by blast
  have rel: "e \<in> entries before \<or> e = lq_entry q" if "relevant (p @ u) e" "e \<in> ?es" for e
    using node_longer [OF n(1) _ that] n(2) by (auto simp: strict_prefix_def)
  show ?thesis
  proof (cases "\<exists>e \<in> entries before. en_name e = p @ u")
    case True
    then obtain e where "e \<in> entries before" "en_name e = p @ u" "r = en_hit e" using left unfolding loc_spec_def by auto
    then show ?thesis unfolding loc_spec_def using entries_parts(1) by auto
  next
    case False
    then have "r = (NGX_DONE, cl_loc_conf (en_any (lq_entry q)))"
      using left before loc_spec_none [of "entries before" "p @ u"] by blast
    moreover have "\<not> (\<exists>e \<in> ?es. en_name e = p @ u)" using False rel q(3) unfolding relevant_def by blast
    ultimately show ?thesis unfolding loc_spec_def using q by auto
  qed
qed

lemma find_static_step:
  assumes n: "at_node p u before q tail w" "length w < 256" "redirects_ok {lq_entry q}"
    and left: "\<And>rv loc. loc_spec (entries before) (p @ u) (rv, loc) (find_static L u rv loc)"
    and right: "\<And>rv loc. loc_spec (entries tail) (p @ u) (rv, loc) (find_static R u rv loc)"
    and own: "\<And>v rv loc. nul_free v \<Longrightarrow> loc_spec (entries (lq_list q)) (p @ w @ v) (rv, loc) (find_static T v rv loc)"
  shows "loc_spec (entries (before @ q # tail)) (p @ u) (rv, loc)
    (find_static (Node L R T (lq_exact q) (lq_inclusive q) (en_auto (lq_entry q)) (of_nat (length w)) w) u rv loc)"
    (is "loc_spec ?es _ _ ?r")
proof -
  have len: "unat (of_nat (length w) :: byte) = length w" using n(2) by (simp add: unat_of_nat)
  have nf: "nul_free u" "nul_free w" using n(1) at_node_levels(6) by (auto simp: at_node_def)
  note w = at_node_levels(7) [OF n(1)]
  have any: "lq_exact q \<noteq> None \<or> lq_inclusive q \<noteq> None" using at_node_levels(4) [OF n(1)] by (simp add: lq_ok_def)
  let ?rc = "ngx_filename_cmp u w (min (length u) (length w))"
  have m: "(if length u \<le> length w then length u else length w) = min (length u) (length w)" by simp
  consider "?rc < 0" | "?rc > 0" | "?rc = 0" "length w < length u" | "?rc = 0" "length u = length w"
    | "?rc = 0" "length u < length w" by linarith
  then show ?thesis
  proof cases
    case 1
    then have "?r = find_static L u rv loc" by (simp add: len m Let_def)
    then show ?thesis using loc_spec_part [OF left entries_parts(1)] node_less [OF n(1) 1] by metis
  next
    case 2
    then have "?r = find_static R u rv loc" by (simp add: len m Let_def)
    then show ?thesis using loc_spec_part [OF right entries_parts(2)] node_greater [OF n(1) 2] by metis
  next
    case 3
    note sp = filename_cmp_prefix(1) [OF nf 3]
    show ?thesis
    proof (cases "lq_inclusive q")
      case None
      then have "?r = find_static R u rv loc" using 3 by (simp add: len m Let_def)
      then show ?thesis using loc_spec_part [OF right entries_parts(2)] node_exact_only [OF n(1) sp None] by metis
    next
      case (Some c)
      then have "?r = find_static T (drop (length w) u) NGX_AGAIN (cl_loc_conf c)" using 3 by (simp add: len m Let_def)
      moreover have u: "u = w @ drop (length w) u" using sp by (auto simp: strict_prefix_def prefix_def)
      moreover have "nul_free (drop (length w) u)" using nf(1) by (rule nul_free_drop)
      ultimately have r: "loc_spec (entries (lq_list q)) (p @ u) (NGX_AGAIN, cl_loc_conf c) ?r"
        using own [of "drop (length w) u" NGX_AGAIN "cl_loc_conf c"] by simp
      have "loc_spec (insert (lq_entry q) (entries (lq_list q))) (p @ u) (rv, loc) ?r"
      proof (rule loc_spec_default)
        show "loc_spec (entries (lq_list q)) (p @ u) (NGX_AGAIN, cl_loc_conf (the (en_inclusive (lq_entry q)))) ?r"
          using r Some by simp
        show "en_covers (p @ u) (lq_entry q)" using Some w sp by (simp add: en_covers_def strict_prefix_def)
        show "length (en_name (lq_entry q)) \<le> length (en_name e)" if "e \<in> entries (lq_list q)" for e
          using prefix_length_less [OF own_entry_longer [OF at_node_levels(3) [OF n(1)] _ that]] by simp
      qed
      then show ?thesis
        by (rule loc_spec_part [OF _ entries_parts(3)]) (use node_inside [OF n(1) sp] Some in auto)
    qed
  next
    case 4
    then have "u = w" using filename_cmp_prefix(2) [OF nf] by simp
    moreover have "?r = en_hit (lq_entry q)" using 4 any by (auto simp: len m Let_def en_hit_def split: option.splits)
    ultimately show ?thesis using w by (auto simp: loc_spec_def entries_Cons)
  next
    case 5
    note sp = filename_cmp_prefix(3) [OF nf 5]
    show ?thesis
    proof (cases "length u + 1 = length w \<and> en_auto (lq_entry q)")
      case True
      then obtain v where v: "p @ w = v @ [ch_slash]" using n(3) w by (auto simp: redirects_ok_def)
      obtain zs where zs: "w = u @ zs" using sp by (auto simp: strict_prefix_def prefix_def)
      then obtain c where "zs = [c]" using True by (cases zs) auto
      then have "w = u @ [ch_slash]" using v zs by (metis append_assoc last_snoc)
      moreover have "?r = find_static L u NGX_DONE (cl_loc_conf (en_any (lq_entry q)))"
        using 5 True by (simp add: len m Let_def en_any_lq)
      ultimately show ?thesis using redirect_step [OF n(1)] True left by auto
    next
      case False
      then have "?r = find_static L u rv loc" using 5 by (auto simp: len m Let_def)
      moreover have "\<not> en_redirects (p @ u) (lq_entry q)" using False w by (auto simp: en_redirects_def)
      ultimately show ?thesis using loc_spec_part [OF left entries_parts(1)] node_longer [OF n(1) sp] by metis
    qed
  qed
qed

lemma find_static_spec:
  "level p locations \<Longrightarrow> nul_free u \<Longrightarrow> redirects_ok (entries locations) \<Longrightarrow>
    loc_spec (entries locations) (p @ u) (rv, loc)
      (find_static (ngx_http_create_locations_tree (length p) locations) u rv loc)"
proof (induction locations arbitrary: p u rv loc rule: measure_induct_rule [of "size_list size"])
  case (less locations)
  show ?case
  proof (cases "locations = []")
    case True
    then show ?thesis by (simp add: ngx_http_create_locations_tree.simps loc_spec_def)
  next
    case False
    obtain before q tail where l: "locations = before @ q # tail"
      and tree: "ngx_http_create_locations_tree (length p) locations =
       Node (ngx_http_create_locations_tree (length p) before) (ngx_http_create_locations_tree (length p) tail)
         (ngx_http_create_locations_tree (length p + (length (lq_name q) - length p)) (lq_list q)) (lq_exact q) (lq_inclusive q)
         (en_auto (lq_entry q)) (of_nat (length (lq_name q) - length p)) (drop (length p) (lq_name q))"
      using create_tree_split [OF False, of "length p"] by metis
    have "lq_ok p q" using level_own [OF less.prems(1), of q] l by simp
    then obtain w where w: "lq_name q = p @ w" "length w < 256" by (auto simp: lq_ok_def prefix_def)
    have n: "at_node p u before q tail w" using less.prems l w by (simp add: at_node_def)
    note levels = at_node_levels [OF n]
    have sizes: "size_list size before < size_list size locations" "size_list size tail < size_list size locations"
      "size_list size (lq_list q) < size_list size locations"
      using l size_list_lq_list [of q] by (auto simp: size_list_append)
    have ok: "redirects_ok (entries before)" "redirects_ok (entries tail)" "redirects_ok (entries (lq_list q))"
      "redirects_ok {lq_entry q}"
      using less.prems(3) l by (simp_all add: entries_Cons) (simp add: redirects_ok_def)
    have "loc_spec (entries (before @ q # tail)) (p @ u) (rv, loc)
      (find_static (Node (ngx_http_create_locations_tree (length p) before) (ngx_http_create_locations_tree (length p) tail)
         (ngx_http_create_locations_tree (length (p @ w)) (lq_list q)) (lq_exact q) (lq_inclusive q)
         (en_auto (lq_entry q)) (of_nat (length w)) w) u rv loc)"
      using less.IH [OF sizes(1) levels(1) less.prems(2) ok(1)] less.IH [OF sizes(2) levels(2) less.prems(2) ok(2)]
        less.IH [OF sizes(3) levels(5) _ ok(3)]
      by (intro find_static_step [OF n w(2) ok(4)]) auto
    then show ?thesis using tree l w by simp
  qed
qed

section \<open>The nested lists are levels\<close>

definition flat_ok :: "ngx_str \<Rightarrow> lq \<Rightarrow> bool" where
  "flat_ok p q \<longleftrightarrow> prefix p (lq_name q) \<and> nul_free (lq_name q) \<and> length (lq_name q) < 256 \<and>
     (lq_exact q \<noteq> None \<or> lq_inclusive q \<noteq> None) \<and> lq_list q = []"

definition lq_less :: "lq \<Rightarrow> lq \<Rightarrow> bool" where
  "lq_less q x \<longleftrightarrow> name_less (lq_name q) (lq_name x)"

lemma continues_iff:
  "nul_free name \<Longrightarrow> nul_free (lq_name x) \<Longrightarrow> continues name x \<longleftrightarrow> prefix name (lq_name x)"
  using filename_cmp_zero [of name "lq_name x" "length name"]
  by (auto simp: continues_def prefix_def take_is_prefix dest: sym [of name]) (metis append_take_drop_id)

text \<open>The names that continue \<open>a\<close> are next to each other.\<close>

lemma less_not_prefix: "nul_free a \<Longrightarrow> nul_free y \<Longrightarrow> name_less a y \<Longrightarrow> \<not> prefix a y \<Longrightarrow> name_less (a @ t) y"
proof (induction a arbitrary: y)
  case (Cons c a)
  then show ?case by (cases y) auto
qed simp

lemma prefix_interval:
  assumes "nul_free a" "nul_free y" "name_less a y" "\<not> prefix a y" "name_less y z"
  shows "\<not> prefix a z"
  using less_not_prefix [OF assms(1-4)] assms(5) name_less_trans name_less_irrefl by (metis prefix_def)

lemma dropWhile_continues:
  assumes "nul_free a" "sorted_wrt lq_less qs" "\<forall>x \<in> set qs. nul_free (lq_name x) \<and> name_less a (lq_name x)"
    "x \<in> set (dropWhile (continues a) qs)"
  shows "\<not> prefix a (lq_name x)"
  using assms
proof (induction qs)
  case (Cons y qs)
  then show ?case
    using continues_iff [of a y] prefix_interval [of a "lq_name y" "lq_name x"] by (auto simp: lq_less_def split: if_splits)
qed simp

lemma level_Cons:
  assumes "lq_ok p q" "level (lq_name q) (lq_list q)" "level p qs" "\<And>x. x \<in> set qs \<Longrightarrow> lq_before q x"
  shows "level p (q # qs)"
proof (rule levelI)
  have "sorted_wrt lq_before qs" using assms(3) by (cases rule: level.cases)
  then show "sorted_wrt lq_before (q # qs)" using assms(4) by simp
qed (use assms(1,2) level_own [OF assms(3)] in auto)

lemma level_Nil: "level p []"
  by (rule levelI) auto

lemma level_nested:
  assumes q: "flat_ok p q" and inside: "level (lq_name q) inside" "\<And>x. x \<in> set inside \<Longrightarrow> name_less (lq_name q) (lq_name x)"
    "lq_inclusive q = None \<longrightarrow> inside = []"
    and after: "level p after" "\<And>x. x \<in> set after \<Longrightarrow> name_less (lq_name q) (lq_name x)"
      "\<And>x. x \<in> set after \<Longrightarrow> lq_inclusive q \<noteq> None \<Longrightarrow> \<not> prefix (lq_name q) (lq_name x)"
  shows "level p (LQ (lq_exact q) (lq_inclusive q) (lq_name q) inside # after)"
proof (rule level_Cons)
  show "lq_ok p (LQ (lq_exact q) (lq_inclusive q) (lq_name q) inside)"
    using q inside(2,3) name_less_irrefl by (fastforce simp: lq_ok_def flat_ok_def)
qed (use inside after in \<open>auto simp: lq_before_def\<close>)

lemma lq_flat: "flat_ok p q \<Longrightarrow> LQ (lq_exact q) (lq_inclusive q) (lq_name q) [] = q"
  by (cases q) (simp add: flat_ok_def)

lemma create_list_level:
  "sorted_wrt lq_less qs \<Longrightarrow> \<forall>q \<in> set qs. flat_ok p q \<Longrightarrow>
    level p (ngx_http_create_locations_list qs) \<and> entries (ngx_http_create_locations_list qs) = entries qs \<and>
    lq_name ` set (ngx_http_create_locations_list qs) \<subseteq> lq_name ` set qs"
proof (induction qs arbitrary: p rule: ngx_http_create_locations_list.induct)
  case 1
  then show ?case by (simp add: level_Nil)
next
  case (2 q)
  then show ?case using level_nested [of p q "[]" "[]"] lq_flat [of p q] level_Nil by simp
next
  case (3 q x rest)
  let ?r = "x # rest"
  let ?ins = "takeWhile (continues (lq_name q)) ?r" and ?af = "dropWhile (continues (lq_name q)) ?r"
  let ?c = ngx_http_create_locations_list
  have q: "flat_ok p q" "nul_free (lq_name q)" "lq_list q = []" using "3.prems"(2) by (auto simp: flat_ok_def)
  have r: "sorted_wrt lq_less ?r" "\<forall>y \<in> set ?r. flat_ok p y" using "3.prems" by simp_all
  moreover have "\<forall>y \<in> set ?r. lq_less q y" using "3.prems"(1) by simp
  ultimately have r: "sorted_wrt lq_less ?r" "\<forall>y \<in> set ?r. flat_ok p y" "\<forall>y \<in> set ?r. name_less (lq_name q) (lq_name y)"
    by (auto simp: lq_less_def [of q])
  show ?case
  proof (cases "lq_inclusive q")
    case None
    note IH = "3.IH"(1) [OF None r(1,2)]
    have "level p (q # ?c ?r)"
      using level_nested [of p q "[]" "?c ?r"] lq_flat [OF q(1)] q level_Nil IH r(3) None by fastforce
    then show ?thesis using None IH by (auto simp: entries_Cons q)
  next
    case (Some c)
    then have inc: "lq_inclusive q \<noteq> None" by simp
    have af: "sorted_wrt lq_less ?af" "\<forall>y \<in> set ?af. flat_ok p y" "\<forall>y \<in> set ?af. name_less (lq_name q) (lq_name y)"
      using r by (auto simp: sorted_wrt_dropWhile dest: set_dropWhileD)
    have inn: "sorted_wrt lq_less ?ins" "\<forall>y \<in> set ?ins. flat_ok (lq_name q) y" "\<forall>y \<in> set ?ins. name_less (lq_name q) (lq_name y)"
      using r q continues_iff [of "lq_name q"] by (auto simp: sorted_wrt_takeWhile flat_ok_def dest: set_takeWhileD)
    have np: "\<not> prefix (lq_name q) (lq_name y)" if "y \<in> set ?af" for y
      using dropWhile_continues [OF q(2) r(1) _ that] r by (auto simp: flat_ok_def)
    have sub: "set ?af \<subseteq> set ?r" using set_dropWhileD by fast
    show ?thesis
    proof (cases "?ins = []")
      case True
      note IH = "3.IH"(2) [OF inc refl refl True af(1,2)]
      have c: "?c (q # ?r) = q # ?c ?af" using inc True by (auto split: if_splits)
      have names: "\<exists>z \<in> set ?af. lq_name y = lq_name z" if "y \<in> set (?c ?af)" for y using that IH by blast
      have "level p (LQ (lq_exact q) (lq_inclusive q) (lq_name q) [] # ?c ?af)"
        by (rule level_nested [OF q(1) level_Nil]) (use IH names af(3) np in \<open>auto dest!: names\<close>)
      then have "level p (q # ?c ?af)" unfolding lq_flat [OF q(1)] .
      moreover have "entries ?r = entries ?af" using True takeWhile_dropWhile_id [of _ ?r] by (metis append_Nil)
      then have "entries (q # ?c ?af) = entries (q # ?r)" using IH by (simp only: entries_Cons [of q])
      moreover have "lq_name ` set (q # ?c ?af) \<subseteq> lq_name ` set (q # ?r)"
        using IH sub by (simp only: list.set(2) [of q] image_insert) blast
      ultimately show ?thesis unfolding c by blast
    next
      case False
      note IHi = "3.IH"(3) [OF inc refl refl False, unfolded q(3) append_Nil, OF inn(1,2)]
      note IHa = "3.IH"(4) [OF inc refl refl False af(1,2)]
      have c: "?c (q # ?r) = LQ (lq_exact q) (lq_inclusive q) (lq_name q) (?c ?ins) # ?c ?af"
        using inc False by (auto simp: q(3) Let_def split: if_splits)
      have "\<exists>z \<in> set ?af. lq_name y = lq_name z" if "y \<in> set (?c ?af)" for y using that IHa by blast
      moreover have "\<exists>z \<in> set ?ins. lq_name y = lq_name z" if "y \<in> set (?c ?ins)" for y using that IHi by blast
      ultimately have "level p (?c (q # ?r))"
        unfolding c by (intro level_nested [OF q(1)]) (use IHi IHa inn(3) af(3) np inc in \<open>fastforce+\<close>)
      moreover have "entries ?r = entries ?ins \<union> entries ?af" by (metis entries_simps(2) takeWhile_dropWhile_id)
      then have "entries (?c (q # ?r)) = entries (q # ?r)" unfolding c
        using IHi IHa by (simp only: entries_Cons lq_entry_def lq.sel q(3) entries_simps) blast
      moreover have "lq_name ` set (?c (q # ?r)) \<subseteq> lq_name ` set (q # ?r)"
        unfolding c using IHa sub by (simp only: list.set(2) image_insert lq.sel) blast
      ultimately show ?thesis by blast
    qed
  qed
qed

section \<open>Joining and sorting\<close>

text \<open>The locations of a queue, and how its elements are made from them.\<close>

definition lq_pieces :: "lq \<Rightarrow> clcf list" where
  "lq_pieces q = (case lq_exact q of Some c \<Rightarrow> [c] | None \<Rightarrow> []) @ (case lq_inclusive q of Some c \<Rightarrow> [c] | None \<Rightarrow> [])"

definition lq_made :: "lq \<Rightarrow> bool" where
  "lq_made q \<longleftrightarrow> flat_ok [] q \<and>
     (\<forall>c. lq_exact q = Some c \<longrightarrow> cl_exact_match c \<and> cl_name c = lq_name q) \<and>
     (\<forall>c. lq_inclusive q = Some c \<longrightarrow> \<not> cl_exact_match c \<and> cl_name c = lq_name q)"

definition cl_key :: "clcf \<Rightarrow> ngx_str \<times> bool" where
  "cl_key c = (cl_name c, cl_exact_match c)"

text \<open>By name, and an exact location before an inclusive one of the same name.\<close>

definition lq_le :: "lq \<Rightarrow> lq \<Rightarrow> bool" where
  "lq_le q x \<longleftrightarrow> name_less (lq_name q) (lq_name x) \<or> lq_name q = lq_name x \<and> (lq_exact q = None \<longrightarrow> lq_exact x = None)"

lemma same_name_iff:
  assumes "lq_made q" "lq_made x"
  shows "length (lq_name q) = length (lq_name x) \<and> ngx_filename_cmp (lq_name q) (lq_name x) (length (lq_name x)) = 0
    \<longleftrightarrow> lq_name q = lq_name x"
proof (cases "length (lq_name q) = length (lq_name x)")
  case True
  have "nul_free (lq_name q)" "nul_free (lq_name x)" using assms by (simp_all add: lq_made_def flat_ok_def)
  then show ?thesis using filename_cmp_zero [of "lq_name q" "lq_name x" "length (lq_name x)"] True by simp
qed auto

lemma join_made:
  assumes "lq_made q" "lq_made x" "lq_name q = lq_name x" "lq_le q x"
    "\<not> (lq_exact q \<noteq> None \<and> lq_exact x \<noteq> None \<or> lq_inclusive q \<noteq> None \<and> lq_inclusive x \<noteq> None)"
  shows "lq_made (LQ (lq_exact q) (lq_inclusive x) (lq_name q) (lq_list q))"
    "lq_pieces (LQ (lq_exact q) (lq_inclusive x) (lq_name q) (lq_list q)) = lq_pieces q @ lq_pieces x"
proof -
  have n: "\<not> name_less (lq_name q) (lq_name x)" using assms(3) name_less_irrefl by simp
  have "lq_exact q \<noteq> None \<or> lq_inclusive q \<noteq> None" "lq_exact x \<noteq> None \<or> lq_inclusive x \<noteq> None"
    "lq_exact q = None \<longrightarrow> lq_exact x = None"
    using assms(1,2,4) n by (simp_all add: lq_made_def flat_ok_def lq_le_def)
  then have "lq_exact q \<noteq> None" "lq_exact x = None" "lq_inclusive q = None" "lq_inclusive x \<noteq> None"
    using assms(5) by argo+
  then show "lq_made (LQ (lq_exact q) (lq_inclusive x) (lq_name q) (lq_list q))"
    "lq_pieces (LQ (lq_exact q) (lq_inclusive x) (lq_name q) (lq_list q)) = lq_pieces q @ lq_pieces x"
    using assms(1-3) by (auto simp: lq_made_def flat_ok_def lq_pieces_def)
qed

lemma lq_le_same: "lq_name q = lq_name x \<Longrightarrow> lq_le q x \<Longrightarrow> lq_le x y \<Longrightarrow> lq_le (LQ (lq_exact q) i (lq_name q) l) y"
  by (auto simp: lq_le_def)

lemma join_some:
  "sorted_wrt lq_le qs \<Longrightarrow> \<forall>q \<in> set qs. lq_made q \<Longrightarrow> ngx_http_join_exact_locations qs = Some js \<Longrightarrow>
    sorted_wrt lq_less js \<and> (\<forall>q \<in> set js. lq_made q) \<and> concat (map lq_pieces js) = concat (map lq_pieces qs) \<and>
    lq_name ` set js = lq_name ` set qs"
proof (induction qs arbitrary: js rule: ngx_http_join_exact_locations.induct)
  case (1 q x rest)
  have m: "lq_made q" "lq_made x" "\<forall>y \<in> set rest. lq_made y" and le: "lq_le q x" using "1.prems" by auto
  let ?q = "LQ (lq_exact q) (lq_inclusive x) (lq_name q) (lq_list q)"
  show ?case
  proof (cases "lq_name q = lq_name x")
    case True
    then have nd: "\<not> (lq_exact q \<noteq> None \<and> lq_exact x \<noteq> None \<or> lq_inclusive q \<noteq> None \<and> lq_inclusive x \<noteq> None)"
      and j: "ngx_http_join_exact_locations (?q # rest) = Some js"
      using "1.prems"(3) same_name_iff [OF m(1,2)] by (auto split: if_splits)
    note q = join_made [OF m(1,2) True le nd]
    have "sorted_wrt lq_le (?q # rest)" using "1.prems"(1) True lq_le_same [OF True le] by auto
    then show ?thesis using "1.IH"(1) [OF _ nd _ _ j] same_name_iff [OF m(1,2)] True q m by auto
  next
    case False
    then obtain js' where j: "ngx_http_join_exact_locations (x # rest) = Some js'" "js = q # js'"
      using "1.prems"(3) same_name_iff [OF m(1,2)] by (auto split: if_splits)
    have IH: "sorted_wrt lq_less js'" "\<forall>q \<in> set js'. lq_made q"
        "concat (map lq_pieces js') = concat (map lq_pieces (x # rest))" "lq_name ` set js' = lq_name ` set (x # rest)"
      using "1.IH"(2) [OF _ _ _ j(1)] False "1.prems"(1,2) same_name_iff [OF m(1,2)] by auto
    have "name_less (lq_name q) (lq_name y)" if "y \<in> set (x # rest)" for y
    proof -
      have "name_less (lq_name q) (lq_name x)" using le False by (simp add: lq_le_def)
      moreover have "y = x \<or> lq_le x y" using that "1.prems"(1) by auto
      ultimately show ?thesis using name_less_trans by (auto simp: lq_le_def)
    qed
    then have "lq_less q y" if "y \<in> set js'" for y
      using that IH(4) unfolding lq_less_def by (metis imageE imageI)
    then show ?thesis using IH j m by auto
  qed
qed auto

lemma join_distinct:
  "sorted_wrt lq_le qs \<Longrightarrow> \<forall>q \<in> set qs. lq_made q \<Longrightarrow> distinct (map cl_key (concat (map lq_pieces qs))) \<Longrightarrow>
    ngx_http_join_exact_locations qs \<noteq> None"
proof (induction qs rule: ngx_http_join_exact_locations.induct)
  case (1 q x rest)
  have m: "lq_made q" "lq_made x" "\<forall>y \<in> set rest. lq_made y" and le: "lq_le q x" using "1.prems" by auto
  let ?q = "LQ (lq_exact q) (lq_inclusive x) (lq_name q) (lq_list q)"
  show ?case
  proof (cases "lq_name q = lq_name x")
    case True
    have nd: "\<not> (lq_exact q \<noteq> None \<and> lq_exact x \<noteq> None \<or> lq_inclusive q \<noteq> None \<and> lq_inclusive x \<noteq> None)"
      using "1.prems"(3) m(1,2) True by (auto simp: lq_pieces_def lq_made_def cl_key_def split: option.splits)
    note q = join_made [OF m(1,2) True le nd]
    have "sorted_wrt lq_le (?q # rest)" using "1.prems"(1) True lq_le_same [OF True le] by auto
    moreover have "distinct (map cl_key (concat (map lq_pieces (?q # rest))))" using "1.prems"(3) q(2) by simp
    ultimately have "ngx_http_join_exact_locations (?q # rest) \<noteq> None"
      using "1.IH"(1) [OF _ nd] same_name_iff [OF m(1,2)] True q(1) m(3) by simp
    then show ?thesis using nd True same_name_iff [OF m(1,2)] by simp
  next
    case False
    then have "ngx_http_join_exact_locations (x # rest) \<noteq> None"
      using "1.IH"(2) "1.prems" same_name_iff [OF m(1,2)] by simp
    then show ?thesis using False same_name_iff [OF m(1,2)] by auto
  qed
qed auto

end
