(* ===== verification/Location_Lookup.thy ===== *)
theory Location_Lookup
  imports Http_Location
begin

text \<open>
  What the search for a location returns: \<open>ngx_queue_sort\<close> sorts for any comparison that is a
  total preorder (the locale \<open>queue_order\<close>, interpreted on \<open>ngx_http_cmp_locations\<close>); the static
  locations of a server, sorted, joined, nested and made a tree, give the location that the
  set of them promises; the whole search with its regular expressions ends and keeps the
  documented precedence.
\<close>

section \<open>Sorting\<close>

text \<open>What a comparison must satisfy for \<open>ngx_queue_sort\<close> to sort.\<close>

locale queue_order =
  fixes cmp :: "'a \<Rightarrow> 'a \<Rightarrow> int" and A :: "'a set"
  assumes cmp_total: "x \<in> A \<Longrightarrow> y \<in> A \<Longrightarrow> cmp x y \<le> 0 \<or> cmp y x \<le> 0"
    and cmp_trans: "x \<in> A \<Longrightarrow> y \<in> A \<Longrightarrow> z \<in> A \<Longrightarrow> cmp x y \<le> 0 \<Longrightarrow> cmp y z \<le> 0 \<Longrightarrow> cmp x z \<le> 0"
begin

lemma insert_back_sorted:
  "set bs \<subseteq> A \<Longrightarrow> q \<in> A \<Longrightarrow> sorted_wrt (\<lambda>x y. cmp y x \<le> 0) bs \<Longrightarrow>
    sorted_wrt (\<lambda>x y. cmp y x \<le> 0) (queue_insert_back cmp q bs) \<and> mset (queue_insert_back cmp q bs) = add_mset q (mset bs)"
proof (induction bs)
  case (Cons b bs)
  then have IH: "sorted_wrt (\<lambda>x y. cmp y x \<le> 0) (queue_insert_back cmp q bs)"
      "mset (queue_insert_back cmp q bs) = add_mset q (mset bs)" by auto
  have "set (queue_insert_back cmp q bs) = insert q (set bs)" using IH(2) by (metis set_mset_add_mset_insert set_mset_mset)
  then show ?case
  proof (cases "cmp b q \<le> 0")
    case True
    have "cmp y q \<le> 0" if "y \<in> set bs" for y
      using cmp_trans [of y b q] that Cons.prems True by auto
    then show ?thesis using True Cons.prems by simp
  next
    case False
    then have "cmp q b \<le> 0" using cmp_total [of b q] Cons.prems by auto
    then show ?thesis using False Cons.prems IH \<open>set (queue_insert_back cmp q bs) = insert q (set bs)\<close> by auto
  qed
qed simp

lemma queue_sorted:
  "set queue \<subseteq> A \<Longrightarrow> sorted_wrt (\<lambda>x y. cmp x y \<le> 0) (ngx_queue_sort cmp queue) \<and> mset (ngx_queue_sort cmp queue) = mset queue"
proof -
  have "set queue \<subseteq> A \<Longrightarrow> set bs \<subseteq> A \<Longrightarrow> sorted_wrt (\<lambda>x y. cmp y x \<le> 0) bs \<Longrightarrow>
    sorted_wrt (\<lambda>x y. cmp y x \<le> 0) (foldl (\<lambda>bs q. queue_insert_back cmp q bs) bs queue) \<and>
    mset (foldl (\<lambda>bs q. queue_insert_back cmp q bs) bs queue) = mset bs + mset queue" for bs
  proof (induction queue arbitrary: bs)
    case (Cons q queue)
    note i = insert_back_sorted [of bs q]
    have "set (queue_insert_back cmp q bs) = insert q (set bs)"
      using i Cons.prems by (metis insert_subset list.set(2) set_mset_add_mset_insert set_mset_mset)
    then show ?case using Cons i by simp
  qed simp
  from this [of "[]"] show "set queue \<subseteq> A \<Longrightarrow> ?thesis" by (simp add: ngx_queue_sort_def sorted_wrt_rev)
qed

end

text \<open>The order of \<open>ngx_http_cmp_locations\<close>: static, regular expressions, named, no name.\<close>

definition lq_rank :: "lq \<Rightarrow> nat" where
  "lq_rank q = (let c = lq_clcf q in if cl_noname c then 3 else if cl_named c then 2 else if cl_regex c then 1 else 0)"

lemma strcmp_le:
  "nul_free a \<Longrightarrow> nul_free b \<Longrightarrow> ngx_strcmp a b \<le> 0 \<longleftrightarrow> lexordp_eq (map uint a) (map uint b)"
proof (induction a arbitrary: b)
  case (Cons c a)
  then show ?case by (cases b) (auto simp: word_uint_eq_iff)
qed (auto simp: hd0_def split: list.split)

lemma cmp_locations_le:
  assumes "nul_free (cl_name (lq_clcf a))" "nul_free (cl_name (lq_clcf b))"
  shows "ngx_http_cmp_locations a b \<le> 0 \<longleftrightarrow> lq_rank a < lq_rank b \<or> lq_rank a = lq_rank b \<and>
    (lq_rank a = 0 \<longrightarrow> name_less (cl_name (lq_clcf a)) (cl_name (lq_clcf b)) \<or>
       cl_name (lq_clcf a) = cl_name (lq_clcf b) \<and> (cl_exact_match (lq_clcf b) \<longrightarrow> cl_exact_match (lq_clcf a))) \<and>
    (lq_rank a = 2 \<longrightarrow> lexordp_eq (map uint (cl_name (lq_clcf a))) (map uint (cl_name (lq_clcf b))))"
proof -
  define rc where "rc = ngx_filename_cmp (cl_name (lq_clcf a)) (cl_name (lq_clcf b))
    (min (length (cl_name (lq_clcf a))) (length (cl_name (lq_clcf b))) + 1)"
  have "rc < 0 \<longleftrightarrow> name_less (cl_name (lq_clcf a)) (cl_name (lq_clcf b))"
      "rc = 0 \<longleftrightarrow> cl_name (lq_clcf a) = cl_name (lq_clcf b)"
    unfolding rc_def by (rule filename_cmp_whole [OF assms])+
  then have rc: "rc \<le> 0 \<longleftrightarrow> name_less (cl_name (lq_clcf a)) (cl_name (lq_clcf b)) \<or> cl_name (lq_clcf a) = cl_name (lq_clcf b)"
      "rc = 0 \<longleftrightarrow> cl_name (lq_clcf a) = cl_name (lq_clcf b)"
    by linarith+
  have irrefl: "cl_name (lq_clcf a) = cl_name (lq_clcf b) \<Longrightarrow> \<not> name_less (cl_name (lq_clcf a)) (cl_name (lq_clcf b))"
    using name_less_irrefl by simp
  show ?thesis
    unfolding ngx_http_cmp_locations_def lq_rank_def Let_def rc_def [symmetric]
    using rc irrefl strcmp_le [OF assms]
    by (cases "cl_noname (lq_clcf a)"; cases "cl_noname (lq_clcf b)"; cases "cl_named (lq_clcf a)";
        cases "cl_named (lq_clcf b)"; cases "cl_regex (lq_clcf a)"; cases "cl_regex (lq_clcf b)"; simp; blast)
qed

interpretation loc_order: queue_order ngx_http_cmp_locations "{q. nul_free (cl_name (lq_clcf q))}"
proof
  fix x y z
  assume "x \<in> {q. nul_free (cl_name (lq_clcf q))}" "y \<in> {q. nul_free (cl_name (lq_clcf q))}"
  then have n: "nul_free (cl_name (lq_clcf x))" "nul_free (cl_name (lq_clcf y))" by auto
  let ?x = "cl_name (lq_clcf x)" and ?y = "cl_name (lq_clcf y)" and ?z = "cl_name (lq_clcf z)"
  show "ngx_http_cmp_locations x y \<le> 0 \<or> ngx_http_cmp_locations y x \<le> 0"
    using name_less_total [OF n] lexordp_eq_linear [of "map uint ?x" "map uint ?y"]
    by (auto simp: cmp_locations_le [OF n] cmp_locations_le [OF n(2,1)])
  assume "z \<in> {q. nul_free (cl_name (lq_clcf q))}" and le: "ngx_http_cmp_locations x y \<le> 0" "ngx_http_cmp_locations y z \<le> 0"
  then have nz: "nul_free ?z" by simp
  show "ngx_http_cmp_locations x z \<le> 0"
    using le name_less_trans [of ?x ?y ?z] lexordp_eq_trans [of "map uint ?x" "map uint ?y" "map uint ?z"]
    unfolding cmp_locations_le [OF n] cmp_locations_le [OF n(2) nz] cmp_locations_le [OF n(1) nz]
    by (elim disjE conjE) auto
qed

section \<open>The search tree of a server\<close>

text \<open>A static location: found by its name, not a regular expression, not named, with a name.\<close>

definition static_location :: "clcf \<Rightarrow> bool" where
  "static_location c \<longleftrightarrow> \<not> cl_regex c \<and> \<not> cl_named c \<and> \<not> cl_noname c"

text \<open>
  What is known of a configured location: its name has no NUL and fits the length field of a
  tree node; it is of one kind only; a redirect is only set up for names that end with a slash.
\<close>

definition location_ok :: "clcf \<Rightarrow> bool" where
  "location_ok c \<longleftrightarrow> nul_free (cl_name c) \<and> length (cl_name c) < 256 \<and>
     (cl_regex c \<longrightarrow> \<not> cl_named c \<and> \<not> cl_noname c) \<and> (cl_named c \<longrightarrow> \<not> cl_noname c) \<and>
     (cl_auto_redirect c \<longrightarrow> (\<exists>v. cl_name c = v @ [ch_slash]))"

lemma lq_clcf_queue [simp]: "lq_clcf (location_queue c) = c"
  by (simp add: location_queue_def lq_clcf_def)

lemma lq_made_queue: "static_location c \<Longrightarrow> location_ok c \<Longrightarrow> lq_made (location_queue c)"
  by (auto simp: static_location_def location_ok_def location_queue_def lq_made_def flat_ok_def)

lemma lq_pieces_queue: "lq_pieces (location_queue c) = [c]"
  by (simp add: location_queue_def lq_pieces_def)

lemma takeWhile_filter:
  "sorted_wrt R xs \<Longrightarrow> (\<And>x y. x \<in> set xs \<Longrightarrow> y \<in> set xs \<Longrightarrow> R x y \<Longrightarrow> P y \<Longrightarrow> P x) \<Longrightarrow> takeWhile P xs = filter P xs"
proof (induction xs)
  case (Cons x xs)
  then have IH: "takeWhile P xs = filter P xs" by auto
  show ?case
  proof (cases "P x")
    case False
    then have "filter P xs = []" using Cons.prems by (auto simp: filter_empty_conv)
    then show ?thesis using False by simp
  qed (use IH in simp)
qed simp

lemma takeWhile_twice: "takeWhile P (takeWhile Q xs) = takeWhile (\<lambda>x. P x \<and> Q x) xs"
  by (induction xs) auto

lemma rank_static: "lq_rank q = 0 \<longleftrightarrow> static_location (lq_clcf q)"
  by (auto simp: lq_rank_def static_location_def Let_def)

lemma init_static:
  assumes "\<forall>c \<in> set ls. location_ok c"
  defines "sorted' \<equiv> ngx_queue_sort ngx_http_cmp_locations (map location_queue ls)"
  defines "static' \<equiv> fst (ngx_http_init_locations (map location_queue ls))"
  shows "static' = filter (\<lambda>q. static_location (lq_clcf q)) sorted'"
    "sorted_wrt lq_le static'" "\<forall>q \<in> set static'. lq_made q"
    "mset (concat (map lq_pieces static')) = mset (filter static_location ls)"
proof -
  have nf: "set (map location_queue ls) \<subseteq> {q. nul_free (cl_name (lq_clcf q))}" using assms(1) by (auto simp: location_ok_def)
  have s: "sorted_wrt (\<lambda>x y. ngx_http_cmp_locations x y \<le> 0) sorted'" "mset sorted' = mset (map location_queue ls)"
    using loc_order.queue_sorted [OF nf] by (simp_all add: sorted'_def)
  then have set: "set sorted' = location_queue ` set ls" by (metis list.set_map mset_eq_setD)
  have nf': "nul_free (cl_name (lq_clcf q))" if "q \<in> set sorted'" for q using that set assms(1) by (auto simp: location_ok_def)
  have "static' = takeWhile (\<lambda>q. static_location (lq_clcf q)) sorted'"
    unfolding static'_def sorted'_def ngx_http_init_locations_def Let_def fst_conv takeWhile_twice
    by (rule arg_cong [where f = "\<lambda>P. takeWhile P _"]) (auto simp: static_location_def)
  also have "\<dots> = filter (\<lambda>q. static_location (lq_clcf q)) sorted'"
    by (rule takeWhile_filter [OF s(1)]) (use nf' in \<open>auto simp: cmp_locations_le rank_static [symmetric]\<close>)
  finally show st: "static' = filter (\<lambda>q. static_location (lq_clcf q)) sorted'" .
  have el: "\<exists>c. q = location_queue c \<and> c \<in> set ls \<and> static_location c" if "q \<in> set static'" for q
    using that st set by auto
  then show "\<forall>q \<in> set static'. lq_made q" using assms(1) lq_made_queue by blast
  have "lq_le q x" if "q \<in> set static'" "x \<in> set static'" "ngx_http_cmp_locations q x \<le> 0" for q x
  proof -
    note qx = that
    obtain c d where cd: "q = location_queue c" "static_location c" "x = location_queue d" "static_location d"
      using el [OF qx(1)] el [OF qx(2)] by blast
    have "lq_rank q = 0" "lq_rank x = 0" using cd by (simp_all add: rank_static)
    moreover have "nul_free (cl_name (lq_clcf q))" "nul_free (cl_name (lq_clcf x))" using qx st nf' by auto
    ultimately have "name_less (cl_name c) (cl_name d) \<or> cl_name c = cl_name d \<and> (cl_exact_match d \<longrightarrow> cl_exact_match c)"
      using qx(3) by (simp add: cmp_locations_le cd)
    then show ?thesis using cd(2,4) unfolding cd(1,3) lq_le_def location_queue_def static_location_def by auto
  qed
  moreover have "sorted_wrt (\<lambda>x y. ngx_http_cmp_locations x y \<le> 0) static'"
    unfolding st by (rule sorted_wrt_filter [OF s(1)])
  ultimately show "sorted_wrt lq_le static'" by (rule sorted_wrt_mono_rel)
  have "concat (map lq_pieces static') = map lq_clcf static'"
  proof -
    have "lq_pieces q = [lq_clcf q]" if "q \<in> set static'" for q
      using el [OF that] lq_pieces_queue by auto
    then have "map lq_pieces static' = map (\<lambda>q. [lq_clcf q]) static'" by (rule map_cong [OF refl])
    then have "concat (map lq_pieces static') = concat (map (\<lambda>q. [lq_clcf q]) static')" by metis
    then show ?thesis by simp
  qed
  moreover have "mset (map lq_clcf static') = mset (filter static_location ls)"
  proof -
    have "mset (map lq_clcf static') = image_mset lq_clcf (filter_mset (\<lambda>q. static_location (lq_clcf q)) (mset sorted'))"
      by (simp add: st)
    also have "\<dots> = image_mset lq_clcf (filter_mset (\<lambda>q. static_location (lq_clcf q)) (image_mset location_queue (mset ls)))"
      using s(2) by simp
    also have "\<dots> = filter_mset static_location (mset ls)"
      by (induction ls) auto
    finally show ?thesis by simp
  qed
  ultimately show "mset (concat (map lq_pieces static')) = mset (filter static_location ls)" by simp
qed


section \<open>The directive\<close>

lemma location_args_ok:
  assumes "location_args compiles (new_clcf loc_conf) args = Some c" "\<forall>a \<in> set args. nul_free a \<and> length a < 256"
  shows "location_ok c \<and> cl_loc_conf c = loc_conf"
proof -
  have drop: "nul_free (drop n a) \<and> length (drop n a) < 256" if "nul_free a \<and> length a < 256" for n a
    using that nul_free_drop by auto
  obtain a where a: "args = [a] \<or> (\<exists>m. args = [m, a])" "nul_free a \<and> length a < 256"
    using assms by (auto simp: location_args_def split: list.splits)
  note cut = drop [OF a(2), of 1] drop [OF a(2), of 2] a(2)
  have "(\<exists>n. cl_name c = drop n a) \<and> (cl_regex c \<longrightarrow> \<not> cl_named c) \<and> \<not> cl_noname c \<and> \<not> cl_auto_redirect c \<and> cl_loc_conf c = loc_conf"
    using a(1) assms(1) drop_0 [of a] drop_Suc [of 0 a] drop_Suc [of 1 a]
    by (auto simp: location_args_def new_clcf_def regex_location_def Let_def tl_drop numeral_2_eq_2 split: if_splits)
      (metis drop_0 drop_Suc)+
  then show ?thesis using drop [OF a(2)] by (auto simp: location_ok_def)
qed

lemma filename_cmp_head: "nul_free b \<Longrightarrow> ngx_filename_cmp a b (length b) = 0 \<Longrightarrow> prefix b a"
proof (induction b arbitrary: a)
  case (Cons d b)
  then show ?case by (cases a) (auto simp: Let_def word_uint_eq_iff split: if_splits)
qed simp

text \<open>
  The \<open>location\<close> directive appends one element to the queue of its block. It is of one
  kind, its name is from its arguments, and when the block is itself a location, that is
  neither exact nor named and its name is a prefix of the new one, unless the new one is a
  regular expression.
\<close>

theorem location_directive:
  assumes "ngx_http_core_location compiles loc_conf args inside locations = Some locations'"
    "\<forall>a \<in> set args. nul_free a \<and> length a < 256" "\<forall>p. inside = Some p \<longrightarrow> nul_free (cl_name p)"
  shows "\<exists>c. locations' = locations @ [location_queue c] \<and> location_ok c \<and> cl_loc_conf c = loc_conf \<and>
    (\<forall>p. inside = Some p \<longrightarrow> \<not> cl_exact_match p \<and> \<not> cl_named p \<and> \<not> cl_named c \<and>
       (cl_regex c \<or> prefix (cl_name p) (cl_name c)))"
proof -
  obtain c where c: "location_args compiles (new_clcf loc_conf) args = Some c" "locations' = locations @ [location_queue c]"
      "\<forall>p. inside = Some p \<longrightarrow> nested_ok p c"
    using assms(1) by (auto simp: ngx_http_core_location_def ngx_http_add_location_def split: option.splits if_splits)
  note ok = location_args_ok [OF c(1) assms(2)]
  have "prefix (cl_name p) (cl_name c)" if "inside = Some p" "\<not> cl_regex c" for p
    using that c(3) assms(3) filename_cmp_head by (simp add: nested_ok_def)
  then show ?thesis using c ok by (auto simp: nested_ok_def)
qed

lemma location_directive_witness:
  "\<exists>c. ngx_http_add_location [] ((new_clcf 4)\<lparr>cl_name := [ch_slash, 0x69]\<rparr>) = [] @ [location_queue c] \<and> location_ok c \<and> cl_loc_conf c = 4 \<and>
    (\<forall>p. Some ((new_clcf 3)\<lparr>cl_name := [ch_slash]\<rparr>) = Some p \<longrightarrow> \<not> cl_exact_match p \<and> \<not> cl_named p \<and> \<not> cl_named c \<and>
       (cl_regex c \<or> prefix (cl_name p) (cl_name c)))"
  by (rule location_directive [of "\<lambda>_ _. True" 4 "[[ch_slash, 0x69]]"])
    (simp_all add: ngx_http_core_location_def location_args_def new_clcf_def nested_ok_def)

section \<open>The contract of the search\<close>

text \<open>
  What the static locations \<open>S\<close> of a level promise for a URI: the exact location of that name,
  else the inclusive one of that name, else the redirect for a name that only lacks the final
  slash, else the longest inclusive location that is a proper prefix, else nothing is found.
\<close>

definition loc_covers :: "ngx_str \<Rightarrow> clcf \<Rightarrow> bool" where
  "loc_covers uri c \<longleftrightarrow> \<not> cl_exact_match c \<and> strict_prefix (cl_name c) uri"

definition location_result :: "clcf set \<Rightarrow> ngx_str \<Rightarrow> nat \<Rightarrow> ngx_rc \<times> nat \<Rightarrow> bool" where
  "location_result S uri loc r \<longleftrightarrow>
     (if \<exists>c \<in> S. cl_name c = uri \<and> cl_exact_match c then
        \<exists>c \<in> S. cl_name c = uri \<and> cl_exact_match c \<and> r = (NGX_OK, cl_loc_conf c)
      else if \<exists>c \<in> S. cl_name c = uri then \<exists>c \<in> S. cl_name c = uri \<and> r = (NGX_AGAIN, cl_loc_conf c)
      else if \<exists>c \<in> S. cl_name c = uri @ [ch_slash] \<and> cl_auto_redirect c then
        \<exists>c \<in> S. cl_name c = uri @ [ch_slash] \<and> r = (NGX_DONE, cl_loc_conf c)
      else if \<exists>c \<in> S. loc_covers uri c then
        \<exists>c \<in> S. loc_covers uri c \<and> (\<forall>d \<in> S. loc_covers uri d \<longrightarrow> length (cl_name d) \<le> length (cl_name c)) \<and>
          r = (NGX_AGAIN, cl_loc_conf c)
      else r = (NGX_DECLINED, loc))"

text \<open>A flat list of elements, one for each name, that holds the locations \<open>S\<close>.\<close>

definition represents :: "lq list \<Rightarrow> clcf set \<Rightarrow> bool" where
  "represents js S \<longleftrightarrow> inj_on lq_name (set js) \<and> (\<forall>q \<in> set js. lq_made q) \<and> \<Union> ((set \<circ> lq_pieces) ` set js) = S"

lemma lq_pieces_iff: "c \<in> set (lq_pieces q) \<longleftrightarrow> lq_exact q = Some c \<or> lq_inclusive q = Some c"
  by (auto simp: lq_pieces_def split: option.splits)

lemma represents_entries:
  assumes "represents js S"
  shows "entries js = lq_entry ` set js"
  using assms by (fastforce simp: in_entries represents_def lq_made_def flat_ok_def)

lemma represents_unique: "represents js S \<Longrightarrow> q \<in> set js \<Longrightarrow> x \<in> set js \<Longrightarrow> lq_name q = lq_name x \<Longrightarrow> q = x"
  by (auto simp: represents_def inj_on_def)

lemma represents_element:
  assumes "represents js S" "q \<in> set js"
  shows "lq_exact q = Some c \<Longrightarrow> c \<in> S \<and> cl_exact_match c \<and> cl_name c = lq_name q"
    "lq_inclusive q = Some c \<Longrightarrow> c \<in> S \<and> \<not> cl_exact_match c \<and> cl_name c = lq_name q"
    "lq_exact q \<noteq> None \<or> lq_inclusive q \<noteq> None"
  using assms by (auto simp: represents_def lq_pieces_iff lq_made_def flat_ok_def)

lemma represents_in:
  assumes "represents js S" "c \<in> S"
  obtains q where "q \<in> set js" "lq_name q = cl_name c" "cl_exact_match c \<longrightarrow> lq_exact q = Some c"
    "\<not> cl_exact_match c \<longrightarrow> lq_inclusive q = Some c"
proof -
  obtain q where q: "q \<in> set js" "lq_exact q = Some c \<or> lq_inclusive q = Some c"
    using assms by (auto simp: represents_def lq_pieces_iff)
  have "lq_exact q = Some c \<Longrightarrow> cl_exact_match c \<and> cl_name c = lq_name q"
      "lq_inclusive q = Some c \<Longrightarrow> \<not> cl_exact_match c \<and> cl_name c = lq_name q"
    using represents_element(1,2) [OF assms(1) q(1)] by blast+
  then show ?thesis using q(2) by (intro that [OF q(1)]) auto
qed

lemma represents_covers:
  assumes "represents js S"
  shows "(\<exists>c \<in> S. loc_covers uri c \<and> P c) \<longleftrightarrow> (\<exists>q \<in> set js. en_covers uri (lq_entry q) \<and> P (the (lq_inclusive q)))"
proof (intro iffI; elim bexE conjE)
  fix c
  assume c: "c \<in> S" "loc_covers uri c" "P c"
  obtain q where "q \<in> set js" "lq_name q = cl_name c" "\<not> cl_exact_match c \<longrightarrow> lq_inclusive q = Some c"
    by (rule represents_in [OF assms c(1)])
  then show "\<exists>q \<in> set js. en_covers uri (lq_entry q) \<and> P (the (lq_inclusive q))"
    using c(2,3) by (intro bexI [of _ q]) (auto simp: loc_covers_def en_covers_def)
next
  fix q
  assume q: "q \<in> set js" "en_covers uri (lq_entry q)" "P (the (lq_inclusive q))"
  then obtain c where "lq_inclusive q = Some c" by (auto simp: en_covers_def)
  then show "\<exists>c \<in> S. loc_covers uri c \<and> P c"
    using q represents_element(2) [OF assms q(1), of c] by (intro bexI [of _ c]) (auto simp: loc_covers_def en_covers_def)
qed

lemma represents_redirects:
  assumes "represents js S"
  shows "(\<exists>c \<in> S. cl_name c = uri @ [ch_slash] \<and> cl_auto_redirect c) \<longleftrightarrow> (\<exists>q \<in> set js. en_redirects uri (lq_entry q))"
proof (intro iffI; elim bexE conjE)
  fix c
  assume c: "c \<in> S" "cl_name c = uri @ [ch_slash]" "cl_auto_redirect c"
  obtain q where "q \<in> set js" "lq_name q = cl_name c" "cl_exact_match c \<longrightarrow> lq_exact q = Some c"
      "\<not> cl_exact_match c \<longrightarrow> lq_inclusive q = Some c"
    by (rule represents_in [OF assms c(1)])
  then show "\<exists>q \<in> set js. en_redirects uri (lq_entry q)"
    using c(2,3) by (intro bexI [of _ q]) (auto simp: en_redirects_def en_auto_def)
next
  fix q
  assume q: "q \<in> set js" "en_redirects uri (lq_entry q)"
  then obtain c where "lq_exact q = Some c \<or> lq_inclusive q = Some c" "cl_auto_redirect c"
    by (auto simp: en_redirects_def en_auto_def)
  then show "\<exists>c \<in> S. cl_name c = uri @ [ch_slash] \<and> cl_auto_redirect c"
    using q(2) represents_element(1,2) [OF assms q(1), of c] by (intro bexI [of _ c]) (auto simp: en_redirects_def)
qed

lemma spec_result:
  assumes r: "represents js S" and spec: "loc_spec (entries js) uri (NGX_DECLINED, loc) res"
  shows "location_result S uri loc res"
proof (cases "\<exists>q \<in> set js. lq_name q = uri")
  case True
  then obtain q where q: "q \<in> set js" "lq_name q = uri" "res = en_hit (lq_entry q)"
    using spec unfolding loc_spec_def represents_entries [OF r] by auto
  note el = represents_element [OF r q(1)]
  show ?thesis
  proof (cases "lq_exact q")
    case (Some c)
    then show ?thesis using el(1) q by (auto simp: location_result_def en_hit_def)
  next
    case None
    then obtain c where c: "lq_inclusive q = Some c" using el(3) by blast
    have "\<not> (cl_name d = uri \<and> cl_exact_match d)" if "d \<in> S" for d
      using represents_in [OF r that] represents_unique [OF r _ q(1)] q(2) None by (metis option.distinct(1))
    then show ?thesis using c el(2) [OF c] q None by (auto simp: location_result_def en_hit_def)
  qed
next
  case False
  then have n: "\<not> (\<exists>c \<in> S. cl_name c = uri)" using represents_in [OF r] by metis
  note red = represents_redirects [OF r, of uri]
  have any: "en_any (lq_entry q) \<in> S \<and> cl_name (en_any (lq_entry q)) = lq_name q" if "q \<in> set js" for q
    using represents_element [OF r that] unfolding en_any_lq by (cases "lq_exact q") auto
  note cov = represents_covers [OF r, of uri]
  have all: "(\<forall>c \<in> S. loc_covers uri c \<longrightarrow> P c) \<longleftrightarrow> (\<forall>q \<in> set js. en_covers uri (lq_entry q) \<longrightarrow> P (the (lq_inclusive q)))" for P
    using cov [of "\<lambda>c. \<not> P c"] by blast
  have len: "cl_name (the (lq_inclusive q)) = lq_name q" if "q \<in> set js" "en_covers uri (lq_entry q)" for q
    using represents_element(2) [OF r that(1)] that(2) by (auto simp: en_covers_def)
  show ?thesis
  proof (cases "\<exists>q \<in> set js. en_redirects uri (lq_entry q)")
    case True
    then obtain q where q: "q \<in> set js" "en_redirects uri (lq_entry q)" "res = (NGX_DONE, cl_loc_conf (en_any (lq_entry q)))"
      using spec False unfolding loc_spec_def represents_entries [OF r] by auto
    then show ?thesis using any [OF q(1)] n True red unfolding location_result_def by (auto simp: en_redirects_def)
  next
    case nored: False
    show ?thesis
    proof (cases "\<exists>q \<in> set js. en_covers uri (lq_entry q)")
      case True
      then obtain q where q: "q \<in> set js" "en_covers uri (lq_entry q)" "res = (NGX_AGAIN, cl_loc_conf (the (lq_inclusive q)))"
          "\<forall>x \<in> set js. en_covers uri (lq_entry x) \<longrightarrow> length (lq_name x) \<le> length (lq_name q)"
        using spec False nored unfolding loc_spec_def represents_entries [OF r] by auto
      let ?c = "the (lq_inclusive q)"
      have c: "?c \<in> S" "loc_covers uri ?c"
        using represents_element(2) [OF r q(1)] q(2) by (auto simp: en_covers_def loc_covers_def)
      moreover have "\<forall>d \<in> S. loc_covers uri d \<longrightarrow> length (cl_name d) \<le> length (cl_name ?c)"
        unfolding all using q len by simp
      ultimately show ?thesis using n nored red q(3) unfolding location_result_def by auto
    next
      case nocov: False
      then have "res = (NGX_DECLINED, loc)" using spec False nored unfolding loc_spec_def represents_entries [OF r] by auto
      then show ?thesis using n nored red nocov cov [of "\<lambda>_. True"] unfolding location_result_def by auto
    qed
  qed
qed

lemma sorted_inj:
  assumes "sorted_wrt lq_less js"
  shows "inj_on lq_name (set js)"
  using assms name_less_irrefl by (induction js) (fastforce simp: lq_less_def inj_on_def)+

text \<open>
  C15: The static locations of a server block, whatever their order, find the location the
  documentation promises: the locations are sorted, joined, nested and made a tree without an
  error when no two of them have the same name and kind, and the search of the tree for a URI
  returns the exact location of that name, else the inclusive one of that name, else the
  redirect to a location whose name is the URI and a slash, else the longest location that is a
  prefix of the URI.
\<close>

theorem location_lookup:
  assumes "\<forall>c \<in> set ls. location_ok c" "distinct (map cl_key (filter static_location ls))" "nul_free uri"
  shows "\<exists>tree. ngx_http_init_static_location_trees (fst (ngx_http_init_locations (map location_queue ls))) = Some tree \<and>
    location_result {c \<in> set ls. static_location c} uri loc (ngx_http_core_find_static_location tree uri loc)"
proof -
  let ?S = "{c \<in> set ls. static_location c}"
  define qs where "qs = fst (ngx_http_init_locations (map location_queue ls))"
  note qs = init_static(2-4) [OF assms(1), folded qs_def]
  have "mset (map cl_key (concat (map lq_pieces qs))) = mset (map cl_key (filter static_location ls))"
    using qs(3) by (metis mset_map)
  then have "distinct (map cl_key (concat (map lq_pieces qs)))" using assms(2) mset_eq_imp_distinct_iff by blast
  then obtain js where js: "ngx_http_join_exact_locations qs = Some js" using join_distinct qs(1,2) by blast
  have j: "sorted_wrt lq_less js" "\<forall>q \<in> set js. lq_made q" "concat (map lq_pieces js) = concat (map lq_pieces qs)"
    using join_some [OF qs(1,2) js] by blast+
  let ?ls = "ngx_http_create_locations_list js"
  have flat: "\<forall>q \<in> set js. flat_ok [] q" using j(2) by (simp add: lq_made_def)
  note l = create_list_level [OF j(1) flat]
  have "set (concat (map lq_pieces js)) = ?S" using mset_eq_setD [OF qs(3)] by (simp add: j(3) set_filter)
  then have rep: "represents js ?S"
    unfolding represents_def using sorted_inj [OF j(1)] j(2) by (simp add: o_def)
  have "\<exists>v. lq_name q = v @ [ch_slash]" if q: "q \<in> set js" "en_auto (lq_entry q)" for q
  proof -
    obtain c where c: "lq_exact q = Some c \<or> lq_inclusive q = Some c" "cl_auto_redirect c" using q by (auto simp: en_auto_def)
    then have "c \<in> set ls" "cl_name c = lq_name q" using represents_element(1,2) [OF rep q(1), of c] by auto
    then show ?thesis using c(2) assms(1) unfolding location_ok_def by metis
  qed
  then have red: "redirects_ok (entries js)" by (simp add: redirects_ok_def represents_entries [OF rep])
  have "ngx_http_init_static_location_trees qs = Some (ngx_http_create_locations_tree 0 ?ls)"
    using js by (auto simp: ngx_http_init_static_location_trees_def ngx_http_create_locations_tree.simps)
  moreover have "loc_spec (entries js) uri (NGX_DECLINED, loc)
      (ngx_http_core_find_static_location (ngx_http_create_locations_tree 0 ?ls) uri loc)"
    using find_static_spec [of "[]" ?ls uri] l assms(3) red by (simp add: ngx_http_core_find_static_location_def)
  ultimately show ?thesis using spec_result [OF rep] unfolding qs_def by blast
qed

text \<open>The locations \<open>/i/\<close> (inclusive, with a redirect), \<open>= /\<close> and \<open>/\<close> and the URI \<open>/i/a\<close>.\<close>

definition example_locations :: "clcf list" where
  "example_locations =
     [(new_clcf 1)\<lparr>cl_name := [ch_slash, 0x69, ch_slash], cl_auto_redirect := True\<rparr>,
      (new_clcf 2)\<lparr>cl_name := [ch_slash], cl_exact_match := True\<rparr>,
      (new_clcf 3)\<lparr>cl_name := [ch_slash]\<rparr>]"

lemma location_lookup_witness:
  "\<exists>tree. ngx_http_init_static_location_trees (fst (ngx_http_init_locations (map location_queue example_locations))) = Some tree \<and>
    location_result {c \<in> set example_locations. static_location c} [ch_slash, 0x69, ch_slash, 0x61] 0
      (ngx_http_core_find_static_location tree [ch_slash, 0x69, ch_slash, 0x61] 0)"
  by (rule location_lookup)
    (auto simp: example_locations_def location_ok_def static_location_def new_clcf_def cl_key_def nul_free_def)

section \<open>Names that are too long\<close>



section \<open>The whole search\<close>

text \<open>The locations of a tree, all of whose nodes have one.\<close>

primrec tree_clcfs :: "loc_tree \<Rightarrow> clcf list" where
  "tree_clcfs NullTree = []"
| "tree_clcfs (Node left right tree exact inclusive auto_redirect len' name) =
     (case exact of Some c \<Rightarrow> [c] | None \<Rightarrow> []) @ (case inclusive of Some c \<Rightarrow> [c] | None \<Rightarrow> [])
       @ tree_clcfs left @ tree_clcfs right @ tree_clcfs tree"

primrec tree_ok :: "loc_tree \<Rightarrow> bool" where
  "tree_ok NullTree \<longleftrightarrow> True"
| "tree_ok (Node left right tree exact inclusive auto_redirect len' name) \<longleftrightarrow>
     (exact \<noteq> None \<or> inclusive \<noteq> None) \<and> tree_ok left \<and> tree_ok right \<and> tree_ok tree"

lemma find_static_cases:
  assumes "tree_ok t"
  shows "find_static t uri rv loc = (rv, loc) \<or>
    fst (find_static t uri rv loc) \<in> {NGX_OK, NGX_AGAIN, NGX_DONE} \<and>
    (\<exists>c \<in> set (tree_clcfs t). snd (find_static t uri rv loc) = cl_loc_conf c)"
  using assms
proof (induction t arbitrary: uri rv loc)
  case (Node left right tree exact inclusive auto_redirect len' name)
  define cs where "cs = set (tree_clcfs (Node left right tree exact inclusive auto_redirect len' name))"
  define R where "R r \<longleftrightarrow> r = (rv, loc) \<or> fst r \<in> {NGX_OK, NGX_AGAIN, NGX_DONE} \<and> (\<exists>c \<in> cs. snd r = cl_loc_conf c)" for r
  have own: "c \<in> cs" if "exact = Some c \<or> inclusive = Some c" for c using that by (auto simp: cs_def)
  have sub: "set (tree_clcfs left) \<subseteq> cs" "set (tree_clcfs right) \<subseteq> cs" "set (tree_clcfs tree) \<subseteq> cs" by (auto simp: cs_def)
  have "R (find_static left uri rv loc)" "R (find_static right uri rv loc)"
    using Node.IH(1,2) Node.prems sub unfolding R_def by fastforce+
  moreover have "R (find_static tree u NGX_AGAIN (cl_loc_conf c))" "R (find_static left u NGX_DONE (cl_loc_conf c))"
      "R (NGX_OK, cl_loc_conf c)" "R (NGX_AGAIN, cl_loc_conf c)" if "exact = Some c \<or> inclusive = Some c" for u c
    using Node.IH(3) [of u NGX_AGAIN "cl_loc_conf c"] Node.IH(1) [of u NGX_DONE "cl_loc_conf c"] Node.prems sub own [OF that]
    unfolding R_def by fastforce+
  moreover have "exact \<noteq> None \<or> inclusive \<noteq> None" using Node.prems by simp
  ultimately have "R (find_static (Node left right tree exact inclusive auto_redirect len' name) uri rv loc)"
    by (cases exact; cases inclusive) (simp_all add: Let_def)
  then show ?case unfolding R_def cs_def .
qed simp

text \<open>
  A configuration in memory: \<open>depth\<close> bounds how deep the blocks of a location nest, since a
  nested block is read and finished before the block around it.
\<close>

definition conf_nested :: "(nat \<Rightarrow> core_conf) \<Rightarrow> (nat \<Rightarrow> nat) \<Rightarrow> bool" where
  "conf_nested store depth \<longleftrightarrow> (\<forall>loc. tree_ok (cc_static_locations (store loc)) \<and>
     (\<forall>c \<in> set (tree_clcfs (cc_static_locations (store loc))) \<union> set (cc_regex_locations (store loc)).
        depth (cl_loc_conf c) < depth loc))"

lemma regex_first_in: "regex_first exec uri cs = Some (Some c) \<Longrightarrow> c \<in> set cs"
  by (induction cs) (auto split: ngx_rc.splits)


text \<open>A server with the prefix location \<open>/\<close> and the regular expression \<open>a\<close>, nothing nested.\<close>

definition example_store :: "nat \<Rightarrow> core_conf" where
  "example_store l =
     (if l = 0 then
        \<lparr>cc_static_locations = Node NullTree NullTree NullTree None (Some ((new_clcf 1)\<lparr>cl_name := [ch_slash]\<rparr>)) False 1 [ch_slash],
         cc_regex_locations = [(new_clcf 2)\<lparr>cl_name := [0x61], cl_regex := True\<rparr>], cc_noregex = False\<rparr>
      else \<lparr>cc_static_locations = NullTree, cc_regex_locations = [], cc_noregex = False\<rparr>)"

definition example_exec :: "ngx_str \<Rightarrow> ngx_str \<Rightarrow> ngx_rc" where
  "example_exec regex uri = (if sublist regex uri then NGX_OK else NGX_DECLINED)"


text \<open>
  Without nested blocks, an exact location and a redirect are final, and so is a prefix
  location with \<open>^~\<close>; else the first regular expression, in the order of the configuration,
  that matches takes the request, and only when none does the prefix location stands.
\<close>

theorem find_location_order:
  assumes "\<And>l. l \<noteq> loc \<Longrightarrow> cc_static_locations (store l) = NullTree \<and> cc_regex_locations (store l) = []"
    and "tree_ok (cc_static_locations (store loc))"
    and "\<forall>c \<in> set (tree_clcfs (cc_static_locations (store loc))) \<union> set (cc_regex_locations (store loc)). cl_loc_conf c \<noteq> loc"
    and "\<forall>regex. exec regex uri = NGX_OK \<or> exec regex uri = NGX_DECLINED"
  shows "ngx_http_core_find_location store exec uri loc = Some
    (let (rc, l) = ngx_http_core_find_static_location (cc_static_locations (store loc)) uri loc in
     if rc = NGX_OK \<or> rc = NGX_DONE then (rc, l)
     else if rc = NGX_AGAIN \<and> cc_noregex (store l) then (NGX_DECLINED, l)
     else case find (\<lambda>c. exec (cl_name c) uri = NGX_OK) (cc_regex_locations (store loc)) of
         Some c \<Rightarrow> (NGX_OK, cl_loc_conf c)
       | None \<Rightarrow> (NGX_DECLINED, l))"
proof -
  obtain rc l where s: "ngx_http_core_find_static_location (cc_static_locations (store loc)) uri loc = (rc, l)"
    by (cases "ngx_http_core_find_static_location (cc_static_locations (store loc)) uri loc") auto
  have leaf: "ngx_http_core_find_location store exec uri l' = Some (NGX_DECLINED, l')" if "l' \<noteq> loc" for l'
    using assms(1) [OF that] by (subst ngx_http_core_find_location.simps) (simp add: ngx_http_core_find_static_location_def)
  have again: "l \<noteq> loc" if "rc \<noteq> NGX_DECLINED"
    using find_static_cases [OF assms(2), of uri NGX_DECLINED loc] s that assms(3)
    by (auto simp: ngx_http_core_find_static_location_def)
  have rx: "regex_first exec uri cs = map_option Some (find (\<lambda>c. exec (cl_name c) uri = NGX_OK) cs)" for cs
  proof (induction cs)
    case (Cons c cs)
    then show ?case using assms(4) [rule_format, of "cl_name c"] by auto
  qed simp
  have next': "cl_loc_conf c \<noteq> loc"
    if "find (\<lambda>c. exec (cl_name c) uri = NGX_OK) (cc_regex_locations (store loc)) = Some c" for c
    using that assms(3) by (auto simp: find_Some_iff)
  have "rc \<in> {NGX_OK, NGX_AGAIN, NGX_DONE, NGX_DECLINED}"
    using find_static_cases [OF assms(2), of uri NGX_DECLINED loc] s by (auto simp: ngx_http_core_find_static_location_def)
  then show ?thesis
    using again leaf next'
    by (subst ngx_http_core_find_location.simps) (auto simp: s Let_def rx split: option.split)
qed

lemma find_location_order_witness:
  "ngx_http_core_find_location example_store example_exec [ch_slash, 0x61] 0 = Some (NGX_OK, 2) \<and>
   ngx_http_core_find_location example_store example_exec [ch_slash, 0x62] 0 = Some (NGX_DECLINED, 1)"
proof -
  have c: "ngx_http_core_find_location example_store example_exec uri 0 = Some
    (let (rc, l) = ngx_http_core_find_static_location (cc_static_locations (example_store 0)) uri 0 in
     if rc = NGX_OK \<or> rc = NGX_DONE then (rc, l)
     else if rc = NGX_AGAIN \<and> cc_noregex (example_store l) then (NGX_DECLINED, l)
     else case find (\<lambda>c. example_exec (cl_name c) uri = NGX_OK) (cc_regex_locations (example_store 0)) of
         Some c \<Rightarrow> (NGX_OK, cl_loc_conf c)
       | None \<Rightarrow> (NGX_DECLINED, l))" for uri
    by (rule find_location_order) (auto simp: example_store_def example_exec_def new_clcf_def)
  show ?thesis
    unfolding c
    by (simp add: example_store_def example_exec_def new_clcf_def ngx_http_core_find_static_location_def Let_def sublist_Cons_right)
qed

end
