(* ===== verification/Http_V2_Hpack.thy ===== *)
theory Http_V2_Hpack
  imports Ngx_Prelude
begin

text \<open>
  The header compression state of an HTTP/2 connection: the integers of HPACK
  (\<open>ngx_http_v2_parse_int\<close> of \<open>src/http/v2/ngx_http_v2.c\<close>, \<open>ngx_http_v2_write_int\<close> of
  \<open>src/http/v2/ngx_http_v2_encode.c\<close>) and the static and the dynamic table
  (\<open>src/http/v2/ngx_http_v2_table.c\<close>). The dynamic table is a ring of pointers to header
  structures, which point into a ring of bytes; structures of evicted headers are used again.
  The theory shows the round trip of integers; the table is the subject of \<open>Hpack_Table\<close>.
\<close>

section \<open>Integers\<close>

definition NGX_HTTP_V2_INT_OCTETS :: nat where
  "NGX_HTTP_V2_INT_OCTETS = 4"

definition ngx_http_v2_prefix :: "nat \<Rightarrow> nat" where
  "ngx_http_v2_prefix bits = 2 ^ bits - 1"

text \<open>The loop of \<open>ngx_http_v2_parse_int\<close>: the value and how many octets it has, or \<open>None\<close> at \<open>end\<close>.\<close>

fun int_octets :: "nat \<Rightarrow> nat \<Rightarrow> nat \<Rightarrow> byte list \<Rightarrow> (nat \<times> nat) option" where
  "int_octets shift value' n [] = None"
| "int_octets shift value' n (octet # p) =
     (let value' = value' + push_bit shift (unat (octet AND 0x7f)) in
      if octet < 128 then Some (value', n + 1) else int_octets (shift + 7) value' (n + 1) p)"

text \<open>
  \<open>ngx_http_v2_parse_int\<close> on the bytes from \<open>*pos\<close> to \<open>end\<close>, of which there is at least one:
  the value, the bytes after it and what is left of \<open>h2c->state.length\<close>, or a return code.
\<close>

definition ngx_http_v2_parse_int :: "nat \<Rightarrow> byte list \<Rightarrow> nat \<Rightarrow> ngx_rc + nat \<times> byte list \<times> nat" where
  "ngx_http_v2_parse_int state_length p prefix' =
     (let value' = unat (hd p AND of_nat prefix') in
      if value' \<noteq> prefix' then
        (if state_length = 0 then Inl NGX_ERROR else Inr (value', tl p, state_length - 1))
      else
        (let end' = (if length p > NGX_HTTP_V2_INT_OCTETS then NGX_HTTP_V2_INT_OCTETS else length p) in
         case int_octets 0 value' 1 (tl (take end' p)) of
           Some (value', n) \<Rightarrow>
             if n > state_length then Inl NGX_ERROR else Inr (value', drop n p, state_length - n)
         | None \<Rightarrow>
             if end' \<ge> state_length then Inl NGX_ERROR
             else if end' = NGX_HTTP_V2_INT_OCTETS then Inl NGX_DECLINED
             else Inl NGX_AGAIN))"

fun write_int_tail :: "nat \<Rightarrow> byte list" where
  "write_int_tail value' =
     (if value' \<ge> 128 then of_nat (value' mod 128 + 128) # write_int_tail (value' div 128) else [of_nat value'])"

declare write_int_tail.simps [simp del]

text \<open>\<open>ngx_http_v2_write_int\<close>; \<open>ch\<close> is the byte already under \<open>pos\<close>.\<close>

definition ngx_http_v2_write_int :: "byte \<Rightarrow> nat \<Rightarrow> nat \<Rightarrow> byte list" where
  "ngx_http_v2_write_int ch prefix' value' =
     (if value' < prefix' then [ch OR of_nat value']
      else (ch OR of_nat prefix') # write_int_tail (value' - prefix'))"

section \<open>The tables\<close>

definition cstr :: "string \<Rightarrow> ngx_str" where
  "cstr s = map of_char s"

definition NGX_HTTP_V2_TABLE_SIZE :: nat where
  "NGX_HTTP_V2_TABLE_SIZE = 4096"

type_synonym v2_header = "ngx_str \<times> ngx_str"

definition ngx_http_v2_static_table :: "v2_header list" where
  "ngx_http_v2_static_table = map (\<lambda>(name, value'). (cstr name, cstr value'))
     [('':authority'', ''''),
      ('':method'', ''GET''),
      ('':method'', ''POST''),
      ('':path'', ''/''),
      ('':path'', ''/index.html''),
      ('':scheme'', ''http''),
      ('':scheme'', ''https''),
      ('':status'', ''200''),
      ('':status'', ''204''),
      ('':status'', ''206''),
      ('':status'', ''304''),
      ('':status'', ''400''),
      ('':status'', ''404''),
      ('':status'', ''500''),
      (''accept-charset'', ''''),
      (''accept-encoding'', ''gzip, deflate''),
      (''accept-language'', ''''),
      (''accept-ranges'', ''''),
      (''accept'', ''''),
      (''access-control-allow-origin'', ''''),
      (''age'', ''''),
      (''allow'', ''''),
      (''authorization'', ''''),
      (''cache-control'', ''''),
      (''content-disposition'', ''''),
      (''content-encoding'', ''''),
      (''content-language'', ''''),
      (''content-length'', ''''),
      (''content-location'', ''''),
      (''content-range'', ''''),
      (''content-type'', ''''),
      (''cookie'', ''''),
      (''date'', ''''),
      (''etag'', ''''),
      (''expect'', ''''),
      (''expires'', ''''),
      (''from'', ''''),
      (''host'', ''''),
      (''if-match'', ''''),
      (''if-modified-since'', ''''),
      (''if-none-match'', ''''),
      (''if-range'', ''''),
      (''if-unmodified-since'', ''''),
      (''last-modified'', ''''),
      (''link'', ''''),
      (''location'', ''''),
      (''max-forwards'', ''''),
      (''proxy-authenticate'', ''''),
      (''proxy-authorization'', ''''),
      (''range'', ''''),
      (''referer'', ''''),
      (''refresh'', ''''),
      (''retry-after'', ''''),
      (''server'', ''''),
      (''set-cookie'', ''''),
      (''strict-transport-security'', ''''),
      (''transfer-encoding'', ''''),
      (''user-agent'', ''''),
      (''vary'', ''''),
      (''via'', ''''),
      (''www-authenticate'', '''')]"

text \<open>\<open>ngx_http_v2_header_t\<close> of a dynamic entry: lengths, and positions in the storage.\<close>

record hp_entry =
  he_name_len :: nat
  he_name_data :: nat
  he_value_len :: nat
  he_value_data :: nat

text \<open>
  \<open>ngx_http_v2_hpack_t\<close>. \<open>hp_entries\<close> is the array of pointers, \<open>None\<close> for \<open>NULL\<close>;
  \<open>hp_heap\<close> holds the header structures taken from the pool, which the pointers number.
\<close>

record hpack =
  hp_entries :: "nat list option"
  hp_added :: nat
  hp_deleted :: nat
  hp_reused :: nat
  hp_allocated :: nat
  hp_size :: nat
  hp_free :: nat
  hp_storage :: "byte list"
  hp_pos :: nat
  hp_heap :: "hp_entry list"

text \<open>A new connection is zeroed.\<close>

definition hpack_init :: hpack where
  "hpack_init = \<lparr>hp_entries = None, hp_added = 0, hp_deleted = 0, hp_reused = 0, hp_allocated = 0,
     hp_size = 0, hp_free = 0, hp_storage = [], hp_pos = 0, hp_heap = []\<rparr>"

text \<open>\<open>entries[i % allocated]\<close>, the pointer and what it points to.\<close>

definition hp_slot :: "hpack \<Rightarrow> nat \<Rightarrow> nat" where
  "hp_slot h i = the (hp_entries h) ! (i mod hp_allocated h)"

definition hp_at :: "hpack \<Rightarrow> nat \<Rightarrow> hp_entry" where
  "hp_at h i = hp_heap h ! hp_slot h i"

text \<open>A string of the storage, copied out in one or two pieces.\<close>

definition hp_get :: "byte list \<Rightarrow> nat \<Rightarrow> nat \<Rightarrow> ngx_str" where
  "hp_get storage data len =
     (let rest = NGX_HTTP_V2_TABLE_SIZE - data in
      if len > rest then take rest (drop data storage) @ take (len - rest) storage
      else take len (drop data storage))"

text \<open>\<open>ngx_http_v2_get_indexed_header\<close>: the return code and \<open>h2c->state.header\<close>.\<close>

definition ngx_http_v2_get_indexed_header :: "hpack \<Rightarrow> nat \<Rightarrow> bool \<Rightarrow> v2_header \<Rightarrow> ngx_rc \<times> v2_header" where
  "ngx_http_v2_get_indexed_header h index name_only header =
     (if index = 0 then (NGX_ERROR, header)
      else
        (let index = index - 1 in
         if index < length ngx_http_v2_static_table then (NGX_OK, ngx_http_v2_static_table ! index)
         else
           (let index = index - length ngx_http_v2_static_table in
            if index < hp_added h - hp_deleted h then
              (let entry = hp_at h (hp_added h - index - 1);
                   name = hp_get (hp_storage h) (he_name_data entry) (he_name_len entry) in
               if name_only then (NGX_OK, (name, snd header))
               else (NGX_OK, (name, hp_get (hp_storage h) (he_value_data entry) (he_value_len entry))))
            else (NGX_ERROR, header))))"

text \<open>\<open>entry = entries[deleted++ % allocated]\<close> and its size given back.\<close>

definition evict_one :: "hpack \<Rightarrow> hpack" where
  "evict_one h =
     (let entry = hp_at h (hp_deleted h) in
      h\<lparr>hp_deleted := hp_deleted h + 1, hp_free := hp_free h + (32 + he_name_len entry + he_value_len entry)\<rparr>)"

function hp_account_loop :: "nat \<Rightarrow> hpack \<Rightarrow> hpack" where
  "hp_account_loop size' h = (let h = evict_one h in if size' > hp_free h then hp_account_loop size' h else h)"
  by pat_completeness auto
termination
  by (relation "measure (\<lambda>(size', h). size' - hp_free h)") (auto simp: evict_one_def Let_def)

definition ngx_http_v2_table_account :: "hpack \<Rightarrow> nat \<Rightarrow> ngx_rc \<times> hpack" where
  "ngx_http_v2_table_account h size' =
     (let size' = size' + 32 in
      if size' \<le> hp_free h then (NGX_OK, h\<lparr>hp_free := hp_free h - size'\<rparr>)
      else if size' > hp_size h then (NGX_DECLINED, h\<lparr>hp_deleted := hp_added h, hp_free := hp_size h\<rparr>)
      else (let h = hp_account_loop size' h in (NGX_OK, h\<lparr>hp_free := hp_free h - size'\<rparr>)))"

definition memcpy :: "byte list \<Rightarrow> nat \<Rightarrow> ngx_str \<Rightarrow> byte list" where
  "memcpy storage pos src = take pos storage @ src @ drop (pos + length src) storage"

text \<open>A string put at \<open>pos\<close>, the new storage and \<open>pos\<close>.\<close>

definition hp_put :: "byte list \<Rightarrow> nat \<Rightarrow> nat \<Rightarrow> ngx_str \<Rightarrow> byte list \<times> nat" where
  "hp_put storage pos avail s =
     (if avail \<ge> length s then (memcpy storage pos s, pos + length s)
      else (memcpy (memcpy storage pos (take avail s)) 0 (drop avail s), length s - avail))"

text \<open>The first use allocates; fresh memory holds no particular bytes.\<close>

definition hp_allocate :: "hpack \<Rightarrow> hpack" where
  "hp_allocate h =
     (if hp_entries h = None then
        h\<lparr>hp_allocated := 64, hp_size := NGX_HTTP_V2_TABLE_SIZE, hp_free := NGX_HTTP_V2_TABLE_SIZE,
          hp_entries := Some (replicate 64 0), hp_storage := replicate NGX_HTTP_V2_TABLE_SIZE 0, hp_pos := 0\<rparr>
      else h)"

text \<open>The array of pointers grows, oldest first.\<close>

definition hp_grow :: "hpack \<Rightarrow> hpack" where
  "hp_grow h =
     (if hp_allocated h = hp_added h - hp_deleted h then
        (let index = hp_deleted h mod hp_allocated h; entries = the (hp_entries h) in
         h\<lparr>hp_entries := Some (drop index entries @ take index entries @ replicate 64 0),
           hp_added := hp_allocated h, hp_deleted := 0, hp_reused := 0, hp_allocated := hp_allocated h + 64\<rparr>)
      else h)"

text \<open>The structure for a new header: an evicted one, or one from the pool.\<close>

definition hp_take_entry :: "hpack \<Rightarrow> nat \<times> hpack" where
  "hp_take_entry h =
     (if hp_reused h = hp_deleted h then
        (length (hp_heap h), h\<lparr>hp_heap := hp_heap h @ [\<lparr>he_name_len = 0, he_name_data = 0, he_value_len = 0, he_value_data = 0\<rparr>]\<rparr>)
      else (hp_slot h (hp_reused h), h\<lparr>hp_reused := hp_reused h + 1\<rparr>))"

text \<open>The two strings of the header.\<close>

definition hp_store :: "hpack \<Rightarrow> nat \<Rightarrow> v2_header \<Rightarrow> hpack" where
  "hp_store h entry header =
     (let (name, value') = header; avail = NGX_HTTP_V2_TABLE_SIZE - hp_pos h; name_data = hp_pos h;
          (storage, pos) = hp_put (hp_storage h) (hp_pos h) avail name;
          avail = (if avail \<ge> length name then avail else NGX_HTTP_V2_TABLE_SIZE) - length name;
          value_data = pos;
          (storage, pos) = hp_put storage pos avail value' in
      h\<lparr>hp_storage := storage, hp_pos := pos,
        hp_heap := (hp_heap h)[entry := \<lparr>he_name_len = length name, he_name_data = name_data,
          he_value_len = length value', he_value_data = value_data\<rparr>]\<rparr>)"

definition ngx_http_v2_add_header :: "hpack \<Rightarrow> v2_header \<Rightarrow> ngx_rc \<times> hpack" where
  "ngx_http_v2_add_header h header =
     (let h = hp_allocate h;
          (rc, h) = ngx_http_v2_table_account h (length (fst header) + length (snd header)) in
      if rc \<noteq> NGX_OK then (NGX_OK, h)
      else
        (let (entry, h) = hp_take_entry h;
             h = hp_grow (hp_store h entry header) in
         (NGX_OK, h\<lparr>hp_entries := Some ((the (hp_entries h))[hp_added h mod hp_allocated h := entry]),
                    hp_added := hp_added h + 1\<rparr>)))"

text \<open>\<open>needed\<close> is signed: the size may also grow.\<close>

function table_size_loop :: "int \<Rightarrow> hpack \<Rightarrow> hpack" where
  "table_size_loop needed h = (if needed > int (hp_free h) then table_size_loop needed (evict_one h) else h)"
  by pat_completeness auto
termination
  by (relation "measure (\<lambda>(needed, h). nat (needed - int (hp_free h)))") (auto simp: evict_one_def Let_def)

declare hp_account_loop.simps [simp del] table_size_loop.simps [simp del]

definition ngx_http_v2_table_size :: "hpack \<Rightarrow> nat \<Rightarrow> ngx_rc \<times> hpack" where
  "ngx_http_v2_table_size h size' =
     (if size' > NGX_HTTP_V2_TABLE_SIZE then (NGX_ERROR, h)
      else
        (let needed = int (hp_size h) - int size'; h = table_size_loop needed h in
         (NGX_OK, h\<lparr>hp_size := size', hp_free := nat (int (hp_free h) - needed)\<rparr>)))"

section \<open>Integers, round trip\<close>

lemma prefix_bits:
  assumes "bits \<le> 8" "v < 2 ^ bits" "(ch :: byte) AND of_nat (ngx_http_v2_prefix bits) = 0"
  shows "unat ((ch OR of_nat v) AND of_nat (ngx_http_v2_prefix bits)) = v"
proof -
  have m: "of_nat (ngx_http_v2_prefix bits) = (mask bits :: byte)"
    by (simp add: ngx_http_v2_prefix_def mask_eq_exp_minus_1)
  have "(2::nat) ^ bits \<le> 2 ^ 8" using assms(1) by (intro power_increasing) auto
  then have "v < 256" using assms(2) by simp
  have "(ch OR of_nat v) AND mask bits = of_nat v AND (mask bits :: byte)" using assms(3) by (simp add: m bit.conj_disj_distrib2)
  also have "\<dots> = take_bit bits (of_nat v)" by (simp add: take_bit_eq_mask)
  finally have "unat ((ch OR of_nat v) AND mask bits) = take_bit bits (unat (of_nat v :: byte))" by (simp add: unsigned_take_bit_eq)
  also have "\<dots> = v" using \<open>v < 256\<close> assms(2) by (simp add: unat_of_nat take_bit_nat_eq_self)
  finally show ?thesis unfolding m .
qed

lemma octet_more: "unat ((of_nat (v mod 128 + 128) :: byte) AND 0x7f) = v mod 128" "\<not> (of_nat (v mod 128 + 128) :: byte) < 128"
proof -
  have lt: "v mod 128 + 128 < 256" using mod_less_divisor [of 128 v] by linarith
  then have u: "unat (of_nat (v mod 128 + 128) :: byte) = v mod 128 + 128" by (simp only: unat_of_nat) simp
  have eq: "(of_nat (v mod 128 + 128) :: byte) AND 0x7f = take_bit 7 (of_nat (v mod 128 + 128))"
    by (simp add: take_bit_eq_mask mask_eq_exp_minus_1)
  show "unat ((of_nat (v mod 128 + 128) :: byte) AND 0x7f) = v mod 128"
    unfolding eq unsigned_take_bit_eq u by (simp add: take_bit_eq_mod)
  show "\<not> (of_nat (v mod 128 + 128) :: byte) < 128" unfolding word_less_nat_alt u by simp
qed

lemma octet_last: "v < 128 \<Longrightarrow> unat ((of_nat v :: byte) AND 0x7f) = v" "v < 128 \<Longrightarrow> (of_nat v :: byte) < 128"
proof -
  assume v: "v < 128"
  have "(of_nat v :: byte) AND 0x7f = take_bit 7 (of_nat v)" by (simp add: take_bit_eq_mask mask_eq_exp_minus_1)
  then show "unat ((of_nat v :: byte) AND 0x7f) = v"
    using v by (simp only: unsigned_take_bit_eq) (simp add: unat_of_nat take_bit_eq_mod)
  show "(of_nat v :: byte) < 128" using v by (simp add: word_less_nat_alt unat_of_nat)
qed

lemma octets_tail:
  "int_octets shift acc n (write_int_tail v @ rest) = Some (acc + v * 2 ^ shift, n + length (write_int_tail v))"
proof (induction v arbitrary: shift acc n rule: write_int_tail.induct)
  case (1 v)
  show ?case
  proof (cases "v \<ge> 128")
    case True
    then have t: "write_int_tail v = of_nat (v mod 128 + 128) # write_int_tail (v div 128)" by (simp add: write_int_tail.simps)
    have "a * 2 ^ shift + b * 2 ^ (shift + 7) = (a + b * 128) * 2 ^ shift" for a b :: nat
      by (simp add: power_add algebra_simps)
    from this [of "v mod 128" "v div 128"]
    have "v mod 128 * 2 ^ shift + v div 128 * 2 ^ (shift + 7) = (v mod 128 + v div 128 * 128) * 2 ^ shift" .
    also have "\<dots> = v * 2 ^ shift" by (simp only: mod_div_mult_eq)
    finally have "acc + v mod 128 * 2 ^ shift + v div 128 * 2 ^ (shift + 7) = acc + v * 2 ^ shift" by simp
    then show ?thesis
      using "1.IH" [OF True, of "shift + 7" "acc + v mod 128 * 2 ^ shift" "n + 1"] octet_more [of v]
      unfolding t append_Cons int_octets.simps Let_def push_bit_eq_mult by (simp only: if_False) simp
  next
    case False
    then show ?thesis using octet_last [of v] by (simp add: write_int_tail.simps [of v] push_bit_eq_mult Let_def)
  qed
qed

lemma length_tail: "v < 128 ^ Suc m \<Longrightarrow> length (write_int_tail v) \<le> Suc m"
proof (induction m arbitrary: v)
  case (Suc m)
  then show ?case by (subst write_int_tail.simps) (auto simp: less_mult_imp_div_less)
qed (simp add: write_int_tail.simps)

lemma octets_long: "128 ^ m \<le> v \<Longrightarrow> int_octets shift acc n (take m (write_int_tail v @ rest)) = None \<and> m < length (write_int_tail v)"
proof (induction m arbitrary: v shift acc n)
  case (Suc m)
  have "128 \<le> v" using Suc.prems by (rule order_trans [rotated]) simp
  then have t: "write_int_tail v = of_nat (v mod 128 + 128) # write_int_tail (v div 128)" by (simp add: write_int_tail.simps)
  have "128 ^ m \<le> v div 128" using Suc.prems by (simp add: less_eq_div_iff_mult_less_eq mult.commute)
  from Suc.IH [OF this] show ?case
    using octet_more [of v] unfolding t append_Cons take_Suc_Cons int_octets.simps Let_def by (simp del: take_append)
qed (simp add: write_int_tail.simps)

lemma parse_int_long:
  assumes "unat (c AND of_nat prefix') = prefix'"
  shows "ngx_http_v2_parse_int state_length (c # q) prefix' =
    (case int_octets 0 prefix' 1 (take 3 q) of
       Some (v, n) \<Rightarrow> if n > state_length then Inl NGX_ERROR else Inr (v, drop n (c # q), state_length - n)
     | None \<Rightarrow> if min 4 (Suc (length q)) \<ge> state_length then Inl NGX_ERROR
         else if 3 \<le> length q then Inl NGX_DECLINED else Inl NGX_AGAIN)"
proof -
  have "tl (take (if length (c # q) > 4 then 4 else length (c # q)) (c # q)) = take 3 q" by simp
  then show ?thesis using assms unfolding ngx_http_v2_parse_int_def Let_def NGX_HTTP_V2_INT_OCTETS_def list.sel(1)
    by (simp only: if_False not_True_eq_False) (auto split: option.split)
qed

lemma write_parse_int:
  assumes "0 < bits" "bits \<le> 7" "(ch :: byte) AND of_nat (ngx_http_v2_prefix bits) = 0"
    "length (ngx_http_v2_write_int ch (ngx_http_v2_prefix bits) v) \<le> state_length"
  shows "ngx_http_v2_parse_int state_length (ngx_http_v2_write_int ch (ngx_http_v2_prefix bits) v @ rest) (ngx_http_v2_prefix bits) =
    (if v < ngx_http_v2_prefix bits + 2 ^ 21
     then Inr (v, rest, state_length - length (ngx_http_v2_write_int ch (ngx_http_v2_prefix bits) v))
     else Inl NGX_DECLINED)"
proof (cases "v < ngx_http_v2_prefix bits")
  case True
  have w: "ngx_http_v2_write_int ch (ngx_http_v2_prefix bits) v = [ch OR of_nat v]" using True by (simp add: ngx_http_v2_write_int_def)
  have "unat ((ch OR of_nat v) AND of_nat (ngx_http_v2_prefix bits)) = v"
    using True assms(2,3) by (intro prefix_bits) (auto simp: ngx_http_v2_prefix_def)
  then show ?thesis using True w assms(4) by (simp add: ngx_http_v2_parse_int_def)
next
  case False
  let ?p = "ngx_http_v2_prefix bits"
  let ?t = "write_int_tail (v - ?p)"
  have w: "ngx_http_v2_write_int ch ?p v = (ch OR of_nat ?p) # ?t" using False by (simp add: ngx_http_v2_write_int_def)
  have first: "unat ((ch OR of_nat ?p) AND of_nat ?p) = ?p"
    using assms(2,3) by (intro prefix_bits) (auto simp: ngx_http_v2_prefix_def)
  show ?thesis
  proof (cases "v < ?p + 2 ^ 21")
    case True
    then have "v - ?p < 128 ^ Suc 2" using False by simp
    then have l: "length ?t \<le> 3" using length_tail [of "v - ?p" 2] by simp
    then have "take 3 (?t @ rest) = ?t @ take (3 - length ?t) rest" by simp
    then have o: "int_octets 0 ?p 1 (take 3 (?t @ rest)) = Some (v, 1 + length ?t)"
      using octets_tail [of 0 ?p 1 "v - ?p"] False by simp
    show ?thesis unfolding w append_Cons parse_int_long [OF first] o using True assms(4) w by simp
  next
    case F: False
    then have "128 ^ 3 \<le> v - ?p" by simp
    note o = conjunct1 [OF octets_long [OF this, of 0 ?p 1 rest]] conjunct2 [OF octets_long [OF this, of 0 ?p 1 rest]]
    show ?thesis unfolding w append_Cons parse_int_long [OF first] o(1) using F assms(4) w o(2) by simp
  qed
qed

text \<open>
  What \<open>ngx_http_v2_write_int\<close> writes, \<open>ngx_http_v2_parse_int\<close> reads back, and it
  consumes exactly the octets written, for every prefix of up to seven bits and every value
  that fits four octets; a longer encoding is refused with \<open>NGX_DECLINED\<close>, not misread.
\<close>

theorem v2_int_roundtrip:
  assumes "0 < bits" "bits \<le> 7" "(ch :: byte) AND of_nat (ngx_http_v2_prefix bits) = 0"
    "length (ngx_http_v2_write_int ch (ngx_http_v2_prefix bits) v) \<le> state_length"
  shows "ngx_http_v2_parse_int state_length (ngx_http_v2_write_int ch (ngx_http_v2_prefix bits) v @ rest) (ngx_http_v2_prefix bits) =
    (if v < ngx_http_v2_prefix bits + 2 ^ 21
     then Inr (v, rest, state_length - length (ngx_http_v2_write_int ch (ngx_http_v2_prefix bits) v))
     else Inl NGX_DECLINED)"
  using assms by (rule write_parse_int)

lemma v2_int_roundtrip_witness:
  "ngx_http_v2_write_int 0x20 (ngx_http_v2_prefix 5) 1337 = [0x3f, 0x9a, 0x0a] \<and>
   ngx_http_v2_parse_int 7 ([0x3f, 0x9a, 0x0a] @ [ch_a]) (ngx_http_v2_prefix 5) = Inr (1337, [ch_a], 4)"
proof -
  have w: "ngx_http_v2_write_int 0x20 (ngx_http_v2_prefix 5) 1337 = [0x3f, 0x9a, 0x0a]"
    by (simp add: ngx_http_v2_write_int_def ngx_http_v2_prefix_def write_int_tail.simps)
  then show ?thesis
    using v2_int_roundtrip [of 5 "0x20" 1337 7 "[ch_a]"] by (simp add: ngx_http_v2_prefix_def)
qed

end
