(* ===== verification/Hpack_Table.thy ===== *)
theory Hpack_Table
  imports Http_V2_Hpack
begin

text \<open>
  The dynamic table implements the table of RFC 7541, a list of headers, newest first, cut to
  the size in force. First the ring of bytes, then the strings of the live entries, which
  follow each other in it, then the ring of pointers, and the operations of the code on both;
  \<open>header_table\<close> is the interface the processing of header blocks relies on.
\<close>

section \<open>The ring of bytes\<close>

abbreviation (input) tsize :: nat where
  "tsize \<equiv> NGX_HTTP_V2_TABLE_SIZE"

lemma tsize_pos [simp]: "0 < tsize"
  by (simp add: NGX_HTTP_V2_TABLE_SIZE_def)

definition ring :: "byte list \<Rightarrow> nat \<Rightarrow> nat \<Rightarrow> ngx_str" where
  "ring st b n = map (\<lambda>i. st ! ((b + i) mod tsize)) [0..<n]"

lemma ring_mod: "ring st (b mod tsize) n = ring st b n"
  by (simp add: ring_def mod_add_left_eq)

lemma ring_cong: "b mod tsize = b' mod tsize \<Longrightarrow> ring st b n = ring st b' n"
  using ring_mod by metis

lemma ring_add: "ring st b (m + n) = ring st b m @ ring st (b + m) n"
  by (auto simp: ring_def nth_append add.assoc intro!: nth_equalityI)

lemma get_ring:
  assumes "length st = tsize" "d \<le> tsize" "n \<le> tsize"
  shows "hp_get st d n = ring st d n"
proof (rule nth_equalityI)
  show "length (hp_get st d n) = length (ring st d n)" using assms by (simp add: hp_get_def ring_def Let_def)
  fix i
  assume "i < length (hp_get st d n)"
  then have i: "i < n" using assms by (simp add: hp_get_def Let_def split: if_splits)
  have "(d + i) mod tsize = (if d + i < tsize then d + i else d + i - tsize)"
    using i assms by (simp add: le_mod_geq)
  then show "hp_get st d n ! i = ring st d n ! i"
    using i assms by (auto simp: hp_get_def ring_def Let_def nth_append min_def add.commute)
qed

lemma memcpy_nth:
  assumes "p + length s \<le> length st" "j < length st"
  shows "memcpy st p s ! j = (if p \<le> j \<and> j < p + length s then s ! (j - p) else st ! j)"
  using assms by (auto simp: memcpy_def nth_append min_def)

lemma length_memcpy [simp]: "p + length s \<le> length st \<Longrightarrow> length (memcpy st p s) = length st"
  by (simp add: memcpy_def)

lemma mod_shift_neq:
  assumes "(b + i) mod n = (b + k) mod n" "i < n" "k < (n::nat)"
  shows "i = k"
  using assms
proof (induction i k rule: linorder_wlog)
  case (le i k)
  then have "n dvd k - i" using mod_eq_dvd_iff_nat [of "b + i" "b + k" n] by simp
  then show ?case using le nat_dvd_not_less [of "k - i" n] by linarith
qed simp

text \<open>What a string put into the ring changes; \<open>avail\<close> may be less than the room, for a string that fits.\<close>

definition written :: "byte list \<Rightarrow> nat \<Rightarrow> ngx_str \<Rightarrow> byte list \<Rightarrow> bool" where
  "written st p s st' \<longleftrightarrow> length st' = tsize \<and> (\<forall>i < length s. st' ! ((p + i) mod tsize) = s ! i) \<and>
     (\<forall>j < tsize. (\<forall>i < length s. j \<noteq> (p + i) mod tsize) \<longrightarrow> st' ! j = st ! j)"

lemma put_written:
  assumes st: "length st = tsize" "p \<le> tsize" "length s \<le> tsize"
    and avail: "avail \<ge> length s \<and> p + length s \<le> tsize \<or> avail = tsize - p"
    and put: "hp_put st p avail s = (st', p')"
  shows "written st p s st' \<and> p' \<le> tsize \<and> p' mod tsize = (p + length s) mod tsize"
proof (cases "avail \<ge> length s")
  case True
  then have fit: "p + length s \<le> tsize" using avail st by auto
  have *: "(p + i) mod tsize = p + i" if "i < length s" for i using that fit by simp
  show ?thesis
    using put True fit st * unfolding written_def by (auto simp: hp_put_def memcpy_nth) (metis le_add_diff_inverse less_diff_conv2 nat_add_left_cancel_less)
next
  case False
  then have a: "avail = tsize - p" "avail < length s" using avail by auto
  let ?st = "memcpy st p (take avail s)"
  have l: "length ?st = tsize" "p + length (take avail s) \<le> length st" using a st by auto
  have st': "st' = memcpy ?st 0 (drop avail s)" "p' = length s - avail" using put False by (auto simp: hp_put_def)
  have le: "0 + length (drop avail s) \<le> length ?st" using l st by simp
  have nth: "st' ! j = (if j < length s - avail then s ! (avail + j) else if p \<le> j then s ! (j - p) else st ! j)" if "j < tsize" for j
    using that a st l unfolding st'(1) memcpy_nth [OF le, unfolded l(1), OF that]
    by (subst memcpy_nth [OF l(2)]) auto
  have pos: "(p + i) mod tsize = (if i < avail then p + i else i - avail)" if "i < length s" for i
    using that a st by (auto simp: le_mod_geq)
  have "st' ! ((p + i) mod tsize) = s ! i" if "i < length s" for i
  proof (cases "i < avail")
    case True
    then show ?thesis using that a st nth [of "p + i"] pos [OF that] by auto
  next
    case False
    then show ?thesis using that a st nth [of "i - avail"] pos [OF that] by auto
  qed
  moreover have "st' ! j = st ! j" if "j < tsize" "\<forall>i < length s. j \<noteq> (p + i) mod tsize" for j
  proof -
    have "\<not> j < length s - avail"
    proof
      assume "j < length s - avail"
      then have "avail + j < length s" by linarith
      then show False using that(2) [rule_format, of "avail + j"] pos [of "avail + j"] by simp
    qed
    moreover have "\<not> p \<le> j"
    proof
      assume "p \<le> j"
      then have "j - p < avail" "j - p < length s" "p + (j - p) = j" using that(1) a by linarith+
      then show False using that(2) [rule_format, of "j - p"] pos [of "j - p"] by simp
    qed
    ultimately show ?thesis using nth [OF that(1)] by simp
  qed
  moreover have "p' mod tsize = (p + length s) mod tsize" using a st st'(2) by (simp add: le_mod_geq add.commute)
  ultimately show ?thesis using st' l le st by (auto simp: written_def)
qed

lemma written_ring:
  assumes "written st p s st'"
  shows "ring st' p (length s) = s"
  using assms by (intro nth_equalityI) (auto simp: written_def ring_def)

lemma written_append:
  assumes "written st p s st'" "written st' p' t st''" "p' mod tsize = (p + length s) mod tsize" "length s + length t \<le> tsize"
  shows "written st p (s @ t) st''"
proof -
  have p': "(p' + i) mod tsize = (p + (length s + i)) mod tsize" for i
    using assms(3) by (metis add.assoc mod_add_left_eq)
  have keep: "st'' ! ((p + i) mod tsize) = st' ! ((p + i) mod tsize)" if "i < length s" for i
  proof -
    have "(p + i) mod tsize \<noteq> (p' + k) mod tsize" if "k < length t" for k
      using mod_shift_neq [of p i tsize "length s + k"] \<open>i < length s\<close> that assms(4) by (auto simp: p')
    then show ?thesis using assms(2) by (simp add: written_def)
  qed
  have "st'' ! ((p + i) mod tsize) = (s @ t) ! i" if "i < length (s @ t)" for i
  proof (cases "i < length s")
    case True
    then show ?thesis using keep assms(1) by (simp add: written_def nth_append)
  next
    case False
    then have "i - length s < length t" using that by auto
    then have "st'' ! ((p' + (i - length s)) mod tsize) = t ! (i - length s)" using assms(2) unfolding written_def by blast
    moreover have "(p' + (i - length s)) mod tsize = (p + i) mod tsize" using p' [of "i - length s"] False by simp
    ultimately show ?thesis using False by (simp only: nth_append if_False)
  qed
  moreover have "st'' ! j = st ! j" if "j < tsize" "\<forall>i < length (s @ t). j \<noteq> (p + i) mod tsize" for j
  proof -
    have "\<forall>i < length t. j \<noteq> (p' + i) mod tsize" using that(2) by (auto simp: p')
    moreover have "\<forall>i < length s. j \<noteq> (p + i) mod tsize" using that(2) by auto
    ultimately show ?thesis using that(1) assms(1,2) by (simp add: written_def)
  qed
  ultimately show ?thesis using assms(2) by (simp add: written_def)
qed

lemma written_before:
  assumes "written st p s st'" "(b + n) mod tsize = p mod tsize" "n + length s \<le> tsize" "i < n"
  shows "st' ! ((b + i) mod tsize) = st ! ((b + i) mod tsize)"
proof -
  have "(b + i) mod tsize \<noteq> (p + k) mod tsize" if "k < length s" for k
  proof -
    have "(p + k) mod tsize = (b + (n + k)) mod tsize" using assms(2) by (metis add.assoc mod_add_left_eq)
    then show ?thesis using mod_shift_neq [of b i tsize "n + k"] that assms(3,4) by auto
  qed
  then show ?thesis using assms(1) by (simp add: written_def)
qed

section \<open>The entries\<close>

definition he_size :: "hp_entry \<Rightarrow> nat" where
  "he_size e = 32 + he_name_len e + he_value_len e"

definition hp_read :: "byte list \<Rightarrow> hp_entry \<Rightarrow> v2_header" where
  "hp_read st e = (hp_get st (he_name_data e) (he_name_len e), hp_get st (he_value_data e) (he_value_len e))"

text \<open>The strings of the entries follow each other in the ring from \<open>b\<close> on, up to \<open>p\<close>.\<close>

fun chained :: "nat \<Rightarrow> hp_entry list \<Rightarrow> nat \<Rightarrow> bool" where
  "chained b [] p \<longleftrightarrow> b mod tsize = p mod tsize"
| "chained b (e # es) p \<longleftrightarrow> he_name_data e \<le> tsize \<and> he_value_data e \<le> tsize \<and>
     he_name_data e mod tsize = b mod tsize \<and> he_value_data e mod tsize = (b + he_name_len e) mod tsize \<and>
     chained (b + he_name_len e + he_value_len e) es p"

definition bytes_of :: "hp_entry list \<Rightarrow> nat" where
  "bytes_of es = sum_list (map (\<lambda>e. he_name_len e + he_value_len e) es)"

lemma bytes_of_simps [simp]:
  "bytes_of [] = 0" "bytes_of (e # es) = he_name_len e + he_value_len e + bytes_of es"
  "bytes_of (es @ fs) = bytes_of es + bytes_of fs"
  by (simp_all add: bytes_of_def)

lemma bytes_of_size: "bytes_of es + 32 * length es = sum_list (map he_size es)"
  by (induction es) (auto simp: he_size_def)

lemma chained_end: "chained b es p \<Longrightarrow> (b + bytes_of es) mod tsize = p mod tsize"
proof (induction es arbitrary: b)
  case (Cons e es)
  then show ?case using Cons.IH [of "b + he_name_len e + he_value_len e"] by (simp add: add.assoc)
qed simp

lemma chained_snoc:
  "chained b es p \<Longrightarrow> p \<le> tsize \<Longrightarrow> he_name_data e = p \<Longrightarrow> he_value_data e \<le> tsize \<Longrightarrow>
    he_value_data e mod tsize = (p + he_name_len e) mod tsize \<Longrightarrow> p' mod tsize = (p + he_name_len e + he_value_len e) mod tsize \<Longrightarrow>
    chained b (es @ [e]) p'"
proof (induction es arbitrary: b)
  case Nil
  then show ?case by (auto simp: add.assoc) (metis mod_add_left_eq)+
qed simp

lemma chained_reads:
  assumes "chained b es p" "bytes_of es \<le> tsize" "length st = tsize" "length st' = tsize"
    "\<And>i. i < bytes_of es \<Longrightarrow> st' ! ((b + i) mod tsize) = st ! ((b + i) mod tsize)"
  shows "map (hp_read st') es = map (hp_read st) es"
  using assms
proof (induction es arbitrary: b)
  case (Cons e es)
  let ?n = "he_name_len e" and ?v = "he_value_len e"
  have "ring st' b ?n = ring st b ?n" unfolding ring_def using Cons.prems(5) by simp
  moreover have "ring st' (b + ?n) ?v = ring st (b + ?n) ?v"
    unfolding ring_def using Cons.prems(5) [of "?n + _"] by (simp add: add.assoc)
  ultimately have "hp_read st' e = hp_read st e"
    using Cons.prems(1-4) ring_cong [of "he_name_data e" b] ring_cong [of "he_value_data e" "b + ?n"]
    by (simp add: hp_read_def get_ring)
  moreover have "map (hp_read st') es = map (hp_read st) es"
    using Cons.prems Cons.prems(5) [of "?n + ?v + _"] by (intro Cons.IH [of "b + ?n + ?v"]) (auto simp: add.assoc)
  ultimately show ?case by simp
qed simp

text \<open>A new header behind the others.\<close>

lemma store_chained:
  assumes c: "chained b es (hp_pos h)" "length (hp_storage h) = tsize" "hp_pos h \<le> tsize"
    and len: "bytes_of es + (length (fst header) + length (snd header)) \<le> tsize" and a: "a < length (hp_heap h)"
    and h': "h' = hp_store h a header"
  shows "hp_pos h' \<le> tsize" "length (hp_storage h') = tsize" "map (hp_read (hp_storage h')) es = map (hp_read (hp_storage h)) es"
    "hp_read (hp_storage h') (hp_heap h' ! a) = header" "he_size (hp_heap h' ! a) = 32 + length (fst header) + length (snd header)"
    "chained b (es @ [hp_heap h' ! a]) (hp_pos h')"
    "hp_entries h' = hp_entries h" "hp_added h' = hp_added h" "hp_deleted h' = hp_deleted h" "hp_reused h' = hp_reused h"
    "hp_allocated h' = hp_allocated h" "hp_size h' = hp_size h" "hp_free h' = hp_free h"
    "length (hp_heap h') = length (hp_heap h)" "\<And>j. j \<noteq> a \<Longrightarrow> hp_heap h' ! j = hp_heap h ! j"
proof -
  obtain name value' where hd: "header = (name, value')" by (cases header)
  let ?avail = "tsize - hp_pos h"
  let ?avail' = "(if ?avail \<ge> length name then ?avail else tsize) - length name"
  obtain st p where n: "hp_put (hp_storage h) (hp_pos h) ?avail name = (st, p)" by fastforce
  obtain st' p' where v: "hp_put st p ?avail' value' = (st', p')" by fastforce
  let ?e = "\<lparr>he_name_len = length name, he_name_data = hp_pos h, he_value_len = length value', he_value_data = p\<rparr>"
  have eq: "h' = h\<lparr>hp_storage := st', hp_pos := p', hp_heap := (hp_heap h)[a := ?e]\<rparr>"
    using n v by (simp add: h' hp_store_def hd Let_def)
  have l: "length name + length value' \<le> tsize" using len hd by simp
  note wn = put_written [OF c(2,3) _ _ n]
  then have wn: "written (hp_storage h) (hp_pos h) name st" "p \<le> tsize" "p mod tsize = (hp_pos h + length name) mod tsize"
    using l by auto
  have "?avail' \<ge> length value' \<and> p + length value' \<le> tsize \<or> ?avail' = tsize - p"
    using n l c(3) by (auto simp: hp_put_def split: if_splits)
  then have wv: "written st p value' st'" "p' \<le> tsize" "p' mod tsize = (p + length value') mod tsize"
    using put_written [OF _ wn(2) _ _ v] wn(1) l by (auto simp: written_def)
  have w: "written (hp_storage h) (hp_pos h) (name @ value') st'" by (rule written_append [OF wn(1) wv(1) wn(3) l])
  have st': "length st' = tsize" using w by (simp add: written_def)
  show "hp_pos h' \<le> tsize" "length (hp_storage h') = tsize" using eq wv st' by simp_all
  show "map (hp_read (hp_storage h')) es = map (hp_read (hp_storage h)) es"
    using chained_reads [OF c(1) _ c(2) st'] written_before [OF w chained_end [OF c(1)]] len hd eq by simp
  have e: "hp_heap h' ! a = ?e" using a by (simp add: eq)
  have "ring st' (hp_pos h) (length name) @ ring st' (hp_pos h + length name) (length value') = name @ value'"
    using written_ring [OF w] by (simp add: ring_add)
  then have "ring st' (hp_pos h) (length name) = name" "ring st' (hp_pos h + length name) (length value') = value'"
    by (auto simp: ring_def)
  then have "ring st' (hp_pos h) (length name) = name" "ring st' p (length value') = value'"
    using ring_cong [OF wn(3)] by simp_all
  then show "hp_read (hp_storage h') (hp_heap h' ! a) = header"
    using l wn(2) c(3) st' by (simp add: e hp_read_def get_ring hd) (simp add: eq get_ring)
  show "he_size (hp_heap h' ! a) = 32 + length (fst header) + length (snd header)" by (simp add: e hd he_size_def)
  show "chained b (es @ [hp_heap h' ! a]) (hp_pos h')"
    unfolding e
  proof (rule chained_snoc [OF c(1,3)])
    have "(p + length value') mod tsize = (hp_pos h + length name + length value') mod tsize"
      by (metis wn(3) mod_add_left_eq)
    then show "hp_pos h' mod tsize = (hp_pos h + he_name_len ?e + he_value_len ?e) mod tsize" using wv(3) eq by simp
  qed (use wn in simp_all)
  show "hp_entries h' = hp_entries h" "hp_added h' = hp_added h" "hp_deleted h' = hp_deleted h" "hp_reused h' = hp_reused h"
    "hp_allocated h' = hp_allocated h" "hp_size h' = hp_size h" "hp_free h' = hp_free h"
    "length (hp_heap h') = length (hp_heap h)" "\<And>j. j \<noteq> a \<Longrightarrow> hp_heap h' ! j = hp_heap h ! j"
    by (simp_all add: eq)
qed

section \<open>The pointers\<close>

definition live :: "hpack \<Rightarrow> hp_entry list" where
  "live h = map (hp_at h) [hp_deleted h..<hp_added h]"

text \<open>Evicted structures not used again yet and live ones are different, and none is lost.\<close>

definition hp_core :: "hpack \<Rightarrow> bool" where
  "hp_core h \<longleftrightarrow> (\<exists>es. hp_entries h = Some es \<and> length es = hp_allocated h) \<and> 0 < hp_allocated h \<and>
     hp_reused h \<le> hp_deleted h \<and> hp_deleted h \<le> hp_added h \<and> hp_added h \<le> hp_reused h + hp_allocated h \<and>
     distinct (map (hp_slot h) [hp_reused h..<hp_added h]) \<and>
     (\<forall>i \<in> {hp_reused h..<hp_added h}. hp_slot h i < length (hp_heap h))"

lemma live_cong:
  assumes "hp_deleted h' = hp_deleted h" "hp_added h' = hp_added h"
    "\<And>i. hp_deleted h \<le> i \<Longrightarrow> i < hp_added h \<Longrightarrow> hp_at h' i = hp_at h i"
  shows "live h' = live h"
  using assms by (simp add: live_def)

lemma take_entry_core:
  assumes "hp_core h" "hp_take_entry h = (a, h')"
  shows "hp_core h' \<and> live h' = live h \<and> a < length (hp_heap h') \<and> a \<notin> hp_slot h' ` {hp_reused h'..<hp_added h'} \<and>
    (hp_added h' < hp_reused h' + hp_allocated h' \<or> hp_reused h' = hp_deleted h') \<and>
    hp_storage h' = hp_storage h \<and> hp_pos h' = hp_pos h \<and> hp_size h' = hp_size h \<and> hp_free h' = hp_free h"
proof (cases "hp_reused h = hp_deleted h")
  case True
  let ?e = "\<lparr>he_name_len = 0, he_name_data = 0, he_value_len = 0, he_value_data = 0\<rparr>"
  have h': "h' = h\<lparr>hp_heap := hp_heap h @ [?e]\<rparr>" "a = length (hp_heap h)" using True assms(2) by (simp_all add: hp_take_entry_def)
  have slot: "hp_slot h' = hp_slot h" by (rule ext) (simp add: h' hp_slot_def)
  have "live h' = live h"
    using assms(1) True by (intro live_cong) (auto simp: h' hp_at_def hp_core_def hp_slot_def nth_append)
  moreover have "hp_core h'" using assms(1) unfolding hp_core_def slot by (auto simp: h')
  moreover have "a \<notin> hp_slot h' ` {hp_reused h'..<hp_added h'}" using assms(1) slot h' by (auto simp: hp_core_def)
  ultimately show ?thesis using True h' by simp
next
  case False
  then have h': "h' = h\<lparr>hp_reused := hp_reused h + 1\<rparr>" "a = hp_slot h (hp_reused h)" using assms(2) by (simp_all add: hp_take_entry_def)
  have r: "hp_reused h < hp_deleted h" "hp_deleted h \<le> hp_added h" using assms(1) False by (auto simp: hp_core_def)
  have slot: "hp_slot h' = hp_slot h" by (rule ext) (simp add: h' hp_slot_def)
  have "[hp_reused h..<hp_added h] = hp_reused h # [hp_reused h + 1..<hp_added h]" using r by (simp add: upt_conv_Cons)
  then have d: "distinct (map (hp_slot h) [hp_reused h + 1..<hp_added h])"
      "a \<notin> set (map (hp_slot h) [hp_reused h + 1..<hp_added h])"
    using assms(1) by (simp_all add: hp_core_def h'(2))
  have "live h' = live h" by (intro live_cong) (auto simp: h' hp_at_def hp_slot_def)
  moreover have "hp_core h'" using assms(1) d(1) r unfolding hp_core_def slot by (auto simp: h')
  moreover have "a < length (hp_heap h')" using assms(1) r h' by (simp add: hp_core_def)
  ultimately show ?thesis using assms(1) d(2) slot h' r by (auto simp: hp_core_def)
qed

lemma grow_core:
  assumes "hp_core h" "a < length (hp_heap h)" "a \<notin> hp_slot h ` {hp_reused h..<hp_added h}"
    "hp_added h < hp_reused h + hp_allocated h \<or> hp_reused h = hp_deleted h"
  shows "hp_core (hp_grow h) \<and> live (hp_grow h) = live h \<and> a \<notin> hp_slot (hp_grow h) ` {hp_reused (hp_grow h)..<hp_added (hp_grow h)} \<and>
    hp_added (hp_grow h) < hp_reused (hp_grow h) + hp_allocated (hp_grow h) \<and>
    hp_storage (hp_grow h) = hp_storage h \<and> hp_pos (hp_grow h) = hp_pos h \<and> hp_heap (hp_grow h) = hp_heap h \<and>
    hp_size (hp_grow h) = hp_size h \<and> hp_free (hp_grow h) = hp_free h"
proof (cases "hp_allocated h = hp_added h - hp_deleted h")
  case False
  then have "hp_grow h = h" by (simp add: hp_grow_def)
  then show ?thesis using assms False by (auto simp: hp_core_def)
next
  case True
  obtain es where es: "hp_entries h = Some es" "length es = hp_allocated h" "0 < hp_allocated h" using assms(1) by (auto simp: hp_core_def)
  let ?n = "hp_allocated h" and ?d = "hp_deleted h" and ?i = "hp_deleted h mod hp_allocated h"
  define h' where "h' = hp_grow h"
  have h': "h' = h\<lparr>hp_entries := Some (drop ?i es @ take ?i es @ replicate 64 0), hp_added := ?n, hp_deleted := 0,
      hp_reused := 0, hp_allocated := ?n + 64\<rparr>"
    using True es by (simp add: h'_def hp_grow_def Let_def)
  have rd: "hp_reused h = ?d" "hp_added h = ?d + ?n" using assms(1,4) True es(3) by (auto simp: hp_core_def)
  have slot: "hp_slot h' i = hp_slot h (?d + i)" if "i < ?n" for i
  proof -
    have "?i < ?n" using es(3) by simp
    moreover have "(?d + i) mod ?n = (?i + i) mod ?n" by (simp add: mod_add_left_eq)
    moreover have "(?i + i) mod ?n = (if ?i + i < ?n then ?i + i else ?i + i - ?n)"
    proof -
      have "?i + i - ?n < ?n" using that calculation(1) by linarith
      then show ?thesis by (auto simp: le_mod_geq)
    qed
    ultimately show ?thesis using that es by (auto simp: hp_slot_def h' nth_append add.commute)
  qed
  have slots: "map (hp_slot h') [0..<?n] = map (hp_slot h) [?d..<?d + ?n]"
    using slot by (intro nth_equalityI) simp_all
  have "live h' = live h"
    unfolding live_def rd h'(1) [THEN arg_cong [where f = hp_deleted]] h'(1) [THEN arg_cong [where f = hp_added]]
    using slot by (intro nth_equalityI) (simp_all add: hp_at_def, simp add: h')
  moreover have im: "hp_slot h' ` {0..<?n} = hp_slot h ` {?d..<?d + ?n}"
    using arg_cong [OF slots, of set] by simp
  moreover have "hp_core h'"
  proof -
    have "distinct (map (hp_slot h') [0..<?n])" unfolding slots using assms(1) rd by (simp add: hp_core_def)
    moreover have "\<forall>i \<in> {0..<?n}. hp_slot h' i < length (hp_heap h)"
      using slot assms(1) rd by (auto simp: hp_core_def)
    ultimately show ?thesis using es by (simp add: hp_core_def) (simp add: h')
  qed
  ultimately show ?thesis using assms(3) rd es(3) unfolding h'_def [symmetric] by (simp add: h')
qed

lemma push_core:
  assumes "hp_core h" "a < length (hp_heap h)" "a \<notin> hp_slot h ` {hp_reused h..<hp_added h}"
    "hp_added h < hp_reused h + hp_allocated h"
    and h': "h' = h\<lparr>hp_entries := Some ((the (hp_entries h))[hp_added h mod hp_allocated h := a]), hp_added := hp_added h + 1\<rparr>"
  shows "hp_core h' \<and> live h' = live h @ [hp_heap h ! a]"
proof -
  obtain es where es: "hp_entries h = Some es" "length es = hp_allocated h" "0 < hp_allocated h" using assms(1) by (auto simp: hp_core_def)
  have old: "hp_slot h' i = hp_slot h i" if "hp_reused h \<le> i" "i < hp_added h" for i
  proof -
    have "i mod hp_allocated h \<noteq> hp_added h mod hp_allocated h"
    proof
      assume "i mod hp_allocated h = hp_added h mod hp_allocated h"
      moreover have "i - hp_reused h < hp_allocated h" "hp_added h - hp_reused h < hp_allocated h" using that assms(4) by linarith+
      ultimately have "i - hp_reused h = hp_added h - hp_reused h"
        using mod_shift_neq [of "hp_reused h" "i - hp_reused h" "hp_allocated h" "hp_added h - hp_reused h"] that by simp
      then show False using that by linarith
    qed
    then show ?thesis by (simp add: h' hp_slot_def)
  qed
  have new: "hp_slot h' (hp_added h) = a" using es by (simp add: h' hp_slot_def)
  have le: "hp_reused h \<le> hp_deleted h" "hp_deleted h \<le> hp_added h" using assms(1) by (auto simp: hp_core_def)
  have slots: "map (hp_slot h') [hp_reused h..<hp_added h + 1] = map (hp_slot h) [hp_reused h..<hp_added h] @ [a]"
    using le old new by simp
  have "live h' = map (hp_at h') [hp_deleted h..<hp_added h] @ [hp_at h' (hp_added h)]" using le by (simp add: live_def h')
  also have "\<dots> = live h @ [hp_heap h ! a]"
  proof -
    have "hp_heap h' = hp_heap h" by (simp add: h')
    then have "hp_at h' i = hp_at h i" if "i \<in> set [hp_deleted h..<hp_added h]" for i
      using old [of i] that le by (simp add: hp_at_def)
    then show ?thesis using new \<open>hp_heap h' = hp_heap h\<close> by (simp add: live_def hp_at_def [of h' "hp_added h"])
  qed
  finally have "live h' = live h @ [hp_heap h ! a]" .
  moreover have "distinct (map (hp_slot h') [hp_reused h..<hp_added h + 1])"
    unfolding slots using assms(1,3) by (auto simp: hp_core_def)
  moreover have "\<forall>i \<in> {hp_reused h..<hp_added h + 1}. hp_slot h' i < length (hp_heap h)"
    using old new assms(1,2) by (auto simp: hp_core_def less_Suc_eq)
  ultimately show ?thesis using es le assms(4) by (simp add: hp_core_def) (simp add: h')
qed

section \<open>The table of RFC 7541\<close>

definition entry_size :: "v2_header \<Rightarrow> nat" where
  "entry_size e = 32 + length (fst e) + length (snd e)"

definition table_total :: "v2_header list \<Rightarrow> nat" where
  "table_total es = sum_list (map entry_size es)"

text \<open>The headers, newest first, that a table of size \<open>m\<close> holds of \<open>es\<close>: the oldest are evicted.\<close>

fun fit :: "nat \<Rightarrow> v2_header list \<Rightarrow> v2_header list" where
  "fit m [] = []"
| "fit m (e # es) = (if entry_size e \<le> m then e # fit (m - entry_size e) es else [])"

lemma table_total_simps [simp]:
  "table_total [] = 0" "table_total (e # es) = entry_size e + table_total es" "table_total (es @ fs) = table_total es + table_total fs"
  by (simp_all add: table_total_def)

lemma fit_all: "table_total es \<le> m \<Longrightarrow> fit m es = es"
  by (induction es arbitrary: m) auto

lemma fit_evict: "m < table_total (es @ [e]) \<Longrightarrow> fit m (es @ [e]) = fit m es"
  by (induction es arbitrary: m) auto

lemma fit_total: "table_total (fit m es) \<le> m"
proof (induction es arbitrary: m)
  case (Cons e es)
  then have "table_total (fit (m - entry_size e) es) \<le> m - entry_size e" .
  then show ?case by (simp del: split_paired_All) linarith
qed simp

section \<open>The dynamic table implements it\<close>

definition contents :: "hpack \<Rightarrow> v2_header list" where
  "contents h = (if hp_entries h = None then [] else rev (map (hp_read (hp_storage h)) (live h)))"

text \<open>The size in force: that of the first allocation, whatever was set before it.\<close>

definition hp_limit :: "hpack \<Rightarrow> nat" where
  "hp_limit h = (if hp_entries h = None then tsize else hp_size h)"

definition hp_made :: "hpack \<Rightarrow> bool" where
  "hp_made h \<longleftrightarrow> hp_core h \<and> length (hp_storage h) = tsize \<and> hp_pos h \<le> tsize \<and> (\<exists>b. chained b (live h) (hp_pos h))"

definition hp_inv :: "hpack \<Rightarrow> bool" where
  "hp_inv h \<longleftrightarrow> (if hp_entries h = None then
       hp_added h = 0 \<and> hp_deleted h = 0 \<and> hp_reused h = 0 \<and> hp_heap h = [] \<and> hp_free h = hp_size h
     else hp_made h \<and> hp_size h \<le> tsize \<and> hp_free h + sum_list (map he_size (live h)) = hp_size h)"

lemma chained_data: "chained b es p \<Longrightarrow> e \<in> set es \<Longrightarrow> he_name_data e \<le> tsize \<and> he_value_data e \<le> tsize"
  by (induction es arbitrary: b) auto

lemma contents_total:
  assumes "hp_made h" "sum_list (map he_size (live h)) \<le> tsize"
  shows "table_total (contents h) = sum_list (map he_size (live h))"
proof -
  have "entry_size (hp_read (hp_storage h) e) = he_size e" if "e \<in> set (live h)" for e
  proof -
    obtain b where "chained b (live h) (hp_pos h)" using assms(1) by (auto simp: hp_made_def)
    then have "he_name_data e \<le> tsize \<and> he_value_data e \<le> tsize"
      using that chained_data by blast
    moreover have "he_size e \<le> tsize" using that assms(2) member_le_sum_list [of "he_size e" "map he_size (live h)"] by simp
    ultimately show ?thesis
      using assms(1) by (simp add: entry_size_def hp_read_def he_size_def get_ring hp_made_def ring_def)
  qed
  then have "map (entry_size \<circ> hp_read (hp_storage h)) (live h) = map he_size (live h)" by simp
  moreover obtain es where "hp_entries h = Some es" using assms(1) by (auto simp: hp_made_def hp_core_def)
  ultimately show ?thesis by (simp add: contents_def table_total_def rev_map [symmetric] sum_list_rev del: map_eq_conv)
qed

lemma evict_made:
  assumes "hp_made h" "live h \<noteq> []"
  shows "hp_made (evict_one h)" "live (evict_one h) = tl (live h)" "hp_free (evict_one h) = hp_free h + he_size (hd (live h))"
    "hp_size (evict_one h) = hp_size h" "hp_storage (evict_one h) = hp_storage h" "hp_entries (evict_one h) = hp_entries h"
proof -
  have le: "hp_deleted h < hp_added h" using assms(2) by (auto simp: live_def)
  then have l: "live h = hp_at h (hp_deleted h) # map (hp_at h) [hp_deleted h + 1..<hp_added h]" by (simp add: live_def upt_conv_Cons)
  have at: "hp_at (evict_one h) = hp_at h" "hp_slot (evict_one h) = hp_slot h"
    by (auto simp: hp_at_def hp_slot_def evict_one_def Let_def)
  have d: "hp_deleted (evict_one h) = hp_deleted h + 1" "hp_added (evict_one h) = hp_added h" by (simp_all add: evict_one_def Let_def)
  show live: "live (evict_one h) = tl (live h)" unfolding l by (simp add: live_def at d)
  show "hp_free (evict_one h) = hp_free h + he_size (hd (live h))" unfolding l by (simp add: evict_one_def Let_def he_size_def)
  show "hp_size (evict_one h) = hp_size h" "hp_storage (evict_one h) = hp_storage h" "hp_entries (evict_one h) = hp_entries h"
    by (simp_all add: evict_one_def Let_def)
  have "hp_core (evict_one h)"
    using assms(1) le unfolding hp_made_def hp_core_def at by (auto simp: evict_one_def Let_def)
  moreover have "\<exists>b. chained b (tl (live h)) (hp_pos h)" using assms by (cases "live h") (auto simp: hp_made_def)
  ultimately show "hp_made (evict_one h)"
    using assms(1) unfolding hp_made_def live by (simp add: evict_one_def Let_def)
qed

lemma evict_contents:
  assumes "hp_made h" "live h \<noteq> []"
  shows "contents h = contents (evict_one h) @ [hp_read (hp_storage h) (hd (live h))]"
proof -
  have "hp_entries h \<noteq> None" using assms(1) by (auto simp: hp_made_def hp_core_def)
  then obtain es where "hp_entries h = Some es" by blast
  then show ?thesis using assms evict_made [OF assms] by (cases "live h") (simp_all add: contents_def)
qed

text \<open>One eviction, when what is free is not enough.\<close>

lemma evict_step:
  assumes "hp_inv h" "hp_entries h \<noteq> None" "hp_free h < need" "need \<le> hp_size h"
  shows "hp_inv (evict_one h)" "hp_entries (evict_one h) \<noteq> None" "hp_size (evict_one h) = hp_size h"
    "fit (hp_size h - need) (contents (evict_one h)) = fit (hp_size h - need) (contents h)"
proof -
  have m: "hp_made h" "hp_free h + sum_list (map he_size (live h)) = hp_size h" "hp_size h \<le> tsize"
    using assms(1,2) by (auto simp: hp_inv_def)
  then have ne: "live h \<noteq> []" using assms(3,4) by auto
  note e = evict_made [OF m(1) ne]
  then show inv: "hp_inv (evict_one h)" using m assms(2) ne by (cases "live h") (auto simp: hp_inv_def)
  show "hp_entries (evict_one h) \<noteq> None" "hp_size (evict_one h) = hp_size h" using e assms(2) by simp_all
  have "table_total (contents h) = hp_size h - hp_free h" using contents_total [OF m(1)] m by simp
  then have "hp_size h - need < table_total (contents h)" using assms(3,4) m(2) by linarith
  then show "fit (hp_size h - need) (contents (evict_one h)) = fit (hp_size h - need) (contents h)"
    using fit_evict evict_contents [OF m(1) ne] by metis
qed

text \<open>Both loops evict until \<open>need\<close> bytes are free.\<close>

definition makes_room :: "nat \<Rightarrow> hpack \<Rightarrow> hpack \<Rightarrow> bool" where
  "makes_room need h h' \<longleftrightarrow> hp_inv h' \<and> hp_entries h' \<noteq> None \<and> hp_size h' = hp_size h \<and> need \<le> hp_free h' \<and>
     contents h' = fit (hp_size h - need) (contents h)"

lemma enough_room:
  assumes "hp_inv h" "hp_entries h \<noteq> None" "need \<le> hp_free h"
  shows "makes_room need h h"
proof -
  have "table_total (contents h) = sum_list (map he_size (live h))" "hp_free h + sum_list (map he_size (live h)) = hp_size h"
    using assms(1,2) contents_total [of h] by (auto simp: hp_inv_def)
  then show ?thesis using assms fit_all [of "contents h" "hp_size h - need"] by (simp add: makes_room_def)
qed

lemma makes_room_evict:
  assumes "hp_inv h" "hp_entries h \<noteq> None" "hp_free h < need" "need \<le> hp_size h" "makes_room need (evict_one h) h'"
  shows "makes_room need h h'"
  using evict_step [OF assms(1-4)] assms(5) by (simp add: makes_room_def)

lemma account_loop_room:
  "hp_inv h \<Longrightarrow> hp_entries h \<noteq> None \<Longrightarrow> hp_free h < need \<Longrightarrow> need \<le> hp_size h \<Longrightarrow> makes_room need h (hp_account_loop need h)"
proof (induction need h rule: hp_account_loop.induct)
  case (1 need h)
  note e = evict_step [OF "1.prems"]
  have "makes_room need (evict_one h) (hp_account_loop need h)"
  proof (cases "need > hp_free (evict_one h)")
    case True
    then show ?thesis using "1.IH" [OF refl True e(1,2) True] e(3) "1.prems"(4) by (subst hp_account_loop.simps) (simp add: Let_def)
  next
    case False
    then show ?thesis using enough_room [OF e(1,2)] by (subst hp_account_loop.simps) (simp add: Let_def)
  qed
  then show ?case by (rule makes_room_evict [OF "1.prems"])
qed

lemma size_loop_room:
  "hp_inv h \<Longrightarrow> hp_entries h \<noteq> None \<Longrightarrow> need \<le> hp_size h \<Longrightarrow> makes_room need h (table_size_loop (int need) h)"
proof (induction "need - hp_free h" arbitrary: h rule: less_induct)
  case less
  show ?case
  proof (cases "hp_free h < need")
    case True
    note e = evict_step [OF less.prems(1,2) True less.prems(3)]
    have "need - hp_free (evict_one h) < need - hp_free h" using True by (simp add: evict_one_def Let_def)
    then have "makes_room need (evict_one h) (table_size_loop (int need) (evict_one h))"
      using less.hyps e less.prems(3) by simp
    then show ?thesis using makes_room_evict [OF less.prems(1,2) True less.prems(3)] True by (subst table_size_loop.simps) simp
  next
    case False
    then show ?thesis using enough_room [OF less.prems(1,2)] by (subst table_size_loop.simps) simp
  qed
qed

lemma allocate_inv:
  assumes "hp_inv h"
  shows "hp_inv (hp_allocate h)" "hp_entries (hp_allocate h) \<noteq> None" "hp_size (hp_allocate h) = hp_limit h"
    "contents (hp_allocate h) = contents h"
proof -
  have "hp_inv (hp_allocate h) \<and> contents (hp_allocate h) = contents h" if "hp_entries h = None"
    using that assms
    by (auto simp: hp_inv_def hp_allocate_def hp_made_def hp_core_def live_def contents_def intro!: exI [of _ 0])
  then show "hp_inv (hp_allocate h)" "contents (hp_allocate h) = contents h"
    using assms by (cases "hp_entries h"; simp add: hp_allocate_def)+
  show "hp_entries (hp_allocate h) \<noteq> None" "hp_size (hp_allocate h) = hp_limit h"
    by (simp_all add: hp_allocate_def hp_limit_def)
qed

text \<open>\<open>ngx_http_v2_table_account\<close>: room for a header, or an empty table.\<close>

lemma account_too_large:
  assumes "hp_inv h" "hp_entries h \<noteq> None" "hp_size h < need + 32" "ngx_http_v2_table_account h need = (rc, h')"
  shows "rc = NGX_DECLINED \<and> hp_inv h' \<and> hp_entries h' \<noteq> None \<and> hp_size h' = hp_size h \<and> contents h' = []"
proof -
  have "\<not> need + 32 \<le> hp_free h" using assms(1-3) by (auto simp: hp_inv_def)
  then have h': "rc = NGX_DECLINED" "h' = h\<lparr>hp_deleted := hp_added h, hp_free := hp_size h\<rparr>"
    using assms(3,4) by (auto simp: ngx_http_v2_table_account_def)
  have slot: "hp_slot h' = hp_slot h" by (rule ext) (simp add: h' hp_slot_def)
  have "hp_core h'" using assms(1,2) unfolding hp_inv_def hp_made_def hp_core_def slot by (auto simp: h')
  moreover have "live h' = []" by (simp add: live_def h')
  ultimately show ?thesis
    using assms(1,2) unfolding hp_inv_def hp_made_def by (auto simp: h' contents_def live_def intro!: exI [of _ "hp_pos h"])
qed

lemma account_room:
  assumes "hp_inv h" "hp_entries h \<noteq> None" "need + 32 \<le> hp_size h" "ngx_http_v2_table_account h need = (rc, h')"
  shows "rc = NGX_OK \<and> hp_made h' \<and> hp_entries h' \<noteq> None \<and> hp_size h' = hp_size h \<and>
    hp_free h' + (need + 32) + sum_list (map he_size (live h')) = hp_size h \<and>
    contents h' = fit (hp_size h - (need + 32)) (contents h)"
proof -
  obtain g where g: "makes_room (need + 32) h g" "h' = g\<lparr>hp_free := hp_free g - (need + 32)\<rparr>" "rc = NGX_OK"
    using assms account_loop_room [OF assms(1,2), of "need + 32"] enough_room [OF assms(1,2), of "need + 32"]
    by (auto simp: ngx_http_v2_table_account_def Let_def split: if_splits)
  have same: "live h' = live g" "contents h' = contents g" "hp_core h' = hp_core g"
    unfolding live_def contents_def hp_core_def by (simp_all add: g(2) hp_at_def [abs_def] hp_slot_def [abs_def])
  then have "hp_made h' = hp_made g" by (simp add: hp_made_def) (simp add: g(2))
  then show ?thesis using g same by (simp add: makes_room_def hp_inv_def)
qed

lemma add_entry_made:
  assumes m: "hp_made h" "sum_list (map he_size (live h)) + entry_size header \<le> tsize"
    and t: "hp_take_entry h = (a, h1)" "h2 = hp_grow (hp_store h1 a header)"
    and h': "h' = h2\<lparr>hp_entries := Some ((the (hp_entries h2))[hp_added h2 mod hp_allocated h2 := a]), hp_added := hp_added h2 + 1\<rparr>"
  shows "hp_made h' \<and> contents h' = header # contents h \<and> hp_size h' = hp_size h \<and> hp_free h' = hp_free h \<and>
    sum_list (map he_size (live h')) = sum_list (map he_size (live h)) + entry_size header"
proof -
  obtain b where b: "chained b (live h) (hp_pos h)" using m(1) by (auto simp: hp_made_def)
  have h1: "hp_core h1" "live h1 = live h" "a < length (hp_heap h1)" "a \<notin> hp_slot h1 ` {hp_reused h1..<hp_added h1}"
      "hp_added h1 < hp_reused h1 + hp_allocated h1 \<or> hp_reused h1 = hp_deleted h1"
    and same1: "hp_storage h1 = hp_storage h" "hp_pos h1 = hp_pos h" "hp_size h1 = hp_size h" "hp_free h1 = hp_free h"
    using take_entry_core [of h a h1] m(1) t(1) by (auto simp: hp_made_def)
  define h3 where "h3 = hp_store h1 a header"
  have len: "bytes_of (live h1) + (length (fst header) + length (snd header)) \<le> tsize"
    using m(2) bytes_of_size [of "live h"] h1(2) by (simp add: entry_size_def)
  have st: "length (hp_storage h1) = tsize" "hp_pos h1 \<le> tsize" "chained b (live h1) (hp_pos h1)" using m(1) b h1(2) same1 by (simp_all add: hp_made_def)
  note s = store_chained [OF st(3,1,2) len h1(3) h3_def]
  let ?e = "hp_heap h3 ! a"
  note f3 = s(7-15)
  have slot3: "hp_slot h3 = hp_slot h1" by (rule ext) (simp add: hp_slot_def f3)
  have le: "hp_reused h1 \<le> hp_deleted h1" using h1(1) by (simp add: hp_core_def)
  have "hp_at h3 i = hp_at h1 i" if "hp_deleted h1 \<le> i" "i < hp_added h1" for i
  proof -
    have "hp_slot h1 i \<noteq> a" using h1(4) that le by auto
    then show ?thesis by (simp add: hp_at_def slot3 f3(9))
  qed
  then have live3: "live h3 = live h1" by (intro live_cong) (simp_all add: f3)
  have core3: "hp_core h3" "a < length (hp_heap h3)" "a \<notin> hp_slot h3 ` {hp_reused h3..<hp_added h3}"
      "hp_added h3 < hp_reused h3 + hp_allocated h3 \<or> hp_reused h3 = hp_deleted h3"
    using h1(1,3,4,5) unfolding hp_core_def slot3 f3(1-5) by (simp_all add: f3(8))
  note g = grow_core [OF core3, folded h3_def t(2) [folded h3_def]]
  have g': "hp_core h2" "live h2 = live h3" "a \<notin> hp_slot h2 ` {hp_reused h2..<hp_added h2}" "hp_added h2 < hp_reused h2 + hp_allocated h2"
      "hp_storage h2 = hp_storage h3" "hp_pos h2 = hp_pos h3" "hp_heap h2 = hp_heap h3" "hp_size h2 = hp_size h3" "hp_free h2 = hp_free h3"
    using g by simp_all
  have a2: "a < length (hp_heap h2)" using core3(2) g'(7) by simp
  note p = push_core [OF g'(1) a2 g'(3,4) h']
  have l': "live h' = live h @ [?e]" using p g'(2,7) live3 h1(2) by simp
  have st': "hp_storage h' = hp_storage h3" "hp_pos h' = hp_pos h3" "hp_size h' = hp_size h" "hp_free h' = hp_free h" "hp_entries h' \<noteq> None"
    using g' f3 same1 by (simp_all add: h')
  have "hp_made h'" using p l' st' s(1,2,6) h1(2) unfolding hp_made_def by auto
  moreover have "hp_entries h \<noteq> None" using m(1) by (auto simp: hp_made_def hp_core_def)
  then have "contents h' = header # contents h"
    using l' st' s(3,4) same1 h1(2) by (auto simp: contents_def)
  ultimately show ?thesis using st' l' s(5) by (simp add: entry_size_def)
qed

lemma add_header_table:
  assumes "hp_inv h" "ngx_http_v2_add_header h header = (rc, h')"
  shows "rc = NGX_OK \<and> hp_inv h' \<and> hp_entries h' \<noteq> None \<and> hp_limit h' = hp_limit h \<and> contents h' = fit (hp_limit h) (header # contents h)"
proof -
  note a = allocate_inv [OF assms(1)]
  let ?need = "length (fst header) + length (snd header)"
  obtain rc1 h1 where acc: "ngx_http_v2_table_account (hp_allocate h) ?need = (rc1, h1)" by fastforce
  show ?thesis
  proof (cases "hp_size (hp_allocate h) < ?need + 32")
    case True
    then have "rc1 = NGX_DECLINED \<and> hp_inv h1 \<and> hp_entries h1 \<noteq> None \<and> hp_size h1 = hp_limit h \<and> contents h1 = []"
      using account_too_large [OF a(1,2) True acc] a(3) by simp
    moreover have "rc = NGX_OK" "h' = h1" using assms(2) acc calculation by (auto simp: ngx_http_v2_add_header_def)
    ultimately show ?thesis using True a(3) by (auto simp: hp_limit_def [of h1] entry_size_def)
  next
    case False
    then have r: "rc1 = NGX_OK" "hp_made h1" "hp_size h1 = hp_limit h"
        "hp_free h1 + entry_size header + sum_list (map he_size (live h1)) = hp_limit h"
        "contents h1 = fit (hp_limit h - entry_size header) (contents h)" "entry_size header \<le> hp_limit h"
      using account_room [OF a(1,2) _ acc] a by (simp_all add: entry_size_def ac_simps)
    have le: "hp_limit h \<le> tsize" using assms(1) by (auto simp: hp_limit_def hp_inv_def)
    obtain e h2 where t: "hp_take_entry h1 = (e, h2)" by fastforce
    have eq: "rc = NGX_OK" "h' = (let h = hp_grow (hp_store h2 e header) in
        h\<lparr>hp_entries := Some ((the (hp_entries h))[hp_added h mod hp_allocated h := e]), hp_added := hp_added h + 1\<rparr>)"
      using assms(2) acc r(1) t by (auto simp: ngx_http_v2_add_header_def Let_def)
    have "hp_made h' \<and> contents h' = header # contents h1 \<and> hp_size h' = hp_size h1 \<and> hp_free h' = hp_free h1 \<and>
        sum_list (map he_size (live h')) = sum_list (map he_size (live h1)) + entry_size header"
      by (rule add_entry_made [OF r(2) _ t refl]) (use r(4) le eq in \<open>simp_all add: Let_def\<close>)
    moreover from this have "hp_entries h' \<noteq> None" by (auto simp: hp_made_def hp_core_def)
    ultimately show ?thesis using r eq(1) le by (auto simp: hp_inv_def hp_limit_def [of h'])
  qed
qed

lemma table_size_table:
  assumes "hp_inv h" "hp_entries h \<noteq> None" "ngx_http_v2_table_size h size' = (rc, h')"
  shows "hp_inv h' \<and> hp_entries h' \<noteq> None \<and>
    (if size' \<le> tsize then rc = NGX_OK \<and> hp_limit h' = size' \<and> contents h' = fit size' (contents h) else rc = NGX_ERROR \<and> h' = h)"
proof (cases "size' \<le> tsize")
  case True
  define need where "need = hp_size h - size'"
  define g where "g = table_size_loop (int (hp_size h) - int size') h"
  have h': "rc = NGX_OK" "h' = g\<lparr>hp_size := size', hp_free := nat (int (hp_free g) - (int (hp_size h) - int size'))\<rparr>"
    using assms(3) True by (auto simp: ngx_http_v2_table_size_def g_def Let_def)
  have room: "makes_room need h g"
  proof (cases "size' \<le> hp_size h")
    case True
    then have "int (hp_size h) - int size' = int need" by (simp add: need_def)
    moreover have "need \<le> hp_size h" by (simp add: need_def)
    ultimately show ?thesis unfolding g_def using size_loop_room [OF assms(1,2)] by presburger
  next
    case False
    then have "g = h" unfolding g_def by (subst table_size_loop.simps) simp
    then show ?thesis using enough_room [OF assms(1,2), of need] False by (simp add: need_def)
  qed
  have same: "live h' = live g" "contents h' = contents g" "hp_core h' = hp_core g"
    unfolding live_def contents_def hp_core_def by (simp_all add: h'(2) hp_at_def [abs_def] hp_slot_def [abs_def])
  then have made: "hp_made h' = hp_made g" by (simp add: hp_made_def) (simp add: h'(2))
  have g: "hp_made g" "hp_free g + sum_list (map he_size (live g)) = hp_size h" "need \<le> hp_free g" "hp_entries g \<noteq> None"
    using room by (auto simp: makes_room_def hp_inv_def)
  have f': "hp_size h' = size'" "hp_free h' + hp_size h = hp_free g + size'" "hp_entries h' = hp_entries g"
    using g(3) by (simp_all add: h'(2) need_def) 
  have "contents g = fit size' (contents h)"
  proof (cases "size' \<le> hp_size h")
    case False
    have "table_total (contents h) \<le> size'" using assms(1,2) contents_total [of h] False by (auto simp: hp_inv_def)
    then show ?thesis using room False fit_all [of "contents h" "hp_size h"] fit_all [of "contents h" size']
        assms(1,2) contents_total [of h] by (auto simp: makes_room_def need_def hp_inv_def)
  qed (use room in \<open>simp add: makes_room_def need_def\<close>)
  moreover have "hp_free h' + sum_list (map he_size (live h')) = size'" using f'(2) g(2) unfolding same(1) by linarith
  ultimately show ?thesis using True h'(1) f' made same g True by (auto simp: hp_inv_def hp_limit_def)
next
  case False
  then show ?thesis using assms by (simp add: ngx_http_v2_table_size_def)
qed

lemma length_contents: "hp_inv h \<Longrightarrow> length (contents h) = hp_added h - hp_deleted h"
  by (auto simp: contents_def hp_inv_def live_def)

lemma get_contents:
  assumes "hp_inv h" "0 < index"
  shows "ngx_http_v2_get_indexed_header h index name_only header =
    (let table = ngx_http_v2_static_table @ contents h in
     if index \<le> length table then
       (NGX_OK, if name_only \<and> length ngx_http_v2_static_table < index then (fst (table ! (index - 1)), snd header) else table ! (index - 1))
     else (NGX_ERROR, header))"
proof (cases "index - 1 < length ngx_http_v2_static_table")
  case True
  then show ?thesis using assms(2) by (auto simp: ngx_http_v2_get_indexed_header_def Let_def nth_append)
next
  case False
  define i where "i = index - 1 - length ngx_http_v2_static_table"
  have i: "index = length ngx_http_v2_static_table + i + 1" using False assms(2) by (simp add: i_def)
  show ?thesis
  proof (cases "i < hp_added h - hp_deleted h")
    case True
    then have some: "hp_entries h \<noteq> None" using assms(1) by (cases "hp_entries h") (auto simp: hp_inv_def)
    then have "contents h ! i = hp_read (hp_storage h) (live h ! (hp_added h - hp_deleted h - Suc i))"
      using True by (auto simp: contents_def rev_nth live_def)
    moreover have "live h ! (hp_added h - hp_deleted h - Suc i) = hp_at h (hp_added h - i - 1)"
      using True by (simp add: live_def Suc_diff_Suc)
    ultimately have "contents h ! i = hp_read (hp_storage h) (hp_at h (hp_added h - i - 1))" by simp
    then show ?thesis using True i length_contents [OF assms(1)]
      by (auto simp: ngx_http_v2_get_indexed_header_def Let_def nth_append hp_read_def)
  next
    case False
    then show ?thesis using i length_contents [OF assms(1)] by (auto simp: ngx_http_v2_get_indexed_header_def Let_def)
  qed
qed

section \<open>Runs\<close>

text \<open>The instructions of header blocks that change the table, and what they mean.\<close>

datatype table_op = Add v2_header | Resize nat

fun spec_op :: "table_op \<Rightarrow> nat \<times> v2_header list \<Rightarrow> nat \<times> v2_header list" where
  "spec_op (Add e) (limit, es) = (limit, fit limit (e # es))"
| "spec_op (Resize n) (limit, es) = (if n \<le> NGX_HTTP_V2_TABLE_SIZE then (n, fit n es) else (limit, es))"

text \<open>What the users of a header table rely on, once it holds its memory.\<close>

locale header_table =
  fixes ready :: "'h \<Rightarrow> bool" and table :: "'h \<Rightarrow> nat \<times> v2_header list"
    and add :: "'h \<Rightarrow> v2_header \<Rightarrow> ngx_rc \<times> 'h" and resize :: "'h \<Rightarrow> nat \<Rightarrow> ngx_rc \<times> 'h"
  assumes add_ready: "ready h \<Longrightarrow> ready (snd (add h e)) \<and> table (snd (add h e)) = spec_op (Add e) (table h)"
    and resize_ready: "ready h \<Longrightarrow> ready (snd (resize h n)) \<and> table (snd (resize h n)) = spec_op (Resize n) (table h)"
begin

definition step :: "table_op \<Rightarrow> 'h \<Rightarrow> 'h" where
  "step op h = (case op of Add e \<Rightarrow> snd (add h e) | Resize n \<Rightarrow> snd (resize h n))"

lemma steps: "ready h \<Longrightarrow> ready (fold step ops h) \<and> table (fold step ops h) = fold spec_op ops (table h)"
proof (induction ops arbitrary: h)
  case (Cons op ops)
  then have "ready (step op h) \<and> table (step op h) = spec_op op (table h)"
    using add_ready resize_ready by (cases op) (auto simp: step_def)
  then show ?case using Cons.IH by simp
qed simp

end

definition hp_ready :: "hpack \<Rightarrow> bool" where
  "hp_ready h \<longleftrightarrow> hp_inv h \<and> hp_entries h \<noteq> None"

definition hp_table :: "hpack \<Rightarrow> nat \<times> v2_header list" where
  "hp_table h = (hp_limit h, contents h)"

interpretation dyn: header_table hp_ready hp_table ngx_http_v2_add_header ngx_http_v2_table_size
proof
  fix h e n
  assume "hp_ready h"
  then have h: "hp_inv h" "hp_entries h \<noteq> None" by (simp_all add: hp_ready_def)
  show "hp_ready (snd (ngx_http_v2_add_header h e)) \<and> hp_table (snd (ngx_http_v2_add_header h e)) = spec_op (Add e) (hp_table h)"
    using add_header_table [OF h(1), of e] by (cases "ngx_http_v2_add_header h e") (auto simp: hp_ready_def hp_table_def)
  show "hp_ready (snd (ngx_http_v2_table_size h n)) \<and> hp_table (snd (ngx_http_v2_table_size h n)) = spec_op (Resize n) (hp_table h)"
    using table_size_table [OF h, of n] by (cases "ngx_http_v2_table_size h n") (auto simp: hp_ready_def hp_table_def split: if_splits)
qed

fun hp_step :: "table_op \<Rightarrow> hpack \<Rightarrow> hpack" where
  "hp_step (Add e) h = snd (ngx_http_v2_add_header h e)"
| "hp_step (Resize n) h = snd (ngx_http_v2_table_size h n)"

lemma dyn_step: "dyn.step = hp_step"
proof (intro ext)
  show "dyn.step op h = hp_step op h" for op h by (cases op) (simp_all add: dyn.step_def)
qed

lemma init_inv: "hp_inv hpack_init" "contents hpack_init = []" "hp_limit hpack_init = NGX_HTTP_V2_TABLE_SIZE"
  by (simp_all add: hp_inv_def hpack_init_def contents_def hp_limit_def)

lemma run_table:
  "hp_inv (fold hp_step (Add e # ops) hpack_init) \<and>
   contents (fold hp_step (Add e # ops) hpack_init) = snd (fold spec_op (Add e # ops) (NGX_HTTP_V2_TABLE_SIZE, []))"
proof -
  let ?h = "snd (ngx_http_v2_add_header hpack_init e)"
  have "hp_ready ?h \<and> hp_table ?h = spec_op (Add e) (NGX_HTTP_V2_TABLE_SIZE, [])"
    using add_header_table [OF init_inv(1), of e] init_inv
    by (cases "ngx_http_v2_add_header hpack_init e") (auto simp: hp_ready_def hp_table_def)
  then have "hp_ready (fold hp_step ops ?h)" "hp_table (fold hp_step ops ?h) = fold spec_op ops (spec_op (Add e) (NGX_HTTP_V2_TABLE_SIZE, []))"
    using dyn.steps [of ?h ops] unfolding dyn_step by metis+
  then show ?thesis unfolding fold_Cons comp_apply hp_step.simps hp_ready_def hp_table_def by (metis snd_conv)
qed

text \<open>
  C6: The dynamic table of HPACK, two rings with structures that are used again, implements the
  table of RFC 7541: after any insertions and changes of size, from the first insertion on, an
  index leads to the header that the list of the RFC has there, static table first, and every
  other index is an error.
\<close>

theorem hpack_table_refines:
  assumes "0 < index"
  shows "ngx_http_v2_get_indexed_header (fold hp_step (Add e # ops) hpack_init) index False header =
    (let table = ngx_http_v2_static_table @ snd (fold spec_op (Add e # ops) (NGX_HTTP_V2_TABLE_SIZE, [])) in
     if index \<le> length table then (NGX_OK, table ! (index - 1)) else (NGX_ERROR, header))"
  using get_contents [OF conjunct1 [OF run_table] assms, of e ops False header] run_table [of e ops] by simp

text \<open>
  C21: No memory is written or read beyond the rings and no entry is given to two headers: in
  every state of the table the positions lie in the storage, what is stored and what is free
  add up to the size in force, which is at most 4096, and the live and the reusable structures
  are distinct.
\<close>

theorem hpack_table_invariant:
  "hp_inv (fold hp_step ops hpack_init)"
proof (induction ops rule: rev_induct)
  case Nil
  then show ?case using init_inv by simp
next
  case (snoc op ops)
  let ?h = "fold hp_step ops hpack_init"
  show ?case
  proof (cases op)
    case (Add e)
    then show ?thesis using add_header_table [OF snoc, of e]
      by (cases "ngx_http_v2_add_header ?h e") simp
  next
    case (Resize n)
    show ?thesis
    proof (cases "hp_entries ?h = None")
      case True
      have "hp_inv (snd (ngx_http_v2_table_size ?h n))"
      proof -
        have "hp_free ?h = hp_size ?h" using snoc True by (simp add: hp_inv_def)
        then have "table_size_loop (int (hp_size ?h) - int n) ?h = ?h" by (subst table_size_loop.simps) simp
        then show ?thesis using snoc True by (auto simp: ngx_http_v2_table_size_def hp_inv_def Let_def)
      qed
      then show ?thesis using Resize by simp
    next
      case False
      then show ?thesis using table_size_table [OF snoc False, of n] Resize
        by (cases "ngx_http_v2_table_size ?h n") simp
    qed
  qed
qed



lemma hpack_table_refines_witness:
  "ngx_http_v2_get_indexed_header (fold hp_step [Add ([ch_a], [ch_b]), Resize 100, Add ([ch_c], [])] hpack_init) 62 False ([], []) =
     (NGX_OK, ([ch_c], [])) \<and>
   ngx_http_v2_get_indexed_header (fold hp_step [Add ([ch_a], [ch_b]), Resize 100, Add ([ch_c], [])] hpack_init) 63 False ([], []) =
     (NGX_OK, ([ch_a], [ch_b])) \<and>
   ngx_http_v2_get_indexed_header (fold hp_step [Add ([ch_a], [ch_b]), Resize 100, Add ([ch_c], [])] hpack_init) 64 False ([], []) =
     (NGX_ERROR, ([], []))"
proof -
  have l: "length ngx_http_v2_static_table = 61" by (simp add: ngx_http_v2_static_table_def)
  have s: "snd (fold spec_op [Add ([ch_a], [ch_b]), Resize 100, Add ([ch_c], [])] (NGX_HTTP_V2_TABLE_SIZE, [])) =
      [([ch_c], []), ([ch_a], [ch_b])]"
    by (simp add: NGX_HTTP_V2_TABLE_SIZE_def entry_size_def)
  show ?thesis
    using hpack_table_refines [of 62 "([ch_a], [ch_b])" "[Resize 100, Add ([ch_c], [])]" "([], [])"]
      hpack_table_refines [of 63 "([ch_a], [ch_b])" "[Resize 100, Add ([ch_c], [])]" "([], [])"]
      hpack_table_refines [of 64 "([ch_a], [ch_b])" "[Resize 100, Add ([ch_c], [])]" "([], [])"]
    unfolding s by (simp add: l nth_append)
qed

end
