(* ===== verification/Http_V2_Request.thy ===== *)
theory Http_V2_Request
  imports Http_Process_Uri Hpack_Table
begin

text \<open>
  The request of an HTTP/2 stream, from the headers of a header block
  (\<open>src/http/v2/ngx_http_v2.c\<close>): validation, the pseudo headers, which take the place of the
  request line, cookies, and what \<open>ngx_http_v2_run_request\<close> puts together at the end of the
  block. The path goes through \<open>ngx_http_parse_uri\<close> and \<open>ngx_http_process_request_uri\<close>, as
  the URI of a request line does.
\<close>

section \<open>State\<close>

text \<open>
  The fields of \<open>ngx_http_request_t\<close> the code sets; \<open>vr_uri\<close> is what
  \<open>ngx_http_process_request_uri\<close> left in the request, \<open>vr_headers\<close> the list
  \<open>r->headers_in.headers\<close>, \<open>vr_cookies\<close> the array \<open>r->stream->cookies\<close>.
\<close>

record v2_request =
  vr_method_name :: ngx_str
  vr_method :: nat
  vr_schema :: ngx_str
  vr_uri :: "processed_uri option"
  vr_invalid_header :: bool
  vr_headers :: "v2_header list"
  vr_cookies :: "ngx_str list"
  vr_request_line :: ngx_str

definition v2_request_init :: v2_request where
  "v2_request_init = \<lparr>vr_method_name = [], vr_method = NGX_HTTP_UNKNOWN, vr_schema = [], vr_uri = None,
     vr_invalid_header = False, vr_headers = [], vr_cookies = [], vr_request_line = []\<rparr>"

definition vr_unparsed_uri :: "v2_request \<Rightarrow> ngx_str" where
  "vr_unparsed_uri r = (case vr_uri r of Some u \<Rightarrow> up_unparsed_uri u | None \<Rightarrow> [])"

text \<open>
  The configuration, and the handlers of the known headers (\<open>cmcf->headers_in_hash\<close>): whether
  one accepts a header; headers without a handler are accepted.
\<close>

record v2_conf =
  vf_underscores_in_headers :: bool
  vf_ignore_invalid_headers :: bool
  vf_merge_slashes :: bool
  vf_handler :: "v2_header \<Rightarrow> bool"

section \<open>Validation\<close>

text \<open>The loop over the name: \<open>None\<close> for \<open>NGX_ERROR\<close>, else \<open>r->invalid_header\<close>.\<close>

fun validate_name :: "bool \<Rightarrow> bool \<Rightarrow> ngx_str \<Rightarrow> bool option" where
  "validate_name underscores invalid [] = Some invalid"
| "validate_name underscores invalid (ch # s) =
     (if (ch \<ge> ch_a \<and> ch \<le> ch_z) \<or> ch = ch_dash \<or> (ch \<ge> ch_0 \<and> ch \<le> ch_9) \<or> (ch = ch_under \<and> underscores)
      then validate_name underscores invalid s
      else if ch \<le> 0x20 \<or> ch = 0x7f \<or> ch = ch_colon \<or> (ch \<ge> ch_A \<and> ch \<le> ch_Z) then None
      else validate_name underscores True s)"

definition pseudo_name :: "ngx_str \<Rightarrow> bool" where
  "pseudo_name name \<longleftrightarrow> (case name of c # _ \<Rightarrow> c = ch_colon | [] \<Rightarrow> False)"

definition ngx_http_v2_validate_header :: "v2_conf \<Rightarrow> v2_request \<Rightarrow> v2_header \<Rightarrow> ngx_rc \<times> v2_request" where
  "ngx_http_v2_validate_header conf r header =
     (let (name, value') = header in
      case validate_name (vf_underscores_in_headers conf) False (if pseudo_name name then tl name else name) of
        None \<Rightarrow> (NGX_ERROR, r)
      | Some invalid \<Rightarrow>
          (let r = r\<lparr>vr_invalid_header := invalid\<rparr> in
           if list_ex (\<lambda>ch. ch = ch_nul \<or> ch = ch_lf \<or> ch = ch_cr) value' then (NGX_ERROR, r) else (NGX_OK, r)))"

section \<open>Pseudo headers\<close>

definition ngx_http_v2_parse_path :: "v2_conf \<Rightarrow> v2_request \<Rightarrow> ngx_str \<Rightarrow> ngx_rc \<times> v2_request" where
  "ngx_http_v2_parse_path conf r value' =
     (if vr_unparsed_uri r \<noteq> [] then (NGX_DECLINED, r)
      else if value' = [] then (NGX_DECLINED, r)
      else
        (case ngx_http_parse_uri value' (request_init\<lparr>rq_uri_start := 0, rq_uri_end := length value'\<rparr>) of
           (rc, q) \<Rightarrow>
             if rc \<noteq> NGX_OK then (NGX_DECLINED, r)
             else
               (case ngx_http_process_request_uri (vf_merge_slashes conf) value' q of
                  None \<Rightarrow> (NGX_ABORT, r)
                | Some u \<Rightarrow> (NGX_OK, r\<lparr>vr_uri := Some u\<rparr>))))"

definition v2_methods :: "(ngx_str \<times> nat) list" where
  "v2_methods =
     [(cstr ''GET'', NGX_HTTP_GET), (cstr ''POST'', NGX_HTTP_POST), (cstr ''HEAD'', NGX_HTTP_HEAD),
      (cstr ''OPTIONS'', NGX_HTTP_OPTIONS), (cstr ''PROPFIND'', NGX_HTTP_PROPFIND), (cstr ''PUT'', NGX_HTTP_PUT),
      (cstr ''MKCOL'', NGX_HTTP_MKCOL), (cstr ''DELETE'', NGX_HTTP_DELETE), (cstr ''COPY'', NGX_HTTP_COPY),
      (cstr ''MOVE'', NGX_HTTP_MOVE), (cstr ''PROPPATCH'', NGX_HTTP_PROPPATCH), (cstr ''LOCK'', NGX_HTTP_LOCK),
      (cstr ''UNLOCK'', NGX_HTTP_UNLOCK), (cstr ''PATCH'', NGX_HTTP_PATCH), (cstr ''TRACE'', NGX_HTTP_TRACE),
      (cstr ''CONNECT'', NGX_HTTP_CONNECT)]"

definition method_char :: "byte \<Rightarrow> bool" where
  "method_char c \<longleftrightarrow> (c \<ge> ch_A \<and> c \<le> ch_Z) \<or> c = ch_under \<or> c = ch_dash"

definition ngx_http_v2_parse_method :: "v2_request \<Rightarrow> ngx_str \<Rightarrow> ngx_rc \<times> v2_request" where
  "ngx_http_v2_parse_method r value' =
     (if vr_method_name r \<noteq> [] then (NGX_DECLINED, r)
      else if value' = [] then (NGX_DECLINED, r)
      else
        (let r = r\<lparr>vr_method_name := value'\<rparr> in
         case map_of v2_methods value' of
           Some m \<Rightarrow> (NGX_OK, r\<lparr>vr_method := m\<rparr>)
         | None \<Rightarrow> if list_all method_char value' then (NGX_OK, r) else (NGX_DECLINED, r)))"

fun scheme_ok :: "nat \<Rightarrow> ngx_str \<Rightarrow> bool" where
  "scheme_ok i [] \<longleftrightarrow> True"
| "scheme_ok i (ch # s) \<longleftrightarrow>
     (if (ch OR 0x20) \<ge> ch_a \<and> (ch OR 0x20) \<le> ch_z then scheme_ok (i + 1) s
      else if ((ch \<ge> ch_0 \<and> ch \<le> ch_9) \<or> ch = ch_plus \<or> ch = ch_dash \<or> ch = ch_dot) \<and> i > 0 then scheme_ok (i + 1) s
      else False)"

definition ngx_http_v2_parse_scheme :: "v2_request \<Rightarrow> ngx_str \<Rightarrow> ngx_rc \<times> v2_request" where
  "ngx_http_v2_parse_scheme r value' =
     (if vr_schema r \<noteq> [] then (NGX_DECLINED, r)
      else if value' = [] then (NGX_DECLINED, r)
      else if scheme_ok 0 value' then (NGX_OK, r\<lparr>vr_schema := value'\<rparr>)
      else (NGX_DECLINED, r))"

text \<open>\<open>ngx_http_v2_parse_header\<close> for the host.\<close>

definition ngx_http_v2_parse_authority :: "v2_conf \<Rightarrow> v2_request \<Rightarrow> ngx_str \<Rightarrow> ngx_rc \<times> v2_request" where
  "ngx_http_v2_parse_authority conf r value' =
     (let h = (cstr ''host'', value'); r = r\<lparr>vr_headers := vr_headers r @ [h]\<rparr> in
      if vf_handler conf h then (NGX_OK, r) else (NGX_ABORT, r))"

definition ngx_http_v2_pseudo_header :: "v2_conf \<Rightarrow> v2_request \<Rightarrow> v2_header \<Rightarrow> ngx_rc \<times> v2_request" where
  "ngx_http_v2_pseudo_header conf r header =
     (let (name, value') = header; name = tl name in
      if name = cstr ''path'' then ngx_http_v2_parse_path conf r value'
      else if name = cstr ''method'' then ngx_http_v2_parse_method r value'
      else if name = cstr ''scheme'' then ngx_http_v2_parse_scheme r value'
      else if name = cstr ''authority'' then ngx_http_v2_parse_authority conf r value'
      else (NGX_DECLINED, r))"

section \<open>Headers\<close>

text \<open>
  The part of \<open>ngx_http_v2_state_process_header\<close> that concerns the request: go on with
  \<open>ngx_http_v2_state_header_complete\<close>, drop the stream (the label \<open>error\<close>), or close the
  connection.
\<close>

datatype v2_verdict = V_complete | V_error | V_connection_error

definition v2_request_header :: "v2_conf \<Rightarrow> v2_request \<Rightarrow> v2_header \<Rightarrow> v2_verdict \<times> v2_request" where
  "v2_request_header conf r header =
     (let (rc, r) = ngx_http_v2_validate_header conf r header in
      if rc \<noteq> NGX_OK then (V_error, r)
      else if pseudo_name (fst header) then
        (case ngx_http_v2_pseudo_header conf r header of
           (rc, r) \<Rightarrow>
             if rc = NGX_OK then (V_complete, r)
             else if rc = NGX_ABORT \<or> rc = NGX_DECLINED then (V_error, r)
             else (V_connection_error, r))
      else if vr_invalid_header r \<and> vf_ignore_invalid_headers conf then (V_complete, r)
      else if fst header = cstr ''cookie'' then (V_complete, r\<lparr>vr_cookies := vr_cookies r @ [snd header]\<rparr>)
      else
        (let r = r\<lparr>vr_headers := vr_headers r @ [header]\<rparr> in
         if vf_handler conf header then (V_complete, r) else (V_error, r)))"

text \<open>The headers of a block one after the other, as long as the stream is there.\<close>

fun v2_request_headers :: "v2_conf \<Rightarrow> v2_request \<Rightarrow> v2_header list \<Rightarrow> v2_request option" where
  "v2_request_headers conf r [] = Some r"
| "v2_request_headers conf r (h # hs) =
     (case v2_request_header conf r h of
        (V_complete, r) \<Rightarrow> v2_request_headers conf r hs
      | _ \<Rightarrow> None)"

section \<open>The end of the block\<close>

definition ngx_http_v2_construct_request_line :: "v2_request \<Rightarrow> ngx_rc \<times> v2_request" where
  "ngx_http_v2_construct_request_line r =
     (if vr_method_name r = [] \<or> vr_schema r = [] \<or> vr_unparsed_uri r = [] then (NGX_ERROR, r)
      else (NGX_OK, r\<lparr>vr_request_line := vr_method_name r @ [ch_sp] @ vr_unparsed_uri r @ cstr '' HTTP/2.0''\<rparr>))"

text \<open>The length of the cookie header, and the loop that fills it until \<open>p == end\<close>.\<close>

definition cookie_len :: "ngx_str list \<Rightarrow> nat" where
  "cookie_len vals = foldl (\<lambda>len v. len + (length v + 2)) 0 vals - 2"

fun cookie_fill :: "nat \<Rightarrow> ngx_str \<Rightarrow> ngx_str list \<Rightarrow> ngx_str" where
  "cookie_fill len buf [] = buf"
| "cookie_fill len buf (v # vals) =
     (let buf = buf @ v in
      if length buf = len then buf else cookie_fill len (buf @ [ch_semi, ch_sp]) vals)"

definition ngx_http_v2_construct_cookie_header :: "v2_conf \<Rightarrow> v2_request \<Rightarrow> ngx_rc \<times> v2_request" where
  "ngx_http_v2_construct_cookie_header conf r =
     (if vr_cookies r = [] then (NGX_OK, r)
      else
        (let h = (cstr ''cookie'', cookie_fill (cookie_len (vr_cookies r)) [] (vr_cookies r));
             r = r\<lparr>vr_headers := vr_headers r @ [h]\<rparr> in
         if vf_handler conf h then (NGX_OK, r) else (NGX_ERROR, r)))"

text \<open>\<open>ngx_http_v2_run_request\<close> up to \<open>ngx_http_process_request_header\<close>.\<close>

definition v2_run_request :: "v2_conf \<Rightarrow> v2_request \<Rightarrow> v2_request option" where
  "v2_run_request conf r =
     (case ngx_http_v2_construct_request_line r of
        (rc, r) \<Rightarrow>
          if rc \<noteq> NGX_OK then None
          else
            (case ngx_http_v2_construct_cookie_header conf r of
               (rc, r) \<Rightarrow> if rc \<noteq> NGX_OK then None else Some r))"

section \<open>What a request is made of\<close>

lemma methods_agree: "map_of v2_methods s = map_of method_table s"
proof -
  have "map_of v2_methods = map_of method_table"
    by (rule ext) (auto simp: v2_methods_def method_table_def cstr_def)
  then show ?thesis by simp
qed

text \<open>
  The cookies of an HTTP/2 request are joined with a semicolon and a space, whatever they
  hold: the length is counted first, and the loop that fills the buffer stops exactly after the
  last cookie, never beyond the array and never early.
\<close>

theorem v2_cookie_join:
  assumes "vals \<noteq> []"
  shows "cookie_fill (cookie_len vals) [] vals = concat (map (\<lambda>v. v @ [ch_semi, ch_sp]) (butlast vals)) @ last vals \<and>
    length (cookie_fill (cookie_len vals) [] vals) = cookie_len vals"
proof -
  have sum: "foldl (\<lambda>len v. len + (length v + 2)) n vs = n + sum_list (map (\<lambda>v. length v + 2) vs)" for n and vs :: "ngx_str list"
    by (induction vs arbitrary: n) auto
  have fill: "vs \<noteq> [] \<Longrightarrow> cookie_fill (length buf + sum_list (map (\<lambda>v. length v + 2) vs) - 2) buf vs =
      buf @ concat (map (\<lambda>v. v @ [ch_semi, ch_sp]) (butlast vs)) @ last vs" for buf vs
  proof (induction vs arbitrary: buf)
    case (Cons v vs)
    show ?case
    proof (cases "vs = []")
      case False
      then have "2 \<le> sum_list (map (\<lambda>v. length v + 2) vs)" by (cases vs) auto
      then show ?thesis using Cons.IH [OF False, of "buf @ v @ [ch_semi, ch_sp]"] False by (simp add: add.assoc)
    qed simp
  qed simp
  have len: "vs \<noteq> [] \<Longrightarrow> length (concat (map (\<lambda>v. v @ [ch_semi, ch_sp]) (butlast vs)) @ last vs) = sum_list (map (\<lambda>v. length v + 2) vs) - 2"
    for vs :: "ngx_str list"
  proof (induction vs)
    case (Cons v vs)
    then show ?case by (cases vs) auto
  qed simp
  have "cookie_len vals = sum_list (map (\<lambda>v. length v + 2) vals) - 2" unfolding cookie_len_def sum by simp
  then show ?thesis using fill [OF assms, of "[]"] len [OF assms] by simp
qed

lemma v2_cookie_join_witness:
  "cookie_fill (cookie_len [[ch_a], [], [ch_b]]) [] [[ch_a], [], [ch_b]] = [ch_a, ch_semi, ch_sp, ch_semi, ch_sp, ch_b] \<and>
   length (cookie_fill (cookie_len [[ch_a], [], [ch_b]]) [] [[ch_a], [], [ch_b]]) = cookie_len [[ch_a], [], [ch_b]]"
  using v2_cookie_join [of "[[ch_a], [], [ch_b]]"] by (simp del: cookie_fill.simps add: cookie_len_def)

section \<open>Clean requests\<close>

definition clean_name :: "ngx_str \<Rightarrow> bool" where
  "clean_name s \<longleftrightarrow> (\<forall>c \<in> set s. c > 0x20 \<and> c \<noteq> 0x7f \<and> c \<noteq> ch_colon \<and> \<not> (c \<ge> ch_A \<and> c \<le> ch_Z))"

definition clean_value :: "ngx_str \<Rightarrow> bool" where
  "clean_value s \<longleftrightarrow> ch_nul \<notin> set s \<and> ch_lf \<notin> set s \<and> ch_cr \<notin> set s"

definition clean_path :: "ngx_str \<Rightarrow> bool" where
  "clean_path s \<longleftrightarrow> (\<exists>t. s = ch_slash # t \<and> (\<forall>c \<in> set t. c > 0x20 \<and> c \<noteq> 0x7f))"

definition clean_request :: "v2_conf \<Rightarrow> v2_request \<Rightarrow> bool" where
  "clean_request conf r \<longleftrightarrow> list_all method_char (vr_method_name r) \<and> scheme_ok 0 (vr_schema r) \<and>
     (\<forall>u. vr_uri r = Some u \<longrightarrow> clean_path (up_unparsed_uri u) \<and>
        (\<exists>q. ngx_http_parse_uri (up_unparsed_uri u) (request_init\<lparr>rq_uri_start := 0, rq_uri_end := length (up_unparsed_uri u)\<rparr>) = (NGX_OK, q) \<and>
           ngx_http_process_request_uri (vf_merge_slashes conf) (up_unparsed_uri u) q = Some u)) \<and>
     (\<forall>(n, v) \<in> set (vr_headers r). clean_name n \<and> clean_value v) \<and> (\<forall>v \<in> set (vr_cookies r). clean_value v)"

lemma validate_name_clean: "validate_name u i s = Some i' \<Longrightarrow> clean_name s"
proof (induction s arbitrary: i)
  case (Cons c s)
  have usual: "c > 0x20 \<and> c \<noteq> 0x7f \<and> c \<noteq> ch_colon \<and> \<not> (c \<ge> ch_A \<and> c \<le> ch_Z)"
    if "(c \<ge> ch_a \<and> c \<le> ch_z) \<or> c = ch_dash \<or> (c \<ge> ch_0 \<and> c \<le> ch_9) \<or> c = ch_under"
    using that by (auto simp: word_less_nat_alt word_le_nat_alt)
  show ?case using Cons usual by (auto simp: clean_name_def not_le split: if_splits)
qed (simp add: clean_name_def)

lemma cstr_clean: "clean_name (cstr ''host'')" "clean_name (cstr ''cookie'')"
  by (simp_all add: clean_name_def cstr_def)

lemma methods_clean: "map_of v2_methods s = Some m \<Longrightarrow> list_all method_char s"
  by (auto simp: v2_methods_def cstr_def method_char_def split: if_splits)

lemma parse_path_clean:
  assumes "clean_request conf r" "ngx_http_v2_parse_path conf r value' = (NGX_OK, r')"
  shows "clean_request conf r'"
proof -
  let ?r = "request_init\<lparr>rq_uri_start := 0, rq_uri_end := length value'\<rparr>"
  obtain q u where q: "ngx_http_parse_uri value' ?r = (NGX_OK, q)" "ngx_http_process_request_uri (vf_merge_slashes conf) value' q = Some u"
      "value' \<noteq> []" "r' = r\<lparr>vr_uri := Some u\<rparr>"
    using assms(2) by (auto simp: ngx_http_v2_parse_path_def split: if_splits prod.splits option.splits)
  have "clean_path value'"
    using parse_uri_accepts [of ?r value'] q(1,3) by (cases value') (auto simp: clean_path_def slice_def list_all_iff split: if_splits)
  moreover have "rq_uri_start q = 0" "rq_uri_end q = length value'"
    using parse_uri_scan [OF q(1)] uri_scan_flags by fastforce+
  then have "up_unparsed_uri u = value'"
    using q(2) by (auto simp: ngx_http_process_request_uri_def unparsed_def uri_parts.extend_def processed_uri.fields_def slice_def)
  ultimately show ?thesis using assms(1) q by (auto simp: clean_request_def)
qed

lemma pseudo_header_clean:
  assumes "clean_request conf r" "clean_value (snd header)" "ngx_http_v2_pseudo_header conf r header = (NGX_OK, r')"
  shows "clean_request conf r'"
proof -
  obtain n v where h: "header = (n, v)" by fastforce
  consider (path) "ngx_http_v2_parse_path conf r v = (NGX_OK, r')" | (meth) "ngx_http_v2_parse_method r v = (NGX_OK, r')"
    | (scheme) "ngx_http_v2_parse_scheme r v = (NGX_OK, r')" | (authority) "ngx_http_v2_parse_authority conf r v = (NGX_OK, r')"
    using assms(3) by (auto simp: ngx_http_v2_pseudo_header_def h Let_def split: if_splits)
  then show ?thesis
  proof cases
    case path
    then show ?thesis by (rule parse_path_clean [OF assms(1)])
  next
    case meth
    then show ?thesis using assms(1) methods_clean [of v]
      by (auto simp: ngx_http_v2_parse_method_def clean_request_def Let_def split: if_splits option.splits)
  next
    case scheme
    then show ?thesis using assms(1) by (auto simp: ngx_http_v2_parse_scheme_def clean_request_def split: if_splits)
  next
    case authority
    then show ?thesis using assms(1,2) cstr_clean
      by (auto simp: ngx_http_v2_parse_authority_def clean_request_def Let_def h split: if_splits)
  qed
qed

lemma request_header_clean:
  assumes "clean_request conf r" "v2_request_header conf r header = (V_complete, r')"
  shows "clean_request conf r'"
proof -
  obtain r1 where v: "ngx_http_v2_validate_header conf r header = (NGX_OK, r1)"
    using assms(2) by (auto simp: v2_request_header_def Let_def split: prod.splits if_splits)
  obtain n v where h: "header = (n, v)" by fastforce
  have r1: "r1 = r\<lparr>vr_invalid_header := vr_invalid_header r1\<rparr>" "clean_value v" "\<not> pseudo_name n \<longrightarrow> clean_name n"
    using v validate_name_clean
    by (auto simp: ngx_http_v2_validate_header_def h Let_def clean_value_def list_ex_iff split: option.splits if_splits)
  have c1: "clean_request conf r1" using assms(1) by (subst r1(1)) (simp add: clean_request_def)
  show ?thesis
  proof (cases "pseudo_name n")
    case True
    then have p: "ngx_http_v2_pseudo_header conf r1 header = (NGX_OK, r')"
      using assms(2) v by (auto simp: v2_request_header_def h split: prod.splits if_splits)
    show ?thesis using pseudo_header_clean [OF c1 _ p] r1(2) h by simp
  next
    case False
    then have "r' = r1 \<or> r' = r1\<lparr>vr_cookies := vr_cookies r1 @ [v]\<rparr> \<or> r' = r1\<lparr>vr_headers := vr_headers r1 @ [header]\<rparr>"
      using assms(2) v by (auto simp: v2_request_header_def h Let_def split: if_splits)
    then show ?thesis using c1 r1(2,3) False h by (auto simp: clean_request_def)
  qed
qed

lemma request_headers_clean:
  "clean_request conf r \<Longrightarrow> v2_request_headers conf r hs = Some r' \<Longrightarrow> clean_request conf r'"
proof (induction hs arbitrary: r)
  case (Cons h hs)
  then show ?case using request_header_clean [of conf r h] by (auto split: prod.splits v2_verdict.splits)
qed simp

lemma init_clean: "clean_request conf v2_request_init"
  by (simp add: clean_request_def v2_request_init_def)


definition example_v2_headers :: "v2_header list" where
  "example_v2_headers = [(cstr '':method'', cstr ''GET''), (cstr '':path'', [ch_slash]), (cstr '':scheme'', cstr ''https''),
     (cstr ''cookie'', [ch_a]), (cstr ''x'', [ch_b])]"

definition example_v2_conf :: v2_conf where
  "example_v2_conf = \<lparr>vf_underscores_in_headers = False, vf_ignore_invalid_headers = True, vf_merge_slashes = True, vf_handler = \<lambda>h. True\<rparr>"


end
