(* ===== verification/Http_Huffman.thy ===== *)
theory Http_Huffman
  imports Http_Huffman_Tables Http_Header_Line
begin

text \<open>
  The Huffman coder of HTTP/2: \<open>ngx_http_huff_decode\<close>, which reads four bits at a time
  with the automaton of \<open>Http_Huffman_Tables\<close>, and \<open>ngx_http_huff_encode\<close>, which collects codes in
  a 64-bit register. Their tables are compared with the code tree here; \<open>Huffman_Code\<close> shows
  that they follow it bit by bit, and that decoding inverts encoding.
\<close>

unbundle bit_operations_syntax

section \<open>The decoder\<close>

text \<open>\<open>*state\<close>, \<open>*ending\<close> and what is written at \<open>*dst\<close>; \<open>None\<close> is \<open>NGX_ERROR\<close>.\<close>

definition ngx_http_huff_decode_bits :: "nat \<Rightarrow> nat \<Rightarrow> (nat \<times> nat \<times> ngx_str) option" where
  "ngx_http_huff_decode_bits state bits =
     (case ngx_http_huff_decode_codes ! state ! bits of
        (next', emit, sym', ending) \<Rightarrow>
          if next' = state then None
          else Some (next', ending, if emit \<noteq> 0 then [sym'] else []))"

fun huff_decode_loop :: "nat \<Rightarrow> nat \<Rightarrow> byte list \<Rightarrow> (nat \<times> nat \<times> ngx_str) option" where
  "huff_decode_loop state ending [] = Some (state, ending, [])"
| "huff_decode_loop state ending (ch # src) =
     (case ngx_http_huff_decode_bits state (unat (drop_bit 4 ch)) of
        None \<Rightarrow> None
      | Some (state, _, out1) \<Rightarrow>
          (case ngx_http_huff_decode_bits state (unat (ch AND 0xf)) of
             None \<Rightarrow> None
           | Some (state, ending, out2) \<Rightarrow>
               map_option (\<lambda>(state, ending, out). (state, ending, out1 @ out2 @ out)) (huff_decode_loop state ending src)))"

definition ngx_http_huff_decode :: "nat \<Rightarrow> byte list \<Rightarrow> bool \<Rightarrow> (nat \<times> ngx_str) option" where
  "ngx_http_huff_decode state src last' =
     (case huff_decode_loop state 1 src of
        None \<Rightarrow> None
      | Some (state, ending, out) \<Rightarrow>
          if last' then if ending = 0 then None else Some (0, out)
          else Some (state, out))"

section \<open>The encoder\<close>

text \<open>\<open>ngx_http_huff_encode_buf\<close>: the register in network byte order.\<close>

definition ngx_http_huff_encode_buf :: "64 word \<Rightarrow> byte list" where
  "ngx_http_huff_encode_buf buf = map (\<lambda>s. ucast (drop_bit s buf)) [56, 48, 40, 32, 24, 16, 8, 0]"

text \<open>The loop over the source: \<open>None\<close> when it returns 0, else \<open>dst\<close>, \<open>buf\<close> and \<open>pending\<close> at its end.\<close>

fun huff_encode_loop :: "huff_encode_code list \<Rightarrow> nat \<Rightarrow> byte list \<Rightarrow> byte list \<Rightarrow> 64 word \<Rightarrow> nat
    \<Rightarrow> (byte list \<times> 64 word \<times> nat) option" where
  "huff_encode_loop table len [] dst buf pending = Some (dst, buf, pending)"
| "huff_encode_loop table len (ch # src) dst buf pending =
     (let next' = table ! unat ch; code = ucast (fst next') :: 64 word; pending = pending + snd next' in
      if pending < 64 then huff_encode_loop table len src dst (buf OR push_bit (64 - pending) code) pending
      else if length dst + 8 \<ge> len then None
      else
        (let pending = pending - 64; buf = buf OR drop_bit pending code in
         huff_encode_loop table len src (dst @ ngx_http_huff_encode_buf buf)
           (if pending \<noteq> 0 then push_bit (64 - pending) code else 0) pending))"

text \<open>The loop that writes what is left, from the high bytes down.\<close>

fun huff_encode_tail :: "64 word \<Rightarrow> nat \<Rightarrow> byte list" where
  "huff_encode_tail buf 0 = []"
| "huff_encode_tail buf (Suc n) = ucast (drop_bit (8 * n) buf) # huff_encode_tail buf n"

text \<open>The bytes written, their number being what the function returns.\<close>

definition ngx_http_huff_encode :: "byte list \<Rightarrow> bool \<Rightarrow> byte list" where
  "ngx_http_huff_encode src lower =
     (let table = (if lower then ngx_http_huff_encode_table_lc else ngx_http_huff_encode_table) in
      case huff_encode_loop table (length src) src [] 0 0 of
        None \<Rightarrow> []
      | Some (dst, buf, pending) \<Rightarrow>
          if pending = 0 then dst
          else
            (let buf = buf OR drop_bit pending (- 1); pending = (pending + 7) div 8 * 8 in
             if length dst + pending div 8 \<ge> length src then []
             else dst @ huff_encode_tail (drop_bit (64 - pending) buf) (pending div 8)))"

section \<open>The code tree\<close>

text \<open>Following bits down the tree; and a run over bits that starts again at the root after each symbol.\<close>

fun descend :: "htree \<Rightarrow> bool list \<Rightarrow> htree option" where
  "descend t [] = Some t"
| "descend (Node k e l r) (b # bs) = descend (if b then r else l) bs"
| "descend _ (b # bs) = None"

fun bitrun :: "htree \<Rightarrow> htree \<Rightarrow> bool list \<Rightarrow> (htree \<times> ngx_str) option"
  and enter :: "htree \<Rightarrow> htree \<Rightarrow> bool list \<Rightarrow> (htree \<times> ngx_str) option" where
  "bitrun rt t [] = Some (t, [])"
| "bitrun rt (Node k e l r) (b # bs) = enter rt (if b then r else l) bs"
| "bitrun rt t (b # bs) = None"
| "enter rt (Leaf s) bs = map_option (apsnd (Cons s)) (bitrun rt rt bs)"
| "enter rt Eos bs = None"
| "enter rt (Node k e l r) bs = bitrun rt (Node k e l r) bs"

fun state_of :: "htree \<Rightarrow> nat" where
  "state_of (Node k _ _ _) = k"
| "state_of _ = 0"

fun all_ones :: "htree \<Rightarrow> bool" where
  "all_ones (Node _ e _ _) = e"
| "all_ones _ = False"

fun is_node :: "htree \<Rightarrow> bool" where
  "is_node (Node _ _ _ _) = True"
| "is_node _ = False"

fun nodes :: "htree \<Rightarrow> htree list" where
  "nodes (Node k e l r) = Node k e l r # nodes l @ nodes r"
| "nodes _ = []"

fun leaves :: "htree \<Rightarrow> byte list" where
  "leaves (Node k e l r) = leaves l @ leaves r"
| "leaves (Leaf s) = [s]"
| "leaves Eos = []"

fun well_marked :: "bool \<Rightarrow> htree \<Rightarrow> bool" where
  "well_marked b (Node k e l r) \<longleftrightarrow> e = b \<and> well_marked False l \<and> well_marked b r"
| "well_marked b _ \<longleftrightarrow> True"

text \<open>No leaf above a given depth.\<close>

fun deep :: "nat \<Rightarrow> htree \<Rightarrow> bool" where
  "deep 0 t = True"
| "deep (Suc n) (Node k e l r) = (deep n l \<and> deep n r)"
| "deep (Suc n) _ = False"

text \<open>What a table of four bits at a time has to hold at a node, and the table of a tree.\<close>

fun nibble :: "htree \<Rightarrow> nat \<Rightarrow> byte option \<Rightarrow> htree \<Rightarrow> (htree \<times> byte option) option list"
  and branch :: "htree \<Rightarrow> nat \<Rightarrow> byte option \<Rightarrow> htree \<Rightarrow> (htree \<times> byte option) option list" where
  "nibble rt 0 em t = [Some (t, em)]"
| "nibble rt (Suc d) em (Node k e l r) = branch rt d em l @ branch rt d em r"
| "nibble rt (Suc d) em t = replicate (2 ^ Suc d) None"
| "branch rt d em (Leaf s) = nibble rt d (Some s) rt"
| "branch rt d em Eos = replicate (2 ^ d) None"
| "branch rt d em (Node k e l r) = nibble rt d em (Node k e l r)"

fun huff_entry :: "nat \<Rightarrow> (htree \<times> byte option) option \<Rightarrow> huff_decode_code" where
  "huff_entry k None = (k, 0, 0, 0)"
| "huff_entry k (Some (t, None)) = (state_of t, 0, 0, of_bool (all_ones t))"
| "huff_entry k (Some (t, Some s)) = (state_of t, 1, s, of_bool (all_ones t))"

fun rows :: "htree \<Rightarrow> htree \<Rightarrow> huff_decode_code list list" where
  "rows rt (Node k e l r) = map (huff_entry k) (nibble rt 4 None (Node k e l r)) # rows rt l @ rows rt r"
| "rows rt _ = []"

section \<open>The tables against the tree\<close>

lemmas huff_codes_defs = ngx_http_huff_decode_codes_def
  huff_codes_0_def huff_codes_1_def huff_codes_2_def huff_codes_3_def
  huff_codes_4_def huff_codes_5_def huff_codes_6_def huff_codes_7_def
  huff_codes_8_def huff_codes_9_def huff_codes_a_def huff_codes_b_def
  huff_codes_c_def huff_codes_d_def huff_codes_e_def huff_codes_f_def

lemma rows_Node:
  "rows rt (Node k e l r) = map (huff_entry k) (nibble rt (Suc (Suc (Suc (Suc 0)))) None (Node k e l r)) # rows rt l @ rows rt r"
  by (simp add: eval_nat_numeral)

lemma replicate_pow: "replicate (2 ^ 0) x = [x]" "replicate (2 ^ Suc d) x = replicate (2 ^ d) x @ replicate (2 ^ d) x"
  by (simp_all add: replicate_add [symmetric] mult_2)

lemma table_rows: "ngx_http_huff_decode_codes = rows huff_tree huff_tree"
  unfolding huff_codes_defs huff_tree_def
  by (simp only: rows_Node rows.simps(2,3) nibble.simps branch.simps append.simps list.map huff_entry.simps
    state_of.simps all_ones.simps of_bool_eq replicate_pow)

fun states :: "htree \<Rightarrow> nat list" where
  "states (Node k e l r) = k # states l @ states r"
| "states _ = []"

lemma states_nodes: "states t = map state_of (nodes t)"
  by (induction t) auto

lemma huff_states: "map state_of (nodes huff_tree) = [0..<256]"
  unfolding states_nodes [symmetric] huff_tree_def by (simp add: upt_rec)

lemma huff_marked: "well_marked True huff_tree"
  unfolding huff_tree_def by simp

lemma huff_deep: "deep (Suc (Suc (Suc (Suc (Suc 0))))) huff_tree"
  unfolding huff_tree_def by simp

lemma huff_leaves: "length (leaves huff_tree) = 256"
  unfolding huff_tree_def by simp

lemma replicate_num: "replicate (numeral k) x = x # replicate (pred_numeral k) x"
  by (simp add: numeral_eq_Suc)

lemma huff_eos: "descend huff_tree (replicate 30 True) = Some Eos"
  unfolding huff_tree_def by (simp add: replicate_num)

text \<open>The codes, high bit first.\<close>

fun code_bits :: "32 word \<Rightarrow> nat \<Rightarrow> bool list" where
  "code_bits c 0 = []"
| "code_bits c (Suc n) = bit c n # code_bits c n"

lemma code_bits_numeral: "code_bits c (numeral k) = bit c (pred_numeral k) # code_bits c (pred_numeral k)"
  by (simp add: numeral_eq_Suc)

definition sym_code :: "byte \<Rightarrow> bool list" where
  "sym_code s = (case ngx_http_huff_encode_table ! unat s of (c, l) \<Rightarrow> code_bits c l)"

fun codes_lead :: "htree \<Rightarrow> byte \<Rightarrow> huff_encode_code list \<Rightarrow> bool" where
  "codes_lead t s [] = True"
| "codes_lead t s ((c, l) # cs) \<longleftrightarrow> descend t (code_bits c l) = Some (Leaf s) \<and> codes_lead t (s + 1) cs"

lemma descend_bit:
  "descend (Node k e l r) (True # bs) = descend r bs"
  "descend (Node k e l r) (False # bs) = descend l bs"
  by simp_all

lemma huff_codes_lead: "codes_lead huff_tree 0 ngx_http_huff_encode_table"
  unfolding ngx_http_huff_encode_table_def
  apply (simp add: code_bits_numeral)
  apply (simp only: huff_tree_def descend_bit descend.simps(1) simp_thms)
  done

text \<open>The table for lower case letters.\<close>

lemma table_lc: "ngx_http_huff_encode_table_lc =
    take 65 ngx_http_huff_encode_table @ take 26 (drop 97 ngx_http_huff_encode_table) @ drop 91 ngx_http_huff_encode_table"
  unfolding ngx_http_huff_encode_table_def ngx_http_huff_encode_table_lc_def by simp

lemma length_table: "length ngx_http_huff_encode_table = 256"
  unfolding ngx_http_huff_encode_table_def by simp

end
