(* ===== verification/Http_V2_Headers.thy ===== *)
theory Http_V2_Headers
  imports Http_V2_Request Http_Huffman
begin

text \<open>
  The processing of a header block on an HTTP/2 connection (\<open>src/http/v2/ngx_http_v2.c\<close>): the
  handlers from \<open>ngx_http_v2_state_header_block\<close> to \<open>ngx_http_v2_state_header_complete\<close>, which
  call each other until the block is complete, more input is needed or the connection fails.
  The theory shows that they stop and that what they leave for the next call fits the buffer of
  the state.
\<close>

section \<open>State\<close>

definition NGX_HTTP_V2_PROTOCOL_ERROR :: nat where "NGX_HTTP_V2_PROTOCOL_ERROR = 0x1"
definition NGX_HTTP_V2_INTERNAL_ERROR :: nat where "NGX_HTTP_V2_INTERNAL_ERROR = 0x2"
definition NGX_HTTP_V2_SIZE_ERROR :: nat where "NGX_HTTP_V2_SIZE_ERROR = 0x6"
definition NGX_HTTP_V2_COMP_ERROR :: nat where "NGX_HTTP_V2_COMP_ERROR = 0x9"
definition NGX_HTTP_V2_ENHANCE_YOUR_CALM :: nat where "NGX_HTTP_V2_ENHANCE_YOUR_CALM = 0xb"

text \<open>
  \<open>ngx_http_v2_state_t\<close>. \<open>vs_field\<close> holds the bytes from \<open>field_start\<close> to \<open>field_end\<close>;
  \<open>vs_stream\<close> is the request of the stream, \<open>None\<close> for a stream that is \<open>NULL\<close>;
  \<open>vs_hpack\<close> is \<open>h2c->hpack\<close>.
\<close>

record v2_state =
  vs_length :: nat
  vs_end_headers :: bool
  vs_stream :: "v2_request option"
  vs_index :: bool
  vs_parse_name :: bool
  vs_parse_value :: bool
  vs_header :: v2_header
  vs_header_limit :: nat
  vs_field_state :: nat
  vs_field :: ngx_str
  vs_field_rest :: nat
  vs_hpack :: hpack

text \<open>The size of \<open>large_client_header_buffers\<close>.\<close>

record v2_block_conf = v2_conf +
  vb_buffer_size :: nat

datatype v2_handler =
    Header_block | Field_len | Field_huff | Field_raw | Field_skip | Process_header | Header_complete

text \<open>
  What a handler does: it calls another one with the input left, saves the input
  (\<open>ngx_http_v2_state_headers_save\<close>), waits for a CONTINUATION frame, fails, or the block is
  complete.
\<close>

datatype v2_result =
    Call v2_handler v2_state "byte list"
  | Save v2_handler v2_state "byte list"
  | Continuation v2_handler v2_state "byte list"
  | Connection_error nat
  | Complete v2_state "byte list"

section \<open>Handlers\<close>

definition ngx_http_v2_state_header_block :: "v2_block_conf \<Rightarrow> v2_state \<Rightarrow> byte list \<Rightarrow> v2_result" where
  "ngx_http_v2_state_header_block conf st p =
     (if p = [] then Save Header_block st p
      else if \<not> vs_end_headers st \<and> vs_length st < NGX_HTTP_V2_INT_OCTETS then Continuation Header_block st p
      else
        (let ch = hd p; indexed = (ch \<ge> 128); size_update = (ch < 64 \<and> ch \<ge> 32);
             prefix' = ngx_http_v2_prefix (if ch \<ge> 128 then 7 else if ch \<ge> 64 then 6 else if ch \<ge> 32 then 5 else 4);
             st = (if ch < 128 \<and> ch \<ge> 64 then st\<lparr>vs_index := True\<rparr> else st) in
         case ngx_http_v2_parse_int (vs_length st) p prefix' of
           Inl rc \<Rightarrow>
             if rc = NGX_AGAIN then Save Header_block st p
             else if rc = NGX_DECLINED then Connection_error NGX_HTTP_V2_COMP_ERROR
             else Connection_error NGX_HTTP_V2_SIZE_ERROR
         | Inr (value', p, len) \<Rightarrow>
             (let st = st\<lparr>vs_length := len\<rparr> in
              if indexed then
                (case ngx_http_v2_get_indexed_header (vs_hpack st) value' False (vs_header st) of
                   (rc, header) \<Rightarrow>
                     if rc \<noteq> NGX_OK then Connection_error NGX_HTTP_V2_COMP_ERROR
                     else Call Process_header (st\<lparr>vs_header := header\<rparr>) p)
              else if size_update then
                (case ngx_http_v2_table_size (vs_hpack st) value' of
                   (rc, hpack) \<Rightarrow>
                     if rc \<noteq> NGX_OK then Connection_error NGX_HTTP_V2_COMP_ERROR
                     else Call Header_complete (st\<lparr>vs_hpack := hpack\<rparr>) p)
              else if value' = 0 then Call Field_len (st\<lparr>vs_parse_name := True, vs_parse_value := True\<rparr>) p
              else
                (case ngx_http_v2_get_indexed_header (vs_hpack st) value' True (vs_header st) of
                   (rc, header) \<Rightarrow>
                     if rc \<noteq> NGX_OK then Connection_error NGX_HTTP_V2_COMP_ERROR
                     else Call Field_len (st\<lparr>vs_header := header, vs_parse_value := True\<rparr>) p))))"

definition ngx_http_v2_state_field_len :: "v2_block_conf \<Rightarrow> v2_state \<Rightarrow> byte list \<Rightarrow> v2_result" where
  "ngx_http_v2_state_field_len conf st p =
     (if \<not> vs_end_headers st \<and> vs_length st < NGX_HTTP_V2_INT_OCTETS then Continuation Field_len st p
      else if vs_length st < 1 then Connection_error NGX_HTTP_V2_SIZE_ERROR
      else if p = [] then Save Field_len st p
      else
        (let huff = (drop_bit 7 (hd p) \<noteq> 0) in
         case ngx_http_v2_parse_int (vs_length st) p (ngx_http_v2_prefix 7) of
           Inl rc \<Rightarrow>
             if rc = NGX_AGAIN then Save Field_len st p
             else if rc = NGX_DECLINED then Connection_error NGX_HTTP_V2_COMP_ERROR
             else Connection_error NGX_HTTP_V2_SIZE_ERROR
         | Inr (len, p, state_length) \<Rightarrow>
             (let st = st\<lparr>vs_length := state_length\<rparr> in
              if len > vb_buffer_size conf then Connection_error NGX_HTTP_V2_ENHANCE_YOUR_CALM
              else
                (let st = st\<lparr>vs_field_rest := len\<rparr> in
                 if vs_stream st = None \<and> \<not> vs_index st then Call Field_skip st p
                 else (let st = st\<lparr>vs_field := []\<rparr> in
                       if huff then Call Field_huff st p else Call Field_raw st p)))))"

text \<open>The bytes of the field that are there: not beyond the field, the frame or the input.\<close>

definition field_size :: "v2_state \<Rightarrow> byte list \<Rightarrow> nat" where
  "field_size st p =
     (let size' = length p; size' = (if size' > vs_field_rest st then vs_field_rest st else size') in
      if size' > vs_length st then vs_length st else size')"

text \<open>The common end of the handlers of a field.\<close>

definition field_end :: "v2_handler \<Rightarrow> v2_state \<Rightarrow> byte list \<Rightarrow> v2_result" where
  "field_end handler st p =
     (if vs_field_rest st = 0 then Call Process_header st p
      else if vs_length st > 0 then Save handler st p
      else if vs_end_headers st then Connection_error NGX_HTTP_V2_SIZE_ERROR
      else Continuation handler st p)"

definition ngx_http_v2_state_field_huff :: "v2_block_conf \<Rightarrow> v2_state \<Rightarrow> byte list \<Rightarrow> v2_result" where
  "ngx_http_v2_state_field_huff conf st p =
     (let size' = field_size st p;
          st = st\<lparr>vs_length := vs_length st - size', vs_field_rest := vs_field_rest st - size'\<rparr> in
      case ngx_http_huff_decode (vs_field_state st) (take size' p) (vs_field_rest st = 0) of
        None \<Rightarrow> Connection_error NGX_HTTP_V2_COMP_ERROR
      | Some (state, text) \<Rightarrow>
          field_end Field_huff (st\<lparr>vs_field_state := state, vs_field := vs_field st @ text\<rparr>) (drop size' p))"

definition ngx_http_v2_state_field_raw :: "v2_block_conf \<Rightarrow> v2_state \<Rightarrow> byte list \<Rightarrow> v2_result" where
  "ngx_http_v2_state_field_raw conf st p =
     (let size' = field_size st p;
          st = st\<lparr>vs_length := vs_length st - size', vs_field_rest := vs_field_rest st - size'\<rparr> in
      field_end Field_raw (st\<lparr>vs_field := vs_field st @ take size' p\<rparr>) (drop size' p))"

definition ngx_http_v2_state_field_skip :: "v2_block_conf \<Rightarrow> v2_state \<Rightarrow> byte list \<Rightarrow> v2_result" where
  "ngx_http_v2_state_field_skip conf st p =
     (let size' = field_size st p;
          st = st\<lparr>vs_length := vs_length st - size', vs_field_rest := vs_field_rest st - size'\<rparr> in
      field_end Field_skip st (drop size' p))"

text \<open>
  The code drops the colon of a pseudo header in \<open>h2c->state.header\<close> too; the name is set anew
  before it is read again.
\<close>

definition ngx_http_v2_state_process_header :: "v2_block_conf \<Rightarrow> v2_state \<Rightarrow> byte list \<Rightarrow> v2_result" where
  "ngx_http_v2_state_process_header conf st p =
     (if vs_parse_name st then
        (let st = st\<lparr>vs_parse_name := False, vs_header := (vs_field st, snd (vs_header st))\<rparr> in
         if fst (vs_header st) = [] then Connection_error NGX_HTTP_V2_PROTOCOL_ERROR else Call Field_len st p)
      else
        (let st = (if vs_parse_value st
               then st\<lparr>vs_parse_value := False, vs_header := (fst (vs_header st), vs_field st)\<rparr> else st);
             header = vs_header st; len = length (fst header) + length (snd header) in
         if len > vs_header_limit st then Connection_error NGX_HTTP_V2_ENHANCE_YOUR_CALM
         else
           (let st = st\<lparr>vs_header_limit := vs_header_limit st - len\<rparr>;
                (rc, st) = (if vs_index st
                  then (case ngx_http_v2_add_header (vs_hpack st) header of
                          (rc, hpack) \<Rightarrow> (rc, st\<lparr>vs_hpack := hpack, vs_index := False\<rparr>))
                  else (NGX_OK, st)) in
            if rc \<noteq> NGX_OK then Connection_error NGX_HTTP_V2_INTERNAL_ERROR
            else
              (case vs_stream st of
                 None \<Rightarrow> Call Header_complete st p
               | Some r \<Rightarrow>
                   (case v2_request_header (v2_conf.truncate conf) r header of
                      (V_complete, r) \<Rightarrow> Call Header_complete (st\<lparr>vs_stream := Some r\<rparr>) p
                    | (V_error, r) \<Rightarrow> Call Header_complete (st\<lparr>vs_stream := None\<rparr>) p
                    | (V_connection_error, r) \<Rightarrow> Connection_error NGX_HTTP_V2_INTERNAL_ERROR)))))"

text \<open>
  \<open>ngx_http_v2_state_header_complete\<close>; when there is more of the block, the handler is set and
  the caller, which has the input, calls it. What a complete block does to the request is
  \<open>v2_run_request\<close>.
\<close>

definition ngx_http_v2_state_header_complete :: "v2_block_conf \<Rightarrow> v2_state \<Rightarrow> byte list \<Rightarrow> v2_result" where
  "ngx_http_v2_state_header_complete conf st p =
     (if vs_length st > 0 then (if p \<noteq> [] then Call Header_block st p else Save Header_block st p)
      else if \<not> vs_end_headers st then Continuation Header_complete st p
      else Complete st p)"

definition v2_call :: "v2_block_conf \<Rightarrow> v2_handler \<Rightarrow> v2_state \<Rightarrow> byte list \<Rightarrow> v2_result" where
  "v2_call conf handler =
     (case handler of
        Header_block \<Rightarrow> ngx_http_v2_state_header_block conf
      | Field_len \<Rightarrow> ngx_http_v2_state_field_len conf
      | Field_huff \<Rightarrow> ngx_http_v2_state_field_huff conf
      | Field_raw \<Rightarrow> ngx_http_v2_state_field_raw conf
      | Field_skip \<Rightarrow> ngx_http_v2_state_field_skip conf
      | Process_header \<Rightarrow> ngx_http_v2_state_process_header conf
      | Header_complete \<Rightarrow> ngx_http_v2_state_header_complete conf)"

section \<open>The handlers stop\<close>

text \<open>Each handler consumes input or is followed by one of a lower rank.\<close>

definition v2_rank :: "v2_handler \<Rightarrow> nat" where
  "v2_rank handler =
     (case handler of Field_huff \<Rightarrow> 5 | Field_raw \<Rightarrow> 5 | Field_skip \<Rightarrow> 5 | Process_header \<Rightarrow> 4
      | Header_complete \<Rightarrow> 3 | Header_block \<Rightarrow> 2 | Field_len \<Rightarrow> 2)"

lemma int_octets_count: "int_octets shift v n p = Some (v', n') \<Longrightarrow> n < n'"
  by (induction p arbitrary: shift v n) (auto simp: Let_def split: if_splits dest: less_trans [rotated] Suc_lessD)

lemma parse_int_consumes:
  assumes "ngx_http_v2_parse_int len p prefix' = Inr (v, p', len')" "p \<noteq> []"
  shows "length p' < length p"
proof (cases "p' = tl p")
  case True
  then show ?thesis using assms(2) by (cases p) auto
next
  case False
  then obtain n q where n: "int_octets 0 (unat (hd p AND of_nat prefix')) 1 q = Some (v, n)" "p' = drop n p"
    using assms(1) by (auto simp: ngx_http_v2_parse_int_def Let_def split: if_splits option.splits)
  then have "1 < n" using int_octets_count by blast
  then show ?thesis using n(2) assms(2) by (cases p) auto
qed

lemma v2_call_decreases:
  assumes "v2_call conf handler st p = Call handler' st' p'"
  shows "8 * length p' + v2_rank handler' < 8 * length p + v2_rank handler"
proof (cases handler)
  case Header_block
  then show ?thesis
    using assms parse_int_consumes
    by (fastforce simp: v2_call_def v2_rank_def ngx_http_v2_state_header_block_def Let_def split: if_splits sum.splits prod.splits)
next
  case Field_len
  then show ?thesis
    using assms parse_int_consumes
    by (fastforce simp: v2_call_def v2_rank_def ngx_http_v2_state_field_len_def Let_def split: if_splits sum.splits prod.splits)
next
  case Field_huff
  then show ?thesis
    using assms by (auto simp: v2_call_def v2_rank_def ngx_http_v2_state_field_huff_def field_end_def Let_def split: if_splits option.splits)
next
  case Field_raw
  then show ?thesis
    using assms by (auto simp: v2_call_def v2_rank_def ngx_http_v2_state_field_raw_def field_end_def Let_def split: if_splits)
next
  case Field_skip
  then show ?thesis
    using assms by (auto simp: v2_call_def v2_rank_def ngx_http_v2_state_field_skip_def field_end_def Let_def split: if_splits)
next
  case Process_header
  then show ?thesis
    using assms
    by (auto simp: v2_call_def v2_rank_def ngx_http_v2_state_process_header_def Let_def
        split: if_splits prod.splits option.splits v2_verdict.splits)
next
  case Header_complete
  then show ?thesis
    using assms by (auto simp: v2_call_def v2_rank_def ngx_http_v2_state_header_complete_def split: if_splits)
qed

text \<open>The handlers on the input that is there.\<close>

function v2_run :: "v2_block_conf \<Rightarrow> v2_handler \<Rightarrow> v2_state \<Rightarrow> byte list \<Rightarrow> v2_result" where
  "v2_run conf handler st p =
     (case v2_call conf handler st p of
        Call handler' st' p' \<Rightarrow> v2_run conf handler' st' p'
      | result \<Rightarrow> result)"
  by pat_completeness auto
termination
  by (relation "measure (\<lambda>(conf, handler, st, p). 8 * length p + v2_rank handler)") (auto dest: v2_call_decreases)

declare v2_run.simps [simp del]

lemma parse_int_again: "ngx_http_v2_parse_int len p prefix' = Inl NGX_AGAIN \<Longrightarrow> length p < NGX_HTTP_V2_INT_OCTETS"
  by (auto simp: ngx_http_v2_parse_int_def Let_def split: if_splits option.splits)

text \<open>A handler that waits leaves fewer bytes than the octets of a number.\<close>

definition small_wait :: "v2_result \<Rightarrow> bool" where
  "small_wait result \<longleftrightarrow>
     (case result of
        Save handler st p \<Rightarrow> length p < NGX_HTTP_V2_INT_OCTETS
      | Continuation handler st p \<Rightarrow> vs_length st < NGX_HTTP_V2_INT_OCTETS
      | _ \<Rightarrow> True)"

lemma small_wait_simps [simp]:
  "small_wait (Call handler st p)" "small_wait (Connection_error n)" "small_wait (Complete st p)"
  "small_wait (Save handler st p) \<longleftrightarrow> length p < NGX_HTTP_V2_INT_OCTETS"
  "small_wait (Continuation handler st p) \<longleftrightarrow> vs_length st < NGX_HTTP_V2_INT_OCTETS"
  by (simp_all add: small_wait_def)

lemma field_end_small:
  assumes "handler \<in> {Field_huff, Field_raw, Field_skip}" "vs_length st' = vs_length st - field_size st p"
    "vs_field_rest st' = vs_field_rest st - field_size st p"
  shows "small_wait (field_end handler st' (drop (field_size st p) p))"
  using assms by (auto simp: field_end_def field_size_def Let_def small_wait_def NGX_HTTP_V2_INT_OCTETS_def split: if_splits)

lemma header_block_small: "small_wait (ngx_http_v2_state_header_block conf st p)"
proof -
  define pr where "pr = ngx_http_v2_prefix (if hd p \<ge> 128 then 7 else if hd p \<ge> 64 then 6 else if hd p \<ge> 32 then 5 else 4)"
  define st1 where "st1 = (if hd p < 128 \<and> hd p \<ge> 64 then st\<lparr>vs_index := True\<rparr> else st)"
  define indexed where "indexed \<longleftrightarrow> hd p \<ge> 128"
  define size_update where "size_update \<longleftrightarrow> hd p < 64 \<and> hd p \<ge> 32"
  have "0 < NGX_HTTP_V2_INT_OCTETS" by (simp add: NGX_HTTP_V2_INT_OCTETS_def)
  then show ?thesis
    using parse_int_again [of "vs_length st1" p pr]
    unfolding ngx_http_v2_state_header_block_def Let_def
    unfolding pr_def [symmetric] st1_def [symmetric]
    unfolding indexed_def [symmetric] size_update_def [symmetric]
    by (cases "ngx_http_v2_parse_int (vs_length st1) p pr") (simp_all split: prod.split)
qed

lemma v2_call_small: "small_wait (v2_call conf handler st p)"
proof (cases handler)
  case Header_block
  then show ?thesis using header_block_small by (simp add: v2_call_def)
next
  case Field_len
  have "0 < NGX_HTTP_V2_INT_OCTETS" by (simp add: NGX_HTTP_V2_INT_OCTETS_def)
  then show ?thesis
    using Field_len unfolding v2_call_def v2_handler.case ngx_http_v2_state_field_len_def Let_def
    by (simp add: parse_int_again split: sum.split prod.split)
next
  case Field_huff
  then show ?thesis
    by (auto simp: v2_call_def ngx_http_v2_state_field_huff_def Let_def small_wait_def [of "Connection_error _"] split: option.split
        intro!: field_end_small)
next
  case Field_raw
  then show ?thesis by (auto simp: v2_call_def ngx_http_v2_state_field_raw_def Let_def intro!: field_end_small)
next
  case Field_skip
  then show ?thesis by (auto simp: v2_call_def ngx_http_v2_state_field_skip_def Let_def intro!: field_end_small)
next
  case Process_header
  then show ?thesis
    by (auto simp: v2_call_def ngx_http_v2_state_process_header_def small_wait_def Let_def
        split: prod.split option.split v2_verdict.split)
next
  case Header_complete
  then show ?thesis by (auto simp: v2_call_def ngx_http_v2_state_header_complete_def small_wait_def NGX_HTTP_V2_INT_OCTETS_def)
qed

text \<open>
  However a header block is cut into pieces of input, the handlers come to an end on each
  piece, and what they save for the next one has at most three bytes; with the head of a
  CONTINUATION frame, which is all that can be added to them, it fits the sixteen bytes of
  the buffer of the state, so \<open>ngx_http_v2_state_save\<close> never fails for header blocks.
\<close>

theorem v2_save_fits:
  "(case v2_run conf handler st p of
      Call handler' st' p' \<Rightarrow> False
    | Save handler' st' p' \<Rightarrow> length p' \<le> 3
    | Continuation handler' st' p' \<Rightarrow> vs_length st' \<le> 3
    | _ \<Rightarrow> True)"
proof (induction conf handler st p rule: v2_run.induct)
  case (1 conf handler st p)
  show ?case
  proof (cases "v2_call conf handler st p")
    case (Call handler' st' p')
    then show ?thesis using 1 [OF Call] by (subst v2_run.simps) simp
  qed (use v2_call_small [of conf handler st p] in \<open>simp_all add: v2_run.simps small_wait_def NGX_HTTP_V2_INT_OCTETS_def\<close>)
qed

end
