(* ===== verification/Huffman_Code.thy ===== *)
theory Huffman_Code
  imports Http_Huffman
begin

text \<open>
  The Huffman coder of HTTP/2 against its code tree: paths in the tree are unique, the
  automaton of the decoder makes four steps of the tree at once, the register of the encoder
  holds the codes of the source one after the other.
\<close>

unbundle bit_operations_syntax

section \<open>Paths\<close>

lemma descend_append: "descend t (p @ q) = Option.bind (descend t p) (\<lambda>t. descend t q)"
  by (induction t p rule: descend.induct) auto

lemma descend_beyond: "descend t (b # p) = Some t' \<Longrightarrow> is_node t"
  by (cases t) auto

lemma descend_prefix_node: "descend t (p @ b # q) = Some t' \<Longrightarrow> \<exists>n. descend t p = Some n \<and> is_node n"
  using descend_beyond by (cases "descend t p") (auto simp: descend_append)

lemma enter_node: "is_node t \<Longrightarrow> enter rt t bs = bitrun rt t bs"
  by (cases t) auto

lemma bitrun_node: "descend t p = Some n \<Longrightarrow> is_node n \<Longrightarrow> bitrun rt t (p @ bs) = bitrun rt n bs"
proof (induction p arbitrary: t)
  case (Cons b p)
  obtain k e l r where t: "t = Node k e l r" using Cons.prems(1) by (cases t) auto
  have "is_node (if b then r else l)" using Cons.prems by (cases p) (auto simp: t dest: descend_beyond)
  then show ?case using Cons by (simp add: t enter_node)
qed simp

lemma bitrun_leaf:
  assumes "descend t p = Some (Leaf s)" "p \<noteq> []"
  shows "bitrun rt t (p @ bs) = map_option (apsnd (Cons s)) (bitrun rt rt bs)"
proof -
  obtain q b where p: "p = q @ [b]" using assms(2) by (metis rev_exhaust)
  obtain n where n: "descend t q = Some n" "is_node n" using assms(1) descend_prefix_node p by blast
  then obtain k e l r where node: "n = Node k e l r" by (cases n) auto
  then show ?thesis using assms(1) n bitrun_node [OF n, of rt "b # bs"] by (simp add: p descend_append)
qed

text \<open>What a run has read is the codes of its symbols and the path to where it stands.\<close>

definition leads :: "htree \<Rightarrow> byte \<Rightarrow> bool list \<Rightarrow> bool" where
  "leads rt s p \<longleftrightarrow> descend rt p = Some (Leaf s)"

lemma bitrun_paths:
  assumes "is_node rt"
  shows "bitrun rt t bs = Some (t', out) \<Longrightarrow> descend rt p = Some t \<Longrightarrow> is_node t \<Longrightarrow>
    \<exists>ps p'. p @ bs = concat ps @ p' \<and> list_all2 (leads rt) out ps \<and> descend rt p' = Some t' \<and> is_node t'"
proof (induction bs arbitrary: t p out)
  case Nil
  then show ?case by (intro exI [of _ "[]"] exI [of _ p]) auto
next
  case (Cons b bs)
  obtain k e l r where t: "t = Node k e l r" using Cons.prems(3) by (cases t) auto
  let ?c = "if b then r else l"
  have c: "descend rt (p @ [b]) = Some ?c" using Cons.prems(2) by (simp add: descend_append t)
  show ?case
  proof (cases ?c)
    case (Leaf s)
    then obtain out' where o: "out = s # out'" "bitrun rt rt bs = Some (t', out')"
      using Cons.prems(1) by (auto simp: t)
    obtain ps p' where ps: "bs = concat ps @ p'" "list_all2 (leads rt) out' ps" "descend rt p' = Some t'" "is_node t'"
      using Cons.IH [OF o(2), of "[]"] assms by auto
    show ?thesis
      by (rule exI [of _ "(p @ [b]) # ps"], rule exI [of _ p']) (use ps o c Leaf leads_def [of rt s "p @ [b]"] in auto)
  next
    case Eos
    then show ?thesis using Cons.prems(1) by (auto simp: t)
  next
    case (Node k' e' l' r')
    then have n: "is_node ?c" by simp
    have "bitrun rt ?c bs = Some (t', out)" using Cons.prems(1) enter_node [OF n] by (simp add: t)
    from Cons.IH [OF this c n] show ?thesis by simp
  qed
qed

section \<open>Paths are unique\<close>

fun subtrees :: "htree \<Rightarrow> htree list" where
  "subtrees (Node k e l r) = Node k e l r # subtrees l @ subtrees r"
| "subtrees t = [t]"

lemma subtrees_size: "t' \<in> set (subtrees t) \<Longrightarrow> size t' \<le> size t"
  by (induction t) auto

lemma descend_subtree: "descend t p = Some t' \<Longrightarrow> t' \<in> set (subtrees t)"
proof (induction t p rule: descend.induct)
  case (1 t)
  then show ?case by (cases t) auto
qed (auto split: if_splits)

lemma descend_size: "descend t p = Some t' \<Longrightarrow> p \<noteq> [] \<Longrightarrow> size t' < size t"
proof (cases p)
  case (Cons b q)
  assume "descend t p = Some t'"
  then show ?thesis using Cons subtrees_size descend_subtree
    by (cases t) (fastforce split: if_splits)+
qed simp

lemma unique_path:
  "distinct (filter P (subtrees t)) \<Longrightarrow> descend t p = Some x \<Longrightarrow> descend t q = Some x \<Longrightarrow> P x \<Longrightarrow> p = q"
proof (induction p arbitrary: t q)
  case Nil
  then show ?case using descend_size [of t q x] by auto
next
  case (Cons b p)
  obtain k e l r where t: "t = Node k e l r" using Cons.prems(2) by (cases t) auto
  have "q \<noteq> []" using Cons.prems(2,3) descend_size [of t "b # p" x] by auto
  then obtain c q' where q: "q = c # q'" by (cases q) auto
  have "x \<in> set (subtrees (if b then r else l))" "x \<in> set (subtrees (if c then r else l))"
    using Cons.prems(2,3) by (auto simp: t q intro: descend_subtree)
  then have "b = c" using Cons.prems(1,4) by (auto simp: t disjoint_iff split: if_splits)
  moreover have "distinct (filter P (subtrees (if b then r else l)))" using Cons.prems(1) by (auto simp: t split: if_splits)
  ultimately show ?case using Cons.IH [of "if b then r else l" q'] Cons.prems by (auto simp: t q)
qed

lemma filter_nodes: "filter is_node (subtrees t) = nodes t"
  by (induction t) auto

fun is_leaf :: "htree \<Rightarrow> bool" where
  "is_leaf (Leaf _) = True"
| "is_leaf _ = False"

lemma filter_leaves: "filter is_leaf (subtrees t) = map Leaf (leaves t)"
  by (induction t) auto

section \<open>The codes of the tree\<close>

lemma codes_lead_nth: "codes_lead t s cs \<Longrightarrow> i < length cs \<Longrightarrow>
    descend t (code_bits (fst (cs ! i)) (snd (cs ! i))) = Some (Leaf (s + word_of_nat i))"
proof (induction cs arbitrary: s i)
  case (Cons c cs)
  then show ?case by (cases c; cases i) (auto simp: ac_simps)
qed simp

lemma sym_code_leads: "descend huff_tree (sym_code s) = Some (Leaf s)"
  using codes_lead_nth [OF huff_codes_lead, of "unat s"] by (simp add: length_table sym_code_def case_prod_unfold)

lemma leaf_in_leaves: "descend t p = Some (Leaf s) \<Longrightarrow> s \<in> set (leaves t)"
  by (induction t p rule: descend.induct) (auto split: if_splits)

lemma leaves_distinct: "distinct (leaves huff_tree)"
proof (rule card_distinct)
  have "set (leaves huff_tree) = UNIV" using leaf_in_leaves [OF sym_code_leads] by auto
  then show "card (set (leaves huff_tree)) = length (leaves huff_tree)"
    by (simp add: huff_leaves card_word)
qed

lemma leads_sym_code: "leads huff_tree s p \<longleftrightarrow> p = sym_code s"
proof -
  have "distinct (filter is_leaf (subtrees huff_tree))"
    by (simp add: filter_leaves distinct_map leaves_distinct inj_on_def)
  from unique_path [OF this, of p "Leaf s" "sym_code s"] show ?thesis
    using sym_code_leads by (auto simp: leads_def)
qed

lemma deep_leaf: "descend t p = Some (Leaf s) \<Longrightarrow> deep n t \<Longrightarrow> n \<le> length p"
proof (induction t p arbitrary: n rule: descend.induct)
  case (1 t)
  then show ?case by (cases n) auto
next
  case (2 k e l r b bs)
  then show ?case by (cases n) (auto split: if_splits)
qed auto

lemma sym_code_length: "5 \<le> length (sym_code s)"
  using deep_leaf [OF sym_code_leads huff_deep, of s] by (simp add: eval_nat_numeral)

lemma node_root: "is_node huff_tree"
  using descend_prefix_node [of huff_tree "[]" True "replicate 29 True"] huff_eos
  by (simp add: numeral_eq_Suc)

lemma nodes_unique: "descend huff_tree p = Some t \<Longrightarrow> descend huff_tree q = Some t \<Longrightarrow> is_node t \<Longrightarrow> p = q"
proof (rule unique_path [of is_node])
  have "distinct (map state_of (nodes huff_tree))" by (simp add: huff_states)
  then show "distinct (filter is_node (subtrees huff_tree))" by (simp add: filter_nodes distinct_map)
qed

section \<open>The automaton\<close>

fun msb_value :: "bool list \<Rightarrow> nat" where
  "msb_value [] = 0"
| "msb_value (b # bs) = of_bool b * 2 ^ length bs + msb_value bs"

lemma msb_value_less: "msb_value bs < 2 ^ length bs"
  by (induction bs) auto

lemma length_nibble [simp]: "length (nibble rt d em t) = 2 ^ d" "length (branch rt d em t) = 2 ^ d"
proof (induction rt d em t and rt d em t rule: nibble_branch.induct)
  case (2 rt d em k e l r)
  then show ?case by simp
qed auto

lemma nibble_bitrun:
  "length bs = d \<Longrightarrow> nibble rt d em t ! msb_value bs =
     map_option (\<lambda>(t', out). (t', if out = [] then em else Some (last out))) (bitrun rt t bs)"
proof (induction bs arbitrary: d em t)
  case (Cons b bs)
  then obtain d' where d: "d = Suc d'" "length bs = d'" by (cases d) auto
  have less: "msb_value bs < 2 ^ d'" using msb_value_less [of bs] d by simp
  have br: "branch rt d' em c ! msb_value bs =
      map_option (\<lambda>(t', out). (t', if out = [] then em else Some (last out))) (enter rt c bs)" for c
    using Cons.IH [OF d(2)] less by (cases c) (auto simp: option.map_comp o_def case_prod_unfold intro!: option.map_cong)
  show ?case
  proof (cases t)
    case (Node k e l r)
    then show ?thesis using less br d by (simp add: nth_append)
  qed (use less d in \<open>auto simp: nth_append\<close>)
qed simp

lemma rows_nodes: "rows rt t = map (\<lambda>n. map (huff_entry (state_of n)) (nibble rt 4 None n)) (nodes t)"
  by (induction t) auto

lemma deep_bitrun: "bitrun rt t bs = Some (t', out) \<Longrightarrow> deep n t \<Longrightarrow> length bs < n \<Longrightarrow> is_node t \<Longrightarrow> out = []"
proof (induction bs arbitrary: t n)
  case (Cons b bs)
  obtain k e l r where t: "t = Node k e l r" using Cons.prems(4) by (cases t) auto
  obtain m where n: "n = Suc m" using Cons.prems(3) by (cases n) auto
  have "deep m (if b then r else l)" "length bs < m" using Cons.prems by (auto simp: t n)
  moreover from this have "is_node (if b then r else l)" by (cases m; cases "if b then r else l") auto
  ultimately show ?case using Cons.IH Cons.prems(1) by (simp add: t enter_node)
qed simp

lemma one_symbol:
  assumes "is_node rt" "deep n rt"
  shows "bitrun rt t bs = Some (t', out) \<Longrightarrow> is_node t \<Longrightarrow> length bs \<le> n \<Longrightarrow> length out \<le> 1"
proof (induction bs arbitrary: t)
  case (Cons b bs)
  obtain k e l r where t: "t = Node k e l r" using Cons.prems(2) by (cases t) auto
  show ?case
  proof (cases "if b then r else l")
    case (Leaf s)
    then obtain out' where "out = s # out'" "bitrun rt rt bs = Some (t', out')"
      using Cons.prems(1) by (auto simp: t)
    then show ?thesis using deep_bitrun [of rt rt bs t' out' n] Cons.prems(3) assms by simp
  next
    case Eos
    then show ?thesis using Cons.prems(1) by (auto simp: t)
  next
    case (Node k' e' l' r')
    then show ?thesis using Cons.IH Cons.prems by (simp add: t)
  qed
qed simp

lemma nodes_is_node: "t \<in> set (nodes rt) \<longleftrightarrow> is_node t \<and> t \<in> set (subtrees rt)"
  by (subst filter_nodes [symmetric]) auto

lemma subtree_path: "t \<in> set (subtrees rt) \<Longrightarrow> \<exists>p. descend rt p = Some t"
proof (induction rt)
  case (Node k e l r)
  show ?case
  proof (cases "t = Node k e l r")
    case True
    then show ?thesis by (metis descend.simps(1))
  next
    case False
    then have "t \<in> set (subtrees l) \<or> t \<in> set (subtrees r)" using Node.prems by simp
    then obtain p where "descend l p = Some t \<or> descend r p = Some t" using Node.IH by blast
    then have "descend (Node k e l r) (False # p) = Some t \<or> descend (Node k e l r) (True # p) = Some t" by simp
    then show ?thesis by blast
  qed
qed (auto intro: exI [of _ "[]"])

lemma nodes_path: "t \<in> set (nodes huff_tree) \<longleftrightarrow> is_node t \<and> (\<exists>p. descend huff_tree p = Some t)"
  using subtree_path descend_subtree by (auto simp: nodes_is_node)

lemma node_at:
  assumes "t \<in> set (nodes huff_tree)"
  shows "state_of t < 256 \<and> nodes huff_tree ! state_of t = t"
proof -
  have len: "length (nodes huff_tree) = 256" using arg_cong [OF huff_states, of length] by simp
  obtain i where i: "i < 256" "nodes huff_tree ! i = t" using assms len by (metis in_set_conv_nth)
  have "map state_of (nodes huff_tree) ! i = i" using i(1) by (simp add: huff_states)
  then show ?thesis using i len by simp
qed

lemma leads_codes: "list_all2 (leads huff_tree) out ps \<longleftrightarrow> ps = map sym_code out"
  by (auto simp: leads_sym_code list_all2_conv_all_nth intro: nth_equalityI)

lemma concat_codes_length: "5 * length out \<le> length (concat (map sym_code out))"
  using sym_code_length by (induction out) (auto simp: add_mono)

lemma huff_run_paths:
  assumes "bitrun huff_tree t bs = Some (t', out)" "descend huff_tree p = Some t" "is_node t"
  shows "\<exists>p'. p @ bs = concat (map sym_code out) @ p' \<and> descend huff_tree p' = Some t' \<and> is_node t'"
  using bitrun_paths [OF node_root assms] by (auto simp: leads_codes)

lemma no_loop:
  assumes "t \<in> set (nodes huff_tree)" "bitrun huff_tree t bs = Some (t', out)" "length bs = 4"
  shows "t' \<in> set (nodes huff_tree) \<and> state_of t' \<noteq> state_of t"
proof -
  obtain p where p: "descend huff_tree p = Some t" "is_node t" using assms(1) by (auto simp: nodes_path)
  obtain p' where p': "p @ bs = concat (map sym_code out) @ p'" "descend huff_tree p' = Some t'" "is_node t'"
    using huff_run_paths [OF assms(2) p] by blast
  then have mem: "t' \<in> set (nodes huff_tree)" by (auto simp: nodes_path)
  have "state_of t' \<noteq> state_of t"
  proof
    assume "state_of t' = state_of t"
    then have "t' = t" using node_at [OF mem] node_at [OF assms(1)] by metis
    then have "p' = p" using nodes_unique [of p' t p] p p'(2) by simp
    then have "length (concat (map sym_code out)) = 4" using arg_cong [OF p'(1), of length] assms(3) by simp
    then show False using concat_codes_length [of out] by (cases out) auto
  qed
  then show ?thesis using mem by simp
qed

lemma decode_bits_tree:
  assumes "t \<in> set (nodes huff_tree)" "length bs = 4"
  shows "ngx_http_huff_decode_bits (state_of t) (msb_value bs) =
    map_option (\<lambda>(t', out). (state_of t', of_bool (all_ones t'), out)) (bitrun huff_tree t bs)"
proof -
  have "ngx_http_huff_decode_codes ! state_of t ! msb_value bs
      = huff_entry (state_of t) (nibble huff_tree 4 None t ! msb_value bs)"
  proof -
    have len: "length (nodes huff_tree) = 256" using arg_cong [OF huff_states, of length] by simp
    show ?thesis using node_at [OF assms(1)] msb_value_less [of bs] assms(2) by (simp add: table_rows rows_nodes len)
  qed
  also have "\<dots> = huff_entry (state_of t) (map_option (\<lambda>(t', out). (t', if out = [] then None else Some (last out))) (bitrun huff_tree t bs))"
    using nibble_bitrun [OF assms(2)] by simp
  finally have code: "ngx_http_huff_decode_codes ! state_of t ! msb_value bs = \<dots>" .
  show ?thesis
  proof (cases "bitrun huff_tree t bs")
    case None
    then show ?thesis using code by (simp add: ngx_http_huff_decode_bits_def)
  next
    case (Some r)
    obtain t' out where r: "r = (t', out)" by fastforce
    have "is_node t" using assms(1) by (simp add: nodes_path)
    then have "length out \<le> 1"
      using one_symbol [OF node_root huff_deep, of t bs t' out] Some r assms(2) by simp
    then show ?thesis using code Some r no_loop [OF assms(1) _ assms(2), of t' out]
      by (cases out) (auto simp: ngx_http_huff_decode_bits_def)
  qed
qed

section \<open>The decoder\<close>

definition byte_bits :: "byte \<Rightarrow> bool list" where
  "byte_bits ch = map (bit ch) [7, 6, 5, 4, 3, 2, 1, 0]"

definition bits_of :: "byte list \<Rightarrow> bool list" where
  "bits_of = concat \<circ> map byte_bits"

lemma bits_of_simps [simp]:
  "bits_of [] = []" "bits_of (x # xs) = byte_bits x @ bits_of xs" "bits_of (xs @ ys) = bits_of xs @ bits_of ys"
  by (simp_all add: bits_of_def)

lemma length_bits_of [simp]: "length (byte_bits x) = 8" "length (bits_of xs) = 8 * length xs"
proof -
  show "length (byte_bits x) = 8" for x by (simp add: byte_bits_def)
  then show "length (bits_of xs) = 8 * length xs" by (induction xs) auto
qed

lemma byte_nibbles:
  "\<exists>hi lo. byte_bits ch = hi @ lo \<and> length hi = 4 \<and> length lo = 4
    \<and> unat (drop_bit 4 ch) = msb_value hi \<and> unat (ch AND 0xf) = msb_value lo"
proof -
  have "unat (drop_bit 4 ch) = msb_value (map (bit ch) [7, 6, 5, 4])" by (rule byte_allI) code_simp
  moreover have "unat (ch AND 0xf) = msb_value (map (bit ch) [3, 2, 1, 0])" by (rule byte_allI) code_simp
  ultimately show ?thesis
    by (intro exI [of _ "map (bit ch) [7, 6, 5, 4]"] exI [of _ "map (bit ch) [3, 2, 1, 0]"]) (simp add: byte_bits_def)
qed

definition emits :: "ngx_str \<Rightarrow> (htree \<times> ngx_str) option \<Rightarrow> (htree \<times> ngx_str) option" where
  "emits out = map_option (\<lambda>(t, out'). (t, out @ out'))"

lemma emits_simps [simp]:
  "emits [] x = x" "emits out None = None" "emits out (Some (t, out')) = Some (t, out @ out')"
  "map_option (apsnd ((#) s)) (emits out x) = emits (s # out) x"
  by (cases x; auto simp: emits_def)+

lemma bitrun_append:
  assumes "is_node rt" "is_node t"
  shows "bitrun rt t (xs @ ys) =
    (case bitrun rt t xs of None \<Rightarrow> None | Some (t', out) \<Rightarrow> emits out (bitrun rt t' ys))"
  using assms(2)
proof (induction xs arbitrary: t)
  case Nil
  show ?case by simp
next
  case (Cons b xs)
  obtain k e l r where t: "t = Node k e l r" using Cons.prems by (cases t) auto
  show ?case
  proof (cases "if b then r else l")
    case (Leaf s)
    then show ?thesis using Cons.IH [OF assms(1)]
      by (auto simp: t split: option.splits)
  qed (use Cons.IH in \<open>auto simp: t\<close>)
qed

lemma bitrun_huff_node:
  assumes "t \<in> set (nodes huff_tree)" "bitrun huff_tree t bs = Some (t', out)"
  shows "t' \<in> set (nodes huff_tree)"
  using assms huff_run_paths [OF assms(2)] by (auto simp: nodes_path)

lemma decode_loop_tree:
  "t \<in> set (nodes huff_tree) \<Longrightarrow> huff_decode_loop (state_of t) e src =
    map_option (\<lambda>(t', out). (state_of t', if src = [] then e else of_bool (all_ones t'), out)) (bitrun huff_tree t (bits_of src))"
proof (induction src arbitrary: t e)
  case (Cons ch src)
  obtain hi lo where b: "byte_bits ch = hi @ lo" "length hi = 4" "length lo = 4"
    "unat (drop_bit 4 ch) = msb_value hi" "unat (ch AND 0xf) = msb_value lo"
    using byte_nibbles [of ch] by blast
  have node: "is_node n" if "n \<in> set (nodes huff_tree)" for n using that by (simp add: nodes_path)
  show ?case
  proof (cases "bitrun huff_tree t hi")
    case None
    then show ?thesis using decode_bits_tree [OF Cons.prems b(2)] bitrun_append [OF node_root node [OF Cons.prems]] b by simp
  next
    case (Some r1)
    then obtain t1 o1 where r1: "bitrun huff_tree t hi = Some (t1, o1)" by (cases r1) auto
    note t1 = bitrun_huff_node [OF Cons.prems r1]
    show ?thesis
    proof (cases "bitrun huff_tree t1 lo")
      case None
      then show ?thesis using r1 decode_bits_tree [OF Cons.prems b(2)] decode_bits_tree [OF t1 b(3)]
          bitrun_append [OF node_root node [OF Cons.prems]] bitrun_append [OF node_root node [OF t1]] b by simp
    next
      case (Some r2)
      then obtain t2 o2 where r2: "bitrun huff_tree t1 lo = Some (t2, o2)" by (cases r2) auto
      note t2 = bitrun_huff_node [OF t1 r2]
      show ?thesis using r1 r2 decode_bits_tree [OF Cons.prems b(2)] decode_bits_tree [OF t1 b(3)] Cons.IH [OF t2]
          bitrun_append [OF node_root node [OF Cons.prems]] bitrun_append [OF node_root node [OF t1]] b
        by (auto simp: emits_def option.map_comp o_def case_prod_unfold intro!: option.map_cong)
    qed
  qed
qed simp

lemma marked_path: "descend t p = Some n \<Longrightarrow> is_node n \<Longrightarrow> well_marked b t \<Longrightarrow> all_ones n \<longleftrightarrow> b \<and> list_all id p"
proof (induction p arbitrary: t b)
  case Nil
  then show ?case by (cases t) auto
next
  case (Cons c p)
  then obtain k e l r where t: "t = Node k e l r" by (cases t) auto
  show ?case using Cons.IH [of "if c then r else l" "c \<and> b"] Cons.prems by (auto simp: t)
qed

lemma nodes_self: "is_node t \<Longrightarrow> t \<in> set (nodes t) \<and> nodes t ! 0 = t"
  by (cases t) auto

lemma root_state: "huff_tree \<in> set (nodes huff_tree)" "state_of huff_tree = 0"
proof -
  show mem: "huff_tree \<in> set (nodes huff_tree)" using nodes_self [OF node_root] by simp
  have "nodes huff_tree ! 0 = huff_tree" using nodes_self [OF node_root] by simp
  moreover have "map state_of (nodes huff_tree) ! 0 = 0" by (simp add: huff_states)
  moreover have "0 < length (nodes huff_tree)" using mem by auto
  ultimately show "state_of huff_tree = 0" by simp
qed

text \<open>Paths of ones end at the end of string code.\<close>

lemma ones_path: "(\<exists>n. descend huff_tree (replicate k True) = Some n \<and> is_node n) \<longleftrightarrow> k < 30"
proof
  assume "\<exists>n. descend huff_tree (replicate k True) = Some n \<and> is_node n"
  then obtain n where n: "descend huff_tree (replicate k True) = Some n" "is_node n" by blast
  show "k < 30"
  proof (rule ccontr)
    assume "\<not> k < 30"
    then have "replicate k True = replicate 30 True @ replicate (k - 30) True" by (simp flip: replicate_add)
    then have "descend Eos (replicate (k - 30) True) = Some n" using n(1) by (simp add: descend_append huff_eos)
    then show False using n(2) by (cases "k - 30") auto
  qed
next
  assume "k < 30"
  then have "replicate 30 True = replicate k True @ True # replicate (29 - k) True"
    by (simp flip: replicate_add replicate_Suc)
  then show "\<exists>n. descend huff_tree (replicate k True) = Some n \<and> is_node n"
    using huff_eos descend_prefix_node by metis
qed

lemma run_codes: "bitrun huff_tree huff_tree (concat (map sym_code out) @ bs) = emits out (bitrun huff_tree huff_tree bs)"
proof (induction out)
  case Nil
  show ?case by simp
next
  case (Cons s out)
  have "sym_code s \<noteq> []" using sym_code_length [of s] by auto
  then show ?case using bitrun_leaf [OF sym_code_leads] Cons by simp
qed

lemma decode_iff:
  "ngx_http_huff_decode 0 src True = Some (st, out) \<longleftrightarrow>
     st = 0 \<and> (\<exists>n < 30. bits_of src = concat (map sym_code out) @ replicate n True)"
proof
  assume "ngx_http_huff_decode 0 src True = Some (st, out)"
  then obtain t where t: "bitrun huff_tree huff_tree (bits_of src) = Some (t, out)" "st = 0" "src = [] \<or> all_ones t"
    using decode_loop_tree [OF root_state(1), of 1 src]
    by (auto simp: ngx_http_huff_decode_def root_state split: option.splits if_splits)
  obtain p where p: "bits_of src = concat (map sym_code out) @ p" "descend huff_tree p = Some t" "is_node t"
    using huff_run_paths [OF t(1), of "[]"] node_root by auto
  have "list_all id p"
  proof (cases "src = []")
    case False
    then show ?thesis using marked_path [OF p(2,3) huff_marked] t(3) by simp
  qed (use p in simp)
  then have ones: "p = replicate (length p) True" by (induction p) auto
  then have "length p < 30" using ones_path [of "length p"] p(2,3) by metis
  then show "st = 0 \<and> (\<exists>n < 30. bits_of src = concat (map sym_code out) @ replicate n True)" using p ones t(2) by metis
next
  assume "st = 0 \<and> (\<exists>n < 30. bits_of src = concat (map sym_code out) @ replicate n True)"
  then obtain n where n: "n < 30" "bits_of src = concat (map sym_code out) @ replicate n True" and st: "st = 0" by blast
  obtain t where t: "descend huff_tree (replicate n True) = Some t" "is_node t" using ones_path n(1) by blast
  have "all_ones t" using marked_path [OF t huff_marked] by (simp add: list_all_length)
  moreover have "bitrun huff_tree huff_tree (bits_of src) = Some (t, out)"
    using run_codes [of out "replicate n True"] bitrun_node [OF t, of huff_tree "[]"] n(2) by simp
  ultimately show "ngx_http_huff_decode 0 src True = Some (st, out)"
    using decode_loop_tree [OF root_state(1), of 1 src] st by (simp add: ngx_http_huff_decode_def root_state)
qed

end
