(* ===== verification/Huffman_Roundtrip.thy ===== *)
theory Huffman_Roundtrip
  imports Huffman_Code
begin

text \<open>
  The Huffman encoder of HTTP/2: its 64-bit register holds the codes of the source one after the
  other, what it writes is those codes filled up with ones, and the decoder reads it back.
\<close>

unbundle bit_operations_syntax

section \<open>The encoder\<close>

definition top_bits :: "nat \<Rightarrow> 64 word \<Rightarrow> bool list" where
  "top_bits n w = map (\<lambda>i. bit w (63 - i)) [0..<n]"

definition low_clear :: "nat \<Rightarrow> 64 word \<Rightarrow> bool" where
  "low_clear n w \<longleftrightarrow> (\<forall>j. n + j < 64 \<longrightarrow> \<not> bit w j)"

definition code_ok :: "huff_encode_code \<Rightarrow> bool" where
  "code_ok c \<longleftrightarrow> snd c \<le> 30 \<and> (\<forall>j \<ge> snd c. \<not> bit (fst c) j)"

definition entry_bits :: "huff_encode_code \<Rightarrow> bool list" where
  "entry_bits c = code_bits (fst c) (snd c)"

lemma length_top_bits [simp]: "length (top_bits n w) = n"
  by (simp add: top_bits_def)

lemma nth_top_bits: "i < n \<Longrightarrow> top_bits n w ! i = bit w (63 - i)"
  by (simp add: top_bits_def)

lemma length_code_bits [simp]: "length (code_bits c n) = n"
  by (induction n) auto

lemma length_entry_bits [simp]: "length (entry_bits c) = snd c"
  by (simp add: entry_bits_def)

lemma nth_code_bits: "i < n \<Longrightarrow> code_bits c n ! i = bit c (n - 1 - i)"
  by (induction n arbitrary: i) (auto simp: nth_Cons' less_Suc_eq_0_disj)

lemma nth_entry_bits: "i < snd c \<Longrightarrow> entry_bits c ! i = bit (fst c) (snd c - 1 - i)"
  by (simp add: entry_bits_def nth_code_bits)

lemma code_ok_bit: "code_ok c \<Longrightarrow> bit (fst c) j \<Longrightarrow> j < snd c"
  by (auto simp: code_ok_def not_le)

lemma code_ok_64: "code_ok c \<Longrightarrow> bit (ucast (fst c) :: 64 word) j \<longleftrightarrow> bit (fst c) j"
  using code_ok_bit [of c j] by (auto simp: bit_simps code_ok_def)

lemma nth_joined: "i < p + snd c \<Longrightarrow> (top_bits p buf @ entry_bits c) ! i = (if i < p then bit buf (63 - i) else bit (fst c) (p + snd c - 1 - i))"
  by (auto simp: nth_append top_bits_def nth_entry_bits ac_simps)

lemma collect_bits:
  assumes "low_clear p buf" "code_ok c" "p + snd c < 64"
  shows "top_bits (p + snd c) (buf OR push_bit (64 - (p + snd c)) (ucast (fst c))) = top_bits p buf @ entry_bits c"
proof (rule nth_equalityI)
  fix i assume "i < length (top_bits (p + snd c) (buf OR push_bit (64 - (p + snd c)) (ucast (fst c))))"
  then have i: "i < p + snd c" by simp
  have "63 - i - (64 - (p + snd c)) = p + snd c - 1 - i" "64 - (p + snd c) \<le> 63 - i" "63 - i < 64" using i assms(3) by simp_all
  then have "top_bits (p + snd c) (buf OR push_bit (64 - (p + snd c)) (ucast (fst c))) ! i
      \<longleftrightarrow> bit buf (63 - i) \<or> bit (fst c) (p + snd c - 1 - i)"
    using i assms(3) by (simp add: top_bits_def bit_or_iff bit_push_bit_iff code_ok_64 [OF assms(2)])
  also have "\<dots> \<longleftrightarrow> (top_bits p buf @ entry_bits c) ! i"
    using code_ok_bit [OF assms(2), of "p + snd c - 1 - i"] assms(1,3) i by (auto simp: nth_joined low_clear_def)
  finally show "top_bits (p + snd c) (buf OR push_bit (64 - (p + snd c)) (ucast (fst c))) ! i = (top_bits p buf @ entry_bits c) ! i" .
qed simp

lemma collect_clear:
  assumes "low_clear p buf" "p + snd c < 64"
  shows "low_clear (p + snd c) (buf OR push_bit (64 - (p + snd c)) (ucast (fst c)))"
  using assms by (auto simp: low_clear_def bit_simps)

lemma flush_bits:
  assumes "low_clear p buf" "code_ok c" "p < 64" "64 \<le> p + snd c" "r = p + snd c - 64"
  shows "top_bits 64 (buf OR drop_bit r (ucast (fst c))) @ top_bits r (if r \<noteq> 0 then push_bit (64 - r) (ucast (fst c)) else 0)
    = top_bits p buf @ entry_bits c" (is "?l = ?r")
proof (rule nth_equalityI)
  show "length ?l = length ?r" using assms by simp
next
  fix i assume "i < length ?l"
  then have i: "i < 64 + r" "i < p + snd c" using assms by simp_all
  have r: "r < 30" using assms by (auto simp: code_ok_def)
  show "?l ! i = ?r ! i"
  proof (cases "i < 64")
    case True
    have "r + (63 - i) = p + snd c - 1 - i" using True assms(4,5) by simp
    then have "?l ! i \<longleftrightarrow> bit buf (63 - i) \<or> bit (fst c) (p + snd c - 1 - i)"
      using True by (simp add: nth_append top_bits_def bit_or_iff bit_drop_bit_eq code_ok_64 [OF assms(2)])
    also have "\<dots> \<longleftrightarrow> ?r ! i"
      using code_ok_bit [OF assms(2), of "p + snd c - 1 - i"] assms(1) i True by (auto simp: nth_joined low_clear_def)
    finally show ?thesis .
  next
    case False
    have idx: "63 - (i - 64) - (64 - r) = p + snd c - 1 - i" using False assms(4,5) i r by simp
    have "?l ! i \<longleftrightarrow> bit (push_bit (64 - r) (ucast (fst c)) :: 64 word) (63 - (i - 64))"
      using False i(1) by (subst nth_append) (auto simp: nth_top_bits)
    also have "\<dots> \<longleftrightarrow> bit (ucast (fst c) :: 64 word) (63 - (i - 64) - (64 - r))"
      using False i(1) r by (auto simp: bit_push_bit_iff)
    also have "\<dots> \<longleftrightarrow> ?r ! i" unfolding idx code_ok_64 [OF assms(2)]
      using False assms(3) i(2) by (simp add: nth_joined)
    finally show ?thesis .
  qed
qed

lemma flush_clear: "r < 64 \<Longrightarrow> low_clear r (if r \<noteq> 0 then push_bit (64 - r) c else 0)"
  by (auto simp: low_clear_def bit_simps)

lemma bits_of_buf: "bits_of (ngx_http_huff_encode_buf w) = top_bits 64 w"
  by (simp add: ngx_http_huff_encode_buf_def byte_bits_def top_bits_def bit_simps upt_rec)

definition codes_of :: "huff_encode_code list \<Rightarrow> byte list \<Rightarrow> bool list" where
  "codes_of table src = concat (map (\<lambda>ch. entry_bits (table ! unat ch)) src)"

lemma encode_loop_bits:
  assumes ok: "\<And>ch. code_ok (table ! unat (ch :: byte))"
  shows "huff_encode_loop table len src dst buf p = Some (dst', buf', p') \<Longrightarrow> p < 64 \<Longrightarrow> low_clear p buf \<Longrightarrow>
    p' < 64 \<and> low_clear p' buf' \<and> bits_of dst' @ top_bits p' buf' = bits_of dst @ top_bits p buf @ codes_of table src
    \<and> (dst' = dst \<or> length dst' < len)"
proof (induction src arbitrary: dst buf p)
  case Nil
  then show ?case by (simp add: codes_of_def)
next
  case (Cons ch src)
  let ?c = "table ! unat ch"
  show ?case
  proof (cases "p + snd ?c < 64")
    case True
    let ?buf = "buf OR push_bit (64 - (p + snd ?c)) (ucast (fst ?c))"
    have "huff_encode_loop table len src dst ?buf (p + snd ?c) = Some (dst', buf', p')"
      using Cons.prems(1) True by (simp add: Let_def)
    from Cons.IH [OF this True collect_clear [OF Cons.prems(3) True]] show ?thesis
      using collect_bits [OF Cons.prems(3) ok True] by (simp add: codes_of_def)
  next
    case False
    define r where "r = p + snd ?c - 64"
    define w where "w = buf OR drop_bit r (ucast (fst ?c))"
    define buf1 :: "64 word" where "buf1 = (if r \<noteq> 0 then push_bit (64 - r) (ucast (fst ?c)) else 0)"
    have r: "r < 64" using ok [of ch] Cons.prems(2) unfolding code_ok_def r_def by linarith
    have step: "length dst + 8 < len" "huff_encode_loop table len src (dst @ ngx_http_huff_encode_buf w) buf1 r = Some (dst', buf', p')"
      using Cons.prems(1) False by (auto simp: Let_def r_def w_def buf1_def split: if_splits)
    have "top_bits 64 w @ top_bits r buf1 = top_bits p buf @ entry_bits ?c"
      using flush_bits [OF Cons.prems(3) ok Cons.prems(2), of ch r] False by (simp add: r_def w_def buf1_def)
    moreover have "low_clear r buf1" using flush_clear [OF r] by (simp add: buf1_def)
    moreover have "length (ngx_http_huff_encode_buf w) = 8" by (simp add: ngx_http_huff_encode_buf_def)
    ultimately show ?thesis using Cons.IH [OF step(2) r] step(1) by (auto simp: codes_of_def bits_of_buf)
  qed
qed

lemma encode_loop_None:
  assumes ok: "\<And>ch. code_ok (table ! unat (ch :: byte))"
  shows "huff_encode_loop table len src dst buf p = None \<Longrightarrow> p < 64 \<Longrightarrow> 8 * len \<le> 8 * length dst + p + length (codes_of table src)"
proof (induction src arbitrary: dst buf p)
  case (Cons ch src)
  let ?c = "table ! unat ch"
  have len: "length (codes_of table (ch # src)) = snd ?c + length (codes_of table src)" by (simp add: codes_of_def)
  show ?case
  proof (cases "p + snd ?c < 64")
    case True
    have "8 * len \<le> 8 * length dst + (p + snd ?c) + length (codes_of table src)"
      by (rule Cons.IH) (use Cons.prems True in \<open>auto simp: Let_def\<close>)
    then show ?thesis using len by simp
  next
    case False
    define r where "r = p + snd ?c - 64"
    have r: "r < 64" using ok [of ch] Cons.prems(2) unfolding code_ok_def r_def by linarith
    show ?thesis
    proof (cases "length dst + 8 \<ge> len")
      case True
      then show ?thesis using False len by simp
    next
      case small: False
      have "8 * len \<le> 8 * length (dst @ ngx_http_huff_encode_buf (buf OR drop_bit r (ucast (fst ?c)))) + r + length (codes_of table src)"
        by (rule Cons.IH) (use Cons.prems False small r in \<open>auto simp: Let_def r_def\<close>)
      then show ?thesis using False len by (simp add: r_def ngx_http_huff_encode_buf_def)
    qed
  qed
qed simp

lemma tail_bits: "bits_of (huff_encode_tail w n) = map (\<lambda>i. bit w (8 * n - 1 - i)) [0..<8 * n]"
proof (induction n)
  case (Suc n)
  have "byte_bits (ucast (drop_bit (8 * n) w)) = map (\<lambda>i. bit w (8 * Suc n - 1 - i)) [0..<8]"
    by (simp add: byte_bits_def bit_simps upt_rec ac_simps)
  moreover have "[0..<8 * Suc n] = [0..<8] @ map (\<lambda>i. i + 8) [0..<8 * n]"
    by (simp add: map_add_upt upt_add_eq_append [of 0 8 "8 * n", simplified] add.commute)
  ultimately show ?case using Suc by simp
qed simp

lemma length_encode_tail [simp]: "length (huff_encode_tail w n) = n"
  by (induction n) auto

lemma padded_tail:
  assumes "p < 64" "8 * k < p + 8" "p \<le> 8 * k"
  shows "bits_of (huff_encode_tail (drop_bit (64 - 8 * k) (buf OR drop_bit p (- 1))) k) = top_bits p buf @ replicate (8 * k - p) True"
proof (rule nth_equalityI)
  fix i assume "i < length (bits_of (huff_encode_tail (drop_bit (64 - 8 * k) (buf OR drop_bit p (- 1))) k))"
  then have i: "i < 8 * k" by simp
  have k: "8 * k \<le> 64" using assms by simp
  have "64 - 8 * k + (8 * k - 1 - i) = 63 - i" using i k by simp
  then show "bits_of (huff_encode_tail (drop_bit (64 - 8 * k) (buf OR drop_bit p (- 1))) k) ! i = (top_bits p buf @ replicate (8 * k - p) True) ! i"
    using i k assms by (auto simp: tail_bits top_bits_def nth_append bit_simps)
qed (use assms in simp)

section \<open>The codes of a source\<close>

lemma table_codes_ok: "list_all (\<lambda>c. snd c \<le> 30 \<and> drop_bit (snd c) (fst c) = 0) ngx_http_huff_encode_table"
  unfolding ngx_http_huff_encode_table_def by simp

lemma table_code_ok: "n < 256 \<Longrightarrow> code_ok (ngx_http_huff_encode_table ! n)"
proof -
  assume "n < 256"
  then have c: "snd (ngx_http_huff_encode_table ! n) \<le> 30" "drop_bit (snd (ngx_http_huff_encode_table ! n)) (fst (ngx_http_huff_encode_table ! n)) = 0"
    using table_codes_ok by (auto simp: list_all_length length_table)
  have "\<not> bit (fst (ngx_http_huff_encode_table ! n)) j" if "snd (ngx_http_huff_encode_table ! n) \<le> j" for j
    using arg_cong [OF c(2), of "\<lambda>w. bit w (j - snd (ngx_http_huff_encode_table ! n))"] that by (simp add: bit_drop_bit_eq)
  then show ?thesis using c(1) by (simp add: code_ok_def)
qed

lemma tolower_unat: "unat (ngx_tolower ch) = (if 65 \<le> unat ch \<and> unat ch \<le> 90 then unat ch + 32 else unat ch)"
  by (rule byte_allI) code_simp

lemma table_lc_nth: "ngx_http_huff_encode_table_lc ! unat ch = ngx_http_huff_encode_table ! unat (ngx_tolower ch)"
  unfolding table_lc tolower_unat by (auto simp: nth_append length_table add.commute)

definition lowered :: "bool \<Rightarrow> byte list \<Rightarrow> byte list" where
  "lowered lower src = (if lower then ngx_strlow src else src)"

definition encode_table :: "bool \<Rightarrow> huff_encode_code list" where
  "encode_table lower = (if lower then ngx_http_huff_encode_table_lc else ngx_http_huff_encode_table)"

lemma encode_table_ok: "code_ok (encode_table lower ! unat (ch :: byte))"
  using table_code_ok unat_byte_less by (simp add: encode_table_def table_lc_nth)

lemma encode_table_codes: "codes_of (encode_table lower) src = concat (map sym_code (lowered lower src))"
proof -
  have "sym_code s = entry_bits (ngx_http_huff_encode_table ! unat s)" for s
    by (simp add: sym_code_def entry_bits_def case_prod_unfold)
  then show ?thesis by (auto simp: codes_of_def encode_table_def lowered_def ngx_strlow_def table_lc_nth o_def intro!: arg_cong [of _ _ concat])
qed

lemma length_lowered [simp]: "length (lowered lower src) = length src"
  by (simp add: lowered_def ngx_strlow_def)

text \<open>Padding: the fewest bytes that hold the codes, filled up with ones.\<close>

definition padded :: "bool list \<Rightarrow> bool list" where
  "padded bs = bs @ replicate ((length bs + 7) div 8 * 8 - length bs) True"

lemma encode_spec:
  assumes "bs = concat (map sym_code (lowered lower src))"
  shows "if (length bs + 7) div 8 < length src then bits_of (ngx_http_huff_encode src lower) = padded bs
    else ngx_http_huff_encode src lower = []"
proof (cases "huff_encode_loop (encode_table lower) (length src) src [] 0 0")
  case None
  then have "length src \<le> (length bs + 7) div 8"
    using encode_loop_None [OF encode_table_ok None] assms by (simp add: encode_table_codes)
  then show ?thesis using None by (simp add: ngx_http_huff_encode_def encode_table_def)
next
  case (Some r)
  then obtain dst buf p where l: "huff_encode_loop (encode_table lower) (length src) src [] 0 0 = Some (dst, buf, p)"
    by (cases r) auto
  note inv = encode_loop_bits [OF encode_table_ok l]
  have b: "p < 64" "bits_of dst @ top_bits p buf = bs" "dst = [] \<or> length dst < length src"
    using inv assms by (auto simp: low_clear_def encode_table_codes top_bits_def)
  have len: "length bs = 8 * length dst + p" using arg_cong [OF b(2), of length] by simp
  let ?k = "(p + 7) div 8"
  have bytes: "(length bs + 7) div 8 = length dst + ?k" using len by simp
  show ?thesis
  proof (cases "p = 0")
    case True
    have "src = [] \<or> dst \<noteq> []"
      using concat_codes_length [of "lowered lower src"] assms len True by (cases src) auto
    then have "length dst < length src \<or> src = [] \<and> dst = []" using b(3) by auto
    then show ?thesis using True l b(2) bytes len
      by (auto simp: ngx_http_huff_encode_def encode_table_def padded_def top_bits_def)
  next
    case False
    have "p \<le> 8 * ?k" "8 * ?k < p + 8" by simp_all
    then have tail: "bits_of (huff_encode_tail (drop_bit (64 - 8 * ?k) (buf OR drop_bit p (- 1))) ?k) = top_bits p buf @ replicate (8 * ?k - p) True"
      using padded_tail [OF b(1)] by simp
    have "ngx_http_huff_encode src lower = (if length dst + ?k \<ge> length src then []
        else dst @ huff_encode_tail (drop_bit (64 - 8 * ?k) (buf OR drop_bit p (- 1))) ?k)"
      using False l by (simp add: ngx_http_huff_encode_def encode_table_def Let_def mult.commute)
    then show ?thesis using tail b(2) bytes len by (auto simp: padded_def)
  qed
qed

section \<open>Round trip, room and padding\<close>

lemma huff_inverse:
  assumes "ngx_http_huff_encode src lower \<noteq> []"
  shows "ngx_http_huff_decode 0 (ngx_http_huff_encode src lower) True = Some (0, lowered lower src)"
proof -
  let ?bs = "concat (map sym_code (lowered lower src))"
  have "bits_of (ngx_http_huff_encode src lower) = padded ?bs"
    using encode_spec [OF refl, of lower src] assms by (auto split: if_splits)
  moreover have "(length ?bs + 7) div 8 * 8 - length ?bs < 30" by simp
  ultimately show ?thesis unfolding decode_iff padded_def by blast
qed

lemma huff_shorter: "ngx_http_huff_encode src lower \<noteq> [] \<Longrightarrow> length (ngx_http_huff_encode src lower) < length src"
proof -
  let ?bs = "concat (map sym_code (lowered lower src))"
  assume ne: "ngx_http_huff_encode src lower \<noteq> []"
  then have "(length ?bs + 7) div 8 < length src" "bits_of (ngx_http_huff_encode src lower) = padded ?bs"
    using encode_spec [OF refl, of lower src] by (auto split: if_splits)
  moreover have "8 * length (ngx_http_huff_encode src lower) = (length ?bs + 7) div 8 * 8"
    using arg_cong [OF calculation(2), of length] by (simp add: padded_def)
  ultimately show ?thesis by linarith
qed

lemma decode_loop_append:
  "ys \<noteq> [] \<Longrightarrow> huff_decode_loop st e (xs @ ys) =
    (case huff_decode_loop st e xs of None \<Rightarrow> None
     | Some (st, _, out) \<Rightarrow> map_option (\<lambda>(st, e, out'). (st, e, out @ out')) (huff_decode_loop st 1 ys))"
proof (induction xs arbitrary: st e)
  case Nil
  then obtain y ys' where "ys = y # ys'" by (cases ys) auto
  then show ?case by (auto simp: option.map_id [unfolded id_def] case_prod_unfold split: option.splits)
next
  case (Cons x xs)
  then show ?case by (auto simp: option.map_comp o_def case_prod_unfold split: option.splits intro!: option.map_cong)
qed

text \<open>A string may arrive in pieces, if the last one is not empty.\<close>

lemma huff_decode_split:
  assumes "ys \<noteq> []"
  shows "ngx_http_huff_decode st (xs @ ys) last' =
    (case ngx_http_huff_decode st xs False of None \<Rightarrow> None
     | Some (st, out) \<Rightarrow> map_option (apsnd ((@) out)) (ngx_http_huff_decode st ys last'))"
  by (auto simp: ngx_http_huff_decode_def decode_loop_append [OF assms] split: option.splits)

lemma ones_no_code: "sym_code s \<noteq> replicate n True"
proof
  assume "sym_code s = replicate n True"
  then have d: "descend huff_tree (replicate n True) = Some (Leaf s)" using sym_code_leads [of s] by simp
  have "n < 30"
  proof (rule ccontr)
    assume "\<not> n < 30"
    then have "replicate n True = replicate 30 True @ replicate (n - 30) True" by (simp flip: replicate_add)
    then have "descend Eos (replicate (n - 30) True) = Some (Leaf s)" using d by (simp add: descend_append huff_eos)
    then show False by (cases "n - 30") auto
  qed
  then show False using ones_path [of n] d by auto
qed

lemma ones_codes:
  assumes "replicate m True = concat (map sym_code out) @ replicate n True"
  shows "out = [] \<and> n = m"
proof (cases out)
  case Nil
  then show ?thesis using arg_cong [OF assms, of length] by simp
next
  case (Cons s out')
  have "set (sym_code s) \<subseteq> set (replicate m True)" by (subst assms) (simp add: Cons)
  then have "set (sym_code s) \<subseteq> {True}" by (auto split: if_splits)
  then have "sym_code s = replicate (length (sym_code s)) True" by (intro replicate_eqI) auto
  then show ?thesis using ones_no_code by metis
qed

lemma encode_example:
  "ngx_http_huff_encode [0x41, 0x61, 0x41] True = [0x18, 0xc7]" "ngx_http_huff_encode [0x61, 0x61, 0x61] False = [0x18, 0xc7]"
proof -
  have "ngx_http_huff_encode_table_lc ! 65 = (3, 5)" "ngx_http_huff_encode_table_lc ! 97 = (3, 5)"
    unfolding ngx_http_huff_encode_table_lc_def by simp_all
  moreover have "ngx_http_huff_encode_table ! 97 = (3, 5)" unfolding ngx_http_huff_encode_table_def by simp
  moreover have "huff_encode_tail w 2 = [ucast (drop_bit 8 w), ucast w]" for w by (simp add: numeral_2_eq_2)
  ultimately show "ngx_http_huff_encode [0x41, 0x61, 0x41] True = [0x18, 0xc7]" "ngx_http_huff_encode [0x61, 0x61, 0x61] False = [0x18, 0xc7]"
    by (simp_all add: ngx_http_huff_encode_def Let_def mask_numeral)
qed

lemma decode_example: "ngx_http_huff_decode 0 [0x18, 0xc7] True = Some (0, [0x61, 0x61, 0x61])"
  using huff_inverse [of "[0x61, 0x61, 0x61]" False] by (simp add: encode_example lowered_def)

section \<open>Properties\<close>

text \<open>
  C8: what the Huffman encoder of HTTP/2 writes, the decoder reads back: the source, in
  lower case when the encoder was asked for it, with the decoder back in its initial state.
\<close>

theorem huff_roundtrip:
  assumes "ngx_http_huff_encode src lower \<noteq> []"
  shows "ngx_http_huff_decode 0 (ngx_http_huff_encode src lower) True = Some (0, if lower then ngx_strlow src else src)"
  using huff_inverse [OF assms] by (simp add: lowered_def)

theorem huff_roundtrip_witness:
  "ngx_http_huff_decode 0 [0x18, 0xc7] True = Some (0, [0x61, 0x61, 0x61])"
proof -
  have "ngx_strlow [0x41, 0x61, 0x41] = [0x61, 0x61, 0x61]" by code_simp
  then show ?thesis using huff_roundtrip [of "[0x41, 0x61, 0x41]" True] encode_example by simp
qed

text \<open>
  The Huffman encoder writes the codes of the symbols one after the other, filled up with ones to a whole
  byte, when that takes fewer bytes than the source, and nothing otherwise.
\<close>

theorem huff_encode_exact:
  "let bs = concat (map sym_code (if lower then ngx_strlow src else src)) in
   if (length bs + 7) div 8 < length src then bits_of (ngx_http_huff_encode src lower) = padded bs
   else ngx_http_huff_encode src lower = []"
  using encode_spec [OF refl, of lower src] by (simp add: lowered_def Let_def)

text \<open>
  C17: the Huffman decoder accepts exactly the strings of codes followed by fewer than thirty ones, whatever the
  bytes they are cut into, and gives back their symbols.
\<close>

theorem huff_decode_exact:
  "ngx_http_huff_decode 0 src True = Some (st, out) \<longleftrightarrow>
     st = 0 \<and> (\<exists>n < 30. bits_of src = concat (map sym_code out) @ replicate n True)"
  by (rule decode_iff)

text \<open>
  The Huffman decoder writes at most eight bytes for five it reads, the room
  \<open>ngx_http_v2_state_field_len\<close> allocates, at every moment of a string that starts in the initial state.
\<close>

theorem huff_decode_room:
  assumes "ngx_http_huff_decode 0 src last' = Some (st, out)"
  shows "length out \<le> length src * 8 div 5"
proof -
  obtain t where t: "bitrun huff_tree huff_tree (bits_of src) = Some (t, out)"
    using decode_loop_tree [OF root_state(1), of 1 src] assms
    by (auto simp: ngx_http_huff_decode_def root_state split: option.splits if_splits)
  obtain p where "bits_of src = concat (map sym_code out) @ p"
    using huff_run_paths [OF t, of "[]"] node_root by auto
  from arg_cong [OF this, of length] show ?thesis using concat_codes_length [of out] by simp
qed

theorem huff_decode_room_witness: "length [0x61, 0x61, 0x61 :: byte] \<le> length [0x18, 0xc7 :: byte] * 8 div 5"
  using huff_decode_room [of "[0x18, 0xc7]" True 0 "[0x61, 0x61, 0x61]"] decode_example by simp

text \<open>
  C28: the Huffman decoder lets a string end with up to 29 ones: up to three bytes of padding are taken for an empty string,
  although a padding of more than seven bits is an error of the format (RFC 7541, 5.2).
\<close>

theorem huff_overlong_padding:
  "ngx_http_huff_decode 0 (replicate k 0xff) True = (if k \<le> 3 then Some (0, []) else None)"
proof -
  have ones: "bits_of (replicate k 0xff) = replicate (8 * k) True"
    by (induction k) (auto simp: byte_bits_def replicate_add replicate_num)
  show ?thesis
  proof (cases "k \<le> 3")
    case True
    then show ?thesis using decode_iff [of "replicate k 0xff" 0 "[]"] ones by simp
  next
    case False
    have "ngx_http_huff_decode 0 (replicate k 0xff) True \<noteq> Some (st, out)" for st out
      using ones_codes [of "8 * k" out] False by (auto simp: decode_iff ones)
    then show ?thesis using False by (cases "ngx_http_huff_decode 0 (replicate k 0xff) True") auto
  qed
qed

end
