(* ===== verification/Http_V2_Block.thy ===== *)
theory Http_V2_Block
  imports Http_V2_Headers Huffman_Roundtrip
begin

text \<open>
  What a sender of header blocks writes, \<open>ngx_http_v2_string_encode\<close> of
  \<open>src/http/v2/ngx_http_v2_encode.c\<close> and the kinds of fields of HPACK, what a block means, and
  that the handlers of \<open>Http_V2_Headers\<close> decode it to that.
\<close>

section \<open>What a sender writes\<close>

text \<open>\<open>ngx_http_v2_string_encode\<close>: the Huffman code when it is shorter.\<close>

definition ngx_http_v2_string_encode :: "ngx_str \<Rightarrow> bool \<Rightarrow> byte list" where
  "ngx_http_v2_string_encode src lower =
     (let tmp = ngx_http_huff_encode src lower in
      if length tmp > 0 then ngx_http_v2_write_int 0x80 (ngx_http_v2_prefix 7) (length tmp) @ tmp
      else ngx_http_v2_write_int 0 (ngx_http_v2_prefix 7) (length src) @ (if lower then ngx_strlow src else src))"

text \<open>A sender may also send every string as it is.\<close>

definition wire :: "bool \<Rightarrow> ngx_str \<Rightarrow> byte list" where
  "wire hf s = (if hf then ngx_http_v2_string_encode s False else ngx_http_v2_write_int 0 (ngx_http_v2_prefix 7) (length s) @ s)"

text \<open>The fields of a header block: an index, a literal (by the encoder of nginx or raw, indexed or not, its name by index or in full), a new table size.\<close>

datatype v2_field =
    Indexed nat
  | Literal bool bool nat ngx_str ngx_str
  | Size_update nat

fun render_field :: "v2_field \<Rightarrow> byte list" where
  "render_field (Indexed i) = ngx_http_v2_write_int 0x80 (ngx_http_v2_prefix 7) i"
| "render_field (Literal hf inc i name value') =
     (if inc then ngx_http_v2_write_int 0x40 (ngx_http_v2_prefix 6) i else ngx_http_v2_write_int 0 (ngx_http_v2_prefix 4) i)
       @ (if i = 0 then wire hf name else []) @ wire hf value'"
| "render_field (Size_update n) = ngx_http_v2_write_int 0x20 (ngx_http_v2_prefix 5) n"

definition table_nth :: "v2_header list \<Rightarrow> nat \<Rightarrow> v2_header option" where
  "table_nth es i = (let t = ngx_http_v2_static_table @ es in if 0 < i \<and> i \<le> length t then Some (t ! (i - 1)) else None)"

text \<open>What a field means for a table: the header it stands for, if any, and the table after it.\<close>

fun field_meaning :: "nat \<times> v2_header list \<Rightarrow> v2_field \<Rightarrow> (v2_header option \<times> nat \<times> v2_header list) option" where
  "field_meaning t (Indexed i) = map_option (\<lambda>h. (Some h, t)) (table_nth (snd t) i)"
| "field_meaning t (Literal hf inc i name value') =
     map_option (\<lambda>n. (Some (n, value'), if inc then spec_op (Add (n, value')) t else t))
       (if i = 0 then (if name = [] then None else Some name) else map_option fst (table_nth (snd t) i))"
| "field_meaning t (Size_update n) = (if n \<le> NGX_HTTP_V2_TABLE_SIZE then Some (None, spec_op (Resize n) t) else None)"

fun block_meaning :: "nat \<times> v2_header list \<Rightarrow> v2_field list \<Rightarrow> (v2_header list \<times> nat \<times> v2_header list) option" where
  "block_meaning t [] = Some ([], t)"
| "block_meaning t (f # fs) =
     (case field_meaning t f of
        None \<Rightarrow> None
      | Some (h, t') \<Rightarrow>
          (case block_meaning t' fs of
             None \<Rightarrow> None
           | Some (hs, t'') \<Rightarrow> Some ((case h of None \<Rightarrow> hs | Some h \<Rightarrow> h # hs), t'')))"

section \<open>The first byte of a field\<close>

lemma or_prefix:
  assumes "bits \<le> 7" "v < 2 ^ bits" "(ch :: byte) AND of_nat (ngx_http_v2_prefix bits) = 0" "unat ch + v < 256"
  shows "unat (ch OR of_nat v) = unat ch + v"
proof -
  have m: "of_nat (ngx_http_v2_prefix bits) = (mask bits :: byte)" by (simp add: ngx_http_v2_prefix_def mask_eq_exp_minus_1)
  have "(2::nat) ^ bits \<le> 2 ^ 7" using assms(1) by (intro power_increasing) auto
  then have v: "v < 256" using assms(2) by simp
  have "unat (of_nat v AND mask bits :: byte) = unat (of_nat v :: byte)"
    using v assms(2) unfolding take_bit_eq_mask [symmetric] unsigned_take_bit_eq by (simp add: unat_of_nat take_bit_nat_eq_self)
  then have "(of_nat v AND mask bits :: byte) = of_nat v" by (simp only: word_unat_eq_iff)
  then have "ch AND of_nat v = ch AND (of_nat v AND mask bits)" by simp
  also have "\<dots> = (ch AND mask bits) AND of_nat v" by (simp only: ac_simps)
  also have "\<dots> = 0" using assms(3) unfolding m by simp
  finally have "ch AND of_nat v = 0" .
  then have "ch OR of_nat v = ch + of_nat v" by (simp add: disjunctive_add_eq_or)
  then show ?thesis using assms(4) v by (simp add: unat_word_ariths unat_of_nat)
qed

text \<open>The first byte of \<open>ngx_http_v2_write_int\<close> tells the kind of field.\<close>

lemma write_int_hd:
  assumes "bits \<le> 7" "(ch :: byte) AND of_nat (ngx_http_v2_prefix bits) = 0" "unat ch + ngx_http_v2_prefix bits < 256"
  shows "ngx_http_v2_write_int ch (ngx_http_v2_prefix bits) v \<noteq> []"
    "unat (hd (ngx_http_v2_write_int ch (ngx_http_v2_prefix bits) v)) = unat ch + min v (ngx_http_v2_prefix bits)"
proof -
  have "min v (ngx_http_v2_prefix bits) < 2 ^ bits" by (auto simp: ngx_http_v2_prefix_def min_less_iff_disj)
  then have "unat (ch OR of_nat (min v (ngx_http_v2_prefix bits))) = unat ch + min v (ngx_http_v2_prefix bits)"
    using assms by (intro or_prefix) auto
  then show "unat (hd (ngx_http_v2_write_int ch (ngx_http_v2_prefix bits) v)) = unat ch + min v (ngx_http_v2_prefix bits)"
    by (auto simp: ngx_http_v2_write_int_def min_def split: if_splits)
qed (simp add: ngx_http_v2_write_int_def)

section \<open>Decoding\<close>

text \<open>A number that fits, in front of the rest of a block of which \<open>n\<close> bytes are left after it.\<close>

lemma parse_written:
  assumes "0 < bits" "bits \<le> 7" "(ch :: byte) AND of_nat (ngx_http_v2_prefix bits) = 0" "v < 2 ^ 21"
  shows "ngx_http_v2_parse_int (length (ngx_http_v2_write_int ch (ngx_http_v2_prefix bits) v) + n)
      (ngx_http_v2_write_int ch (ngx_http_v2_prefix bits) v @ rest) (ngx_http_v2_prefix bits) = Inr (v, rest, n)"
  using write_parse_int [OF assms(1-3), of v "length (ngx_http_v2_write_int ch (ngx_http_v2_prefix bits) v) + n" rest] assms(4)
  by simp

lemma run_call: "v2_call conf handler st p = Call handler' st' p' \<Longrightarrow> v2_run conf handler st p = v2_run conf handler' st' p'"
  by (subst v2_run.simps) simp

text \<open>A string in full: its length is read, then its bytes, raw or in the Huffman code.\<close>

lemma run_raw_string:
  assumes "vs_end_headers st" "vs_stream st \<noteq> None \<or> vs_index st" "length s \<le> vb_buffer_size conf" "length s < 2 ^ 21"
    "vs_length st = length (wire False s) + n" "n \<ge> length rest"
  shows "v2_run conf Field_len st (wire False s @ rest) =
    v2_run conf Process_header (st\<lparr>vs_length := n, vs_field := s, vs_field_rest := 0\<rparr>) rest"
proof -
  let ?w = "ngx_http_v2_write_int 0 (ngx_http_v2_prefix 7) (length s)"
  have raw: "wire False s = ?w @ s" by (simp add: wire_def)
  have w: "?w \<noteq> []" "unat (hd ?w) \<le> 127"
    using write_int_hd [of 7 0 "length s"] by (simp_all add: ngx_http_v2_prefix_def)
  have "drop_bit 7 (hd ?w) = 0"
  proof -
    have "unat (drop_bit 7 (hd ?w)) = 0" using w(2) unfolding unsigned_drop_bit_eq by (simp add: drop_bit_eq_div take_bit_eq_mod)
    then show ?thesis by (simp add: unat_eq_0)
  qed
  moreover have "ngx_http_v2_parse_int (vs_length st) (?w @ s @ rest) (ngx_http_v2_prefix 7) = Inr (length s, s @ rest, length s + n)"
    using parse_written [of 7 0 "length s" "length s + n" "s @ rest"] assms(4,5) raw by (simp add: add.assoc)
  ultimately have "v2_call conf Field_len st (wire False s @ rest) =
      Call Field_raw (st\<lparr>vs_length := length s + n, vs_field_rest := length s, vs_field := []\<rparr>) (s @ rest)"
    using assms w(1) raw by (auto simp: v2_call_def ngx_http_v2_state_field_len_def Let_def)
  moreover have "v2_call conf Field_raw (st\<lparr>vs_length := length s + n, vs_field_rest := length s, vs_field := []\<rparr>) (s @ rest) =
      Call Process_header (st\<lparr>vs_length := n, vs_field := s, vs_field_rest := 0\<rparr>) rest"
    by (simp add: v2_call_def ngx_http_v2_state_field_raw_def field_size_def field_end_def Let_def)
  ultimately show ?thesis by (simp only: run_call)
qed

lemma run_huff_string:
  assumes "vs_end_headers st" "vs_stream st \<noteq> None \<or> vs_index st" "length s \<le> vb_buffer_size conf" "length s < 2 ^ 21"
    "e = ngx_http_huff_encode s False" "e \<noteq> []" "vs_length st = length (wire True s) + n" "n \<ge> length rest" "vs_field_state st = 0"
  shows "v2_run conf Field_len st (wire True s @ rest) =
    v2_run conf Process_header (st\<lparr>vs_length := n, vs_field := s, vs_field_rest := 0\<rparr>) rest"
proof -
  let ?w = "ngx_http_v2_write_int 0x80 (ngx_http_v2_prefix 7) (length e)"
  have huff: "wire True s = ?w @ e" using assms(5,6) by (simp add: wire_def ngx_http_v2_string_encode_def Let_def)
  have short: "length e < length s" using huff_shorter [of s False] assms(5,6) by simp
  have dec: "ngx_http_huff_decode 0 e True = Some (0, s)" using huff_inverse [of s False] assms(5,6) by (simp add: lowered_def)
  have w: "?w \<noteq> []" "unat (hd ?w) \<ge> 128"
    using write_int_hd [of 7 "0x80" "length e"] by (simp_all add: ngx_http_v2_prefix_def)
  have "drop_bit 7 (hd ?w) \<noteq> 0"
  proof
    assume "drop_bit 7 (hd ?w) = 0"
    then have "unat (drop_bit 7 (hd ?w)) = 0" by simp
    moreover have "unat (drop_bit 7 (hd ?w)) = unat (hd ?w) div 128" by (simp add: drop_bit_eq_div unat_div)
    ultimately show False using w(2) by (simp add: div_eq_0_iff)
  qed
  moreover have "ngx_http_v2_parse_int (vs_length st) (?w @ e @ rest) (ngx_http_v2_prefix 7) = Inr (length e, e @ rest, length e + n)"
    using parse_written [of 7 "0x80" "length e" "length e + n" "e @ rest"] assms(4,7) short huff
    by (simp add: add.assoc ngx_http_v2_prefix_def)
  ultimately have "v2_call conf Field_len st (wire True s @ rest) =
      Call Field_huff (st\<lparr>vs_length := length e + n, vs_field_rest := length e, vs_field := []\<rparr>) (e @ rest)"
    using assms w(1) huff short by (auto simp: v2_call_def ngx_http_v2_state_field_len_def Let_def)
  moreover have "v2_call conf Field_huff (st\<lparr>vs_length := length e + n, vs_field_rest := length e, vs_field := []\<rparr>) (e @ rest) =
      Call Process_header (st\<lparr>vs_length := n, vs_field := s, vs_field_rest := 0\<rparr>) rest"
    using assms(9) dec by (simp add: v2_call_def ngx_http_v2_state_field_huff_def field_size_def field_end_def Let_def)
  ultimately show ?thesis by (simp only: run_call)
qed

lemma run_string:
  assumes "vs_end_headers st" "vs_stream st \<noteq> None \<or> vs_index st" "length s \<le> vb_buffer_size conf" "length s < 2 ^ 21"
    "vs_length st = length (wire hf s) + n" "n \<ge> length rest" "vs_field_state st = 0"
  shows "v2_run conf Field_len st (wire hf s @ rest) =
    v2_run conf Process_header (st\<lparr>vs_length := n, vs_field := s, vs_field_rest := 0\<rparr>) rest"
proof (cases "hf \<and> ngx_http_huff_encode s False \<noteq> []")
  case True
  then show ?thesis using run_huff_string [OF assms(1-4) refl, of n rest] assms(5-7) by simp
next
  case False
  then have "wire hf s = wire False s" by (auto simp: wire_def ngx_http_v2_string_encode_def)
  then show ?thesis using run_raw_string [OF assms(1-4), of n rest] assms(5,6) by simp
qed

text \<open>The state between two fields: \<open>n\<close> bytes of the block are left and the table is \<open>t\<close>.\<close>

definition between :: "v2_state \<Rightarrow> nat \<times> v2_header list \<Rightarrow> nat \<Rightarrow> bool" where
  "between st t n \<longleftrightarrow> vs_end_headers st \<and> \<not> vs_index st \<and> \<not> vs_parse_name st \<and> \<not> vs_parse_value st \<and>
     hp_inv (vs_hpack st) \<and> hp_table (vs_hpack st) = t \<and> vs_length st = n \<and> vs_field_state st = 0"

definition header_len :: "v2_header \<Rightarrow> nat" where
  "header_len h = length (fst h) + length (snd h)"

text \<open>How the handling of a header ends, whether it is put into the table or not.\<close>

lemma call_process:
  assumes "vs_end_headers st" "\<not> vs_parse_name st" "hp_inv (vs_hpack st)" "vs_stream st = Some r" "vs_field_state st = 0"
    and h: "h = (fst (vs_header st), if vs_parse_value st then vs_field st else snd (vs_header st))"
    and lim: "header_len h \<le> vs_header_limit st" and req: "v2_request_header (v2_conf.truncate conf) r h = (V_complete, r')"
  shows "\<exists>st'. v2_call conf Process_header st p = Call Header_complete st' p \<and> vs_stream st' = Some r' \<and>
    vs_header_limit st' = vs_header_limit st - header_len h \<and>
    between st' (if vs_index st then spec_op (Add h) (hp_table (vs_hpack st)) else hp_table (vs_hpack st)) (vs_length st) \<and>
    (hp_entries (vs_hpack st) \<noteq> None \<longrightarrow> hp_entries (vs_hpack st') \<noteq> None)"
proof -
  obtain rc g where add: "ngx_http_v2_add_header (vs_hpack st) h = (rc, g)" by fastforce
  have g: "rc = NGX_OK" "hp_inv g" "hp_entries g \<noteq> None" "hp_table g = spec_op (Add h) (hp_table (vs_hpack st))"
    using add_header_table [OF assms(3) add] by (simp_all add: hp_table_def)
  show ?thesis
  proof (cases "vs_index st")
    case True
    then show ?thesis
      using assms add g unfolding v2_call_def v2_handler.case ngx_http_v2_state_process_header_def
      by (cases "vs_parse_value st") (simp_all add: Let_def header_len_def between_def)
  next
    case False
    then show ?thesis
      using assms unfolding v2_call_def v2_handler.case ngx_http_v2_state_process_header_def
      by (cases "vs_parse_value st") (simp_all add: Let_def header_len_def between_def)
  qed
qed

text \<open>An index in the tables.\<close>

lemma get_table:
  assumes "hp_inv h" "table_nth (snd (hp_table h)) i = Some e"
  shows "\<exists>v. ngx_http_v2_get_indexed_header h i name_only header = (NGX_OK, if name_only then (fst e, v) else e)"
  using get_contents [OF assms(1), of i name_only header] assms(2)
  by (cases e) (auto simp: table_nth_def hp_table_def Let_def split: if_splits intro: prod_eqI)

lemma call_block:
  assumes b: "between st t (length (ngx_http_v2_write_int ch (ngx_http_v2_prefix bits) i) + n)" "i < 2 ^ 21"
    and ch: "(ch, bits) \<in> {(0x80, 7), (0x40, 6), (0x20, 5), (0, 4)}"
  shows "v2_call conf Header_block st (ngx_http_v2_write_int ch (ngx_http_v2_prefix bits) i @ rest) =
    (let st = (if bits = 6 then st\<lparr>vs_index := True\<rparr> else st)\<lparr>vs_length := n\<rparr> in
     if bits = 7 then
       (case ngx_http_v2_get_indexed_header (vs_hpack st) i False (vs_header st) of
          (rc, header) \<Rightarrow>
            if rc \<noteq> NGX_OK then Connection_error NGX_HTTP_V2_COMP_ERROR
            else Call Process_header (st\<lparr>vs_header := header\<rparr>) rest)
     else if bits = 5 then
       (case ngx_http_v2_table_size (vs_hpack st) i of
          (rc, hpack) \<Rightarrow>
            if rc \<noteq> NGX_OK then Connection_error NGX_HTTP_V2_COMP_ERROR
            else Call Header_complete (st\<lparr>vs_hpack := hpack\<rparr>) rest)
     else if i = 0 then Call Field_len (st\<lparr>vs_parse_name := True, vs_parse_value := True\<rparr>) rest
     else
       (case ngx_http_v2_get_indexed_header (vs_hpack st) i True (vs_header st) of
          (rc, header) \<Rightarrow>
            if rc \<noteq> NGX_OK then Connection_error NGX_HTTP_V2_COMP_ERROR
            else Call Field_len (st\<lparr>vs_header := header, vs_parse_value := True\<rparr>) rest))"
proof -
  define pr where "pr = ngx_http_v2_prefix bits"
  define w where "w = ngx_http_v2_write_int ch pr i"
  have c: "0 < bits" "bits \<le> 7" "ch AND of_nat pr = 0" "unat ch + pr < 256"
    using ch by (auto simp: ngx_http_v2_prefix_def pr_def)
  note w = write_int_hd [OF c(2) c(3,4) [unfolded pr_def], of i, folded pr_def, folded w_def]
  have hd: "hd w \<ge> 128 \<longleftrightarrow> bits = 7" "hd w \<ge> 64 \<longleftrightarrow> bits \<ge> 6" "hd w \<ge> 32 \<longleftrightarrow> bits \<ge> 5"
    using ch w(2) by (auto simp: word_le_nat_alt ngx_http_v2_prefix_def pr_def)
  have bits: "bits = 7 \<or> bits = 6 \<or> bits = 5 \<or> bits = 4" using ch by auto
  have int: "ngx_http_v2_parse_int (vs_length st) (w @ rest) pr = Inr (i, rest, n)"
    using parse_written [OF c(1,2) c(3) [unfolded pr_def] b(2), of n rest] b(1) by (simp add: between_def w_def pr_def)
  have pre: "ngx_http_v2_prefix (if hd w \<ge> 128 then 7 else if hd w \<ge> 64 then 6 else if hd w \<ge> 32 then 5 else 4) = pr"
    using bits hd by (auto simp: pr_def)
  have lt: "hd w < 128 \<longleftrightarrow> bits \<noteq> 7" "hd w < 64 \<longleftrightarrow> bits < 6" using hd by (auto simp: not_le [symmetric])
  have ne: "w @ rest \<noteq> []" "hd (w @ rest) = hd w" using w(1) by simp_all
  have e: "vs_end_headers st" using b(1) by (simp add: between_def)
  show ?thesis
    unfolding pr_def [symmetric] w_def [symmetric] v2_call_def v2_handler.case ngx_http_v2_state_header_block_def Let_def ne(2) pre
    using bits by (elim disjE) (simp_all add: w(1) e lt hd int)
qed

text \<open>The fields a receiver takes: numbers of at most four octets, strings that fit its buffers.\<close>

fun field_fits :: "v2_block_conf \<Rightarrow> v2_field \<Rightarrow> bool" where
  "field_fits conf (Indexed i) \<longleftrightarrow> i < 2 ^ 21"
| "field_fits conf (Literal hf inc i name value') \<longleftrightarrow> i < 2 ^ 21 \<and> length name < 2 ^ 21 \<and> length value' < 2 ^ 21 \<and>
     length name \<le> vb_buffer_size conf \<and> length value' \<le> vb_buffer_size conf"
| "field_fits conf (Size_update n) \<longleftrightarrow> True"

text \<open>The effect of a field that stands for the header \<open>h\<close> or for none.\<close>

definition field_effect :: "v2_block_conf \<Rightarrow> v2_state \<Rightarrow> v2_header option \<Rightarrow> nat \<times> v2_header list \<Rightarrow> nat \<Rightarrow> v2_state \<Rightarrow> bool" where
  "field_effect conf st h t' n st' \<longleftrightarrow> between st' t' n \<and>
     vs_header_limit st' = vs_header_limit st - (case h of None \<Rightarrow> 0 | Some h \<Rightarrow> header_len h) \<and>
     (\<exists>r r'. vs_stream st = Some r \<and> vs_stream st' = Some r' \<and>
        v2_request_headers (v2_conf.truncate conf) r (case h of None \<Rightarrow> [] | Some h \<Rightarrow> [h]) = Some r') \<and>
     (hp_entries (vs_hpack st) \<noteq> None \<longrightarrow> hp_entries (vs_hpack st') \<noteq> None)"

lemma process_effect:
  assumes "vs_end_headers st" "\<not> vs_parse_name st" "hp_inv (vs_hpack st)" "vs_stream st = Some r" "vs_field_state st = 0" "vs_length st = n"
    and h: "h = (fst (vs_header st), if vs_parse_value st then vs_field st else snd (vs_header st))"
    and lim: "header_len h \<le> vs_header_limit st" and req: "v2_request_header (v2_conf.truncate conf) r h = (V_complete, r')"
    and t': "t' = (if vs_index st then spec_op (Add h) (hp_table (vs_hpack st)) else hp_table (vs_hpack st))"
  shows "\<exists>st'. v2_run conf Process_header st p = v2_run conf Header_complete st' p \<and> field_effect conf st (Some h) t' n st'"
proof -
  obtain st' where st': "v2_call conf Process_header st p = Call Header_complete st' p" "vs_stream st' = Some r'"
      "vs_header_limit st' = vs_header_limit st - header_len h" "between st' t' n"
      "hp_entries (vs_hpack st) \<noteq> None \<longrightarrow> hp_entries (vs_hpack st') \<noteq> None"
    using call_process [OF assms(1-5) h lim req, of p] assms(6) t' by auto
  have "field_effect conf st (Some h) t' n st'"
    using st' assms(4) req by (auto simp: field_effect_def)
  then show ?thesis using run_call [OF st'(1)] by auto
qed

lemma run_indexed:
  assumes b: "between st t (length (render_field (Indexed i)) + n)" "field_meaning t (Indexed i) = Some (h, t')" "i < 2 ^ 21"
    and r: "vs_stream st = Some r" "v2_request_headers (v2_conf.truncate conf) r (case h of None \<Rightarrow> [] | Some h \<Rightarrow> [h]) = Some r'"
    and lim: "(case h of None \<Rightarrow> 0 | Some h \<Rightarrow> header_len h) \<le> vs_header_limit st"
  shows "\<exists>st'. v2_run conf Header_block st (render_field (Indexed i) @ rest) = v2_run conf Header_complete st' rest \<and>
    field_effect conf st h t' n st'"
proof -
  obtain e where e: "table_nth (snd t) i = Some e" "h = Some e" "t' = t" using b(2) by auto
  have s: "hp_inv (vs_hpack st)" "hp_table (vs_hpack st) = t" "vs_end_headers st" "\<not> vs_index st" "\<not> vs_parse_name st" "\<not> vs_parse_value st" "vs_field_state st = 0"
    using b(1) by (simp_all add: between_def)
  obtain v where g: "ngx_http_v2_get_indexed_header (vs_hpack st) i False (vs_header st) = (NGX_OK, e)"
    using get_table [OF s(1), of i e False "vs_header st"] s(2) e(1) by auto
  let ?st = "st\<lparr>vs_length := n, vs_header := e\<rparr>"
  have "v2_call conf Header_block st (render_field (Indexed i) @ rest) = Call Process_header ?st rest"
    using call_block [of st t "0x80" 7 i n conf rest] b(1,3) g by simp
  moreover have "\<exists>st'. v2_run conf Process_header ?st rest = v2_run conf Header_complete st' rest \<and> field_effect conf ?st (Some e) t n st'"
    by (rule process_effect [of _ r _ _ _ r']) (use s r e lim in \<open>auto split: prod.splits v2_verdict.splits\<close>)
  ultimately show ?thesis using e by (auto simp: run_call field_effect_def)
qed

lemma run_size_update:
  assumes b: "between st t (length (render_field (Size_update m)) + n)" "field_meaning t (Size_update m) = Some (h, t')"
    and r: "vs_stream st = Some r" and tab: "hp_entries (vs_hpack st) \<noteq> None"
  shows "\<exists>st'. v2_run conf Header_block st (render_field (Size_update m) @ rest) = v2_run conf Header_complete st' rest \<and>
    field_effect conf st h t' n st'"
proof -
  have m: "m \<le> NGX_HTTP_V2_TABLE_SIZE" "h = None" "t' = spec_op (Resize m) t" using b(2) by (auto split: if_splits)
  have s: "hp_inv (vs_hpack st)" "hp_table (vs_hpack st) = t" using b(1) by (simp_all add: between_def)
  obtain rc g where g: "ngx_http_v2_table_size (vs_hpack st) m = (rc, g)" by fastforce
  have g': "rc = NGX_OK" "hp_inv g" "hp_entries g \<noteq> None" "hp_table g = t'"
    using table_size_table [OF s(1) tab g] m s(2) by (auto simp: hp_table_def split: if_splits)
  let ?st = "st\<lparr>vs_length := n, vs_hpack := g\<rparr>"
  have "m < 2 ^ 21" using m(1) by (simp add: NGX_HTTP_V2_TABLE_SIZE_def)
  then have "v2_call conf Header_block st (render_field (Size_update m) @ rest) = Call Header_complete ?st rest"
    using call_block [of st t "0x20" 5 m n conf rest] b(1) g g'(1) by simp
  then show ?thesis
    using b(1) m(2) r g' by (intro exI [of _ ?st]) (auto simp: run_call field_effect_def between_def)
qed

lemma run_literal:
  assumes b: "between st t (length (render_field (Literal hf inc i name value')) + length rest)"
      "field_meaning t (Literal hf inc i name value') = Some (h, t')" "field_fits conf (Literal hf inc i name value')"
    and r: "vs_stream st = Some r" "v2_request_headers (v2_conf.truncate conf) r (case h of None \<Rightarrow> [] | Some h \<Rightarrow> [h]) = Some r'"
    and lim: "(case h of None \<Rightarrow> 0 | Some h \<Rightarrow> header_len h) \<le> vs_header_limit st"
  shows "\<exists>st'. v2_run conf Header_block st (render_field (Literal hf inc i name value') @ rest) = v2_run conf Header_complete st' rest \<and>
    field_effect conf st h t' (length rest) st'"
proof -
  define ch :: byte where "ch = (if inc then 0x40 else 0)"
  define bits :: nat where "bits = (if inc then 6 else 4)"
  let ?w = "ngx_http_v2_write_int ch (ngx_http_v2_prefix bits) i"
  let ?name = "if i = 0 then wire hf name else []"
  let ?m = "length ?name + (length (wire hf value') + length rest)"
  have render: "render_field (Literal hf inc i name value') = ?w @ ?name @ wire hf value'" by (simp add: ch_def bits_def)
  obtain n where n: "h = Some (n, value')" "t' = (if inc then spec_op (Add (n, value')) t else t)"
      "(if i = 0 then (if name = [] then None else Some name) else map_option fst (table_nth (snd t) i)) = Some n"
    using b(2) by auto
  have s: "hp_inv (vs_hpack st)" "hp_table (vs_hpack st) = t" "vs_end_headers st" "\<not> vs_index st" "\<not> vs_parse_name st" "\<not> vs_parse_value st" "vs_field_state st = 0"
    using b(1) by (simp_all add: between_def)
  have call: "v2_call conf Header_block st (?w @ ?name @ wire hf value' @ rest) =
      (let st = (if bits = 6 then st\<lparr>vs_index := True\<rparr> else st)\<lparr>vs_length := ?m\<rparr> in
       if i = 0 then Call Field_len (st\<lparr>vs_parse_name := True, vs_parse_value := True\<rparr>) (?name @ wire hf value' @ rest)
       else
         (case ngx_http_v2_get_indexed_header (vs_hpack st) i True (vs_header st) of
            (rc, header) \<Rightarrow>
              if rc \<noteq> NGX_OK then Connection_error NGX_HTTP_V2_COMP_ERROR
              else Call Field_len (st\<lparr>vs_header := header, vs_parse_value := True\<rparr>) (?name @ wire hf value' @ rest)))"
  proof -
    have cb: "(ch, bits) \<in> {(0x80, 7), (0x40, 6), (0x20, 5), (0, 4)}" "bits \<noteq> 7" "bits \<noteq> 5" by (simp_all add: ch_def bits_def)
    have bt: "between st t (length ?w + ?m)" using b(1) unfolding render length_append add.assoc .
    have lt: "i < 2 ^ 21" using b(3) by simp
    show ?thesis unfolding call_block [OF bt lt cb(1)] using cb(2,3) by (simp only: if_False)
  qed
  let ?st = "\<lambda>st1 v. st1\<lparr>vs_index := inc, vs_length := length (wire hf value') + length rest, vs_header := (n, v), vs_parse_name := False, vs_parse_value := True\<rparr>"
  have "\<exists>st1 v. v2_run conf Header_block st (?w @ ?name @ wire hf value' @ rest) = v2_run conf Field_len (?st st1 v) (wire hf value' @ rest) \<and>
      vs_hpack st1 = vs_hpack st \<and> vs_end_headers st1 \<and> vs_stream st1 = Some r \<and> vs_header_limit st1 = vs_header_limit st \<and> vs_field_state st1 = 0"
  proof (cases "i = 0")
    case True
    let ?st1 = "(if inc then st\<lparr>vs_index := True\<rparr> else st)\<lparr>vs_length := ?m, vs_parse_name := True, vs_parse_value := True\<rparr>"
    let ?st2 = "?st1\<lparr>vs_length := length (wire hf value') + length rest, vs_field := name, vs_field_rest := 0\<rparr>"
    have nm: "n = name" "name \<noteq> []" using n(3) True by (auto split: if_splits)
    have "v2_call conf Header_block st (?w @ ?name @ wire hf value' @ rest) = Call Field_len ?st1 (wire hf name @ wire hf value' @ rest)"
      unfolding call using True by (simp add: bits_def Let_def)
    moreover have "v2_run conf Field_len ?st1 (wire hf name @ wire hf value' @ rest) = v2_run conf Process_header ?st2 (wire hf value' @ rest)"
      by (rule run_string) (use s r b(3) True in auto)
    moreover have "v2_call conf Process_header ?st2 (wire hf value' @ rest) = Call Field_len (?st ?st2 (snd (vs_header st))) (wire hf value' @ rest)"
      using nm s by (simp add: v2_call_def ngx_http_v2_state_process_header_def Let_def)
    ultimately have "v2_run conf Header_block st (?w @ ?name @ wire hf value' @ rest) =
        v2_run conf Field_len (?st ?st2 (snd (vs_header st))) (wire hf value' @ rest)"
      by (simp only: run_call)
    then show ?thesis using s r by (intro exI [of _ ?st2] exI [of _ "snd (vs_header st)"]) simp
  next
    case False
    then obtain e where e: "table_nth (snd t) i = Some e" "n = fst e" using n(3) by auto
    obtain v where g: "ngx_http_v2_get_indexed_header (vs_hpack st) i True (vs_header st) = (NGX_OK, (n, v))"
      using get_table [OF s(1), of i e True "vs_header st"] s(2) e by auto
    have "v2_call conf Header_block st (?w @ ?name @ wire hf value' @ rest) = Call Field_len (?st st v) (wire hf value' @ rest)"
      unfolding call using False g s by (auto simp: bits_def Let_def)
    then show ?thesis using s r by (intro exI [of _ st] exI [of _ v]) (simp add: run_call)
  qed
  then obtain st1 v where st1: "v2_run conf Header_block st (?w @ ?name @ wire hf value' @ rest) = v2_run conf Field_len (?st st1 v) (wire hf value' @ rest)"
      "vs_hpack st1 = vs_hpack st" "vs_end_headers st1" "vs_stream st1 = Some r" "vs_header_limit st1 = vs_header_limit st" "vs_field_state st1 = 0" by blast
  let ?st3 = "(?st st1 v)\<lparr>vs_length := length rest, vs_field := value', vs_field_rest := 0\<rparr>"
  have "v2_run conf Field_len (?st st1 v) (wire hf value' @ rest) = v2_run conf Process_header ?st3 rest"
    by (rule run_string) (use st1 b(3) in auto)
  moreover have "\<exists>st'. v2_run conf Process_header ?st3 rest = v2_run conf Header_complete st' rest \<and>
      field_effect conf ?st3 (Some (n, value')) t' (length rest) st'"
    by (rule process_effect [of _ r _ _ _ r']) (use s st1 r n lim in \<open>auto split: prod.splits v2_verdict.splits\<close>)
  ultimately show ?thesis using st1 r n(1) unfolding render by (auto simp: field_effect_def)
qed

text \<open>What a block needs of the connection: a table in memory when its size is changed, and the limit of the headers.\<close>

definition changes_size :: "v2_field \<Rightarrow> bool" where
  "changes_size f \<longleftrightarrow> (case f of Size_update n \<Rightarrow> True | _ \<Rightarrow> False)"

lemma run_field:
  assumes "between st t (length (render_field f) + length rest)" "field_meaning t f = Some (h, t')" "field_fits conf f"
    "vs_stream st = Some r" "v2_request_headers (v2_conf.truncate conf) r (case h of None \<Rightarrow> [] | Some h \<Rightarrow> [h]) = Some r'"
    "(case h of None \<Rightarrow> 0 | Some h \<Rightarrow> header_len h) \<le> vs_header_limit st"
    "changes_size f \<longrightarrow> hp_entries (vs_hpack st) \<noteq> None"
  shows "\<exists>st'. v2_run conf Header_block st (render_field f @ rest) = v2_run conf Header_complete st' rest \<and>
    field_effect conf st h t' (length rest) st'"
proof (cases f)
  case (Indexed i)
  then show ?thesis using run_indexed [of st t i "length rest" h t' r conf r' rest] assms by simp
next
  case (Literal hf inc i n v)
  then show ?thesis using run_literal [of st t hf inc i n v rest h t' conf r r'] assms by blast
next
  case (Size_update m)
  then show ?thesis using run_size_update [of st t m "length rest" h t' r conf rest] assms by (simp add: changes_size_def)
qed

lemma render_nonempty: "render_field f \<noteq> []"
  by (cases f) (simp_all add: ngx_http_v2_write_int_def)

lemma request_headers_append:
  "v2_request_headers conf r (hs @ hs') = Option.bind (v2_request_headers conf r hs) (\<lambda>r. v2_request_headers conf r hs')"
  by (induction hs arbitrary: r) (auto split: prod.splits v2_verdict.splits)

lemma run_block:
  assumes "fs \<noteq> []" "between st t (length (concat (map render_field fs)))" "block_meaning t fs = Some (hs, t')" "\<forall>f \<in> set fs. field_fits conf f"
    "vs_stream st = Some r" "v2_request_headers (v2_conf.truncate conf) r hs = Some r'" "sum_list (map header_len hs) \<le> vs_header_limit st"
    "(\<exists>f \<in> set fs. changes_size f) \<longrightarrow> hp_entries (vs_hpack st) \<noteq> None"
  shows "\<exists>st'. v2_run conf Header_block st (concat (map render_field fs)) = Complete st' [] \<and> vs_stream st' = Some r' \<and>
    hp_inv (vs_hpack st') \<and> hp_table (vs_hpack st') = t'"
  using assms
proof (induction fs arbitrary: st t hs r)
  case (Cons f fs)
  let ?rest = "concat (map render_field fs)"
  obtain h t1 hs1 where m: "field_meaning t f = Some (h, t1)" "block_meaning t1 fs = Some (hs1, t')"
      "hs = (case h of None \<Rightarrow> [] | Some h \<Rightarrow> [h]) @ hs1"
    using Cons.prems(3) by (auto split: option.splits prod.splits)
  obtain r1 where r1: "v2_request_headers (v2_conf.truncate conf) r (case h of None \<Rightarrow> [] | Some h \<Rightarrow> [h]) = Some r1"
      "v2_request_headers (v2_conf.truncate conf) r1 hs1 = Some r'"
    using Cons.prems(6) unfolding m(3) request_headers_append by (auto simp: bind_eq_Some_conv)
  have lim: "(case h of None \<Rightarrow> 0 | Some h \<Rightarrow> header_len h) + sum_list (map header_len hs1) \<le> vs_header_limit st"
    using Cons.prems(7) m(3) by (cases h) auto
  obtain st1 where st1: "v2_run conf Header_block st (render_field f @ ?rest) = v2_run conf Header_complete st1 ?rest"
      "field_effect conf st h t1 (length ?rest) st1"
    using run_field [of st t f ?rest h t1 conf r r1] Cons.prems m r1 lim by auto
  have e: "between st1 t1 (length ?rest)" "vs_stream st1 = Some r1" "sum_list (map header_len hs1) \<le> vs_header_limit st1"
      "hp_entries (vs_hpack st) \<noteq> None \<longrightarrow> hp_entries (vs_hpack st1) \<noteq> None"
    using st1(2) r1(1) Cons.prems(5) lim by (auto simp: field_effect_def)
  show ?case
  proof (cases "fs = []")
    case True
    then have "v2_run conf Header_complete st1 [] = Complete st1 []"
      using e(1) by (subst v2_run.simps) (simp add: v2_call_def ngx_http_v2_state_header_complete_def between_def)
    then show ?thesis using True st1(1) e m r1 by (auto simp: between_def)
  next
    case False
    then have "?rest \<noteq> []" using render_nonempty by (cases fs) auto
    then have "v2_call conf Header_complete st1 ?rest = Call Header_block st1 ?rest"
      using e(1) by (simp add: v2_call_def ngx_http_v2_state_header_complete_def between_def del: concat_eq_Nil_conv)
    moreover have "\<exists>st'. v2_run conf Header_block st1 ?rest = Complete st' [] \<and> vs_stream st' = Some r' \<and>
        hp_inv (vs_hpack st') \<and> hp_table (vs_hpack st') = t'"
      using Cons.IH [OF False e(1) m(2) _ e(2) r1(2) e(3)] Cons.prems(4,8) e(4) by auto
    ultimately show ?thesis using st1(1) by (simp add: run_call)
  qed
qed simp


definition example_block_conf :: v2_block_conf where
  "example_block_conf = v2_conf.extend example_v2_conf (v2_block_conf.fields 8192)"

definition example_v2_state :: v2_state where
  "example_v2_state = \<lparr>vs_length = 7, vs_end_headers = True, vs_stream = Some v2_request_init, vs_index = False, vs_parse_name = False,
     vs_parse_value = False, vs_header = ([], []), vs_header_limit = 100, vs_field_state = 0, vs_field = [], vs_field_rest = 0,
     vs_hpack = hpack_init\<rparr>"


section \<open>Skipped fields\<close>



end
