(* ===== verification/Http_V2_Frames.thy ===== *)
theory Http_V2_Frames
  imports Http_V2_Headers Complex_Main
begin

text \<open>
  The frames of an HTTP/2 connection other than header blocks and priorities
  (\<open>src/http/v2/ngx_http_v2.c\<close>): the frame header, DATA with its flow control and the buffer for
  data that comes early, RST_STREAM, SETTINGS, PING, GOAWAY, WINDOW_UPDATE, the frames that are
  skipped, the control frames sent in return, and the loop that reads them. \<open>V2_Flow\<close>, \<open>V2_Send\<close> and
  \<open>V2_Wire\<close> hold what is shown of them.
\<close>

section \<open>Numbers and frame headers\<close>

text \<open>\<open>ngx_http_v2_parse_uint32\<close> and its kin: numbers in network byte order.\<close>

definition be_value :: "byte list \<Rightarrow> nat" where
  "be_value = foldl (\<lambda>n b. n * 256 + unat b) 0"

definition ngx_http_v2_parse_uint16 :: "byte list \<Rightarrow> nat" where
  "ngx_http_v2_parse_uint16 p = be_value (take 2 p)"

definition ngx_http_v2_parse_uint32 :: "byte list \<Rightarrow> nat" where
  "ngx_http_v2_parse_uint32 p = be_value (take 4 p)"

definition ngx_http_v2_parse_length :: "nat \<Rightarrow> nat" where
  "ngx_http_v2_parse_length head = head div 2 ^ 8"

definition ngx_http_v2_parse_type :: "nat \<Rightarrow> nat" where
  "ngx_http_v2_parse_type head = head mod 2 ^ 8"

definition ngx_http_v2_parse_sid :: "byte list \<Rightarrow> nat" where
  "ngx_http_v2_parse_sid p = ngx_http_v2_parse_uint32 p mod 2 ^ 31"

definition ngx_http_v2_parse_window :: "byte list \<Rightarrow> nat" where
  "ngx_http_v2_parse_window p = ngx_http_v2_parse_uint32 p mod 2 ^ 31"

definition ngx_http_v2_write_uint32 :: "nat \<Rightarrow> byte list" where
  "ngx_http_v2_write_uint32 s = map (\<lambda>k. word_of_nat (s div 2 ^ k)) [24, 16, 8, 0]"

definition ngx_http_v2_write_len_and_type :: "nat \<Rightarrow> nat \<Rightarrow> byte list" where
  "ngx_http_v2_write_len_and_type l t = ngx_http_v2_write_uint32 (l * 2 ^ 8 + t)"

definition NGX_HTTP_V2_STATE_BUFFER_SIZE :: nat where "NGX_HTTP_V2_STATE_BUFFER_SIZE = 16"
definition NGX_HTTP_V2_FRAME_HEADER_SIZE :: nat where "NGX_HTTP_V2_FRAME_HEADER_SIZE = 9"
definition NGX_HTTP_V2_DEFAULT_FRAME_SIZE :: nat where "NGX_HTTP_V2_DEFAULT_FRAME_SIZE = 2 ^ 14"
definition NGX_HTTP_V2_MAX_FRAME_SIZE :: nat where "NGX_HTTP_V2_MAX_FRAME_SIZE = 2 ^ 24 - 1"
definition NGX_HTTP_V2_MAX_WINDOW :: nat where "NGX_HTTP_V2_MAX_WINDOW = 2 ^ 31 - 1"
definition NGX_HTTP_V2_ACK_FLAG :: byte where "NGX_HTTP_V2_ACK_FLAG = 0x01"
definition NGX_HTTP_V2_END_STREAM_FLAG :: byte where "NGX_HTTP_V2_END_STREAM_FLAG = 0x01"
definition NGX_HTTP_V2_PADDED_FLAG :: byte where "NGX_HTTP_V2_PADDED_FLAG = 0x08"
definition NGX_HTTP_V2_FLOW_CTRL_ERROR :: nat where "NGX_HTTP_V2_FLOW_CTRL_ERROR = 0x3"
definition NGX_HTTP_V2_STREAM_CLOSED :: nat where "NGX_HTTP_V2_STREAM_CLOSED = 0x5"

lemmas v2_consts = NGX_HTTP_V2_STATE_BUFFER_SIZE_def NGX_HTTP_V2_FRAME_HEADER_SIZE_def NGX_HTTP_V2_DEFAULT_FRAME_SIZE_def
  NGX_HTTP_V2_MAX_FRAME_SIZE_def NGX_HTTP_V2_MAX_WINDOW_def NGX_HTTP_V2_ACK_FLAG_def NGX_HTTP_V2_END_STREAM_FLAG_def
  NGX_HTTP_V2_PADDED_FLAG_def NGX_HTTP_V2_FLOW_CTRL_ERROR_def NGX_HTTP_V2_STREAM_CLOSED_def

text \<open>A number kept in a \<open>size_t\<close>.\<close>

definition size_t :: "int \<Rightarrow> nat" where
  "size_t n = nat (n mod 2 ^ 64)"

section \<open>State\<close>

text \<open>
  \<open>ngx_http_v2_stream_t\<close> and what the frame handlers ask of its request: whether the body is
  being read (\<open>request_body\<close>), read into buffers (\<open>reading_body\<close> without \<open>no_buffering\<close>), and
  whether there is one. \<open>vt_preread\<close> is what the preread buffer holds; \<open>vt_rank\<close> and \<open>vt_rel_weight\<close>
  are those of its node, \<open>vt_free_frames\<close> the number of its frames to be used again.
\<close>

record v2_stream =
  vt_send_window :: int
  vt_recv_window :: nat
  vt_preread :: "byte list"
  vt_request_body :: bool
  vt_reading_buffered :: bool
  vt_has_body :: bool
  vt_waiting :: bool
  vt_exhausted :: bool
  vt_in_closed :: bool
  vt_out_closed :: bool
  vt_rst_sent :: bool
  vt_no_flow_control :: bool
  vt_skip_data :: bool
  vt_rank :: nat
  vt_rel_weight :: rat
  vt_queued :: nat
  vt_frames :: nat
  vt_free_frames :: nat

text \<open>
  A frame of the output queue: its stream, if any, its length, whether it is being written, whether
  it ends its stream, and its bytes (of a DATA frame only the header).
\<close>

record v2_out_frame =
  vo_stream :: "nat option"
  vo_length :: nat
  vo_blocked :: bool
  vo_fin :: bool
  vo_bytes :: "byte list"

text \<open>
  \<open>ngx_http_v2_connection_t\<close> with the frame part of its state: \<open>vc_streams\<close> are the nodes of
  \<open>streams_index\<close> that have a stream, by identifier; \<open>vc_free_frames\<close> the number of frames to be used
  again; \<open>vc_out\<close> the queue from \<open>last_out\<close> on.
\<close>

record v2_conn =
  vc_length :: nat
  vc_padding :: nat
  vc_flags :: byte
  vc_sid :: nat
  vc_stream :: "nat option"
  vc_streams :: "(nat \<times> v2_stream) list"
  vc_waiting :: "nat list"
  vc_send_window :: nat
  vc_recv_window :: nat
  vc_init_window :: nat
  vc_frame_size :: nat
  vc_concurrent_pushes :: nat
  vc_payload_bytes :: nat
  vc_total_bytes :: nat
  vc_frames :: nat
  vc_free_frames :: nat
  vc_out :: "v2_out_frame list"
  vc_settings_ack :: bool
  vc_table_update :: bool
  vc_push_disabled :: bool

text \<open>
  The configuration and the code that is called back: the read and write events of a stream's
  request and the processing of its body, each a function of the connection.
\<close>

record v2_env =
  ve_preread_size :: nat
  ve_concurrent_pushes :: nat
  ve_read_event :: "nat \<Rightarrow> v2_conn \<Rightarrow> v2_conn"
  ve_write_event :: "nat \<Rightarrow> v2_conn \<Rightarrow> v2_conn"
  ve_body :: "nat \<Rightarrow> byte list \<Rightarrow> bool \<Rightarrow> v2_conn \<Rightarrow> v2_conn"

datatype v2_fhandler =
    F_head | F_data | F_read_data | F_headers | F_priority | F_rst_stream | F_settings | F_settings_params
  | F_push_promise | F_ping | F_goaway | F_window_update | F_continuation | F_skip

text \<open>
  What a handler does: it calls another one, saves its input, completes the frame, or fails,
  with an alert when the code logs one. \<open>FLeave\<close> stands for the handlers of header blocks and of priorities.
\<close>

datatype v2_fresult =
    FCall v2_fhandler v2_conn "byte list"
  | FSave v2_fhandler v2_conn "byte list"
  | FNext v2_conn "byte list"
  | FLeave v2_fhandler v2_conn "byte list"
  | FError bool nat

definition get_stream :: "v2_conn \<Rightarrow> nat \<Rightarrow> v2_stream option" where
  "get_stream c sid = map_of (vc_streams c) sid"

definition set_stream :: "nat \<Rightarrow> v2_stream \<Rightarrow> v2_conn \<Rightarrow> v2_conn" where
  "set_stream sid s c = c\<lparr>vc_streams := map (\<lambda>(i, t). (i, if i = sid then s else t)) (vc_streams c)\<rparr>"

section \<open>Control frames\<close>

text \<open>\<open>ngx_http_v2_get_frame\<close>: a frame with its header, \<open>None\<close> when there are too many.\<close>

definition ngx_http_v2_get_frame :: "v2_conn \<Rightarrow> nat \<Rightarrow> nat \<Rightarrow> byte \<Rightarrow> nat \<Rightarrow> (v2_out_frame \<times> v2_conn) option" where
  "ngx_http_v2_get_frame c len type flags sid =
     (let frame = \<lparr>vo_stream = None, vo_length = len, vo_blocked = False, vo_fin = False,
            vo_bytes = ngx_http_v2_write_len_and_type len type @ [flags] @ ngx_http_v2_write_uint32 sid\<rparr> in
      if vc_free_frames c > 0 then Some (frame, c\<lparr>vc_free_frames := vc_free_frames c - 1\<rparr>)
      else if vc_frames c < 10000 then Some (frame, c\<lparr>vc_frames := vc_frames c + 1\<rparr>)
      else None)"

definition ngx_http_v2_queue_blocked_frame :: "v2_out_frame \<Rightarrow> v2_conn \<Rightarrow> v2_conn" where
  "ngx_http_v2_queue_blocked_frame frame c =
     (let passes = (\<lambda>f. \<not> (vo_blocked f \<or> vo_stream f = None)) in
      c\<lparr>vc_out := takeWhile passes (vc_out c) @ frame # dropWhile passes (vc_out c)\<rparr>)"

definition ngx_http_v2_queue_ordered_frame :: "v2_out_frame \<Rightarrow> v2_conn \<Rightarrow> v2_conn" where
  "ngx_http_v2_queue_ordered_frame frame c = c\<lparr>vc_out := frame # vc_out c\<rparr>"

definition ngx_http_v2_send_window_update :: "v2_conn \<Rightarrow> nat \<Rightarrow> nat \<Rightarrow> v2_conn option" where
  "ngx_http_v2_send_window_update c sid window =
     map_option (\<lambda>(frame, c). ngx_http_v2_queue_blocked_frame (frame\<lparr>vo_bytes := vo_bytes frame @ ngx_http_v2_write_uint32 window\<rparr>) c)
       (ngx_http_v2_get_frame c 4 0x8 0 sid)"

definition ngx_http_v2_send_rst_stream :: "v2_conn \<Rightarrow> nat \<Rightarrow> nat \<Rightarrow> v2_conn option" where
  "ngx_http_v2_send_rst_stream c sid status =
     map_option (\<lambda>(frame, c). ngx_http_v2_queue_blocked_frame (frame\<lparr>vo_bytes := vo_bytes frame @ ngx_http_v2_write_uint32 status\<rparr>) c)
       (ngx_http_v2_get_frame c 4 0x3 0 sid)"

definition ngx_http_v2_terminate_stream :: "v2_env \<Rightarrow> v2_conn \<Rightarrow> nat \<Rightarrow> v2_stream \<Rightarrow> nat \<Rightarrow> v2_conn option" where
  "ngx_http_v2_terminate_stream env c sid s status =
     (if vt_rst_sent s then Some c
      else
        (case ngx_http_v2_send_rst_stream c sid status of
           None \<Rightarrow> None
         | Some c \<Rightarrow> Some (ve_read_event env sid (set_stream sid (s\<lparr>vt_rst_sent := True, vt_skip_data := True\<rparr>) c))))"

section \<open>Handlers\<close>

definition ngx_http_v2_state_save :: "v2_conn \<Rightarrow> byte list \<Rightarrow> v2_fhandler \<Rightarrow> v2_fresult" where
  "ngx_http_v2_state_save c p handler =
     (if length p > NGX_HTTP_V2_STATE_BUFFER_SIZE then FError True NGX_HTTP_V2_INTERNAL_ERROR
      else FSave handler c p)"

definition ngx_http_v2_state_complete :: "v2_conn \<Rightarrow> byte list \<Rightarrow> v2_fresult" where
  "ngx_http_v2_state_complete c p = FNext (c\<lparr>vc_stream := None\<rparr>) p"

definition ngx_http_v2_state_skip :: "v2_conn \<Rightarrow> byte list \<Rightarrow> v2_fresult" where
  "ngx_http_v2_state_skip c p =
     (let size' = length p in
      if size' < vc_length c then ngx_http_v2_state_save (c\<lparr>vc_length := vc_length c - size'\<rparr>) [] F_skip
      else ngx_http_v2_state_complete c (drop (vc_length c) p))"

definition ngx_http_v2_state_skip_padded :: "v2_conn \<Rightarrow> byte list \<Rightarrow> v2_fresult" where
  "ngx_http_v2_state_skip_padded c p = FCall F_skip (c\<lparr>vc_length := vc_length c + vc_padding c, vc_padding := 0\<rparr>) p"

definition ngx_http_v2_frame_states :: "v2_fhandler list" where
  "ngx_http_v2_frame_states = [F_data, F_headers, F_priority, F_rst_stream, F_settings, F_push_promise, F_ping, F_goaway,
     F_window_update, F_continuation]"

definition ngx_http_v2_state_head :: "v2_conn \<Rightarrow> byte list \<Rightarrow> v2_fresult" where
  "ngx_http_v2_state_head c p =
     (if length p < NGX_HTTP_V2_FRAME_HEADER_SIZE then ngx_http_v2_state_save c p F_head
      else
        (let head = ngx_http_v2_parse_uint32 p;
             c = c\<lparr>vc_length := ngx_http_v2_parse_length head, vc_flags := p ! 4, vc_sid := ngx_http_v2_parse_sid (drop 5 p)\<rparr>;
             p = drop NGX_HTTP_V2_FRAME_HEADER_SIZE p;
             type = ngx_http_v2_parse_type head in
         if type \<ge> length ngx_http_v2_frame_states then FCall F_skip c p
         else FCall (ngx_http_v2_frame_states ! type) c p))"

text \<open>The window of a stream without flow control is opened again; \<open>None\<close> when the frame for it fails.\<close>

definition data_refill :: "v2_conn \<Rightarrow> v2_stream \<Rightarrow> (v2_stream \<times> v2_conn) option" where
  "data_refill c s =
     (if vt_no_flow_control s \<and> vt_recv_window s < NGX_HTTP_V2_MAX_WINDOW div 4 then
        map_option
          (\<lambda>c. let s = s\<lparr>vt_recv_window := NGX_HTTP_V2_MAX_WINDOW\<rparr> in (s, set_stream (vc_sid c) s c))
          (ngx_http_v2_send_window_update c (vc_sid c) (NGX_HTTP_V2_MAX_WINDOW - vt_recv_window s))
      else Some (s, c))"

definition data_accept :: "v2_env \<Rightarrow> v2_conn \<Rightarrow> v2_stream \<Rightarrow> byte list \<Rightarrow> v2_fresult" where
  "data_accept env c s p =
     (if vt_in_closed s then
        (case ngx_http_v2_terminate_stream env c (vc_sid c) s NGX_HTTP_V2_STREAM_CLOSED of
           None \<Rightarrow> FError False NGX_HTTP_V2_INTERNAL_ERROR
         | Some c \<Rightarrow> ngx_http_v2_state_skip_padded c p)
      else FCall F_read_data (c\<lparr>vc_stream := Some (vc_sid c)\<rparr>) p)"

text \<open>The window of the stream, then that of the connection, after the padding.\<close>

definition data_stream :: "v2_env \<Rightarrow> v2_conn \<Rightarrow> nat \<Rightarrow> byte list \<Rightarrow> v2_fresult" where
  "data_stream env c size' p =
     (case get_stream c (vc_sid c) of
        None \<Rightarrow> ngx_http_v2_state_skip_padded c p
      | Some s \<Rightarrow>
          if size' > vt_recv_window s then
            (case ngx_http_v2_terminate_stream env c (vc_sid c) s NGX_HTTP_V2_FLOW_CTRL_ERROR of
               None \<Rightarrow> FError False NGX_HTTP_V2_INTERNAL_ERROR
             | Some c \<Rightarrow> ngx_http_v2_state_skip_padded c p)
          else
            (let s = s\<lparr>vt_recv_window := vt_recv_window s - size'\<rparr> in
             case data_refill (set_stream (vc_sid c) s c) s of
               None \<Rightarrow> FError False NGX_HTTP_V2_INTERNAL_ERROR
             | Some (s, c) \<Rightarrow> data_accept env c s p))"

definition data_window :: "v2_env \<Rightarrow> v2_conn \<Rightarrow> nat \<Rightarrow> byte list \<Rightarrow> v2_fresult" where
  "data_window env c size' p =
     (if vc_sid c = 0 then FError False NGX_HTTP_V2_PROTOCOL_ERROR
      else if size' > vc_recv_window c then FError False NGX_HTTP_V2_FLOW_CTRL_ERROR
      else
        (let c = c\<lparr>vc_recv_window := vc_recv_window c - size'\<rparr> in
         if vc_recv_window c < NGX_HTTP_V2_MAX_WINDOW div 4 then
           (case ngx_http_v2_send_window_update c 0 (NGX_HTTP_V2_MAX_WINDOW - vc_recv_window c) of
              None \<Rightarrow> FError False NGX_HTTP_V2_INTERNAL_ERROR
            | Some c \<Rightarrow> data_stream env (c\<lparr>vc_recv_window := NGX_HTTP_V2_MAX_WINDOW\<rparr>) size' p)
         else data_stream env c size' p))"

definition ngx_http_v2_state_data :: "v2_env \<Rightarrow> v2_conn \<Rightarrow> byte list \<Rightarrow> v2_fresult" where
  "ngx_http_v2_state_data env c p =
     (let size' = vc_length c in
      if vc_flags c AND NGX_HTTP_V2_PADDED_FLAG \<noteq> 0 then
        if vc_length c = 0 then FError False NGX_HTTP_V2_SIZE_ERROR
        else if p = [] then ngx_http_v2_state_save c p F_data
        else
          (let c = c\<lparr>vc_padding := unat (hd p)\<rparr>; p = tl p in
           if vc_padding c \<ge> size' then FError False NGX_HTTP_V2_PROTOCOL_ERROR
           else data_window env (c\<lparr>vc_length := vc_length c - (1 + vc_padding c)\<rparr>) size' p)
      else data_window env c size' p)"

text \<open>What follows the data that was read: more of it, the padding, or the next frame.\<close>

definition read_data_end :: "nat \<Rightarrow> v2_conn \<Rightarrow> byte list \<Rightarrow> v2_fresult" where
  "read_data_end size' c p =
     (let c = c\<lparr>vc_length := vc_length c - size'\<rparr>; p = drop size' p in
      if vc_length c \<noteq> 0 then ngx_http_v2_state_save c p F_read_data
      else if vc_padding c \<noteq> 0 then ngx_http_v2_state_skip_padded c p
      else ngx_http_v2_state_complete c p)"

definition ngx_http_v2_state_read_data :: "v2_env \<Rightarrow> v2_conn \<Rightarrow> byte list \<Rightarrow> v2_fresult" where
  "ngx_http_v2_state_read_data env c p =
     (case Option.bind (vc_stream c) (\<lambda>sid. map_option (Pair sid) (get_stream c sid)) of
        None \<Rightarrow> ngx_http_v2_state_skip_padded c p
      | Some (sid, s) \<Rightarrow>
          if vt_skip_data s \<or> vt_reading_buffered s \<or> \<not> vt_has_body s then ngx_http_v2_state_skip_padded c p
          else
            (let whole = (length p \<ge> vc_length c); size' = (if whole then vc_length c else length p);
                 s = (if whole then s\<lparr>vt_in_closed := vc_flags c AND NGX_HTTP_V2_END_STREAM_FLAG \<noteq> 0\<rparr> else s);
                 c = (set_stream sid s c)\<lparr>vc_payload_bytes := vc_payload_bytes c + size'\<rparr> in
             if vt_request_body s then read_data_end size' (ve_body env sid (take size' p) (vt_in_closed s) c) p
             else if size' \<noteq> 0 then
               if size' > ve_preread_size env - length (vt_preread s) then FError True NGX_HTTP_V2_INTERNAL_ERROR
               else read_data_end size' (set_stream sid (s\<lparr>vt_preread := vt_preread s @ take size' p\<rparr>) c) p
             else read_data_end size' c p))"

definition ngx_http_v2_state_rst_stream :: "v2_env \<Rightarrow> v2_conn \<Rightarrow> byte list \<Rightarrow> v2_fresult" where
  "ngx_http_v2_state_rst_stream env c p =
     (if vc_length c \<noteq> 4 then FError False NGX_HTTP_V2_SIZE_ERROR
      else if length p < 4 then ngx_http_v2_state_save c p F_rst_stream
      else if vc_sid c = 0 then FError False NGX_HTTP_V2_PROTOCOL_ERROR
      else
        (case get_stream c (vc_sid c) of
           None \<Rightarrow> ngx_http_v2_state_complete c (drop 4 p)
         | Some s \<Rightarrow>
             ngx_http_v2_state_complete
               (ve_read_event env (vc_sid c) (set_stream (vc_sid c) (s\<lparr>vt_in_closed := True, vt_out_closed := True\<rparr>) c)) (drop 4 p)))"

text \<open>\<open>ngx_http_v2_adjust_windows\<close>, stream by stream.\<close>

fun adjust_streams :: "v2_env \<Rightarrow> int \<Rightarrow> nat list \<Rightarrow> v2_conn \<Rightarrow> v2_conn option" where
  "adjust_streams env delta [] c = Some c"
| "adjust_streams env delta (sid # sids) c =
     (case get_stream c sid of
        None \<Rightarrow> adjust_streams env delta sids c
      | Some s \<Rightarrow>
          if delta > 0 \<and> vt_send_window s > int NGX_HTTP_V2_MAX_WINDOW - delta then
            Option.bind (ngx_http_v2_terminate_stream env c sid s NGX_HTTP_V2_FLOW_CTRL_ERROR) (adjust_streams env delta sids)
          else
            (let s = s\<lparr>vt_send_window := vt_send_window s + delta\<rparr> in
             if vt_send_window s > 0 \<and> vt_exhausted s
             then adjust_streams env delta sids (ve_write_event env sid (set_stream sid (s\<lparr>vt_exhausted := False\<rparr>) c))
             else adjust_streams env delta sids (set_stream sid s c)))"

definition ngx_http_v2_adjust_windows :: "v2_env \<Rightarrow> v2_conn \<Rightarrow> int \<Rightarrow> v2_conn option" where
  "ngx_http_v2_adjust_windows env c delta = adjust_streams env delta (map fst (vc_streams c)) c"

text \<open>The \<open>switch\<close> on a setting: the error it raises, or the connection and \<open>window_delta\<close>.\<close>

definition setting :: "v2_env \<Rightarrow> nat \<Rightarrow> nat \<Rightarrow> v2_conn \<Rightarrow> int \<Rightarrow> nat + v2_conn \<times> int" where
  "setting env id' value' c delta =
     (if id' = 0x4 then
        if value' > NGX_HTTP_V2_MAX_WINDOW then Inl NGX_HTTP_V2_FLOW_CTRL_ERROR
        else Inr (c, int value' - int (vc_init_window c))
      else if id' = 0x5 then
        if value' > NGX_HTTP_V2_MAX_FRAME_SIZE \<or> value' < NGX_HTTP_V2_DEFAULT_FRAME_SIZE then Inl NGX_HTTP_V2_PROTOCOL_ERROR
        else Inr (c\<lparr>vc_frame_size := value'\<rparr>, delta)
      else if id' = 0x2 then
        if value' > 1 then Inl NGX_HTTP_V2_PROTOCOL_ERROR else Inr (c\<lparr>vc_push_disabled := (value' = 0)\<rparr>, delta)
      else if id' = 0x3 then Inr (c\<lparr>vc_concurrent_pushes := min value' (ve_concurrent_pushes env)\<rparr>, delta)
      else if id' = 0x1 then Inr (c\<lparr>vc_table_update := True\<rparr>, delta)
      else Inr (c, delta))"

function settings_loop :: "v2_env \<Rightarrow> v2_conn \<Rightarrow> byte list \<Rightarrow> int \<Rightarrow> v2_fresult + v2_conn \<times> byte list \<times> int" where
  "settings_loop env c p delta =
     (if vc_length c = 0 then Inr (c, p, delta)
      else if length p < 6 then Inl (ngx_http_v2_state_save c p F_settings_params)
      else
        (case setting env (ngx_http_v2_parse_uint16 p) (ngx_http_v2_parse_uint32 (drop 2 p)) (c\<lparr>vc_length := vc_length c - 6\<rparr>) delta of
           Inl err \<Rightarrow> Inl (FError False err)
         | Inr (c, delta) \<Rightarrow> settings_loop env c (drop 6 p) delta))"
  by pat_completeness auto
termination
  by (relation "measure (\<lambda>(env, c, p, delta). length p)") auto

declare settings_loop.simps [simp del]

definition ngx_http_v2_state_settings_params :: "v2_env \<Rightarrow> v2_conn \<Rightarrow> byte list \<Rightarrow> v2_fresult" where
  "ngx_http_v2_state_settings_params env c p =
     (case settings_loop env c p 0 of
        Inl r \<Rightarrow> r
      | Inr (c, p, delta) \<Rightarrow>
          (case ngx_http_v2_get_frame c 0 0x4 NGX_HTTP_V2_ACK_FLAG 0 of
             None \<Rightarrow> FError False NGX_HTTP_V2_INTERNAL_ERROR
           | Some (frame, c) \<Rightarrow>
               (let c = ngx_http_v2_queue_ordered_frame frame c in
                if delta = 0 then ngx_http_v2_state_complete c p
                else
                  (case ngx_http_v2_adjust_windows env (c\<lparr>vc_init_window := nat (int (vc_init_window c) + delta)\<rparr>) delta of
                     None \<Rightarrow> FError False NGX_HTTP_V2_INTERNAL_ERROR
                   | Some c \<Rightarrow> ngx_http_v2_state_complete c p))))"

definition ngx_http_v2_state_settings :: "v2_conn \<Rightarrow> byte list \<Rightarrow> v2_fresult" where
  "ngx_http_v2_state_settings c p =
     (if vc_sid c \<noteq> 0 then FError False NGX_HTTP_V2_PROTOCOL_ERROR
      else if vc_flags c = NGX_HTTP_V2_ACK_FLAG then
        if vc_length c \<noteq> 0 then FError False NGX_HTTP_V2_SIZE_ERROR
        else ngx_http_v2_state_complete (c\<lparr>vc_settings_ack := True\<rparr>) p
      else if vc_length c mod 6 \<noteq> 0 then FError False NGX_HTTP_V2_SIZE_ERROR
      else FCall F_settings_params c p)"

definition ngx_http_v2_state_ping :: "v2_conn \<Rightarrow> byte list \<Rightarrow> v2_fresult" where
  "ngx_http_v2_state_ping c p =
     (if vc_length c \<noteq> 8 then FError False NGX_HTTP_V2_SIZE_ERROR
      else if length p < 8 then ngx_http_v2_state_save c p F_ping
      else if vc_sid c \<noteq> 0 then FError False NGX_HTTP_V2_PROTOCOL_ERROR
      else if vc_flags c AND NGX_HTTP_V2_ACK_FLAG \<noteq> 0 then FCall F_skip c p
      else
        (case ngx_http_v2_get_frame c 8 0x6 NGX_HTTP_V2_ACK_FLAG 0 of
           None \<Rightarrow> FError False NGX_HTTP_V2_INTERNAL_ERROR
         | Some (frame, c) \<Rightarrow>
             ngx_http_v2_state_complete
               (ngx_http_v2_queue_blocked_frame (frame\<lparr>vo_bytes := vo_bytes frame @ take 8 p\<rparr>) c) (drop 8 p)))"

definition ngx_http_v2_state_goaway :: "v2_conn \<Rightarrow> byte list \<Rightarrow> v2_fresult" where
  "ngx_http_v2_state_goaway c p =
     (if vc_length c < 8 then FError False NGX_HTTP_V2_SIZE_ERROR
      else if length p < 8 then ngx_http_v2_state_save c p F_goaway
      else if vc_sid c \<noteq> 0 then FError False NGX_HTTP_V2_PROTOCOL_ERROR
      else FCall F_skip c p)"

text \<open>
  The streams that wait for the window of the connection, as long as there is some left. The
  number bounds the rounds of the loop; the length of the queue is enough when a request
  waits again only for want of a window (\<open>wake_enough\<close>).
\<close>

fun wake_waiting :: "v2_env \<Rightarrow> nat \<Rightarrow> v2_conn \<Rightarrow> v2_conn" where
  "wake_waiting env 0 c = c"
| "wake_waiting env (Suc n) c =
     (case vc_waiting c of
        [] \<Rightarrow> c
      | sid # sids \<Rightarrow>
          (let c = c\<lparr>vc_waiting := sids\<rparr>;
               c = (case get_stream c sid of None \<Rightarrow> c | Some s \<Rightarrow> set_stream sid (s\<lparr>vt_waiting := False\<rparr>) c);
               c = ve_write_event env sid c in
           if vc_send_window c = 0 then c else wake_waiting env n c))"

definition ngx_http_v2_state_window_update :: "v2_env \<Rightarrow> v2_conn \<Rightarrow> byte list \<Rightarrow> v2_fresult" where
  "ngx_http_v2_state_window_update env c p =
     (if vc_length c \<noteq> 4 then FError False NGX_HTTP_V2_SIZE_ERROR
      else if length p < 4 then ngx_http_v2_state_save c p F_window_update
      else
        (let window = ngx_http_v2_parse_window p; p = drop 4 p in
         if window = 0 then FError False NGX_HTTP_V2_PROTOCOL_ERROR
         else if vc_sid c \<noteq> 0 then
           (case get_stream c (vc_sid c) of
              None \<Rightarrow> ngx_http_v2_state_complete c p
            | Some s \<Rightarrow>
                if window > size_t (int NGX_HTTP_V2_MAX_WINDOW - vt_send_window s) then
                  (case ngx_http_v2_terminate_stream env c (vc_sid c) s NGX_HTTP_V2_FLOW_CTRL_ERROR of
                     None \<Rightarrow> FError False NGX_HTTP_V2_INTERNAL_ERROR
                   | Some c \<Rightarrow> ngx_http_v2_state_complete c p)
                else
                  (let s = s\<lparr>vt_send_window := vt_send_window s + int window\<rparr> in
                   if vt_exhausted s
                   then ngx_http_v2_state_complete (ve_write_event env (vc_sid c) (set_stream (vc_sid c) (s\<lparr>vt_exhausted := False\<rparr>) c)) p
                   else ngx_http_v2_state_complete (set_stream (vc_sid c) s c) p))
         else if window > size_t (int NGX_HTTP_V2_MAX_WINDOW - int (vc_send_window c)) then FError False NGX_HTTP_V2_FLOW_CTRL_ERROR
         else
           ngx_http_v2_state_complete
             (wake_waiting env (length (vc_waiting c)) (c\<lparr>vc_send_window := size_t (int (vc_send_window c) + int window)\<rparr>)) p))"

definition v2_fcall :: "v2_env \<Rightarrow> v2_fhandler \<Rightarrow> v2_conn \<Rightarrow> byte list \<Rightarrow> v2_fresult" where
  "v2_fcall env handler =
     (case handler of
        F_head \<Rightarrow> ngx_http_v2_state_head
      | F_data \<Rightarrow> ngx_http_v2_state_data env
      | F_read_data \<Rightarrow> ngx_http_v2_state_read_data env
      | F_headers \<Rightarrow> FLeave F_headers
      | F_priority \<Rightarrow> FLeave F_priority
      | F_rst_stream \<Rightarrow> ngx_http_v2_state_rst_stream env
      | F_settings \<Rightarrow> ngx_http_v2_state_settings
      | F_settings_params \<Rightarrow> ngx_http_v2_state_settings_params env
      | F_push_promise \<Rightarrow> (\<lambda>c p. FError False NGX_HTTP_V2_PROTOCOL_ERROR)
      | F_ping \<Rightarrow> ngx_http_v2_state_ping
      | F_goaway \<Rightarrow> ngx_http_v2_state_goaway
      | F_window_update \<Rightarrow> ngx_http_v2_state_window_update env
      | F_continuation \<Rightarrow> (\<lambda>c p. FError False NGX_HTTP_V2_PROTOCOL_ERROR)
      | F_skip \<Rightarrow> ngx_http_v2_state_skip)"

section \<open>The loop over the input\<close>

definition frank :: "v2_fhandler \<Rightarrow> nat" where
  "frank handler = (case handler of F_head \<Rightarrow> 0 | F_skip \<Rightarrow> 1 | F_read_data \<Rightarrow> 2 | F_settings_params \<Rightarrow> 2 | _ \<Rightarrow> 3)"

text \<open>A handler reads forward, or hands over to one further down.\<close>

definition goes_on :: "v2_fhandler \<Rightarrow> byte list \<Rightarrow> v2_fhandler \<Rightarrow> byte list \<Rightarrow> bool" where
  "goes_on handler p handler' p' \<longleftrightarrow> length p' < length p \<or> length p' = length p \<and> frank handler' < frank handler"

definition result_goes_on :: "v2_fhandler \<Rightarrow> byte list \<Rightarrow> v2_fresult \<Rightarrow> bool" where
  "result_goes_on handler p r =
     (case r of FCall handler' c' p' \<Rightarrow> goes_on handler p handler' p' | FNext c' p' \<Rightarrow> goes_on handler p F_head p' | _ \<Rightarrow> True)"

text \<open>Rules to take the result of a handler apart.\<close>

lemma goes_branches:
  "(b \<Longrightarrow> result_goes_on h p x) \<Longrightarrow> (\<not> b \<Longrightarrow> result_goes_on h p y) \<Longrightarrow> result_goes_on h p (if b then x else y)"
  "(o' = None \<Longrightarrow> result_goes_on h p x) \<Longrightarrow> (\<And>a. o' = Some a \<Longrightarrow> result_goes_on h p (f a)) \<Longrightarrow>
     result_goes_on h p (case o' of None \<Rightarrow> x | Some a \<Rightarrow> f a)"
  "(\<And>a b. q = (a, b) \<Longrightarrow> result_goes_on h p (g a b)) \<Longrightarrow> result_goes_on h p (case q of (a, b) \<Rightarrow> g a b)"
  by (auto split: option.split prod.split)

lemma goes_leaves:
  "result_goes_on h p (FError alert code)" "result_goes_on h p (ngx_http_v2_state_save c p' h')"
  "goes_on h p h' p' \<Longrightarrow> result_goes_on h p (FCall h' c p')"
  "goes_on h p F_skip p' \<Longrightarrow> result_goes_on h p (ngx_http_v2_state_skip_padded c p')"
  "goes_on h p F_head p' \<Longrightarrow> result_goes_on h p (ngx_http_v2_state_complete c p')"
  by (simp_all add: result_goes_on_def ngx_http_v2_state_save_def ngx_http_v2_state_skip_padded_def ngx_http_v2_state_complete_def)

lemmas goes_intros = goes_branches goes_leaves

lemma settings_loop_suffix: "settings_loop env c p delta = Inr (c', p', delta') \<Longrightarrow> length p' \<le> length p"
proof (induction env c p delta rule: settings_loop.induct)
  case (1 env c p delta)
  show ?case
    using "1.prems" "1.IH" by (subst (asm) settings_loop.simps) (fastforce split: if_splits sum.splits prod.splits)
qed

lemma settings_loop_Inl: "settings_loop env c p delta = Inl r \<Longrightarrow> result_goes_on handler p' r"
proof (induction env c p delta rule: settings_loop.induct)
  case (1 env c p delta)
  show ?case
    using "1.prems" "1.IH"
    by (subst (asm) settings_loop.simps) (auto simp: goes_leaves split: if_splits sum.splits prod.splits)
qed

lemma data_stream_goes_on: "length p \<le> length p0 \<Longrightarrow> result_goes_on F_data p0 (data_stream env c n p)"
  unfolding data_stream_def data_accept_def Let_def by (intro goes_intros) (auto simp: goes_on_def frank_def)

lemma data_window_goes_on: "length p \<le> length p0 \<Longrightarrow> result_goes_on F_data p0 (data_window env c n p)"
  unfolding data_window_def Let_def by (intro goes_intros data_stream_goes_on)

lemma fcall_goes_on: "result_goes_on handler p (v2_fcall env handler c p)"
proof (cases handler)
  case F_head
  then show ?thesis unfolding F_head v2_fcall_def v2_fhandler.case ngx_http_v2_state_head_def Let_def
    by (intro goes_intros) (auto simp: goes_on_def v2_consts)
next
  case F_data
  show ?thesis unfolding F_data v2_fcall_def v2_fhandler.case ngx_http_v2_state_data_def Let_def
    by (intro goes_intros data_window_goes_on) auto
next
  case F_read_data
  show ?thesis unfolding F_read_data v2_fcall_def v2_fhandler.case ngx_http_v2_state_read_data_def read_data_end_def Let_def
    by (intro goes_intros) (auto simp: goes_on_def frank_def)
next
  case F_settings_params
  show ?thesis
  proof (cases "settings_loop env c p 0")
    case (Inl r)
    then show ?thesis using settings_loop_Inl [OF Inl]
      by (simp add: F_settings_params v2_fcall_def ngx_http_v2_state_settings_params_def)
  next
    case (Inr r)
    then obtain c' p' delta where r: "settings_loop env c p 0 = Inr (c', p', delta)" by (cases r) auto
    have "goes_on F_settings_params p F_head p'" using settings_loop_suffix [OF r] by (auto simp: goes_on_def frank_def)
    then show ?thesis
      unfolding F_settings_params v2_fcall_def v2_fhandler.case ngx_http_v2_state_settings_params_def r sum.case prod.case Let_def
      by (intro goes_intros)
  qed
next
  case F_window_update
  show ?thesis unfolding F_window_update v2_fcall_def v2_fhandler.case ngx_http_v2_state_window_update_def Let_def
    by (intro goes_intros) (auto simp: goes_on_def frank_def)
next
  case F_rst_stream
  show ?thesis unfolding F_rst_stream v2_fcall_def v2_fhandler.case ngx_http_v2_state_rst_stream_def Let_def
    by (intro goes_intros) (auto simp: goes_on_def frank_def)
next
  case F_settings
  show ?thesis unfolding F_settings v2_fcall_def v2_fhandler.case ngx_http_v2_state_settings_def Let_def
    by (intro goes_intros) (auto simp: goes_on_def frank_def)
next
  case F_ping
  show ?thesis unfolding F_ping v2_fcall_def v2_fhandler.case ngx_http_v2_state_ping_def Let_def
    by (intro goes_intros) (auto simp: goes_on_def frank_def)
next
  case F_goaway
  show ?thesis unfolding F_goaway v2_fcall_def v2_fhandler.case ngx_http_v2_state_goaway_def Let_def
    by (intro goes_intros) (auto simp: goes_on_def frank_def)
next
  case F_skip
  show ?thesis unfolding F_skip v2_fcall_def v2_fhandler.case ngx_http_v2_state_skip_def Let_def
    by (intro goes_intros) (auto simp: goes_on_def frank_def)
qed (auto simp: v2_fcall_def result_goes_on_def)

text \<open>The loop of \<open>ngx_http_v2_read_handler\<close> over the bytes received, from the handler of the state on.\<close>

function v2_frames :: "v2_env \<Rightarrow> v2_fhandler \<Rightarrow> v2_conn \<Rightarrow> byte list \<Rightarrow> v2_fresult" where
  "v2_frames env handler c p =
     (case v2_fcall env handler c p of
        FCall handler' c' p' \<Rightarrow> v2_frames env handler' c' p'
      | FNext c' p' \<Rightarrow> if p' = [] then FNext c' [] else v2_frames env F_head c' p'
      | r \<Rightarrow> r)"
  by pat_completeness auto
termination
proof (relation "measures [\<lambda>(env, handler, c, p). length p, \<lambda>(env, handler, c, p). frank handler]")
  fix env handler c p handler' c' p'
  assume "v2_fcall env handler c p = FCall handler' c' p'"
  then show "((env, handler', c', p'), (env, handler, c, p)) \<in> measures [\<lambda>(env, handler, c, p). length p, \<lambda>(env, handler, c, p). frank handler]"
    using fcall_goes_on [of handler p env c] by (auto simp: result_goes_on_def goes_on_def)
next
  fix env handler c p c' p'
  assume "v2_fcall env handler c p = FNext c' p'"
  then show "((env, F_head, c', p'), (env, handler, c, p)) \<in> measures [\<lambda>(env, handler, c, p). length p, \<lambda>(env, handler, c, p). frank handler]"
    using fcall_goes_on [of handler p env c] by (auto simp: result_goes_on_def goes_on_def)
qed simp

declare v2_frames.simps [simp del]

text \<open>
  \<open>ngx_http_v2_read_handler\<close> over what \<open>recv\<close> returns, piece by piece: the bytes that were saved, then
  the new ones, go to the handler of the state; too many bytes that carry no payload end
  the connection. \<open>VLeft\<close> is where a header block or a priority begins.
\<close>

record v2_reader =
  vr_handler :: v2_fhandler
  vr_conn :: v2_conn
  vr_buffer :: "byte list"

datatype v2_read = VReading v2_reader | VLeft v2_fhandler v2_conn "byte list" | VFinalized bool nat

definition v2_flood :: "v2_reader \<Rightarrow> v2_read" where
  "v2_flood r =
     (if vc_total_bytes (vr_conn r) div 8 > vc_payload_bytes (vr_conn r) + 1048576 then VFinalized False 0 else VReading r)"

fun ngx_http_v2_read_handler :: "v2_env \<Rightarrow> v2_reader \<Rightarrow> byte list list \<Rightarrow> v2_read" where
  "ngx_http_v2_read_handler env r [] = VReading r"
| "ngx_http_v2_read_handler env r (piece # pieces) =
     (let go = (\<lambda>handler c buffer.
            case v2_flood \<lparr>vr_handler = handler, vr_conn = c\<lparr>vc_total_bytes := vc_total_bytes c + length piece\<rparr>, vr_buffer = buffer\<rparr> of
              VReading r \<Rightarrow> ngx_http_v2_read_handler env r pieces
            | v \<Rightarrow> v) in
      case v2_frames env (vr_handler r) (vr_conn r) (vr_buffer r @ piece) of
        FSave handler c buffer \<Rightarrow> go handler c buffer
      | FNext c p \<Rightarrow> go F_head c []
      | FCall handler c p \<Rightarrow> VLeft handler c p
      | FLeave handler c p \<Rightarrow> VLeft handler c p
      | FError alert code \<Rightarrow> VFinalized alert code)"

end
