(* ===== verification/V2_Flow.thy ===== *)
theory V2_Flow
  imports Http_V2_Frames
begin

text \<open>
  The invariant of the frame handlers of \<open>Http_V2_Frames\<close>: the windows of the connection and of
  its streams stay in their range, data that comes before a request asks for it fits the
  preread buffer, and no alert is raised, whatever a client sends and in whatever pieces.
\<close>

section \<open>What a request may do\<close>

text \<open>
  The events of a request change its streams only so: it sends no more than its window
  allows, and its receive window changes only once it reads its body. It may wait for the
  window of the connection only when there is none.
\<close>

definition stream_kept :: "v2_stream \<Rightarrow> v2_stream \<Rightarrow> bool" where
  "stream_kept s s' \<longleftrightarrow>
     (vt_send_window s' = vt_send_window s \<or> 0 \<le> vt_send_window s' \<and> vt_send_window s' \<le> vt_send_window s) \<and>
     (vt_recv_window s' = vt_recv_window s \<or> vt_request_body s' \<and> vt_recv_window s' \<le> NGX_HTTP_V2_MAX_WINDOW) \<and>
     (vt_request_body s \<longrightarrow> vt_request_body s') \<and> (\<not> vt_request_body s' \<longrightarrow> vt_preread s' = vt_preread s) \<and>
     (vt_no_flow_control s' \<longrightarrow> vt_request_body s')"

definition conn_kept :: "v2_conn \<Rightarrow> v2_conn \<Rightarrow> bool" where
  "conn_kept c c' \<longleftrightarrow>
     vc_length c' = vc_length c \<and> vc_padding c' = vc_padding c \<and> (vc_stream c' = None \<or> vc_stream c' = vc_stream c) \<and>
     vc_init_window c' = vc_init_window c \<and> vc_frame_size c' = vc_frame_size c \<and> vc_recv_window c' = vc_recv_window c \<and>
     (vc_send_window c' \<noteq> 0 \<longrightarrow> length (vc_waiting c') \<le> length (vc_waiting c)) \<and>
     distinct (map fst (vc_streams c')) \<and>
     (\<forall>sid s'. get_stream c' sid = Some s' \<longrightarrow> (\<exists>s. get_stream c sid = Some s \<and> stream_kept s s'))"

definition stream_ok :: "v2_env \<Rightarrow> int \<Rightarrow> nat \<Rightarrow> v2_stream \<Rightarrow> bool" where
  "stream_ok env lo pending s \<longleftrightarrow>
     vt_recv_window s \<le> NGX_HTTP_V2_MAX_WINDOW \<and> lo \<le> vt_send_window s \<and> vt_send_window s \<le> int NGX_HTTP_V2_MAX_WINDOW \<and>
     (\<not> vt_request_body s \<longrightarrow> length (vt_preread s) + pending + vt_recv_window s \<le> ve_preread_size env) \<and>
     (vt_no_flow_control s \<longrightarrow> vt_request_body s)"

text \<open>The bytes of the current DATA frame that are still to come for a stream.\<close>

definition pending :: "v2_conn \<Rightarrow> nat \<Rightarrow> nat" where
  "pending c sid = (if vc_stream c = Some sid then vc_length c + vc_padding c else 0)"

definition conn_ok :: "v2_env \<Rightarrow> (nat \<Rightarrow> int) \<Rightarrow> v2_conn \<Rightarrow> bool" where
  "conn_ok env lo c \<longleftrightarrow>
     distinct (map fst (vc_streams c)) \<and> vc_recv_window c \<le> NGX_HTTP_V2_MAX_WINDOW \<and> vc_init_window c \<le> NGX_HTTP_V2_MAX_WINDOW \<and>
     NGX_HTTP_V2_DEFAULT_FRAME_SIZE \<le> vc_frame_size c \<and> vc_frame_size c \<le> NGX_HTTP_V2_MAX_FRAME_SIZE \<and>
     (\<forall>sid s. get_stream c sid = Some s \<longrightarrow> stream_ok env (lo sid) (pending c sid) s)"

definition env_ok :: "v2_env \<Rightarrow> bool" where
  "env_ok env \<longleftrightarrow> (\<forall>env_lo c. (\<forall>sid. env_lo sid \<le> 0) \<longrightarrow> conn_ok env env_lo c \<longrightarrow>
     (\<forall>sid. conn_kept c (ve_read_event env sid c) \<and> conn_kept c (ve_write_event env sid c) \<and>
        (\<forall>data fin. conn_kept c (ve_body env sid data fin c))))"

text \<open>The invariant between two handlers.\<close>

definition handler_ok :: "v2_fhandler \<Rightarrow> v2_conn \<Rightarrow> bool" where
  "handler_ok handler c \<longleftrightarrow>
     (handler \<noteq> F_read_data \<and> handler \<noteq> F_skip \<longrightarrow> vc_stream c = None) \<and> (handler \<noteq> F_read_data \<longrightarrow> vc_padding c = 0)"

definition init_lo :: "v2_conn \<Rightarrow> nat \<Rightarrow> int" where
  "init_lo c = (\<lambda>sid. int (vc_init_window c) - int NGX_HTTP_V2_MAX_WINDOW)"

definition conn_inv :: "v2_env \<Rightarrow> v2_fhandler \<Rightarrow> v2_conn \<Rightarrow> bool" where
  "conn_inv env handler c \<longleftrightarrow> conn_ok env (init_lo c) c \<and> handler_ok handler c"

definition result_ok :: "v2_env \<Rightarrow> v2_fresult \<Rightarrow> bool" where
  "result_ok env r \<longleftrightarrow>
     (case r of
        FCall handler c p \<Rightarrow> conn_inv env handler c
      | FSave handler c p \<Rightarrow> conn_inv env handler c
      | FNext c p \<Rightarrow> conn_inv env F_head c
      | FLeave handler c p \<Rightarrow> conn_inv env handler c
      | FError alert code \<Rightarrow> \<not> alert)"

section \<open>Lemmas on the state\<close>

lemma size_t_le: "0 \<le> n \<Longrightarrow> int (size_t n) \<le> n"
  by (simp add: size_t_def zmod_le_nonneg_dividend)

lemma get_set_stream: "get_stream (set_stream sid s c) i = (if i = sid \<and> get_stream c sid \<noteq> None then Some s else get_stream c i)"
proof -
  have "map_of (map (\<lambda>(i, t). (i, if i = sid then s else t)) xs) i = (if i = sid \<and> map_of xs sid \<noteq> None then Some s else map_of xs i)" for xs
    by (induction xs) (auto split: if_splits)
  then show ?thesis by (simp add: get_stream_def set_stream_def)
qed

lemma keys_set_stream: "map fst (vc_streams (set_stream sid s c)) = map fst (vc_streams c)"
  by (simp add: set_stream_def o_def case_prod_unfold)

lemma set_stream_fields [simp]:
  "vc_length (set_stream sid s c) = vc_length c" "vc_padding (set_stream sid s c) = vc_padding c" "vc_stream (set_stream sid s c) = vc_stream c"
  "vc_flags (set_stream sid s c) = vc_flags c" "vc_sid (set_stream sid s c) = vc_sid c" "vc_waiting (set_stream sid s c) = vc_waiting c"
  "vc_send_window (set_stream sid s c) = vc_send_window c" "vc_recv_window (set_stream sid s c) = vc_recv_window c"
  "vc_init_window (set_stream sid s c) = vc_init_window c" "vc_frame_size (set_stream sid s c) = vc_frame_size c"
  "vc_frames (set_stream sid s c) = vc_frames c" "vc_free_frames (set_stream sid s c) = vc_free_frames c"
  by (simp_all add: set_stream_def)

lemma pending_set_stream [simp]: "pending (set_stream sid s c) = pending c"
  by (simp add: fun_eq_iff pending_def)

lemma conn_ok_set_stream:
  assumes "conn_ok env lo c" "stream_ok env (lo sid) (pending c sid) s"
  shows "conn_ok env lo (set_stream sid s c)"
  using assms by (auto simp: conn_ok_def keys_set_stream get_set_stream simp del: map_map split: if_splits)

text \<open>Fields that do not matter to the invariant.\<close>

definition same_state :: "v2_conn \<Rightarrow> v2_conn \<Rightarrow> bool" where
  "same_state c c' \<longleftrightarrow> vc_streams c' = vc_streams c \<and> vc_recv_window c' = vc_recv_window c \<and> vc_send_window c' = vc_send_window c \<and>
     vc_init_window c' = vc_init_window c \<and> vc_frame_size c' = vc_frame_size c \<and> vc_stream c' = vc_stream c \<and>
     vc_length c' = vc_length c \<and> vc_padding c' = vc_padding c \<and> vc_sid c' = vc_sid c \<and> vc_flags c' = vc_flags c \<and> vc_waiting c' = vc_waiting c"

lemma same_get: "same_state c c' \<Longrightarrow> get_stream c' = get_stream c"
  by (simp add: fun_eq_iff get_stream_def same_state_def)

lemma same_ok:
  assumes "same_state c c'"
  shows "conn_ok env lo c' = conn_ok env lo c"
proof -
  have "pending c' = pending c" using assms by (simp add: fun_eq_iff pending_def same_state_def)
  then show ?thesis using assms unfolding conn_ok_def same_get [OF assms] by (simp add: same_state_def)
qed

lemma get_frame_same: "ngx_http_v2_get_frame c len type flags sid = Some (frame, c') \<Longrightarrow> same_state c c'"
  by (auto simp: ngx_http_v2_get_frame_def same_state_def Let_def split: if_splits)

lemma queue_same: "same_state c (ngx_http_v2_queue_blocked_frame frame c)" "same_state c (ngx_http_v2_queue_ordered_frame frame c)"
  by (simp_all add: ngx_http_v2_queue_blocked_frame_def ngx_http_v2_queue_ordered_frame_def same_state_def Let_def)

lemma same_trans: "same_state a b \<Longrightarrow> same_state b c \<Longrightarrow> same_state a c"
  by (simp add: same_state_def)

lemma window_update_same: "ngx_http_v2_send_window_update c sid w = Some c' \<Longrightarrow> same_state c c'"
  by (auto simp: ngx_http_v2_send_window_update_def intro: same_trans get_frame_same queue_same)

lemma rst_stream_same: "ngx_http_v2_send_rst_stream c sid w = Some c' \<Longrightarrow> same_state c c'"
  by (auto simp: ngx_http_v2_send_rst_stream_def intro: same_trans get_frame_same queue_same)

section \<open>Events keep the invariant\<close>

lemma stream_kept_ok:
  assumes "stream_ok env lo n s" "stream_kept s s'" "lo \<le> 0" "n' \<le> n"
  shows "stream_ok env lo n' s'"
  using assms by (auto simp: stream_ok_def stream_kept_def)

lemma kept_ok:
  assumes "conn_ok env lo c" "conn_kept c c'" "\<And>sid. lo sid \<le> 0"
  shows "conn_ok env lo c'"
proof -
  have "pending c' sid \<le> pending c sid" for sid using assms(2) by (auto simp: pending_def conn_kept_def)
  then have "stream_ok env (lo sid) (pending c' sid) s'" if "get_stream c' sid = Some s'" for sid s'
    using that assms stream_kept_ok [of env "lo sid" "pending c sid"] by (fastforce simp: conn_kept_def conn_ok_def)
  then show ?thesis using assms(1,2) by (auto simp: conn_ok_def conn_kept_def)
qed

lemma stream_kept_trans: "stream_kept s s1 \<Longrightarrow> stream_kept s1 s2 \<Longrightarrow> stream_kept s s2"
  unfolding stream_kept_def by (elim conjE, intro conjI) (linarith, metis, metis, metis, metis)

text \<open>A change of one stream in itself.\<close>

definition quiet :: "v2_conn \<Rightarrow> v2_conn \<Rightarrow> bool" where
  "quiet c c' \<longleftrightarrow> vc_length c' = vc_length c \<and> vc_padding c' = vc_padding c \<and> vc_stream c' = vc_stream c \<and>
     vc_init_window c' = vc_init_window c \<and> vc_frame_size c' = vc_frame_size c \<and> vc_recv_window c' = vc_recv_window c \<and>
     vc_waiting c' = vc_waiting c \<and>
     (\<forall>sid s'. get_stream c' sid = Some s' \<longrightarrow> (\<exists>s. get_stream c sid = Some s \<and> stream_kept s s'))"

lemma kept_quiet:
  assumes "quiet c c1" "conn_kept c1 c2"
  shows "conn_kept c c2"
proof -
  have "\<exists>s. get_stream c sid = Some s \<and> stream_kept s s2" if "get_stream c2 sid = Some s2" for sid s2
    using assms that unfolding quiet_def conn_kept_def by (metis stream_kept_trans)
  then show ?thesis using assms by (simp add: quiet_def conn_kept_def)
qed

lemma kept_refl: "conn_ok env lo c \<Longrightarrow> conn_kept c c"
  by (auto simp: conn_kept_def conn_ok_def stream_kept_def stream_ok_def)

lemma quiet_set_stream:
  assumes "conn_ok env lo c" "same_state c c1" "get_stream c sid = Some s" "stream_kept s s'"
  shows "quiet c (set_stream sid s' c1)"
proof -
  have "stream_kept t t" if "get_stream c i = Some t" for i t
    using that assms(1) by (auto simp: conn_ok_def stream_kept_def stream_ok_def)
  then have "\<exists>t. get_stream c i = Some t \<and> stream_kept t t'" if "get_stream (set_stream sid s' c1) i = Some t'" for i t'
    using that assms(3,4) by (auto simp: get_set_stream same_get [OF assms(2)] split: if_splits)
  then show ?thesis using assms(2) by (simp add: quiet_def same_state_def)
qed

lemma conn_ok_stream: "conn_ok env lo c \<Longrightarrow> get_stream c sid = Some s \<Longrightarrow> stream_ok env (lo sid) (pending c sid) s"
  by (simp add: conn_ok_def)

lemma env_kept:
  assumes "env_ok env" "conn_ok env lo c" "\<And>sid. lo sid \<le> 0"
  shows "conn_kept c (ve_read_event env sid c)" "conn_kept c (ve_write_event env sid c)" "conn_kept c (ve_body env sid data fin c)"
  using assms unfolding env_ok_def by blast+

lemma terminate_ok:
  assumes "env_ok env" "conn_ok env lo c" "\<And>sid. lo sid \<le> 0" "get_stream c sid = Some s"
    "ngx_http_v2_terminate_stream env c sid s status = Some c'"
  shows "conn_ok env lo c' \<and> conn_kept c c'"
proof (cases "vt_rst_sent s")
  case True
  then show ?thesis using assms kept_refl [OF assms(2)] by (auto simp: ngx_http_v2_terminate_stream_def)
next
  case False
  let ?s = "s\<lparr>vt_rst_sent := True, vt_skip_data := True\<rparr>"
  obtain c1 where c1: "ngx_http_v2_send_rst_stream c sid status = Some c1" "c' = ve_read_event env sid (set_stream sid ?s c1)"
    using assms(5) False by (auto simp: ngx_http_v2_terminate_stream_def split: option.splits)
  note same = rst_stream_same [OF c1(1)]
  have ok1: "conn_ok env lo c1" using assms(2) same_ok [OF same] by simp
  have s: "stream_ok env (lo sid) (pending c1 sid) s" using ok1 assms(4) same_get [OF same] by (simp add: conn_ok_def)
  then have ok2: "conn_ok env lo (set_stream sid ?s c1)" by (intro conn_ok_set_stream [OF ok1]) (simp add: stream_ok_def)
  then have k: "conn_kept (set_stream sid ?s c1) c'" using assms(1,3) c1(2) by (auto simp: env_ok_def)
  have "stream_kept s ?s" using s by (simp add: stream_kept_def stream_ok_def)
  then have "conn_kept c c'" using kept_quiet [OF quiet_set_stream [OF assms(2) same assms(4)] k] by simp
  then show ?thesis using kept_ok [OF ok2 k assms(3)] by simp
qed

text \<open>The same for a write event that follows a change of its stream.\<close>

lemma write_ok:
  assumes "env_ok env" "conn_ok env lo (set_stream sid s' c)" "\<And>sid. lo sid \<le> 0" "c' = ve_write_event env sid (set_stream sid s' c)"
  shows "conn_ok env lo c' \<and> conn_kept (set_stream sid s' c) c'"
  using assms kept_ok [OF assms(2), of c'] by (auto simp: env_ok_def)

lemma conn_ok_lo: "conn_ok env lo c \<Longrightarrow> (\<And>sid. get_stream c sid \<noteq> None \<Longrightarrow> lo' sid \<le> lo sid) \<Longrightarrow> conn_ok env lo' c"
  by (fastforce simp: conn_ok_def stream_ok_def)

section \<open>Handlers keep the invariant\<close>

lemma result_branches:
  "(b \<Longrightarrow> result_ok env x) \<Longrightarrow> (\<not> b \<Longrightarrow> result_ok env y) \<Longrightarrow> result_ok env (if b then x else y)"
  "(o' = None \<Longrightarrow> result_ok env x) \<Longrightarrow> (\<And>a. o' = Some a \<Longrightarrow> result_ok env (f a)) \<Longrightarrow>
     result_ok env (case o' of None \<Rightarrow> x | Some a \<Rightarrow> f a)"
  "(\<And>a b. q = (a, b) \<Longrightarrow> result_ok env (g a b)) \<Longrightarrow> result_ok env (case q of (a, b) \<Rightarrow> g a b)"
  by (auto split: option.split prod.split)

lemma skip_padded_inv:
  assumes "conn_ok env (init_lo c) c"
  shows "result_ok env (ngx_http_v2_state_skip_padded c p)"
proof -
  let ?c = "c\<lparr>vc_length := vc_length c + vc_padding c, vc_padding := 0\<rparr>"
  have "pending ?c = pending c" "get_stream ?c = get_stream c" by (simp_all add: fun_eq_iff pending_def get_stream_def)
  then have "conn_ok env (init_lo ?c) ?c" using assms by (simp add: conn_ok_def init_lo_def)
  then show ?thesis by (simp add: ngx_http_v2_state_skip_padded_def result_ok_def conn_inv_def handler_ok_def)
qed

lemma complete_inv:
  assumes "conn_ok env (init_lo c) c" "vc_padding c = 0"
  shows "result_ok env (ngx_http_v2_state_complete c p)"
proof -
  let ?c = "c\<lparr>vc_stream := None\<rparr>"
  have g: "get_stream ?c = get_stream c" by (simp add: fun_eq_iff get_stream_def)
  have "stream_ok env (init_lo c sid) (pending ?c sid) s" if "get_stream c sid = Some s" for sid s
    using that assms(1) stream_kept_ok [of env "init_lo c sid" "pending c sid" s s]
    by (fastforce simp: conn_ok_def pending_def stream_ok_def)
  then have "conn_ok env (init_lo ?c) ?c" using assms(1) by (auto simp: conn_ok_def g init_lo_def)
  then show ?thesis using assms(2) by (simp add: ngx_http_v2_state_complete_def result_ok_def conn_inv_def handler_ok_def)
qed

lemma save_inv: "length p \<le> 16 \<Longrightarrow> conn_inv env handler c \<Longrightarrow> result_ok env (ngx_http_v2_state_save c p handler)"
  by (simp add: ngx_http_v2_state_save_def v2_consts result_ok_def)

lemma error_inv: "result_ok env (FError False code)"
  by (simp add: result_ok_def)

lemma init_lo_le: "conn_ok env lo c \<Longrightarrow> init_lo c sid \<le> 0"
  by (simp add: init_lo_def conn_ok_def)

lemma kept_init_lo: "conn_kept c c' \<Longrightarrow> init_lo c' = init_lo c"
  by (simp add: init_lo_def conn_kept_def)

text \<open>A change of the connection that leaves its streams alone.\<close>

lemma conn_ok_weaken:
  assumes "conn_ok env lo c" "vc_streams c' = vc_streams c" "vc_recv_window c' \<le> NGX_HTTP_V2_MAX_WINDOW"
    "vc_init_window c' \<le> NGX_HTTP_V2_MAX_WINDOW" "NGX_HTTP_V2_DEFAULT_FRAME_SIZE \<le> vc_frame_size c'"
    "vc_frame_size c' \<le> NGX_HTTP_V2_MAX_FRAME_SIZE" "\<And>sid. pending c' sid \<le> pending c sid"
  shows "conn_ok env lo c'"
proof -
  have g: "get_stream c' = get_stream c" using assms(2) by (simp add: fun_eq_iff get_stream_def)
  have "stream_ok env (lo sid) (pending c' sid) s" if "get_stream c sid = Some s" for sid s
  proof -
    have "stream_ok env (lo sid) (pending c sid) s" using that assms(1) by (simp add: conn_ok_def)
    then show ?thesis using assms(7) [of sid] by (auto simp: stream_ok_def)
  qed
  then show ?thesis using assms by (simp add: conn_ok_def g)
qed

lemma head_inv:
  assumes "conn_inv env F_head c"
  shows "result_ok env (ngx_http_v2_state_head c p)"
proof -
  have "conn_inv env h (c\<lparr>vc_length := n, vc_flags := f, vc_sid := i\<rparr>)" for h n f i
  proof -
    have "conn_ok env (init_lo c) (c\<lparr>vc_length := n, vc_flags := f, vc_sid := i\<rparr>)"
      by (rule conn_ok_weaken [of env "init_lo c" c]) (use assms in \<open>auto simp: conn_inv_def conn_ok_def handler_ok_def pending_def\<close>)
    then show ?thesis using assms by (simp add: conn_inv_def handler_ok_def init_lo_def)
  qed
  then show ?thesis unfolding ngx_http_v2_state_head_def Let_def
    by (intro result_branches save_inv assms) (auto simp: result_ok_def v2_consts)
qed

lemma shorter_ok:
  assumes "conn_ok env lo c"
  shows "conn_ok env lo (c\<lparr>vc_length := vc_length c - n\<rparr>)"
  by (rule conn_ok_weaken [OF assms]) (use assms in \<open>auto simp: conn_ok_def pending_def\<close>)

lemma skip_inv:
  assumes "conn_inv env F_skip c"
  shows "result_ok env (ngx_http_v2_state_skip c p)"
proof -
  have "conn_inv env F_skip (c\<lparr>vc_length := vc_length c - n\<rparr>)" for n
    using assms shorter_ok [of env "init_lo c" c n] by (simp add: conn_inv_def handler_ok_def init_lo_def)
  then show ?thesis using assms unfolding ngx_http_v2_state_skip_def Let_def
    by (intro result_branches save_inv complete_inv) (auto simp: conn_inv_def handler_ok_def)
qed

lemma terminate_skip_inv:
  assumes "env_ok env" "conn_ok env (init_lo c) c" "get_stream c sid = Some s"
    "ngx_http_v2_terminate_stream env c sid s status = Some c'"
  shows "result_ok env (ngx_http_v2_state_skip_padded c' p)"
proof -
  have t: "conn_ok env (init_lo c) c' \<and> conn_kept c c'"
    by (rule terminate_ok [OF assms(1,2) init_lo_le [OF assms(2)] assms(3,4)])
  then show ?thesis using skip_padded_inv kept_init_lo by metis
qed

lemma data_read_inv:
  assumes ok: "conn_ok env (init_lo c) c" "vc_stream c = None" "get_stream c sid = Some s"
    and fit: "vt_request_body s \<or> length (vt_preread s) + (vc_length c + vc_padding c) + vt_recv_window s \<le> ve_preread_size env"
  shows "result_ok env (FCall F_read_data (c\<lparr>vc_stream := Some sid\<rparr>) p)"
proof -
  let ?c = "c\<lparr>vc_stream := Some sid\<rparr>"
  have g: "get_stream ?c = get_stream c" by (simp add: fun_eq_iff get_stream_def)
  have "stream_ok env (init_lo c i) (pending ?c i) t" if "get_stream c i = Some t" for i t
    using that ok fit by (auto simp: conn_ok_def pending_def stream_ok_def split: if_splits)
  then show ?thesis using ok(1) by (simp add: result_ok_def conn_inv_def handler_ok_def conn_ok_def g init_lo_def)
qed

definition data_fits :: "v2_env \<Rightarrow> v2_conn \<Rightarrow> v2_stream \<Rightarrow> bool" where
  "data_fits env c s \<longleftrightarrow> conn_ok env (init_lo c) c \<and> vc_stream c = None \<and> get_stream c (vc_sid c) = Some s \<and>
     (vt_request_body s \<or> length (vt_preread s) + (vc_length c + vc_padding c) + vt_recv_window s \<le> ve_preread_size env)"

lemma data_accept_inv:
  assumes "env_ok env" "data_fits env c s"
  shows "result_ok env (data_accept env c s p)"
  using assms terminate_skip_inv [OF assms(1), of c "vc_sid c" s] data_read_inv [of env c "vc_sid c" s]
  unfolding data_accept_def data_fits_def by (intro result_branches error_inv) auto

lemma data_refill_fits:
  assumes "data_fits env c s" "data_refill c s = Some (s', c')"
  shows "data_fits env c' s'"
proof (cases "vt_no_flow_control s \<and> vt_recv_window s < NGX_HTTP_V2_MAX_WINDOW div 4")
  case True
  let ?s = "s\<lparr>vt_recv_window := NGX_HTTP_V2_MAX_WINDOW\<rparr>"
  obtain c1 where c1: "ngx_http_v2_send_window_update c (vc_sid c) (NGX_HTTP_V2_MAX_WINDOW - vt_recv_window s) = Some c1"
      "s' = ?s" "c' = set_stream (vc_sid c1) ?s c1"
    using assms(2) True by (auto simp: data_refill_def Let_def)
  note same = window_update_same [OF c1(1)]
  have f: "vc_sid c1 = vc_sid c" "vc_stream c1 = None" "init_lo c1 = init_lo c" "conn_ok env (init_lo c) c1" "get_stream c1 (vc_sid c) = Some s"
    using assms(1) same same_ok [OF same] same_get [OF same] by (simp_all add: data_fits_def same_state_def init_lo_def)
  have s: "stream_ok env (init_lo c (vc_sid c)) (pending c1 (vc_sid c)) s" using f(4,5) by (simp add: conn_ok_def)
  then have body: "vt_request_body s" using True by (simp add: stream_ok_def)
  have "conn_ok env (init_lo c) c'" unfolding c1(3) f(1)
    using s body by (intro conn_ok_set_stream [OF f(4)]) (auto simp: stream_ok_def)
  then show ?thesis using f body c1(2,3) by (simp add: data_fits_def get_set_stream init_lo_def)
qed (use assms in \<open>auto simp: data_refill_def\<close>)

lemma data_stream_inv:
  assumes "env_ok env" "conn_ok env (init_lo c) c" "vc_stream c = None" "vc_length c + vc_padding c \<le> n"
  shows "result_ok env (data_stream env c n p)"
proof (cases "get_stream c (vc_sid c)")
  case None
  then show ?thesis using skip_padded_inv [OF assms(2)] by (simp add: data_stream_def)
next
  case (Some s)
  let ?s = "s\<lparr>vt_recv_window := vt_recv_window s - n\<rparr>"
  have fits: "data_fits env (set_stream (vc_sid c) ?s c) ?s" if "\<not> n > vt_recv_window s"
  proof -
    have s: "stream_ok env (init_lo c (vc_sid c)) 0 s" using assms(2,3) Some by (auto simp: conn_ok_def pending_def)
    then have "conn_ok env (init_lo c) (set_stream (vc_sid c) ?s c)"
      using assms(3) by (intro conn_ok_set_stream [OF assms(2)]) (auto simp: stream_ok_def pending_def)
    then show ?thesis using that s assms(3,4) Some by (auto simp: data_fits_def get_set_stream init_lo_def stream_ok_def)
  qed
  show ?thesis unfolding data_stream_def Some option.case Let_def
    by (intro result_branches error_inv)
      (auto intro: terminate_skip_inv [OF assms(1,2) Some] data_accept_inv [OF assms(1)] data_refill_fits [OF fits])
qed

lemma data_inv:
  assumes "env_ok env" "conn_inv env F_data c"
  shows "result_ok env (ngx_http_v2_state_data env c p)"
proof -
  have c: "conn_ok env (init_lo c) c" "vc_stream c = None" "vc_padding c = 0" using assms(2) by (simp_all add: conn_inv_def handler_ok_def)
  have win: "result_ok env (data_window env c1 n p1)"
    if "conn_ok env (init_lo c1) c1" "vc_stream c1 = None" "vc_length c1 + vc_padding c1 \<le> n" for c1 n p1
  proof -
    have ok: "conn_ok env lo (c2\<lparr>vc_recv_window := w\<rparr>)" if "w \<le> NGX_HTTP_V2_MAX_WINDOW" "conn_ok env lo c2" for w lo c2
      by (rule conn_ok_weaken [OF that(2)]) (use that in \<open>auto simp: conn_ok_def pending_def\<close>)
    have up: "result_ok env (data_stream env (c2\<lparr>vc_recv_window := NGX_HTTP_V2_MAX_WINDOW\<rparr>) n p1)"
      if "ngx_http_v2_send_window_update (c1\<lparr>vc_recv_window := vc_recv_window c1 - n\<rparr>) 0 w = Some c2" for c2 w
    proof -
      let ?c = "c1\<lparr>vc_recv_window := vc_recv_window c1 - n\<rparr>"
      note same = window_update_same [OF that]
      have "vc_recv_window c1 \<le> NGX_HTTP_V2_MAX_WINDOW" using \<open>conn_ok env (init_lo c1) c1\<close> by (simp add: conn_ok_def)
      then have "conn_ok env (init_lo c1) c2" using ok [of "vc_recv_window c1 - n" "init_lo c1" c1] same_ok [OF same] \<open>conn_ok env (init_lo c1) c1\<close> by simp
      then have "conn_ok env (init_lo c1) (c2\<lparr>vc_recv_window := NGX_HTTP_V2_MAX_WINDOW\<rparr>)" using ok by simp
      then show ?thesis using same \<open>vc_stream c1 = None\<close> \<open>vc_length c1 + vc_padding c1 \<le> n\<close>
        by (intro data_stream_inv [OF assms(1)]) (simp_all add: same_state_def init_lo_def)
    qed
    have "vc_recv_window c1 \<le> NGX_HTTP_V2_MAX_WINDOW" using that(1) by (simp add: conn_ok_def)
    then have "conn_ok env (init_lo (c1\<lparr>vc_recv_window := vc_recv_window c1 - n\<rparr>)) (c1\<lparr>vc_recv_window := vc_recv_window c1 - n\<rparr>)"
      using ok [of "vc_recv_window c1 - n" "init_lo c1" c1] that(1) by (simp add: init_lo_def)
    then show ?thesis unfolding data_window_def Let_def using that(2,3)
      by (intro result_branches error_inv) (auto intro: up data_stream_inv [OF assms(1)])
  qed
  have pad: "result_ok env (data_window env (c\<lparr>vc_padding := k, vc_length := vc_length c - (1 + k)\<rparr>) (vc_length c) p1)" if "k < vc_length c" for k p1
  proof (rule win)
    show "conn_ok env (init_lo (c\<lparr>vc_padding := k, vc_length := vc_length c - (1 + k)\<rparr>)) (c\<lparr>vc_padding := k, vc_length := vc_length c - (1 + k)\<rparr>)"
      by (rule conn_ok_weaken [of env _ c]) (use c in \<open>auto simp: conn_ok_def pending_def init_lo_def\<close>)
  qed (use c that in auto)
  show ?thesis unfolding ngx_http_v2_state_data_def Let_def
    using c win [OF c(1,2)] pad assms(2) by (intro result_branches error_inv save_inv) auto
qed

lemma read_data_end_inv:
  assumes "conn_ok env (init_lo c) c" "vc_length c - n \<noteq> 0 \<Longrightarrow> length p \<le> n"
  shows "result_ok env (read_data_end n c p)"
proof -
  have ok: "conn_ok env (init_lo (c\<lparr>vc_length := vc_length c - n\<rparr>)) (c\<lparr>vc_length := vc_length c - n\<rparr>)"
    using shorter_ok [OF assms(1), of n] by (simp add: init_lo_def)
  show ?thesis unfolding read_data_end_def Let_def
    by (intro result_branches save_inv complete_inv skip_padded_inv ok)
      (use ok assms(2) in \<open>auto simp: conn_inv_def handler_ok_def\<close>)
qed

lemma read_data_inv:
  assumes "env_ok env" "conn_inv env F_read_data c"
  shows "result_ok env (ngx_http_v2_state_read_data env c p)"
proof (cases "Option.bind (vc_stream c) (\<lambda>sid. map_option (Pair sid) (get_stream c sid))")
  case None
  then show ?thesis using skip_padded_inv assms(2) by (simp add: ngx_http_v2_state_read_data_def conn_inv_def)
next
  case (Some r)
  then obtain sid s where s: "Option.bind (vc_stream c) (\<lambda>sid. map_option (Pair sid) (get_stream c sid)) = Some (sid, s)"
      "vc_stream c = Some sid" "get_stream c sid = Some s" by (auto simp: bind_eq_Some_conv)
  have ok: "conn_ok env (init_lo c) c" using assms(2) by (simp add: conn_inv_def)
  define whole where "whole = (length p \<ge> vc_length c)"
  define n where "n = (if whole then vc_length c else length p)"
  define s1 where "s1 = (if whole then s\<lparr>vt_in_closed := vc_flags c AND NGX_HTTP_V2_END_STREAM_FLAG \<noteq> 0\<rparr> else s)"
  define c1 where "c1 = (set_stream sid s1 c)\<lparr>vc_payload_bytes := vc_payload_bytes c + n\<rparr>"
  have n: "n \<le> vc_length c" "vc_length c - n \<noteq> 0 \<Longrightarrow> length p \<le> n" by (auto simp: n_def whole_def)
  have "stream_ok env (init_lo c sid) (pending c sid) s" using ok s(3) by (simp add: conn_ok_def)
  then have so: "stream_ok env (init_lo c sid) (vc_length c + vc_padding c) s1"
    using s(2) by (simp add: pending_def stream_ok_def s1_def)
  then have "conn_ok env (init_lo c) (set_stream sid s1 c)" using s(2) by (intro conn_ok_set_stream [OF ok]) (simp add: pending_def)
  moreover have same: "same_state (set_stream sid s1 c) c1" by (simp add: same_state_def c1_def)
  ultimately have ok1: "conn_ok env (init_lo c) c1" using same_ok [OF same] by simp
  have f1: "vc_length c1 = vc_length c" "vc_padding c1 = vc_padding c" "init_lo c1 = init_lo c" "vc_stream c1 = Some sid" "vc_init_window c1 = vc_init_window c"
    using s(2) by (simp_all add: c1_def init_lo_def)
  have get1: "get_stream c1 sid = Some s1" using s(3) same_get [OF same] by (simp add: get_set_stream)
  have body: "result_ok env (read_data_end n (ve_body env sid d fin c1) p)" for d fin
  proof -
    have k: "conn_kept c1 (ve_body env sid d fin c1)" using env_kept(3) [OF assms(1) ok1 init_lo_le [OF ok]] .
    show ?thesis
      by (rule read_data_end_inv) (use kept_ok [OF ok1 k init_lo_le [OF ok]] kept_init_lo [OF k] f1 k n in \<open>auto simp: conn_kept_def\<close>)
  qed
  have preread: "result_ok env (read_data_end n (set_stream sid (s1\<lparr>vt_preread := vt_preread s1 @ take n p\<rparr>) c1) p)"
    if nb: "\<not> vt_request_body s1"
  proof -
    let ?s = "s1\<lparr>vt_preread := vt_preread s1 @ take n p\<rparr>" and ?c = "set_stream sid (s1\<lparr>vt_preread := vt_preread s1 @ take n p\<rparr>) c1"
    let ?d = "?c\<lparr>vc_length := vc_length c - n\<rparr>"
    have g: "get_stream ?d i = (if i = sid then Some ?s else get_stream c1 i)" for i
      using get1 get_set_stream [of sid ?s c1 i] by (simp add: get_stream_def)
    have "stream_ok env (init_lo c i) (pending ?d i) t" if "get_stream ?d i = Some t" for i t
    proof (cases "i = sid")
      case True
      then show ?thesis using that so nb n(1) f1(4) unfolding g by (auto simp: stream_ok_def pending_def f1)
    next
      case False
      then show ?thesis using that conn_ok_stream [OF ok1, of i t] f1(4) unfolding g by (simp add: pending_def)
    qed
    then have d: "conn_ok env (init_lo ?d) ?d"
      using ok1 f1(5) by (simp add: conn_ok_def keys_set_stream init_lo_def del: map_map)
    have "result_ok env (read_data_end 0 ?d (drop n p))"
      by (rule read_data_end_inv [OF d]) (use n in auto)
    moreover have "read_data_end 0 ?d (drop n p) = read_data_end n ?c p" by (simp add: read_data_end_def Let_def f1)
    ultimately show ?thesis by simp
  qed
  have room: "n \<le> ve_preread_size env - length (vt_preread s1)" if "\<not> vt_request_body s1"
    using that so n(1) by (auto simp: stream_ok_def)
  have empty: "result_ok env (read_data_end n c1 p)" by (rule read_data_end_inv) (use ok1 f1 n in auto)
  show ?thesis
    unfolding ngx_http_v2_state_read_data_def s(1) option.case prod.case Let_def
      whole_def [symmetric] n_def [symmetric] s1_def [symmetric] c1_def [symmetric]
    by (intro result_branches) (use body preread room empty skip_padded_inv [OF ok] in auto)
qed

lemma rst_stream_inv:
  assumes "env_ok env" "conn_inv env F_rst_stream c"
  shows "result_ok env (ngx_http_v2_state_rst_stream env c p)"
proof -
  have ok: "conn_ok env (init_lo c) c" "vc_padding c = 0" using assms(2) by (simp_all add: conn_inv_def handler_ok_def)
  have ev: "result_ok env (ngx_http_v2_state_complete (ve_read_event env (vc_sid c) (set_stream (vc_sid c) (s\<lparr>vt_in_closed := True, vt_out_closed := True\<rparr>) c)) q)"
    if "get_stream c (vc_sid c) = Some s" for s q
  proof -
    let ?c = "set_stream (vc_sid c) (s\<lparr>vt_in_closed := True, vt_out_closed := True\<rparr>) c"
    have ok1: "conn_ok env (init_lo c) ?c"
      using that ok(1) by (intro conn_ok_set_stream [OF ok(1)]) (auto simp: conn_ok_def stream_ok_def)
    then have k: "conn_kept ?c (ve_read_event env (vc_sid c) ?c)" using assms(1) init_lo_le [OF ok(1)] by (auto simp: env_ok_def)
    show ?thesis
      by (rule complete_inv) (use kept_ok [OF ok1 k init_lo_le [OF ok(1)]] k ok(2) in \<open>auto simp: conn_kept_def init_lo_def\<close>)
  qed
  show ?thesis unfolding ngx_http_v2_state_rst_stream_def
    by (intro result_branches error_inv save_inv) (use ok ev complete_inv [OF ok] assms(2) in auto)
qed

lemma settings_inv: "conn_inv env F_settings c \<Longrightarrow> result_ok env (ngx_http_v2_state_settings c p)"
proof -
  assume inv: "conn_inv env F_settings c"
  have "conn_ok env (init_lo (c\<lparr>vc_settings_ack := True\<rparr>)) (c\<lparr>vc_settings_ack := True\<rparr>)"
    by (rule conn_ok_weaken [of env _ c]) (use inv in \<open>auto simp: conn_inv_def conn_ok_def pending_def init_lo_def\<close>)
  then show ?thesis using inv unfolding ngx_http_v2_state_settings_def
    by (intro result_branches error_inv complete_inv) (auto simp: conn_inv_def handler_ok_def result_ok_def)
qed

lemma ping_inv: "conn_inv env F_ping c \<Longrightarrow> result_ok env (ngx_http_v2_state_ping c p)"
proof -
  assume inv: "conn_inv env F_ping c"
  then have ok: "conn_ok env (init_lo c) c" "vc_padding c = 0" by (simp_all add: conn_inv_def handler_ok_def)
  have "result_ok env (ngx_http_v2_state_complete (ngx_http_v2_queue_blocked_frame f c1) q)"
    if "ngx_http_v2_get_frame c 8 0x6 NGX_HTTP_V2_ACK_FLAG 0 = Some (f', c1)" for f f' c1 q
  proof -
    have same: "same_state c (ngx_http_v2_queue_blocked_frame f c1)"
      using same_trans [OF get_frame_same [OF that] queue_same(1)] .
    show ?thesis by (rule complete_inv) (use ok same same_ok [OF same] in \<open>auto simp: same_state_def init_lo_def\<close>)
  qed
  then show ?thesis unfolding ngx_http_v2_state_ping_def
    by (intro result_branches error_inv save_inv inv) (use inv in \<open>auto simp: conn_inv_def handler_ok_def result_ok_def\<close>)
qed

lemma goaway_inv: "conn_inv env F_goaway c \<Longrightarrow> result_ok env (ngx_http_v2_state_goaway c p)"
  unfolding ngx_http_v2_state_goaway_def
  by (intro result_branches error_inv save_inv) (auto simp: conn_inv_def handler_ok_def result_ok_def)

section \<open>Settings\<close>

lemma adjust_ok:
  assumes "env_ok env" "conn_ok env (\<lambda>i. if i \<in> set sids then old else new) c" "distinct sids" "old \<le> 0" "new \<le> 0" "new = old + delta"
    "delta \<le> int NGX_HTTP_V2_MAX_WINDOW" "adjust_streams env delta sids c = Some c'"
  shows "conn_ok env (\<lambda>i. new) c' \<and> vc_padding c' = vc_padding c \<and> vc_init_window c' = vc_init_window c"
  using assms(2,3,8)
proof (induction sids arbitrary: c)
  case (Cons sid sids)
  let ?lo = "\<lambda>i. if i \<in> set (sid # sids) then old else new" and ?lo' = "\<lambda>i. if i \<in> set sids then old else new"
  have lo: "\<And>i. ?lo i \<le> 0" "\<And>i. ?lo' i \<le> 0" using assms(4,5) by simp_all
  have ok': "conn_ok env ?lo' c1" if "conn_ok env ?lo c1" "\<And>s. get_stream c1 sid = Some s \<Longrightarrow> new \<le> vt_send_window s" for c1
  proof -
    have "stream_ok env (?lo' i) (pending c1 i) s" if g: "get_stream c1 i = Some s" for i s
    proof -
      have "stream_ok env (?lo i) (pending c1 i) s" using g \<open>conn_ok env ?lo c1\<close> by (simp add: conn_ok_def)
      then show ?thesis using \<open>\<And>s. get_stream c1 sid = Some s \<Longrightarrow> new \<le> vt_send_window s\<close> g Cons.prems(2) by (cases "i = sid") (auto simp: stream_ok_def)
    qed
    then show ?thesis using \<open>conn_ok env ?lo c1\<close> unfolding conn_ok_def by blast
  qed
  show ?case
  proof (cases "get_stream c sid")
    case None
    then show ?thesis using Cons.IH [OF ok' [OF Cons.prems(1)]] Cons.prems(2,3) by simp
  next
    case (Some s)
    have s: "stream_ok env old (pending c sid) s" using conn_ok_stream [OF Cons.prems(1) Some] by simp
    show ?thesis
    proof (cases "delta > 0 \<and> vt_send_window s > int NGX_HTTP_V2_MAX_WINDOW - delta")
      case True
      then obtain c1 where c1: "ngx_http_v2_terminate_stream env c sid s NGX_HTTP_V2_FLOW_CTRL_ERROR = Some c1"
          "adjust_streams env delta sids c1 = Some c'" using Cons.prems(3) Some by (auto simp: bind_eq_Some_conv)
      have "conn_ok env ?lo' c" by (rule ok' [OF Cons.prems(1)]) (use True Some assms(5,7) in auto)
      then have t: "conn_ok env ?lo' c1 \<and> conn_kept c c1" by (rule terminate_ok [OF assms(1) _ _ Some c1(1)]) (simp add: assms(4,5))
      then show ?thesis using Cons.IH [OF _ _ c1(2)] Cons.prems(2) by (simp add: conn_kept_def)
    next
      case False
      define s1 where "s1 = s\<lparr>vt_send_window := vt_send_window s + delta\<rparr>"
      have set_ok: "conn_ok env ?lo' (set_stream sid t c)" if "vt_send_window t = vt_send_window s1" "stream_ok env new (pending c sid) t" for t
      proof -
        have "stream_ok env (?lo' i) (pending c i) u" if "get_stream (set_stream sid t c) i = Some u" for i u
          using that \<open>stream_ok env new (pending c sid) t\<close> Cons.prems(1,2) Some by (auto simp: get_set_stream conn_ok_def split: if_splits)
        then show ?thesis using Cons.prems(1) by (simp add: conn_ok_def keys_set_stream del: map_map)
      qed
      have s1: "stream_ok env new (pending c sid) s1" "stream_ok env new (pending c sid) (s1\<lparr>vt_exhausted := False\<rparr>)"
        using s False assms(6) by (auto simp: stream_ok_def s1_def)
      show ?thesis
      proof (cases "vt_send_window s1 > 0 \<and> vt_exhausted s1")
        case True
        let ?c = "set_stream sid (s1\<lparr>vt_exhausted := False\<rparr>) c"
        have w: "conn_ok env ?lo' (ve_write_event env sid ?c) \<and> conn_kept ?c (ve_write_event env sid ?c)"
          by (rule write_ok [OF assms(1) set_ok _ refl]) (use s1 assms(4,5) in auto)
        have "adjust_streams env delta sids (ve_write_event env sid ?c) = Some c'"
          using Cons.prems(3) Some False True by (simp add: Let_def s1_def)
        then show ?thesis using Cons.IH [OF conjunct1 [OF w]] w Cons.prems(2) by (simp add: conn_kept_def)
      next
        case nw: False
        then have "adjust_streams env delta sids (set_stream sid s1 c) = Some c'"
          using Cons.prems(3) Some False by (auto simp: Let_def s1_def split: if_splits)
        then show ?thesis using Cons.IH [OF set_ok [OF refl s1(1)]] Cons.prems(2) by simp
      qed
    qed
  qed
qed simp

definition set_ok :: "v2_env \<Rightarrow> v2_conn \<Rightarrow> int \<Rightarrow> bool" where
  "set_ok env c delta \<longleftrightarrow> conn_inv env F_settings_params c \<and> 0 \<le> int (vc_init_window c) + delta \<and>
     int (vc_init_window c) + delta \<le> int NGX_HTTP_V2_MAX_WINDOW"

lemma set_ok_weaken:
  assumes "set_ok env c delta" "vc_streams c' = vc_streams c" "vc_recv_window c' = vc_recv_window c" "vc_send_window c' = vc_send_window c"
    "vc_init_window c' = vc_init_window c" "NGX_HTTP_V2_DEFAULT_FRAME_SIZE \<le> vc_frame_size c'"
    "vc_frame_size c' \<le> NGX_HTTP_V2_MAX_FRAME_SIZE" "vc_stream c' = vc_stream c" "vc_padding c' = vc_padding c"
  shows "set_ok env c' delta"
proof -
  have "conn_ok env (init_lo c) c'"
    by (rule conn_ok_weaken [of env "init_lo c" c])
      (use assms in \<open>auto simp: set_ok_def conn_inv_def conn_ok_def handler_ok_def pending_def\<close>)
  then show ?thesis using assms by (simp add: set_ok_def conn_inv_def init_lo_def handler_ok_def)
qed

lemma setting_ok:
  assumes "set_ok env c delta" "setting env i v c delta = Inr (c', delta')"
  shows "set_ok env c' delta'"
proof -
  have f: "NGX_HTTP_V2_DEFAULT_FRAME_SIZE \<le> vc_frame_size c" "vc_frame_size c \<le> NGX_HTTP_V2_MAX_FRAME_SIZE"
    using assms(1) by (simp_all add: set_ok_def conn_inv_def conn_ok_def)
  show ?thesis
  proof (cases "i = 4")
    case True
    then show ?thesis using assms by (auto simp: setting_def set_ok_def split: if_splits)
  next
    case False
    then have d: "delta' = delta" using assms(2) by (auto simp: setting_def split: if_splits)
    show ?thesis unfolding d
      by (rule set_ok_weaken [OF assms(1)]) (use assms(2) f False in \<open>auto simp: setting_def split: if_splits\<close>)
  qed
qed

lemma settings_loop_ok:
  "set_ok env c delta \<Longrightarrow>
     case settings_loop env c p delta of Inl r \<Rightarrow> result_ok env r | Inr (c', p', delta') \<Rightarrow> set_ok env c' delta'"
proof (induction env c p delta rule: settings_loop.induct)
  case (1 env c p delta)
  have "set_ok env (c\<lparr>vc_length := vc_length c - 6\<rparr>) delta"
    by (rule set_ok_weaken [OF "1.prems"]) (use "1.prems" in \<open>auto simp: set_ok_def conn_inv_def conn_ok_def\<close>)
  note step = setting_ok [OF this]
  show ?case
  proof (cases "vc_length c = 0 \<or> length p < 6")
    case True
    then show ?thesis using "1.prems" by (subst settings_loop.simps) (auto simp: set_ok_def intro!: save_inv)
  next
    case False
    show ?thesis
    proof (cases "setting env (ngx_http_v2_parse_uint16 p) (ngx_http_v2_parse_uint32 (drop 2 p)) (c\<lparr>vc_length := vc_length c - 6\<rparr>) delta")
      case (Inl err)
      then show ?thesis using False by (subst settings_loop.simps) (simp add: error_inv)
    next
      case (Inr r)
      obtain c1 d1 where r: "r = (c1, d1)" by (cases r)
      note IH = "1.IH" [OF _ _ Inr r [symmetric] step [OF Inr [unfolded r]]]
      show ?thesis using False IH by (subst settings_loop.simps) (simp add: Inr r)
    qed
  qed
qed

lemma settings_params_inv:
  assumes "env_ok env" "conn_inv env F_settings_params c"
  shows "result_ok env (ngx_http_v2_state_settings_params env c p)"
proof -
  have "set_ok env c 0" using assms(2) by (simp add: set_ok_def conn_inv_def conn_ok_def)
  note loop = settings_loop_ok [OF this, of p]
  have plain: "result_ok env (ngx_http_v2_state_complete c2 q)"
    if "set_ok env c1 d" "same_state c1 c2" for c1 c2 d q
    by (rule complete_inv) (use that same_ok [OF that(2)] in \<open>auto simp: set_ok_def conn_inv_def handler_ok_def same_state_def init_lo_def\<close>)
  have adjust: "result_ok env (ngx_http_v2_state_complete c3 q)"
    if set: "set_ok env c1 d" and same: "same_state c1 c2"
      and adj: "ngx_http_v2_adjust_windows env (c2\<lparr>vc_init_window := nat (int (vc_init_window c2) + d)\<rparr>) d = Some c3" for c1 c2 c3 d q
  proof -
    let ?c = "c2\<lparr>vc_init_window := nat (int (vc_init_window c2) + d)\<rparr>"
    let ?old = "int (vc_init_window c1) - int NGX_HTTP_V2_MAX_WINDOW"
    have ok2: "conn_ok env (\<lambda>i. ?old) c2" using set same_ok [OF same] by (simp add: set_ok_def conn_inv_def init_lo_def)
    have i: "vc_init_window c2 = vc_init_window c1" "vc_padding c2 = 0" "0 \<le> int (vc_init_window c1) + d" "int (vc_init_window c1) + d \<le> int NGX_HTTP_V2_MAX_WINDOW"
      "?old \<le> 0"
      using set same by (simp_all add: set_ok_def same_state_def conn_inv_def handler_ok_def conn_ok_def)
    have "conn_ok env (\<lambda>i. ?old) ?c"
      by (rule conn_ok_weaken [OF ok2]) (use ok2 i in \<open>auto simp: conn_ok_def pending_def\<close>)
    then have lo: "conn_ok env (\<lambda>i. if i \<in> set (map fst (vc_streams ?c)) then ?old else ?old + d) ?c"
      by (rule conn_ok_lo) (simp add: get_stream_def map_of_eq_None_iff del: not_None_eq)
    have "conn_ok env (\<lambda>i. ?old + d) c3 \<and> vc_padding c3 = vc_padding ?c \<and> vc_init_window c3 = vc_init_window ?c"
      by (rule adjust_ok [OF assms(1) lo]) (use ok2 i adj in \<open>auto simp: conn_ok_def ngx_http_v2_adjust_windows_def\<close>)
    then show ?thesis using i by (intro complete_inv) (auto simp: init_lo_def algebra_simps)
  qed
  show ?thesis
  proof (cases "settings_loop env c p 0")
    case (Inl r)
    then show ?thesis using loop by (simp add: ngx_http_v2_state_settings_params_def)
  next
    case (Inr r)
    then obtain c1 q d where r: "settings_loop env c p 0 = Inr (c1, q, d)" by (cases r) auto
    then have set: "set_ok env c1 d" using loop by simp
    show ?thesis unfolding ngx_http_v2_state_settings_params_def r sum.case prod.case Let_def
      by (intro result_branches error_inv)
        (auto intro: plain [OF set] adjust [OF set] same_trans [OF get_frame_same queue_same(2)])
  qed
qed

section \<open>Window updates\<close>

text \<open>The state a request's write event sees once its stream is taken off the queue.\<close>

lemma wake_step_ok:
  assumes "env_ok env" "conn_ok env lo c" "\<And>i. lo i \<le> 0"
    "c1 = c\<lparr>vc_waiting := sids\<rparr>" "c2 = (case get_stream c1 sid of None \<Rightarrow> c1 | Some s \<Rightarrow> set_stream sid (s\<lparr>vt_waiting := False\<rparr>) c1)"
    "c3 = ve_write_event env sid c2"
  shows "conn_ok env lo c3 \<and> vc_padding c3 = vc_padding c \<and> vc_init_window c3 = vc_init_window c \<and>
    (vc_send_window c3 \<noteq> 0 \<longrightarrow> length (vc_waiting c3) \<le> length sids)"
proof -
  have ok1: "conn_ok env lo c1" unfolding assms(4)
    by (rule conn_ok_weaken [OF assms(2)]) (use assms(2) in \<open>auto simp: conn_ok_def pending_def\<close>)
  have "conn_ok env lo c2"
  proof (cases "get_stream c1 sid")
    case (Some s)
    have "conn_ok env lo (set_stream sid (s\<lparr>vt_waiting := False\<rparr>) c1)"
      by (rule conn_ok_set_stream [OF ok1]) (use conn_ok_stream [OF ok1 Some] in \<open>simp add: stream_ok_def\<close>)
    then show ?thesis using Some assms(5) by simp
  qed (use ok1 assms(5) in simp)
  moreover note k = env_kept(2) [OF assms(1) this assms(3), of sid, folded assms(6)]
  ultimately have "conn_ok env lo c3" using kept_ok assms(3) by blast
  moreover have "vc_padding c2 = vc_padding c" "vc_init_window c2 = vc_init_window c" "vc_waiting c2 = sids"
    using assms(4,5) by (simp_all split: option.splits)
  ultimately show ?thesis using k by (simp add: conn_kept_def)
qed

lemma wake_ok:
  assumes "env_ok env" "conn_ok env lo c" "\<And>i. lo i \<le> 0"
  shows "conn_ok env lo (wake_waiting env n c) \<and> vc_padding (wake_waiting env n c) = vc_padding c \<and>
    vc_init_window (wake_waiting env n c) = vc_init_window c"
  using assms(2)
proof (induction n arbitrary: c)
  case (Suc n)
  then show ?case
  proof (cases "vc_waiting c")
    case (Cons sid sids)
    note step = wake_step_ok [OF assms(1) Suc.prems assms(3) refl refl refl, where sids = sids and sid = sid]
    show ?thesis using step Suc.IH [OF conjunct1 [OF step]] by (simp add: Cons Let_def)
  qed simp
qed simp

lemma wake_enough:
  assumes "env_ok env" "conn_ok env lo c" "\<And>i. lo i \<le> 0" "length (vc_waiting c) \<le> n"
  shows "vc_send_window (wake_waiting env n c) = 0 \<or> vc_waiting (wake_waiting env n c) = []"
  using assms(2,4)
proof (induction n arbitrary: c)
  case (Suc n)
  then show ?case
  proof (cases "vc_waiting c")
    case (Cons sid sids)
    note step = wake_step_ok [OF assms(1) Suc.prems(1) assms(3) refl refl refl, where sids = sids and sid = sid]
    show ?thesis using step Suc.IH [OF conjunct1 [OF step]] Suc.prems(2) by (auto simp: Cons Let_def)
  qed simp
qed simp

lemma window_update_inv:
  assumes "env_ok env" "conn_inv env F_window_update c"
  shows "result_ok env (ngx_http_v2_state_window_update env c p)"
proof -
  have ok: "conn_ok env (init_lo c) c" "vc_padding c = 0" using assms(2) by (simp_all add: conn_inv_def handler_ok_def)
  note lo = init_lo_le [OF ok(1)]
  have wake: "result_ok env (ngx_http_v2_state_complete (wake_waiting env n (c\<lparr>vc_send_window := w\<rparr>)) q)" for n w q
  proof -
    have "conn_ok env (init_lo c) (c\<lparr>vc_send_window := w\<rparr>)"
      by (rule conn_ok_weaken [OF ok(1)]) (use ok(1) in \<open>auto simp: conn_ok_def pending_def\<close>)
    note wake_ok [OF assms(1) this lo, of n]
    then show ?thesis using ok(2) by (intro complete_inv) (simp_all add: init_lo_def)
  qed
  have stop: "result_ok env (ngx_http_v2_state_complete c1 q)"
    if "get_stream c sid = Some s" "ngx_http_v2_terminate_stream env c sid s status = Some c1" for sid s status c1 q
    using terminate_ok [OF assms(1) ok(1) lo that] ok(2) by (intro complete_inv) (auto simp: conn_kept_def init_lo_def)
  have set: "conn_ok env (init_lo c) (set_stream sid t c)"
    if "get_stream c sid = Some s" "\<not> w > size_t (int NGX_HTTP_V2_MAX_WINDOW - vt_send_window s)"
      "t = s\<lparr>vt_send_window := vt_send_window s + int w\<rparr> \<or> t = s\<lparr>vt_send_window := vt_send_window s + int w, vt_exhausted := False\<rparr>" for sid s t w
  proof -
    have s: "stream_ok env (init_lo c sid) (pending c sid) s" by (rule conn_ok_stream [OF ok(1) that(1)])
    then have "int w \<le> int NGX_HTTP_V2_MAX_WINDOW - vt_send_window s"
      using that(2) size_t_le [of "int NGX_HTTP_V2_MAX_WINDOW - vt_send_window s"] by (simp add: stream_ok_def)
    then show ?thesis using s that(3) by (intro conn_ok_set_stream [OF ok(1)]) (auto simp: stream_ok_def)
  qed
  have plain: "result_ok env (ngx_http_v2_state_complete (set_stream sid t c) q)" if "conn_ok env (init_lo c) (set_stream sid t c)" for sid t q
    using that ok(2) by (intro complete_inv) (simp_all add: init_lo_def)
  have event: "result_ok env (ngx_http_v2_state_complete (ve_write_event env sid (set_stream sid t c)) q)" if "conn_ok env (init_lo c) (set_stream sid t c)" for sid t q
    using write_ok [OF assms(1) that lo refl] ok(2) by (intro complete_inv) (auto simp: conn_kept_def init_lo_def)
  show ?thesis unfolding ngx_http_v2_state_window_update_def Let_def
    by (intro result_branches error_inv save_inv)
      (use complete_inv [OF ok] assms(2) in \<open>auto intro: wake stop plain event set\<close>)
qed

section \<open>All handlers, and the loop\<close>

lemma fcall_inv:
  assumes "env_ok env" "conn_inv env handler c"
  shows "result_ok env (v2_fcall env handler c p)"
proof (cases handler)
  case F_headers
  then show ?thesis using assms by (simp add: v2_fcall_def result_ok_def)
next
  case F_priority
  then show ?thesis using assms by (simp add: v2_fcall_def result_ok_def)
qed (use assms head_inv data_inv read_data_inv rst_stream_inv settings_inv settings_params_inv ping_inv goaway_inv window_update_inv skip_inv
  in \<open>simp_all add: v2_fcall_def error_inv\<close>)

lemma frames_inv: "env_ok env \<Longrightarrow> conn_inv env handler c \<Longrightarrow> result_ok env (v2_frames env handler c p)"
proof (induction env handler c p rule: v2_frames.induct)
  case (1 env handler c p)
  note r = fcall_inv [OF "1.prems", of p]
  show ?case
  proof (cases "v2_fcall env handler c p")
    case (FCall handler' c' p')
    then show ?thesis using "1.IH"(1) [OF FCall "1.prems"(1)] r by (subst v2_frames.simps) (simp add: result_ok_def)
  next
    case (FNext c' p')
    then show ?thesis using "1.IH"(2) [OF FNext _ "1.prems"(1)] r by (subst v2_frames.simps) (simp add: result_ok_def)
  qed (use r in \<open>subst v2_frames.simps, simp\<close>)+
qed

definition read_ok :: "v2_env \<Rightarrow> v2_read \<Rightarrow> bool" where
  "read_ok env v \<longleftrightarrow>
     (case v of
        VReading r \<Rightarrow> conn_inv env (vr_handler r) (vr_conn r)
      | VLeft handler c p \<Rightarrow> conn_inv env handler c
      | VFinalized alert code \<Rightarrow> \<not> alert)"

lemma read_inv:
  assumes "env_ok env" "conn_inv env (vr_handler r) (vr_conn r)"
  shows "read_ok env (ngx_http_v2_read_handler env r pieces)"
  using assms(2)
proof (induction pieces arbitrary: r)
  case (Cons piece pieces)
  note res = frames_inv [OF assms(1) Cons.prems, of "vr_buffer r @ piece"]
  have ok: "conn_inv env handler (c\<lparr>vc_total_bytes := n\<rparr>)" if "conn_inv env handler c" for handler c n
  proof -
    have "conn_ok env (init_lo c) (c\<lparr>vc_total_bytes := n\<rparr>)"
      by (rule conn_ok_weaken [of env "init_lo c" c]) (use that in \<open>auto simp: conn_inv_def conn_ok_def pending_def\<close>)
    then show ?thesis using that by (simp add: conn_inv_def init_lo_def handler_ok_def)
  qed
  show ?case
    using res Cons.IH ok
    by (cases "v2_frames env (vr_handler r) (vr_conn r) (vr_buffer r @ piece)")
      (simp_all add: Let_def v2_flood_def result_ok_def read_ok_def)
qed (simp add: read_ok_def)

end
