(* ===== verification/Http_V2_Filter.thy ===== *)
theory Http_V2_Filter
  imports Http_V2_Frames
begin

text \<open>
  The output side of an HTTP/2 connection (\<open>src/http/v2/ngx_http_v2_filter_module.c\<close> and the output
  queue of \<open>ngx_http_v2.c\<close>): header blocks cut into HEADERS and CONTINUATION frames, response data cut
  into DATA frames within the windows of the stream and of the connection, the queue of frames
  ordered by priority, the streams that wait for a window, and what is given back when a
  request ends with frames still in the queue.
\<close>

section \<open>The output queue\<close>

text \<open>The order by rank and relative weight that both queues are kept in.\<close>

definition goes_first :: "v2_stream \<Rightarrow> v2_stream \<Rightarrow> bool" where
  "goes_first t s \<longleftrightarrow> vt_rank t < vt_rank s \<or> vt_rank t = vt_rank s \<and> vt_rel_weight t \<ge> vt_rel_weight s"

definition queue_passes :: "v2_conn \<Rightarrow> v2_stream \<Rightarrow> v2_out_frame \<Rightarrow> bool" where
  "queue_passes c s f =
     (case vo_stream f of
        None \<Rightarrow> False
      | Some sid \<Rightarrow> \<not> vo_blocked f \<and> (case get_stream c sid of None \<Rightarrow> True | Some t \<Rightarrow> \<not> goes_first t s))"

definition ngx_http_v2_queue_frame :: "v2_stream \<Rightarrow> v2_out_frame \<Rightarrow> v2_conn \<Rightarrow> v2_conn" where
  "ngx_http_v2_queue_frame s frame c =
     c\<lparr>vc_out := takeWhile (queue_passes c s) (vc_out c) @ frame # dropWhile (queue_passes c s) (vc_out c)\<rparr>"

text \<open>The streams that wait for the window of the connection: the queue is searched from its end.\<close>

definition ngx_http_v2_waiting_queue :: "v2_conn \<Rightarrow> nat \<Rightarrow> v2_stream \<Rightarrow> v2_conn" where
  "ngx_http_v2_waiting_queue c sid s =
     (if vt_waiting s then c
      else
        (let stop = (\<lambda>i. case get_stream c i of None \<Rightarrow> False | Some t \<Rightarrow> goes_first t s);
             back = rev (vc_waiting c) in
         (set_stream sid (s\<lparr>vt_waiting := True\<rparr>) c)
           \<lparr>vc_waiting := rev (takeWhile (\<lambda>i. \<not> stop i) back @ sid # dropWhile (\<lambda>i. \<not> stop i) back)\<rparr>))"

text \<open>\<open>ngx_http_v2_flow_control\<close>: the connection, and whether the stream may send.\<close>

definition ngx_http_v2_flow_control :: "v2_conn \<Rightarrow> nat \<Rightarrow> v2_conn \<times> bool" where
  "ngx_http_v2_flow_control c sid =
     (case get_stream c sid of
        None \<Rightarrow> (c, False)
      | Some s \<Rightarrow>
          if vt_send_window s \<le> 0 then (set_stream sid (s\<lparr>vt_exhausted := True\<rparr>) c, False)
          else if vc_send_window c = 0 then (ngx_http_v2_waiting_queue c sid s, False)
          else (c, True))"

section \<open>Sending the queue\<close>

text \<open>The frame handlers, once a frame has been sent whole.\<close>

definition ngx_http_v2_handle_frame :: "nat \<Rightarrow> v2_out_frame \<Rightarrow> v2_conn \<Rightarrow> v2_conn" where
  "ngx_http_v2_handle_frame sid frame c =
     (let c = c\<lparr>vc_total_bytes := vc_total_bytes c + (NGX_HTTP_V2_FRAME_HEADER_SIZE + vo_length frame)\<rparr> in
      case get_stream c sid of
        None \<Rightarrow> c
      | Some s \<Rightarrow>
          set_stream sid (s\<lparr>vt_out_closed := vt_out_closed s \<or> vo_fin frame, vt_free_frames := vt_free_frames s + 1,
            vt_queued := vt_queued s - 1\<rparr>) c)"

definition frame_sent :: "v2_out_frame \<Rightarrow> v2_conn \<Rightarrow> v2_conn" where
  "frame_sent frame c =
     (case vo_stream frame of
        None \<Rightarrow> c\<lparr>vc_free_frames := vc_free_frames c + 1,
                 vc_total_bytes := vc_total_bytes c + (NGX_HTTP_V2_FRAME_HEADER_SIZE + vo_length frame)\<rparr>
      | Some sid \<Rightarrow> ngx_http_v2_handle_frame sid frame (c\<lparr>vc_payload_bytes := vc_payload_bytes c + vo_length frame\<rparr>))"

text \<open>
  \<open>ngx_http_v2_send_output_queue\<close>: the queue is sent from its end, unless the socket is not ready, and the
  socket takes some number of frames whole, or fails. The frame it stopped at stays, marked as blocked.
\<close>

datatype v2_socket = Sock_error | Sock_again | Sock_sent nat

definition block_head :: "v2_out_frame list \<Rightarrow> v2_out_frame list" where
  "block_head out = (case out of [] \<Rightarrow> [] | frame # frames \<Rightarrow> frame\<lparr>vo_blocked := True\<rparr> # frames)"

definition ngx_http_v2_send_output_queue :: "(v2_conn \<Rightarrow> v2_socket) \<Rightarrow> v2_conn \<Rightarrow> v2_conn option" where
  "ngx_http_v2_send_output_queue sock c =
     (case sock c of
        Sock_error \<Rightarrow> None
      | Sock_again \<Rightarrow> Some c
      | Sock_sent n \<Rightarrow>
          (let out = rev (vc_out c) in
           Some (fold frame_sent (take n out) (c\<lparr>vc_out := rev (block_head (drop n out))\<rparr>))))"

definition ngx_http_v2_filter_send :: "(v2_conn \<Rightarrow> v2_socket) \<Rightarrow> v2_conn \<Rightarrow> nat \<Rightarrow> v2_conn option" where
  "ngx_http_v2_filter_send sock c sid =
     (case get_stream c sid of
        None \<Rightarrow> Some c
      | Some s \<Rightarrow> if vt_queued s = 0 then Some c else ngx_http_v2_send_output_queue sock c)"

section \<open>Header blocks\<close>

text \<open>
  The bytes of a header block in HEADERS and CONTINUATION frames of at most the client's
  frame size, and \<open>frame->length\<close>: the block and the headers of the continuations. The frame
  size is never 0 (at least 16384).
\<close>

function headers_frames :: "nat \<Rightarrow> nat \<Rightarrow> byte \<Rightarrow> nat \<Rightarrow> byte list \<Rightarrow> byte list \<times> nat" where
  "headers_frames sid type flags frame_size block =
     (if length block \<le> frame_size \<or> frame_size = 0 then
        (ngx_http_v2_write_len_and_type (length block) type @ [flags OR 0x04] @ ngx_http_v2_write_uint32 sid @ block, length block)
      else
        (case headers_frames sid 0x9 0 frame_size (drop frame_size block) of
           (bytes, len) \<Rightarrow>
             (ngx_http_v2_write_len_and_type frame_size type @ [flags] @ ngx_http_v2_write_uint32 sid @ take frame_size block @ bytes,
              frame_size + (NGX_HTTP_V2_FRAME_HEADER_SIZE + len))))"
  by pat_completeness auto
termination
  by (relation "measure (\<lambda>(sid, type, flags, frame_size, block). length block)") auto

declare headers_frames.simps [simp del]

definition ngx_http_v2_create_headers_frame :: "v2_conn \<Rightarrow> nat \<Rightarrow> byte list \<Rightarrow> bool \<Rightarrow> v2_out_frame" where
  "ngx_http_v2_create_headers_frame c sid block fin =
     (case headers_frames sid 0x1 (if fin then NGX_HTTP_V2_END_STREAM_FLAG else 0) (vc_frame_size c) block of
        (bytes, len) \<Rightarrow> \<lparr>vo_stream = Some sid, vo_length = len, vo_blocked = True, vo_fin = fin, vo_bytes = bytes\<rparr>)"

section \<open>Response data\<close>

text \<open>\<open>ngx_http_v2_filter_get_data_frame\<close>: \<open>None\<close> when there are too many frames.\<close>

definition ngx_http_v2_filter_get_data_frame :: "v2_conn \<Rightarrow> nat \<Rightarrow> v2_stream \<Rightarrow> nat \<Rightarrow> bool \<Rightarrow> (v2_out_frame \<times> v2_stream \<times> v2_conn) option" where
  "ngx_http_v2_filter_get_data_frame c sid s len fin =
     (let frame = \<lparr>vo_stream = Some sid, vo_length = len, vo_blocked = False, vo_fin = fin,
            vo_bytes = ngx_http_v2_write_len_and_type len 0x0 @ [if fin then NGX_HTTP_V2_END_STREAM_FLAG else 0] @ ngx_http_v2_write_uint32 sid\<rparr> in
      if vt_free_frames s > 0 then Some (frame, s\<lparr>vt_free_frames := vt_free_frames s - 1\<rparr>, c)
      else if vc_frames c < 10000 then Some (frame, s\<lparr>vt_frames := vt_frames s + 1\<rparr>, c\<lparr>vc_frames := vc_frames c + 1\<rparr>)
      else None)"

text \<open>A chain of buffers: for each its size and whether it is the last of the response.\<close>

type_synonym v2_chain = "(nat \<times> bool) list"

text \<open>
  The buffers that fit a frame whole: the room that is left, whether the last of them ends
  the response, and the rest of the chain.
\<close>

fun fill_frame :: "nat \<Rightarrow> bool \<Rightarrow> v2_chain \<Rightarrow> nat \<times> bool \<times> v2_chain" where
  "fill_frame rest ends [] = (rest, ends, [])"
| "fill_frame rest ends ((size', last_buf) # chain) =
     (if rest \<ge> size' then fill_frame (rest - size') last_buf chain else (rest, ends, (size', last_buf) # chain))"

text \<open>A frame of at most \<open>frame_size\<close> bytes off the chain: its length, whether it ends the response, the rest.\<close>

definition cut_frame :: "nat \<Rightarrow> v2_chain \<Rightarrow> nat \<times> bool \<times> v2_chain" where
  "cut_frame frame_size chain =
     (case fill_frame frame_size False chain of
        (rest, ends, []) \<Rightarrow> (frame_size - rest, ends, [])
      | (rest, ends, (size', last_buf) # chain) \<Rightarrow>
          if rest \<noteq> 0 then (frame_size, False, (size' - rest, last_buf) # chain)
          else (frame_size, ends, (size', last_buf) # chain))"

definition queue_data :: "nat \<Rightarrow> nat \<Rightarrow> bool \<Rightarrow> v2_conn \<Rightarrow> v2_conn option" where
  "queue_data sid len fin c =
     (case get_stream c sid of
        None \<Rightarrow> None
      | Some s \<Rightarrow>
          (case ngx_http_v2_filter_get_data_frame c sid s len fin of
             None \<Rightarrow> None
           | Some (frame, s, c) \<Rightarrow>
               (let c = ngx_http_v2_queue_frame s frame c in
                Some (set_stream sid (s\<lparr>vt_send_window := vt_send_window s - int len, vt_queued := vt_queued s + 1\<rparr>)
                  (c\<lparr>vc_send_window := vc_send_window c - len\<rparr>)))))"

definition queue_trailers :: "nat \<Rightarrow> v2_out_frame option \<Rightarrow> v2_conn \<Rightarrow> v2_conn" where
  "queue_trailers sid trailers c =
     (case (trailers, get_stream c sid) of
        (Some frame, Some s) \<Rightarrow> set_stream sid (s\<lparr>vt_queued := vt_queued s + 1\<rparr>) (ngx_http_v2_queue_frame s frame c)
      | _ \<Rightarrow> c)"

text \<open>
  The loop over the frames. \<open>made\<close> is what \<open>ngx_http_v2_create_trailers_frame\<close> returns, a frame or none; \<open>None\<close> is
  a failure. The result is the connection and the rest of the chain, \<open>None\<close> for an error.
\<close>

partial_function (option) send_loop ::
  "(v2_out_frame option) option \<Rightarrow> nat \<Rightarrow> v2_out_frame option \<Rightarrow> nat \<Rightarrow> nat \<Rightarrow> v2_chain \<Rightarrow> v2_conn \<Rightarrow> (v2_conn \<times> v2_chain option) option" where
  "send_loop made sid trailers frame_size limit chain c =
     (let (len, ends, chain) = cut_frame (min frame_size limit) chain in
      if ends \<and> made = None then Some (c, None)
      else
        (let trailers = (if ends then the made else trailers); fin = (ends \<and> trailers = None) in
         case (if len \<noteq> 0 \<or> fin then queue_data sid len fin c else Some c) of
           None \<Rightarrow> Some (c, None)
         | Some c \<Rightarrow>
             if chain = [] then Some (queue_trailers sid trailers c, Some [])
             else if limit - len = 0 then Some (c, Some chain)
             else send_loop made sid trailers len (limit - len) chain c))"

definition send_limit :: "nat \<Rightarrow> nat \<Rightarrow> int \<Rightarrow> nat" where
  "send_limit limit conn_window stream_window =
     (let limit = (if limit = 0 \<or> limit > conn_window then conn_window else limit) in
      if int limit > stream_window then if stream_window > 0 then nat stream_window else 0 else limit)"

text \<open>The data of a chain, once the windows allow some: the frames, the queue, and what is left.\<close>

definition send_data ::
  "(v2_conn \<Rightarrow> v2_socket) \<Rightarrow> nat \<Rightarrow> (v2_out_frame option) option \<Rightarrow> nat \<Rightarrow> nat \<Rightarrow> v2_chain \<Rightarrow> v2_conn \<Rightarrow> (v2_conn \<times> v2_chain option) option" where
  "send_data sock chunk_size made sid limit chain c =
     (case get_stream c sid of
        None \<Rightarrow> Some (c, None)
      | Some s \<Rightarrow>
          (case send_loop made sid None (min chunk_size (vc_frame_size c)) (send_limit limit (vc_send_window c) (vt_send_window s)) chain c of
             None \<Rightarrow> None
           | Some (c, None) \<Rightarrow> Some (c, None)
           | Some (c, Some chain) \<Rightarrow>
               (case ngx_http_v2_filter_send sock c sid of
                  None \<Rightarrow> Some (c, None)
                | Some c \<Rightarrow> Some (if chain = [] then c else fst (ngx_http_v2_flow_control c sid), Some chain))))"

definition ngx_http_v2_send_chain ::
  "(v2_conn \<Rightarrow> v2_socket) \<Rightarrow> nat \<Rightarrow> (v2_out_frame option) option \<Rightarrow> v2_conn \<Rightarrow> nat \<Rightarrow> nat \<Rightarrow> v2_chain \<Rightarrow> (v2_conn \<times> v2_chain option) option" where
  "ngx_http_v2_send_chain sock chunk_size made c sid limit chain =
     (let chain = dropWhile (\<lambda>(size', last_buf). size' = 0 \<and> \<not> last_buf) chain;
          size' = (case chain of [] \<Rightarrow> 0 | (size', last_buf) # _ \<Rightarrow> size') in
      case get_stream c sid of
        None \<Rightarrow> Some (c, None)
      | Some s \<Rightarrow>
          if chain = [] \<or> vt_out_closed s then
            if size' \<noteq> 0 then Some (c, None)
            else (case ngx_http_v2_filter_send sock c sid of None \<Rightarrow> Some (c, None) | Some c \<Rightarrow> Some (c, Some []))
          else if size' = 0 then send_data sock chunk_size made sid limit chain c
          else
            (case ngx_http_v2_flow_control c sid of
               (c, True) \<Rightarrow> send_data sock chunk_size made sid limit chain c
             | (c, False) \<Rightarrow>
                 (case ngx_http_v2_filter_send sock c sid of
                    None \<Rightarrow> Some (c, None)
                  | Some c \<Rightarrow>
                      (case ngx_http_v2_flow_control c sid of
                         (c, True) \<Rightarrow> send_data sock chunk_size made sid limit chain c
                       | (c, False) \<Rightarrow> Some (c, Some chain)))))"

section \<open>The end of a request\<close>

text \<open>
  \<open>ngx_http_v2_filter_cleanup\<close>: the frames of the stream that are not being written leave the queue, as
  many as it has queued, and their length goes back to the window of the connection; if that was
  closed, the streams that waited for it are woken.
\<close>

fun cleanup_queue :: "nat \<Rightarrow> nat \<Rightarrow> v2_out_frame list \<Rightarrow> nat \<times> nat \<times> v2_out_frame list" where
  "cleanup_queue sid queued [] = (queued, 0, [])"
| "cleanup_queue sid queued (frame # frames) =
     (if vo_stream frame = Some sid \<and> \<not> vo_blocked frame then
        if queued - 1 = 0 then (0, vo_length frame, frames)
        else (case cleanup_queue sid (queued - 1) frames of (queued, window, frames) \<Rightarrow> (queued, vo_length frame + window, frames))
      else (case cleanup_queue sid queued frames of (queued, window, frames) \<Rightarrow> (queued, window, frame # frames)))"

definition wake_all :: "v2_conn \<Rightarrow> v2_conn" where
  "wake_all c =
     c\<lparr>vc_streams := map (\<lambda>(i, t). (i, if i \<in> set (vc_waiting c) then t\<lparr>vt_waiting := False\<rparr> else t)) (vc_streams c), vc_waiting := []\<rparr>"

definition ngx_http_v2_filter_cleanup :: "v2_conn \<Rightarrow> nat \<Rightarrow> v2_conn" where
  "ngx_http_v2_filter_cleanup c sid =
     (case get_stream c sid of
        None \<Rightarrow> c
      | Some s \<Rightarrow>
          (let c = (if vt_waiting s then (set_stream sid (s\<lparr>vt_waiting := False\<rparr>) c)\<lparr>vc_waiting := remove1 sid (vc_waiting c)\<rparr> else c);
               s = s\<lparr>vt_waiting := False\<rparr> in
           if vt_queued s = 0 then c
           else
             (case cleanup_queue sid (vt_queued s) (vc_out c) of
                (queued, window, out) \<Rightarrow>
                  (let c = (set_stream sid (s\<lparr>vt_queued := queued\<rparr>) c)\<lparr>vc_out := out\<rparr>;
                       c = (if vc_send_window c = 0 \<and> window \<noteq> 0 then wake_all c else c) in
                   c\<lparr>vc_send_window := size_t (int (vc_send_window c) + int window)\<rparr>))))"

text \<open>
  \<open>ngx_http_v2_close_stream\<close>: a stream with frames in the queue stays; otherwise the client is told if it
  does not know that the stream ends, and the stream leaves the connection.
\<close>

definition close_reset :: "v2_conn \<Rightarrow> nat \<Rightarrow> v2_stream \<Rightarrow> bool \<Rightarrow> v2_conn" where
  "close_reset c sid s timedout =
     (case (if vt_rst_sent s then None
            else if \<not> vt_out_closed s then Some (if timedout then NGX_HTTP_V2_PROTOCOL_ERROR else NGX_HTTP_V2_INTERNAL_ERROR)
            else if \<not> vt_in_closed s then Some 0
            else None) of
        None \<Rightarrow> c
      | Some code \<Rightarrow> (case ngx_http_v2_send_rst_stream c sid code of None \<Rightarrow> c | Some c \<Rightarrow> c))"

definition ngx_http_v2_close_stream :: "v2_conn \<Rightarrow> nat \<Rightarrow> bool \<Rightarrow> v2_conn" where
  "ngx_http_v2_close_stream c sid timedout =
     (case get_stream c sid of
        None \<Rightarrow> c
      | Some s \<Rightarrow>
          if vt_queued s \<noteq> 0 then c
          else
            (let c = close_reset c sid s timedout in
             c\<lparr>vc_stream := (if vc_stream c = Some sid then None else vc_stream c),
               vc_streams := filter (\<lambda>(i, t). i \<noteq> sid) (vc_streams c), vc_frames := vc_frames c - vt_frames s\<rparr>))"

end
