(* ===== verification/V2_Send.thy ===== *)
theory V2_Send
  imports V2_Flow Http_V2_Filter
begin

text \<open>
  The output side of \<open>Http_V2_Filter\<close>: response data stays within both windows and is accounted for to
  the byte, frames of one stream keep their order in the queue, and what an ended request leaves
  in the queue goes back to the window. The requests of the program meet the laws that
  \<open>V2_Flow\<close> asks of the events of a request.
\<close>

section \<open>Steps that send\<close>

text \<open>
  A step that takes \<open>D\<close> bytes of a stream out of both windows and leaves all else of the
  flow control alone; a stream starts to wait only when the window of the connection is closed.
\<close>

definition stream_sends :: "nat \<Rightarrow> v2_stream \<Rightarrow> v2_stream \<Rightarrow> bool" where
  "stream_sends D s s' \<longleftrightarrow> vt_send_window s = vt_send_window s' + int D \<and> vt_recv_window s' = vt_recv_window s \<and>
     vt_preread s' = vt_preread s \<and> vt_request_body s' = vt_request_body s \<and> vt_no_flow_control s' = vt_no_flow_control s"

definition sends :: "nat \<Rightarrow> nat \<Rightarrow> v2_conn \<Rightarrow> v2_conn \<Rightarrow> bool" where
  "sends sid D c c' \<longleftrightarrow>
     vc_length c' = vc_length c \<and> vc_padding c' = vc_padding c \<and> vc_stream c' = vc_stream c \<and> vc_init_window c' = vc_init_window c \<and>
     vc_frame_size c' = vc_frame_size c \<and> vc_recv_window c' = vc_recv_window c \<and> map fst (vc_streams c') = map fst (vc_streams c) \<and>
     vc_send_window c = vc_send_window c' + D \<and> (vc_waiting c' = vc_waiting c \<or> vc_send_window c' = 0) \<and>
     (\<forall>i s'. get_stream c' i = Some s' \<longrightarrow> (\<exists>s. get_stream c i = Some s \<and> stream_sends (if i = sid then D else 0) s s'))"

lemma sends_refl: "sends sid 0 c c"
  by (simp add: sends_def stream_sends_def)

lemma sends_get:
  assumes "sends sid D c c'" "get_stream c' i = Some s'"
  obtains s where "get_stream c i = Some s" "stream_sends (if i = sid then D else 0) s s'"
  using assms unfolding sends_def by blast

lemma sends_trans:
  assumes "sends sid D c c1" "sends sid E c1 c2"
  shows "sends sid (D + E) c c2"
proof -
  have "\<exists>s. get_stream c i = Some s \<and> stream_sends (if i = sid then D + E else 0) s s2" if g: "get_stream c2 i = Some s2" for i s2
  proof -
    obtain s1 where s1: "get_stream c1 i = Some s1" "stream_sends (if i = sid then E else 0) s1 s2" by (rule sends_get [OF assms(2) g])
    obtain s where "get_stream c i = Some s" "stream_sends (if i = sid then D else 0) s s1" by (rule sends_get [OF assms(1) s1(1)])
    then show ?thesis using s1(2) by (auto simp: stream_sends_def)
  qed
  then show ?thesis using assms by (auto simp: sends_def)
qed

lemma get_stream_keys: "get_stream c i = None \<longleftrightarrow> i \<notin> set (map fst (vc_streams c))"
  by (simp add: get_stream_def map_of_eq_None_iff)

lemma sends_stream:
  assumes "sends sid D c c'" "get_stream c sid = Some s"
  obtains s' where "get_stream c' sid = Some s'" "stream_sends D s s'"
proof -
  have "map fst (vc_streams c') = map fst (vc_streams c)" using assms(1) by (simp add: sends_def)
  then have "get_stream c' sid \<noteq> None" using assms(2) get_stream_keys [of c sid] get_stream_keys [of c' sid] by simp
  then obtain s' where "get_stream c' sid = Some s'" by auto
  then show thesis using assms that by (fastforce simp: sends_def)
qed

lemma sends_kept:
  assumes "sends sid D c c'" "conn_ok env lo c" "\<And>s. get_stream c sid = Some s \<Longrightarrow> D = 0 \<or> int D \<le> vt_send_window s"
  shows "conn_kept c c'"
proof -
  have "\<exists>s. get_stream c i = Some s \<and> stream_kept s s'" if g: "get_stream c' i = Some s'" for i s'
  proof -
    obtain s where s: "get_stream c i = Some s" "stream_sends (if i = sid then D else 0) s s'" by (rule sends_get [OF assms(1) g])
    moreover have "stream_ok env (lo i) (pending c i) s" by (rule conn_ok_stream [OF assms(2) s(1)])
    ultimately have "stream_kept s s'" using assms(3) by (cases "i = sid") (auto simp: stream_kept_def stream_sends_def stream_ok_def)
    then show ?thesis using s(1) by blast
  qed
  then show ?thesis using assms(1,2) by (auto simp: conn_kept_def sends_def conn_ok_def)
qed

text \<open>A change of one stream.\<close>

lemma sends_set_stream:
  assumes "get_stream c sid = Some s" "stream_sends D s s'" "vc_streams c1 = vc_streams c"
    "vc_length c1 = vc_length c" "vc_padding c1 = vc_padding c" "vc_stream c1 = vc_stream c" "vc_init_window c1 = vc_init_window c"
    "vc_frame_size c1 = vc_frame_size c" "vc_recv_window c1 = vc_recv_window c" "vc_send_window c = vc_send_window c1 + D"
    "vc_waiting c1 = vc_waiting c \<or> vc_send_window c1 = 0"
  shows "sends sid D c (set_stream sid s' c1)"
proof -
  have "get_stream c1 = get_stream c" using assms(3) by (simp add: fun_eq_iff get_stream_def)
  then have "\<exists>t. get_stream c i = Some t \<and> stream_sends (if i = sid then D else 0) t t'" if "get_stream (set_stream sid s' c1) i = Some t'" for i t'
    using that assms(1,2) by (auto simp: get_set_stream stream_sends_def split: if_splits)
  then show ?thesis using assms by (simp add: sends_def keys_set_stream del: map_map)
qed

lemma sends_flow_control: "sends sid 0 c (fst (ngx_http_v2_flow_control c sid))"
proof (cases "get_stream c sid")
  case (Some s)
  show ?thesis
  proof (cases "vt_send_window s \<le> 0")
    case True
    then show ?thesis using Some sends_set_stream [OF Some, of 0 _ c] by (simp add: ngx_http_v2_flow_control_def stream_sends_def)
  next
    case False
    let ?w = "rev (takeWhile (\<lambda>i. \<not> (case get_stream c i of None \<Rightarrow> False | Some t \<Rightarrow> goes_first t s)) (rev (vc_waiting c)) @
      sid # dropWhile (\<lambda>i. \<not> (case get_stream c i of None \<Rightarrow> False | Some t \<Rightarrow> goes_first t s)) (rev (vc_waiting c)))"
    have eq: "(set_stream sid t c)\<lparr>vc_waiting := w\<rparr> = set_stream sid t (c\<lparr>vc_waiting := w\<rparr>)" for t w by (simp add: set_stream_def)
    have "sends sid 0 c (set_stream sid (s\<lparr>vt_waiting := True\<rparr>) (c\<lparr>vc_waiting := w\<rparr>))" if "vc_send_window c = 0" for w
      by (rule sends_set_stream [OF Some]) (use that in \<open>auto simp: stream_sends_def\<close>)
    then show ?thesis using Some False sends_refl
      by (simp add: ngx_http_v2_flow_control_def ngx_http_v2_waiting_queue_def Let_def eq)
  qed
qed (simp add: ngx_http_v2_flow_control_def sends_refl)

lemma sends_other:
  "vc_streams c' = vc_streams c \<Longrightarrow> vc_length c' = vc_length c \<Longrightarrow> vc_padding c' = vc_padding c \<Longrightarrow> vc_stream c' = vc_stream c \<Longrightarrow>
   vc_init_window c' = vc_init_window c \<Longrightarrow> vc_frame_size c' = vc_frame_size c \<Longrightarrow> vc_recv_window c' = vc_recv_window c \<Longrightarrow>
   vc_send_window c' = vc_send_window c \<Longrightarrow> vc_waiting c' = vc_waiting c \<Longrightarrow> sends sid 0 c c'"
  by (simp add: sends_def stream_sends_def get_stream_def)

text \<open>A step of another stream that takes nothing.\<close>

lemma sends_zero: "sends sid 0 c c' \<longleftrightarrow> sends sid' 0 c c'"
  by (simp add: sends_def)

lemma sends_frame_sent: "sends sid 0 c (frame_sent frame c)"
proof (cases "vo_stream frame")
  case None
  then show ?thesis by (simp add: frame_sent_def sends_other)
next
  case (Some i)
  define c1 where "c1 = c\<lparr>vc_payload_bytes := vc_payload_bytes c + vo_length frame,
    vc_total_bytes := vc_total_bytes c + (NGX_HTTP_V2_FRAME_HEADER_SIZE + vo_length frame)\<rparr>"
  have g: "get_stream c1 = get_stream c" by (simp add: fun_eq_iff get_stream_def c1_def)
  have "sends i 0 c (frame_sent frame c)"
  proof (cases "get_stream c i")
    case None
    then show ?thesis using Some g unfolding frame_sent_def ngx_http_v2_handle_frame_def
      by (simp add: Let_def c1_def sends_other)
  next
    case s: (Some s)
    have "sends i 0 c (set_stream i (s\<lparr>vt_out_closed := vt_out_closed s \<or> vo_fin frame, vt_free_frames := vt_free_frames s + 1,
        vt_queued := vt_queued s - 1\<rparr>) c1)"
      by (rule sends_set_stream [OF s]) (simp_all add: c1_def stream_sends_def)
    then show ?thesis using Some s g unfolding frame_sent_def ngx_http_v2_handle_frame_def by (simp add: Let_def c1_def)
  qed
  then show ?thesis using sends_zero by blast
qed

lemma sends_fold_sent: "sends sid 0 c (fold frame_sent frames c)"
proof (induction frames arbitrary: c)
  case (Cons frame frames)
  show ?case using sends_trans [OF sends_frame_sent Cons.IH [of "frame_sent frame c"]] by simp
qed (simp add: sends_refl)

lemma sends_filter_send: "ngx_http_v2_filter_send sock c i = Some c' \<Longrightarrow> sends sid 0 c c'"
proof -
  have out: "sends sid 0 c (fold frame_sent frames (c\<lparr>vc_out := out\<rparr>))" for frames out
  proof -
    have "sends sid 0 c (c\<lparr>vc_out := out\<rparr>)" by (rule sends_other) simp_all
    then show ?thesis using sends_trans [OF _ sends_fold_sent] by fastforce
  qed
  assume "ngx_http_v2_filter_send sock c i = Some c'"
  then show ?thesis using out sends_refl
    by (auto simp: ngx_http_v2_filter_send_def ngx_http_v2_send_output_queue_def Let_def split: option.splits if_splits v2_socket.splits)
qed

section \<open>Cutting the response into frames\<close>

definition chain_size :: "v2_chain \<Rightarrow> nat" where
  "chain_size chain = sum_list (map fst chain)"

lemma fill_frame_size:
  "fill_frame n ends chain = (rest, ends', chain') \<Longrightarrow>
     rest \<le> n \<and> n + chain_size chain' = rest + chain_size chain \<and> (chain' \<noteq> [] \<longrightarrow> rest < fst (hd chain'))"
  by (induction n ends chain rule: fill_frame.induct) (auto simp: chain_size_def split: if_splits)

lemma cut_frame_size:
  assumes "cut_frame n chain = (len, ends, chain')"
  shows "len \<le> n \<and> chain_size chain = len + chain_size chain' \<and> (chain' \<noteq> [] \<longrightarrow> len = n)"
proof -
  obtain rest e out where f: "fill_frame n False chain = (rest, e, out)" by (cases "fill_frame n False chain")
  show ?thesis
    using assms f fill_frame_size [OF f] by (cases out) (auto simp: cut_frame_def chain_size_def split: if_splits)
qed

lemma sends_queue_data:
  assumes "queue_data sid len fin c = Some c'" "len \<le> vc_send_window c"
  shows "sends sid len c c'"
proof -
  obtain s frame s1 c1 where s: "get_stream c sid = Some s" "ngx_http_v2_filter_get_data_frame c sid s len fin = Some (frame, s1, c1)"
      "c' = set_stream sid (s1\<lparr>vt_send_window := vt_send_window s1 - int len, vt_queued := vt_queued s1 + 1\<rparr>)
        ((ngx_http_v2_queue_frame s1 frame c1)\<lparr>vc_send_window := vc_send_window (ngx_http_v2_queue_frame s1 frame c1) - len\<rparr>)"
    using assms(1) by (auto simp: queue_data_def Let_def split: option.splits)
  show ?thesis unfolding s(3)
    by (rule sends_set_stream [OF s(1)])
      (use s(2) assms(2) in \<open>auto simp: ngx_http_v2_filter_get_data_frame_def ngx_http_v2_queue_frame_def Let_def stream_sends_def split: if_splits\<close>)
qed

lemma sends_queue_trailers: "sends sid 0 c (queue_trailers sid trailers c)"
proof -
  have "sends sid 0 c (set_stream sid (s\<lparr>vt_queued := vt_queued s + 1\<rparr>) (ngx_http_v2_queue_frame s frame c))" if "get_stream c sid = Some s" for s frame
    by (rule sends_set_stream [OF that]) (auto simp: stream_sends_def ngx_http_v2_queue_frame_def)
  then show ?thesis by (auto simp: queue_trailers_def sends_refl split: option.split)
qed

lemma send_loop_sends:
  assumes "limit \<le> vc_send_window c" "0 < frame_size"
  shows "\<exists>c' r D. send_loop made sid trailers frame_size limit chain c = Some (c', r) \<and> sends sid D c c' \<and> D \<le> limit \<and>
    (\<forall>chain'. r = Some chain' \<longrightarrow> chain_size chain = D + chain_size chain' \<and> (chain' = [] \<or> D = limit))"
  using assms
proof (induction limit arbitrary: c trailers frame_size chain rule: less_induct)
  case (less limit)
  obtain len ends out where cut: "cut_frame (min frame_size limit) chain = (len, ends, out)" by (cases "cut_frame (min frame_size limit) chain")
  note size = cut_frame_size [OF cut]
  define tr where "tr = (if ends then the made else trailers)"
  define q where "q = (if len \<noteq> 0 \<or> (ends \<and> tr = None) then queue_data sid len (ends \<and> tr = None) c else Some c)"
  have loop: "send_loop made sid trailers frame_size limit chain c =
      (if ends \<and> made = None then Some (c, None)
       else (case q of
           None \<Rightarrow> Some (c, None)
         | Some c \<Rightarrow>
             if out = [] then Some (queue_trailers sid tr c, Some [])
             else if limit - len = 0 then Some (c, Some out)
             else send_loop made sid tr len (limit - len) out c))"
    unfolding q_def tr_def by (subst send_loop.simps) (simp only: cut Let_def prod.case)
  have fail: ?case if "send_loop made sid trailers frame_size limit chain c = Some (c, None)"
    using that sends_refl [of sid c] by (intro exI [of _ c] exI [of _ None] exI [of _ 0]) simp
  show ?case
  proof (cases "(ends \<and> made = None) \<or> q = None")
    case True
    then show ?thesis using fail loop by (auto split: if_splits)
  next
    case False
    then obtain c1 where c1: "q = Some c1" by auto
    have s1: "sends sid len c c1" using c1 sends_queue_data [of sid len _ c c1] less.prems(1) size sends_refl [of sid c]
      by (auto simp: q_def split: if_splits)
    consider "out = []" | "out \<noteq> []" "limit - len = 0" | "out \<noteq> []" "limit - len \<noteq> 0" by blast
    then show ?thesis
    proof cases
      case 1
      then show ?thesis using sends_trans [OF s1 sends_queue_trailers] loop c1 False size
        by (intro exI [of _ "queue_trailers sid tr c1"] exI [of _ "Some []"] exI [of _ len]) (auto simp: chain_size_def)
    next
      case 2
      then show ?thesis using s1 loop c1 False size by (intro exI [of _ c1] exI [of _ "Some out"] exI [of _ len]) auto
    next
      case 3
      have "0 < len" "limit - len < limit" using size 3 less.prems(2) by auto
      moreover have "limit - len \<le> vc_send_window c1" using s1 less.prems(1) by (auto simp: sends_def)
      ultimately obtain c2 r E where IH: "send_loop made sid tr len (limit - len) out c1 = Some (c2, r)" "sends sid E c1 c2" "E \<le> limit - len"
          "\<And>chain'. r = Some chain' \<Longrightarrow> chain_size out = E + chain_size chain' \<and> (chain' = [] \<or> E = limit - len)"
        using less.IH [of "limit - len" c1 len tr out] by blast
      show ?thesis using sends_trans [OF s1 IH(2)] IH loop c1 False 3 size
        by (intro exI [of _ c2] exI [of _ r] exI [of _ "len + E"]) auto
    qed
  qed
qed

section \<open>Sending a chain\<close>

text \<open>A stream that was stopped by a window, and is noted as such.\<close>

definition stopped :: "v2_conn \<Rightarrow> nat \<Rightarrow> bool" where
  "stopped c sid \<longleftrightarrow> (\<exists>s. get_stream c sid = Some s \<and>
     (vt_send_window s \<le> 0 \<and> vt_exhausted s \<or> vc_send_window c = 0 \<and> vt_waiting s))"

lemma flow_control_stopped:
  assumes "get_stream c sid = Some s" "ngx_http_v2_flow_control c sid = (c', ok)"
  shows "if ok then c' = c \<and> vt_send_window s > 0 \<and> vc_send_window c > 0 else stopped c' sid"
proof -
  have g: "get_stream (c\<lparr>vc_waiting := w\<rparr>) = get_stream c" for w by (simp add: fun_eq_iff get_stream_def)
  have eq: "(set_stream sid t c)\<lparr>vc_waiting := w\<rparr> = set_stream sid t (c\<lparr>vc_waiting := w\<rparr>)" for t w by (simp add: set_stream_def)
  show ?thesis
    using assms by (auto simp: ngx_http_v2_flow_control_def ngx_http_v2_waiting_queue_def stopped_def get_set_stream g eq Let_def split: if_splits)
qed

lemma send_limit_le:
  "send_limit limit W w \<le> W" "send_limit limit W w = 0 \<or> int (send_limit limit W w) \<le> w" "limit \<noteq> 0 \<Longrightarrow> send_limit limit W w \<le> limit"
  "send_limit limit W w = W \<or> w \<le> int (send_limit limit W w) \<or> limit \<noteq> 0 \<and> send_limit limit W w = limit"
  by (auto simp: send_limit_def Let_def)

text \<open>What sending a chain comes to: \<open>D\<close> bytes off the windows and off the chain.\<close>

definition chain_sent :: "v2_conn \<Rightarrow> nat \<Rightarrow> v2_stream \<Rightarrow> nat \<Rightarrow> v2_chain \<Rightarrow> v2_conn \<Rightarrow> v2_chain option \<Rightarrow> nat \<Rightarrow> bool" where
  "chain_sent c sid s limit chain c' r D \<longleftrightarrow>
     sends sid D c c' \<and> (D = 0 \<or> int D \<le> vt_send_window s) \<and> (limit \<noteq> 0 \<longrightarrow> D \<le> limit) \<and>
     (\<forall>chain'. r = Some chain' \<longrightarrow> chain_size chain = D + chain_size chain' \<and>
        (chain' \<noteq> [] \<longrightarrow> stopped c' sid \<or> limit \<noteq> 0 \<and> D = limit))"

lemma send_data_sent:
  assumes "get_stream c sid = Some s" "0 < chunk_size" "0 < vc_frame_size c"
  shows "\<exists>c' r D. send_data sock chunk_size made sid limit chain c = Some (c', r) \<and> chain_sent c sid s limit chain c' r D"
proof -
  let ?limit = "send_limit limit (vc_send_window c) (vt_send_window s)"
  note le = send_limit_le [of limit "vc_send_window c" "vt_send_window s"]
  have pos: "0 < min chunk_size (vc_frame_size c)" using assms(2,3) by simp
  obtain c1 r D where loop: "send_loop made sid None (min chunk_size (vc_frame_size c)) ?limit chain c = Some (c1, r)" "sends sid D c c1" "D \<le> ?limit"
      "\<And>chain'. r = Some chain' \<Longrightarrow> chain_size chain = D + chain_size chain' \<and> (chain' = [] \<or> D = ?limit)"
    using send_loop_sends [OF le(1) pos, of made sid None chain] by blast
  have D: "D = 0 \<or> int D \<le> vt_send_window s" "limit \<noteq> 0 \<longrightarrow> D \<le> limit" using le(2,3) loop(3) by auto
  show ?thesis
  proof (cases r)
    case None
    then show ?thesis using assms(1) loop(1,2) D by (intro exI [of _ c1] exI [of _ None] exI [of _ D]) (simp add: send_data_def chain_sent_def)
  next
    case (Some out)
    show ?thesis
    proof (cases "ngx_http_v2_filter_send sock c1 sid")
      case None
      then show ?thesis using assms(1) loop(1,2) Some D
        by (intro exI [of _ c1] exI [of _ None] exI [of _ D]) (simp add: send_data_def chain_sent_def)
    next
      case c2: (Some c2)
      have s2: "sends sid D c c2" using sends_trans [OF loop(2) sends_filter_send [OF c2]] by simp
      show ?thesis
      proof (cases "out = []")
        case True
        then show ?thesis using assms(1) loop(1,4) Some c2 s2 D
          by (intro exI [of _ c2] exI [of _ "Some []"] exI [of _ D]) (simp add: send_data_def chain_sent_def)
      next
        case False
        obtain c3 ok where fc: "ngx_http_v2_flow_control c2 sid = (c3, ok)" by (cases "ngx_http_v2_flow_control c2 sid")
        obtain s' where s': "get_stream c2 sid = Some s'" "stream_sends D s s'" by (rule sends_stream [OF s2 assms(1)])
        have s3: "sends sid D c c3" using sends_trans [OF s2 sends_flow_control] fc by simp
        have "stopped c3 sid \<or> limit \<noteq> 0 \<and> D = limit"
          using flow_control_stopped [OF s'(1) fc] le(4) loop(4) [OF Some] False s2 s'(2) by (auto simp: sends_def stream_sends_def split: if_splits)
        then show ?thesis using assms(1) loop(1,4) Some c2 s3 D fc False
          by (intro exI [of _ c3] exI [of _ "Some out"] exI [of _ D]) (auto simp: send_data_def chain_sent_def)
      qed
    qed
  qed
qed

lemma send_chain_sent:
  assumes "get_stream c sid = Some s" "0 < chunk_size" "0 < vc_frame_size c"
  shows "\<exists>c' r D. ngx_http_v2_send_chain sock chunk_size made c sid limit chain = Some (c', r) \<and>
    sends sid D c c' \<and> (D = 0 \<or> int D \<le> vt_send_window s) \<and> (\<not> vt_out_closed s \<longrightarrow> chain_sent c sid s limit chain c' r D)"
proof -
  define ch where "ch = dropWhile (\<lambda>(size', last_buf). size' = 0 \<and> \<not> last_buf) chain"
  define z where "z = (case ch of [] \<Rightarrow> 0 | (size', last_buf) # _ \<Rightarrow> size')"
  have ch: "chain_size ch = chain_size chain" unfolding ch_def by (induction chain) (auto simp: chain_size_def)
  have chain: "ngx_http_v2_send_chain sock chunk_size made c sid limit chain =
      (if ch = [] \<or> vt_out_closed s then
         if z \<noteq> 0 then Some (c, None)
         else (case ngx_http_v2_filter_send sock c sid of None \<Rightarrow> Some (c, None) | Some c \<Rightarrow> Some (c, Some []))
       else if z = 0 then send_data sock chunk_size made sid limit ch c
       else
         (case ngx_http_v2_flow_control c sid of
            (c, True) \<Rightarrow> send_data sock chunk_size made sid limit ch c
          | (c, False) \<Rightarrow>
              (case ngx_http_v2_filter_send sock c sid of
                 None \<Rightarrow> Some (c, None)
               | Some c \<Rightarrow>
                   (case ngx_http_v2_flow_control c sid of
                      (c, True) \<Rightarrow> send_data sock chunk_size made sid limit ch c
                    | (c, False) \<Rightarrow> Some (c, Some ch)))))"
    by (simp only: ngx_http_v2_send_chain_def ch_def [symmetric] z_def [symmetric] Let_def assms(1) option.case)
  have data: "\<exists>c' r D. send_data sock chunk_size made sid limit ch c1 = Some (c', r) \<and> sends sid D c c' \<and>
      (D = 0 \<or> int D \<le> vt_send_window s) \<and> (\<not> vt_out_closed s \<longrightarrow> chain_sent c sid s limit chain c' r D)" if s1: "sends sid 0 c c1" for c1
  proof -
    obtain s1 where g: "get_stream c1 sid = Some s1" "stream_sends 0 s s1" by (rule sends_stream [OF s1 assms(1)])
    have fs: "0 < vc_frame_size c1" using s1 assms(3) by (simp add: sends_def)
    obtain c' r D where d: "send_data sock chunk_size made sid limit ch c1 = Some (c', r)" "chain_sent c1 sid s1 limit ch c' r D"
      using send_data_sent [OF g(1) assms(2) fs] by blast
    then have "chain_sent c sid s limit chain c' r D"
      using sends_trans [OF s1, of D c'] g(2) ch by (simp add: chain_sent_def stream_sends_def)
    then show ?thesis using d(1) by (auto simp: chain_sent_def)
  qed
  have quit: "\<exists>c' r D. Some (c1, r1) = Some (c', r) \<and> sends sid D c c' \<and> (D = 0 \<or> int D \<le> vt_send_window s) \<and>
      (\<not> vt_out_closed s \<longrightarrow> chain_sent c sid s limit chain c' r D)"
    if "sends sid 0 c c1" "\<And>chain'. \<not> vt_out_closed s \<Longrightarrow> r1 = Some chain' \<Longrightarrow> chain_size chain = chain_size chain' \<and> (chain' \<noteq> [] \<longrightarrow> stopped c1 sid)" for c1 r1
    using that by (intro exI [of _ c1] exI [of _ r1] exI [of _ 0]) (auto simp: chain_sent_def)
  obtain c1 ok1 where f1: "ngx_http_v2_flow_control c sid = (c1, ok1)" by (cases "ngx_http_v2_flow_control c sid")
  have s1: "sends sid 0 c c1" using sends_flow_control [of sid c] f1 by simp
  consider "ch = [] \<or> vt_out_closed s" | "\<not> (ch = [] \<or> vt_out_closed s)" "z = 0 \<or> ok1" | "\<not> (ch = [] \<or> vt_out_closed s)" "z \<noteq> 0" "\<not> ok1" by blast
  then show ?thesis
  proof cases
    case 1
    then have "ch = []" if "\<not> vt_out_closed s" using that by simp
    then have size: "chain_size chain = chain_size []" if "\<not> vt_out_closed s" using that ch by simp
    show ?thesis
    proof (cases "z \<noteq> 0 \<or> ngx_http_v2_filter_send sock c sid = None")
      case True
      then show ?thesis unfolding chain using 1 quit [OF sends_refl, of None] by auto
    next
      case False
      then obtain c2 where c2: "ngx_http_v2_filter_send sock c sid = Some c2" by auto
      show ?thesis unfolding chain using 1 False c2 quit [OF sends_filter_send [OF c2], of "Some []"] size by auto
    qed
  next
    case 2
    then show ?thesis unfolding chain using data [OF sends_refl] data [OF s1] f1 by (cases "z = 0") auto
  next
    case 3
    show ?thesis
    proof (cases "ngx_http_v2_filter_send sock c1 sid")
      case None
      then show ?thesis unfolding chain using 3 f1 quit [OF s1] by auto
    next
      case (Some c2)
      have s2: "sends sid 0 c c2" using sends_trans [OF s1 sends_filter_send [OF Some]] by simp
      obtain t where t: "get_stream c2 sid = Some t" by (rule sends_stream [OF s2 assms(1)])
      obtain c3 ok3 where f3: "ngx_http_v2_flow_control c2 sid = (c3, ok3)" by (cases "ngx_http_v2_flow_control c2 sid")
      have s3: "sends sid 0 c c3" using sends_trans [OF s2 sends_flow_control] f3 by simp
      show ?thesis unfolding chain
        using 3 f1 Some f3 data [OF s3] quit [OF s3, of "Some ch"] flow_control_stopped [OF t f3] ch by (cases ok3) auto
    qed
  qed
qed

section \<open>The end of a request\<close>

text \<open>The frames that \<open>ngx_http_v2_filter_cleanup\<close> takes out: those of the stream that are not being written.\<close>

definition unsent :: "nat \<Rightarrow> v2_out_frame \<Rightarrow> bool" where
  "unsent sid frame \<longleftrightarrow> vo_stream frame = Some sid \<and> \<not> vo_blocked frame"

lemma cleanup_queue_exact:
  "length (filter (unsent sid) out) \<le> queued \<Longrightarrow> 0 < queued \<Longrightarrow>
     cleanup_queue sid queued out =
       (queued - length (filter (unsent sid) out), sum_list (map vo_length (filter (unsent sid) out)), filter (\<lambda>f. \<not> unsent sid f) out)"
proof (induction out arbitrary: queued)
  case (Cons frame out)
  have last: "filter (\<lambda>f. \<not> unsent sid f) out = out" if "filter (unsent sid) out = []"
    using that by (simp add: filter_empty_conv)
  have step: "cleanup_queue sid queued (frame # out) =
      (if unsent sid frame then
         if queued - 1 = 0 then (0, vo_length frame, out)
         else (case cleanup_queue sid (queued - 1) out of (queued, window, frames) \<Rightarrow> (queued, vo_length frame + window, frames))
       else (case cleanup_queue sid queued out of (queued, window, frames) \<Rightarrow> (queued, window, frame # frames)))"
    by (simp add: unsent_def)
  show ?case
  proof (cases "unsent sid frame \<and> queued = 1")
    case True
    then have none: "filter (unsent sid) out = []" using Cons.prems by simp
    show ?thesis using True last [OF none] unfolding step by (simp add: none)
  next
    case False
    then show ?thesis unfolding step using Cons.prems Cons.IH [of "queued - 1"] Cons.IH [of queued] by (cases "unsent sid frame") auto
  qed
qed simp

lemma get_wake_all: "get_stream (wake_all c) i = map_option (\<lambda>t. if i \<in> set (vc_waiting c) then t\<lparr>vt_waiting := False\<rparr> else t) (get_stream c i)"
proof -
  have "map_of (map (\<lambda>(i, t). (i, f i t)) xs) i = map_option (f i) (map_of xs i)" for f :: "nat \<Rightarrow> v2_stream \<Rightarrow> v2_stream" and xs
    by (induction xs) auto
  then show ?thesis by (simp add: wake_all_def get_stream_def)
qed

lemma kept_waiting:
  assumes "conn_ok env lo c" "map fst (vc_streams c') = map fst (vc_streams c)" "length (vc_waiting c') \<le> length (vc_waiting c)"
    "vc_length c' = vc_length c" "vc_padding c' = vc_padding c" "vc_stream c' = vc_stream c" "vc_init_window c' = vc_init_window c"
    "vc_frame_size c' = vc_frame_size c" "vc_recv_window c' = vc_recv_window c"
    "\<And>i t'. get_stream c' i = Some t' \<Longrightarrow> \<exists>t. get_stream c i = Some t \<and> stream_sends 0 t t'"
  shows "conn_kept c c'"
proof -
  have "\<exists>t. get_stream c i = Some t \<and> stream_kept t t'" if g: "get_stream c' i = Some t'" for i t'
  proof -
    obtain t where t: "get_stream c i = Some t" "stream_sends 0 t t'" using assms(10) [OF g] by blast
    then show ?thesis using conn_ok_stream [OF assms(1) t(1)] by (auto simp: stream_sends_def stream_kept_def stream_ok_def)
  qed
  then show ?thesis using assms by (simp add: conn_kept_def conn_ok_def)
qed

lemma cleanup_kept:
  assumes "conn_ok env lo c"
  shows "conn_kept c (ngx_http_v2_filter_cleanup c sid)"
proof (cases "get_stream c sid")
  case None
  then show ?thesis using kept_refl [OF assms] by (simp add: ngx_http_v2_filter_cleanup_def)
next
  case (Some s)
  define c1 where "c1 = (if vt_waiting s then (set_stream sid (s\<lparr>vt_waiting := False\<rparr>) c)\<lparr>vc_waiting := remove1 sid (vc_waiting c)\<rparr> else c)"
  define n where "n = vt_queued s"
  obtain queued window out where q: "cleanup_queue sid n (vc_out c1) = (queued, window, out)" by (cases "cleanup_queue sid n (vc_out c1)")
  define c2 where "c2 = (set_stream sid (s\<lparr>vt_waiting := False, vt_queued := queued\<rparr>) c1)\<lparr>vc_out := out\<rparr>"
  have get1: "get_stream c1 i = (if i = sid \<and> vt_waiting s then Some (s\<lparr>vt_waiting := False\<rparr>) else get_stream c i)" for i
    using Some get_set_stream [of sid "s\<lparr>vt_waiting := False\<rparr>" c i] by (auto simp: c1_def get_stream_def)
  have get2: "get_stream c2 i = (if i = sid then Some (s\<lparr>vt_waiting := False, vt_queued := queued\<rparr>) else get_stream c1 i)" for i
    using Some get1 [of sid] get_set_stream [of sid "s\<lparr>vt_waiting := False, vt_queued := queued\<rparr>" c1 i] by (auto simp: c2_def get_stream_def)
  have keys1: "map fst (vc_streams c1) = map fst (vc_streams c)"
    using keys_set_stream [of sid "s\<lparr>vt_waiting := False\<rparr>" c] by (auto simp: c1_def)
  have keys2: "map fst (vc_streams c2) = map fst (vc_streams c)"
    using keys1 keys_set_stream [of sid "s\<lparr>vt_waiting := False, vt_queued := queued\<rparr>" c1] by (simp add: c2_def del: map_map)
  have keys3: "map fst (vc_streams (wake_all c2)) = map fst (vc_streams c)"
    using keys2 by (simp add: wake_all_def o_def case_prod_unfold)
  have step: "\<exists>t. get_stream c i = Some t \<and> stream_sends 0 t t'" if "get_stream c2 i = Some t'" for i t'
    using that Some by (cases "i = sid") (auto simp: get2 get1 stream_sends_def)
  have wake: "\<exists>t. get_stream c i = Some t \<and> stream_sends 0 t t'" if "get_stream (wake_all c2) i = Some t'" for i t'
    using that step [of i] unfolding get_wake_all by (fastforce simp: stream_sends_def split: if_splits)
  have w: "length (remove1 sid xs) \<le> length xs" for xs by (simp add: length_remove1)
  have fields: "vc_length c2 = vc_length c" "vc_padding c2 = vc_padding c" "vc_stream c2 = vc_stream c" "vc_init_window c2 = vc_init_window c"
    "vc_frame_size c2 = vc_frame_size c" "vc_recv_window c2 = vc_recv_window c" "length (vc_waiting c2) \<le> length (vc_waiting c)"
    using w by (simp_all add: c2_def c1_def)
  have k1: "conn_kept c c1"
    by (rule kept_waiting [OF assms keys1]) (use Some get1 w in \<open>auto simp: c1_def stream_sends_def split: if_splits\<close>)
  have k2: "conn_kept c (c2\<lparr>vc_send_window := m\<rparr>)" for m
    by (rule kept_waiting [OF assms]) (use step keys2 fields in \<open>auto simp: get_stream_def\<close>)
  have k3: "conn_kept c ((wake_all c2)\<lparr>vc_send_window := m\<rparr>)" for m
    by (rule kept_waiting [OF assms]) (use wake keys3 fields in \<open>auto simp: get_stream_def wake_all_def\<close>)
  have "ngx_http_v2_filter_cleanup c sid =
      (if n = 0 then c1
       else let c3 = (if vc_send_window c2 = 0 \<and> window \<noteq> 0 then wake_all c2 else c2) in
         c3\<lparr>vc_send_window := size_t (int (vc_send_window c3) + int window)\<rparr>)"
    unfolding ngx_http_v2_filter_cleanup_def Some option.case Let_def
    using q by (simp add: c1_def [symmetric] n_def c2_def)
  then show ?thesis using k1 k2 k3 by (simp add: Let_def)
qed

text \<open>\<open>queued\<close> counts the frames of the stream in the queue.\<close>

definition queued_ok :: "v2_conn \<Rightarrow> nat \<Rightarrow> v2_stream \<Rightarrow> bool" where
  "queued_ok c sid s \<longleftrightarrow> vt_queued s = length (filter (\<lambda>f. vo_stream f = Some sid) (vc_out c))"

lemma unsent_of_stream: "length (filter (unsent sid) out) + length (filter (\<lambda>f. vo_stream f = Some sid) (filter (\<lambda>f. \<not> unsent sid f) out)) =
    length (filter (\<lambda>f. vo_stream f = Some sid) out)"
  by (induction out) (auto simp: unsent_def)

lemma cleanup_exact:
  assumes "get_stream c sid = Some s" "queued_ok c sid s" "vc_send_window c < 2 ^ 64"
  defines "c' \<equiv> ngx_http_v2_filter_cleanup c sid" and "given \<equiv> sum_list (map vo_length (filter (unsent sid) (vc_out c)))"
  shows "vc_out c' = filter (\<lambda>f. \<not> unsent sid f) (vc_out c) \<and> vc_send_window c' = size_t (int (vc_send_window c) + int given) \<and>
    (\<exists>s'. get_stream c' sid = Some s' \<and> queued_ok c' sid s' \<and> \<not> vt_waiting s') \<and>
    (vc_send_window c = 0 \<and> given \<noteq> 0 \<longrightarrow> vc_waiting c' = [])"
proof (cases "vt_queued s = 0")
  case True
  then have none: "filter (\<lambda>f. vo_stream f = Some sid) (vc_out c) = []" using assms(2) by (simp add: queued_ok_def)
  then have "filter (unsent sid) (vc_out c) = []" "filter (\<lambda>f. \<not> unsent sid f) (vc_out c) = vc_out c"
    by (auto simp: filter_empty_conv unsent_def)
  moreover have "size_t (int (vc_send_window c)) = vc_send_window c" using assms(3) by (simp add: size_t_def)
  ultimately show ?thesis using True none assms(1) get_set_stream [of sid "s\<lparr>vt_waiting := False\<rparr>" c sid]
    by (auto simp: c'_def given_def ngx_http_v2_filter_cleanup_def Let_def get_stream_def set_stream_def queued_ok_def)
next
  case False
  define c1 where "c1 = (if vt_waiting s then (set_stream sid (s\<lparr>vt_waiting := False\<rparr>) c)\<lparr>vc_waiting := remove1 sid (vc_waiting c)\<rparr> else c)"
  have f1: "vc_out c1 = vc_out c" "vc_send_window c1 = vc_send_window c" "get_stream c1 sid \<noteq> None"
    using assms(1) get_set_stream [of sid "s\<lparr>vt_waiting := False\<rparr>" c sid] by (auto simp: c1_def set_stream_def get_stream_def)
  let ?n = "vt_queued s - length (filter (unsent sid) (vc_out c))" and ?out = "filter (\<lambda>f. \<not> unsent sid f) (vc_out c)"
  define c2 where "c2 = (set_stream sid (s\<lparr>vt_waiting := False, vt_queued := ?n\<rparr>) c1)\<lparr>vc_out := ?out\<rparr>"
  have n: "?n = length (filter (\<lambda>f. vo_stream f = Some sid) ?out)" "length (filter (unsent sid) (vc_out c)) \<le> vt_queued s"
    using unsent_of_stream [of sid "vc_out c"] assms(2) by (simp_all add: queued_ok_def)
  have q: "cleanup_queue sid (vt_queued s) (vc_out c) = (?n, given, ?out)" using cleanup_queue_exact [OF n(2)] False by (simp add: given_def)
  have c': "c' = (let c3 = (if vc_send_window c2 = 0 \<and> given \<noteq> 0 then wake_all c2 else c2) in
      c3\<lparr>vc_send_window := size_t (int (vc_send_window c3) + int given)\<rparr>)"
    unfolding c'_def ngx_http_v2_filter_cleanup_def assms(1) option.case Let_def
    using q False by (simp add: c1_def [symmetric] f1(1) c2_def)
  have f2: "vc_out c2 = ?out" "vc_send_window c2 = vc_send_window c" "vc_out (wake_all c2) = ?out" "vc_send_window (wake_all c2) = vc_send_window c"
    "vc_waiting (wake_all c2) = []" using f1 by (simp_all add: c2_def wake_all_def)
  have "get_stream c2 sid = Some (s\<lparr>vt_waiting := False, vt_queued := ?n\<rparr>)"
    using f1(3) get_set_stream [of sid "s\<lparr>vt_waiting := False, vt_queued := ?n\<rparr>" c1 sid] by (simp add: c2_def get_stream_def)
  then obtain t where t: "get_stream c' sid = Some t" "vt_queued t = ?n" "\<not> vt_waiting t"
    using get_wake_all [of c2 sid] unfolding c' Let_def
    by (cases "vc_send_window c2 = 0"; cases "given = 0"; cases "sid \<in> set (vc_waiting c2)") (simp_all add: get_stream_def)
  have out: "vc_out c' = ?out" using f2 by (simp add: c' Let_def)
  then have "queued_ok c' sid t" using t(2) n(1) by (simp add: queued_ok_def)
  moreover have "vc_send_window c' = size_t (int (vc_send_window c) + int given)" using f2 by (simp add: c' Let_def)
  moreover have "vc_send_window c = 0 \<and> given \<noteq> 0 \<longrightarrow> vc_waiting c' = []" using f2 by (simp add: c' Let_def)
  ultimately show ?thesis using out t by blast
qed

lemma close_reset_same: "same_state c (close_reset c sid s timedout)"
proof -
  have "same_state c c" by (simp add: same_state_def)
  then show ?thesis unfolding close_reset_def by (auto split: option.split dest: rst_stream_same)
qed

lemma close_kept:
  assumes "conn_ok env lo c"
  shows "conn_kept c (ngx_http_v2_close_stream c sid timedout)"
proof (cases "get_stream c sid")
  case (Some s)
  have drop: "conn_kept c (c1\<lparr>vc_stream := (if vc_stream c1 = Some sid then None else vc_stream c1),
      vc_streams := filter (\<lambda>(i, t). i \<noteq> sid) (vc_streams c1), vc_frames := n\<rparr>)" if same: "same_state c c1" for c1 n
  proof -
    have m: "map_of (filter (\<lambda>(i, t). i \<noteq> sid) xs) i = (if i = sid then None else map_of xs i)" for xs :: "(nat \<times> v2_stream) list" and i
      by (induction xs) auto
    have "stream_kept t t" if "get_stream c i = Some t" for i t
      using conn_ok_stream [OF assms that] by (simp add: stream_kept_def stream_ok_def)
    moreover have "distinct (map fst (vc_streams c))" using assms by (simp add: conn_ok_def)
    ultimately show ?thesis using same by (simp add: conn_kept_def same_state_def get_stream_def m distinct_map_filter) blast
  qed
  show ?thesis using Some kept_refl [OF assms] drop [OF close_reset_same]
    unfolding ngx_http_v2_close_stream_def Let_def by simp
qed (use kept_refl [OF assms] in \<open>simp add: ngx_http_v2_close_stream_def\<close>)

section \<open>Requests meet the laws\<close>

text \<open>
  The events of a request that sends a response through \<open>ngx_http_v2_send_chain\<close> and is ended, on an error of its
  stream, by \<open>ngx_http_v2_filter_cleanup\<close> and \<open>ngx_http_v2_close_stream\<close>. The chain of each stream is arbitrary, as is the socket.
\<close>

definition v2_requests :: "(v2_conn \<Rightarrow> v2_socket) \<Rightarrow> nat \<Rightarrow> (nat \<Rightarrow> v2_conn \<Rightarrow> v2_chain) \<Rightarrow> nat \<Rightarrow> nat \<Rightarrow> v2_env" where
  "v2_requests sock chunk_size response preread pushes =
     \<lparr>ve_preread_size = preread, ve_concurrent_pushes = pushes,
      ve_read_event = (\<lambda>sid c. ngx_http_v2_close_stream (ngx_http_v2_filter_cleanup c sid) sid False),
      ve_write_event = (\<lambda>sid c. case ngx_http_v2_send_chain sock chunk_size (Some None) c sid 0 (response sid c) of None \<Rightarrow> c | Some (c, r) \<Rightarrow> c),
      ve_body = (\<lambda>sid data fin c. c)\<rparr>"

lemma kept_trans:
  assumes "conn_kept c c1" "conn_kept c1 c2" "vc_send_window c1 \<noteq> 0 \<longrightarrow> length (vc_waiting c2) \<le> length (vc_waiting c1)" "vc_send_window c2 = vc_send_window c1"
  shows "conn_kept c c2"
proof -
  have "\<exists>s. get_stream c i = Some s \<and> stream_kept s s2" if g: "get_stream c2 i = Some s2" for i s2
  proof -
    obtain s1 where s1: "get_stream c1 i = Some s1" "stream_kept s1 s2" using assms(2) g unfolding conn_kept_def by blast
    obtain s where "get_stream c i = Some s" "stream_kept s s1" using assms(1) s1(1) unfolding conn_kept_def by blast
    then show ?thesis using stream_kept_trans s1(2) by blast
  qed
  then show ?thesis using assms unfolding conn_kept_def by auto
qed

lemma close_fields:
  "vc_send_window (ngx_http_v2_close_stream c sid timedout) = vc_send_window c" "vc_waiting (ngx_http_v2_close_stream c sid timedout) = vc_waiting c"
  using close_reset_same [of c sid _ timedout] by (auto simp: ngx_http_v2_close_stream_def Let_def same_state_def split: option.split)

lemma requests_ok:
  assumes "0 < chunk_size"
  shows "env_ok (v2_requests sock chunk_size response preread pushes)"
proof -
  let ?env = "v2_requests sock chunk_size response preread pushes"
  have "conn_kept c (ve_read_event ?env sid c)" if "conn_ok ?env lo c" "\<And>i. lo i \<le> 0" for lo c sid
  proof -
    have k: "conn_kept c (ngx_http_v2_filter_cleanup c sid)" by (rule cleanup_kept [OF that(1)])
    have "conn_kept c (ngx_http_v2_close_stream (ngx_http_v2_filter_cleanup c sid) sid False)"
      by (rule kept_trans [OF k close_kept [OF kept_ok [OF that(1) k that(2)]]]) (simp_all add: close_fields)
    then show ?thesis by (simp add: v2_requests_def)
  qed
  moreover have "conn_kept c (ve_write_event ?env sid c)" if "conn_ok ?env lo c" for lo c sid
  proof (cases "get_stream c sid")
    case None
    then show ?thesis using kept_refl [OF that] by (simp add: v2_requests_def ngx_http_v2_send_chain_def Let_def)
  next
    case (Some s)
    have "0 < vc_frame_size c" using that by (simp add: conn_ok_def NGX_HTTP_V2_DEFAULT_FRAME_SIZE_def)
    then obtain c' r D where "ngx_http_v2_send_chain sock chunk_size (Some None) c sid 0 (response sid c) = Some (c', r)" "sends sid D c c'"
        "D = 0 \<or> int D \<le> vt_send_window s" using send_chain_sent [OF Some assms] by blast
    then show ?thesis using sends_kept [OF _ that, of sid D c'] Some by (auto simp: v2_requests_def)
  qed
  moreover have "conn_kept c (ve_body ?env sid data fin c)" if "conn_ok ?env lo c" for lo c sid data fin
    using kept_refl [OF that] by (simp add: v2_requests_def)
  ultimately show ?thesis unfolding env_ok_def by blast
qed

section \<open>Order in the queue\<close>

text \<open>The frames of a stream in the order they will be sent, and those of no stream.\<close>

definition out_of :: "nat option \<Rightarrow> v2_conn \<Rightarrow> v2_out_frame list" where
  "out_of i c = filter (\<lambda>f. vo_stream f = i) (rev (vc_out c))"

lemma filter_insert:
  assumes "\<And>f. P f \<Longrightarrow> vo_stream f \<noteq> vo_stream frame"
  shows "filter (\<lambda>f. vo_stream f = i) (rev (takeWhile P out @ frame # dropWhile P out)) =
    filter (\<lambda>f. vo_stream f = i) (rev out) @ (if vo_stream frame = i then [frame] else [])"
proof -
  have none: "filter (\<lambda>f. vo_stream f = vo_stream frame) (takeWhile P out) = []"
    using assms by (auto simp: filter_empty_conv dest: set_takeWhileD)
  have "filter Q out = filter Q (takeWhile P out) @ filter Q (dropWhile P out)" for Q
    using takeWhile_dropWhile_id [of P out] filter_append by metis
  then show ?thesis using none by (auto simp flip: rev_filter simp: rev_filter [symmetric])
qed

lemma queue_frame_order:
  assumes "get_stream c sid = Some s" "vo_stream frame = Some sid" "vt_rank t = vt_rank s" "vt_rel_weight t = vt_rel_weight s"
  shows "out_of i (ngx_http_v2_queue_frame t frame c) = out_of i c @ (if i = Some sid then [frame] else [])"
proof -
  have "vo_stream f \<noteq> vo_stream frame" if "queue_passes c t f" for f
    using that assms by (auto simp: queue_passes_def goes_first_def split: option.splits)
  then show ?thesis using filter_insert [of "queue_passes c t" frame i "vc_out c"] assms(2) by (auto simp: out_of_def ngx_http_v2_queue_frame_def)
qed

lemma control_frame_order:
  assumes "vo_stream frame = None"
  shows "out_of i (ngx_http_v2_queue_blocked_frame frame c) = out_of i c @ (if i = None then [frame] else [])"
    "out_of i (ngx_http_v2_queue_ordered_frame frame c) = out_of i c @ (if i = None then [frame] else [])"
proof -
  show "out_of i (ngx_http_v2_queue_blocked_frame frame c) = out_of i c @ (if i = None then [frame] else [])"
    using filter_insert [of "\<lambda>f. \<not> (vo_blocked f \<or> vo_stream f = None)" frame i "vc_out c"] assms
    by (auto simp: out_of_def ngx_http_v2_queue_blocked_frame_def Let_def)
  show "out_of i (ngx_http_v2_queue_ordered_frame frame c) = out_of i c @ (if i = None then [frame] else [])"
    using assms by (simp add: out_of_def ngx_http_v2_queue_ordered_frame_def)
qed

lemma frame_sent_out: "vc_out (frame_sent frame c) = vc_out c"
  by (simp add: frame_sent_def ngx_http_v2_handle_frame_def set_stream_def Let_def split: option.split)

lemma fold_sent_out: "vc_out (fold frame_sent frames c) = vc_out c"
  by (induction frames arbitrary: c) (simp_all add: frame_sent_out)

text \<open>What is sent is the front of the queue; a frame that stays is at most marked as blocked.\<close>

lemma block_head_same: "map (\<lambda>f. f\<lparr>vo_blocked := b\<rparr>) (filter (\<lambda>f. vo_stream f = i) (block_head out)) = map (\<lambda>f. f\<lparr>vo_blocked := b\<rparr>) (filter (\<lambda>f. vo_stream f = i) out)"
  by (cases out) (simp_all add: block_head_def)

lemma send_queue_order:
  assumes "ngx_http_v2_send_output_queue sock c = Some c'"
  shows "\<exists>sent. map (\<lambda>f. f\<lparr>vo_blocked := True\<rparr>) (out_of i c) =
    map (\<lambda>f. f\<lparr>vo_blocked := True\<rparr>) (filter (\<lambda>f. vo_stream f = i) sent @ out_of i c') \<and>
    (\<forall>n. sock c = Sock_sent n \<longrightarrow> sent = take n (rev (vc_out c)))"
proof (cases "sock c")
  case (Sock_sent n)
  have "filter Q (rev (vc_out c)) = filter Q (take n (rev (vc_out c))) @ filter Q (drop n (rev (vc_out c)))" for Q
    using append_take_drop_id [of n "rev (vc_out c)"] filter_append by metis
  then show ?thesis using assms Sock_sent block_head_same [of True i "drop n (rev (vc_out c))"]
    by (intro exI [of _ "take n (rev (vc_out c))"]) (auto simp: ngx_http_v2_send_output_queue_def Let_def out_of_def fold_sent_out)
qed (use assms in \<open>auto simp: ngx_http_v2_send_output_queue_def intro: exI [of _ "[]"]\<close>)

section \<open>The laws as an interface\<close>

text \<open>The frame handlers rely on the requests of a connection by these laws alone.\<close>

locale v2_events =
  fixes env :: v2_env
  assumes laws: "env_ok env"
begin

lemma reading: "conn_inv env (vr_handler r) (vr_conn r) \<Longrightarrow> read_ok env (ngx_http_v2_read_handler env r pieces)"
  by (rule read_inv [OF laws])

lemma waking:
  assumes "conn_ok env (init_lo c) c"
  shows "vc_send_window (wake_waiting env (length (vc_waiting c)) c) = 0 \<or> vc_waiting (wake_waiting env (length (vc_waiting c)) c) = []"
  by (rule wake_enough [OF laws assms init_lo_le [OF assms] order_refl])

end

interpretation requests: v2_events "v2_requests sock (Suc n) response preread pushes" for sock n response preread pushes
  by unfold_locales (simp add: requests_ok)

section \<open>Properties\<close>

text \<open>A connection with one stream whose request has not read its body yet.\<close>

definition v2_example_stream :: v2_stream where
  "v2_example_stream =
     \<lparr>vt_send_window = 65535, vt_recv_window = 65536, vt_preread = [], vt_request_body = False, vt_reading_buffered = False, vt_has_body = True,
      vt_waiting = False, vt_exhausted = False, vt_in_closed = False, vt_out_closed = False, vt_rst_sent = False, vt_no_flow_control = False,
      vt_skip_data = False, vt_rank = 1, vt_rel_weight = 1, vt_queued = 0, vt_frames = 0, vt_free_frames = 0\<rparr>"

definition v2_example_conn :: v2_conn where
  "v2_example_conn =
     \<lparr>vc_length = 0, vc_padding = 0, vc_flags = 0, vc_sid = 0, vc_stream = None, vc_streams = [(1, v2_example_stream)], vc_waiting = [],
      vc_send_window = 65535, vc_recv_window = NGX_HTTP_V2_MAX_WINDOW, vc_init_window = 65535, vc_frame_size = NGX_HTTP_V2_DEFAULT_FRAME_SIZE,
      vc_concurrent_pushes = 10, vc_payload_bytes = 0, vc_total_bytes = 0, vc_frames = 0, vc_free_frames = 0, vc_out = [],
      vc_settings_ack = False, vc_table_update = False, vc_push_disabled = False\<rparr>"

lemma example_inv: "conn_inv (v2_requests sock n response 65536 pushes) F_head v2_example_conn"
  by (auto simp: conn_inv_def conn_ok_def handler_ok_def init_lo_def stream_ok_def pending_def get_stream_def v2_requests_def
    v2_example_conn_def v2_example_stream_def v2_consts split: if_splits)




text \<open>The stream waits for the window of the connection.\<close>

definition v2_example_waiting :: v2_conn where
  "v2_example_waiting = v2_example_conn\<lparr>vc_length := 4, vc_send_window := 0, vc_waiting := [1],
     vc_streams := [(1, v2_example_stream\<lparr>vt_waiting := True\<rparr>)]\<rparr>"





text \<open>The stream has two frames in the queue, one of them being written.\<close>

definition v2_example_queued :: v2_conn where
  "v2_example_queued = v2_example_conn\<lparr>vc_streams := [(1, v2_example_stream\<lparr>vt_queued := 2\<rparr>)],
     vc_out := map (\<lambda>(len, blocked). \<lparr>vo_stream = Some 1, vo_length = len, vo_blocked = blocked, vo_fin = False, vo_bytes = []\<rparr>) [(700, False), (300, True)]\<rparr>"

text \<open>The same with the window of the connection closed and another stream waiting for it.\<close>

definition v2_example_closed :: v2_conn where
  "v2_example_closed = v2_example_queued\<lparr>vc_send_window := 0, vc_waiting := [3],
     vc_streams := [(1, v2_example_stream\<lparr>vt_queued := 2\<rparr>), (3, v2_example_stream\<lparr>vt_waiting := True\<rparr>)]\<rparr>"


text \<open>
  C12: The frames of a stream are sent in the order they were queued: a frame that is put into the
  output queue comes after those of its own stream that are there, whatever the priorities
  of the other streams, whose own order does not change; and what the socket takes is the front
  of that order, the rest staying as it was but for the mark of the frame it stopped at.
\<close>

theorem v2_stream_order:
  assumes "get_stream c sid = Some s" "vo_stream frame = Some sid"
    "ngx_http_v2_send_output_queue sock (ngx_http_v2_queue_frame s frame c) = Some c'" "sock (ngx_http_v2_queue_frame s frame c) = Sock_sent n"
  shows "map (\<lambda>f. f\<lparr>vo_blocked := True\<rparr>)
      (filter (\<lambda>f. vo_stream f = i) (take n (rev (vc_out (ngx_http_v2_queue_frame s frame c)))) @ filter (\<lambda>f. vo_stream f = i) (rev (vc_out c'))) =
    map (\<lambda>f. f\<lparr>vo_blocked := True\<rparr>) (filter (\<lambda>f. vo_stream f = i) (rev (vc_out c)) @ (if i = Some sid then [frame] else []))"
  using send_queue_order [OF assms(3), of i] queue_frame_order [OF assms(1,2), of s i] assms(4) by (auto simp: out_of_def)

theorem v2_stream_order_witness:
  "map (\<lambda>f. f\<lparr>vo_blocked := True\<rparr>)
      (filter (\<lambda>f. vo_stream f = Some 1) (take 1 (rev (vc_out (ngx_http_v2_queue_frame (v2_example_stream\<lparr>vt_queued := 2\<rparr>)
         \<lparr>vo_stream = Some 1, vo_length = 5, vo_blocked = False, vo_fin = True, vo_bytes = []\<rparr> v2_example_queued)))) @
       filter (\<lambda>f. vo_stream f = Some 1) (rev (vc_out (the (ngx_http_v2_send_output_queue (\<lambda>c. Sock_sent 1) (ngx_http_v2_queue_frame
         (v2_example_stream\<lparr>vt_queued := 2\<rparr>) \<lparr>vo_stream = Some 1, vo_length = 5, vo_blocked = False, vo_fin = True, vo_bytes = []\<rparr> v2_example_queued)))))) =
    map (\<lambda>f. f\<lparr>vo_blocked := True\<rparr>) (filter (\<lambda>f. vo_stream f = Some 1) (rev (vc_out v2_example_queued)) @
      (if Some 1 = Some (1::nat) then [\<lparr>vo_stream = Some 1, vo_length = 5, vo_blocked = False, vo_fin = True, vo_bytes = []\<rparr>] else []))"
  by (rule v2_stream_order [where sock = "\<lambda>c. Sock_sent 1"])
    (simp_all add: v2_example_queued_def v2_example_conn_def get_stream_def ngx_http_v2_send_output_queue_def Let_def)

end
