(* ===== verification/V2_Wire.thy ===== *)
theory V2_Wire
  imports V2_Send
begin

text \<open>
  Frames as bytes: what \<open>ngx_http_v2_write_uint32\<close> and \<open>ngx_http_v2_get_frame\<close> write is what the handlers read, header blocks
  cut into HEADERS and CONTINUATION frames are put together again, and a SETTINGS frame that arrives
  in two pieces is not handled as one that arrives whole.
\<close>

section \<open>Numbers\<close>

lemma write_uint32_length [simp]: "length (ngx_http_v2_write_uint32 n) = 4"
  by (simp add: ngx_http_v2_write_uint32_def)

lemma write_len_length [simp]: "length (ngx_http_v2_write_len_and_type l t) = 4"
  by (simp add: ngx_http_v2_write_len_and_type_def)

lemma unat_byte: "unat (word_of_nat n :: byte) = n mod 256"
  by (simp add: unat_of_nat)

lemma parse_write_uint32:
  assumes "n < 2 ^ 32"
  shows "ngx_http_v2_parse_uint32 (ngx_http_v2_write_uint32 n @ p) = n"
proof -
  have step: "(m div 256) * 256 + m mod 256 = m" for m :: nat by simp
  have top: "n div 16777216 mod 256 = n div 16777216" using assms by simp
  have "(((n div 16777216 mod 256) * 256 + n div 65536 mod 256) * 256 + n div 256 mod 256) * 256 + n mod 256 = n"
    using top step [of "n div 65536"] step [of "n div 256"] step [of n] by (simp only: div_mult2_eq [symmetric]) simp
  then show ?thesis using top by (simp add: ngx_http_v2_parse_uint32_def ngx_http_v2_write_uint32_def be_value_def unat_byte)
qed

lemma parse_write_head:
  assumes "l < 2 ^ 24" "t < 256"
  shows "ngx_http_v2_parse_uint32 (ngx_http_v2_write_len_and_type l t @ p) = l * 2 ^ 8 + t"
    "ngx_http_v2_parse_length (l * 2 ^ 8 + t) = l" "ngx_http_v2_parse_type (l * 2 ^ 8 + t) = t"
  using assms parse_write_uint32 [of "l * 2 ^ 8 + t" p]
  by (simp_all add: ngx_http_v2_write_len_and_type_def ngx_http_v2_parse_length_def ngx_http_v2_parse_type_def)

lemma parse_write_sid:
  assumes "sid < 2 ^ 31"
  shows "ngx_http_v2_parse_sid (ngx_http_v2_write_uint32 sid @ p) = sid"
  using assms parse_write_uint32 [of sid p] by (simp add: ngx_http_v2_parse_sid_def)

section \<open>Frame headers\<close>

definition frame_head :: "nat \<Rightarrow> nat \<Rightarrow> byte \<Rightarrow> nat \<Rightarrow> byte list" where
  "frame_head len type flags sid = ngx_http_v2_write_len_and_type len type @ [flags] @ ngx_http_v2_write_uint32 sid"

lemma frame_head_length [simp]: "length (frame_head len type flags sid) = 9"
  by (simp add: frame_head_def)

lemma frame_head_flags: "(frame_head len type flags sid @ p) ! 4 = flags"
  by (simp add: frame_head_def nth_append)

lemma frame_head_sid: "drop 5 (frame_head len type flags sid) = ngx_http_v2_write_uint32 sid"
  by (simp add: frame_head_def)

lemma frame_head_parse:
  assumes "len < 2 ^ 24" "type < 256"
  shows "ngx_http_v2_parse_uint32 (frame_head len type flags sid @ p) = len * 2 ^ 8 + type"
  using parse_write_head(1) [OF assms] by (simp add: frame_head_def)

lemma state_head_reads:
  assumes "len < 2 ^ 24" "type < 10" "sid < 2 ^ 31"
  shows "ngx_http_v2_state_head c (frame_head len type flags sid @ p) =
    FCall (ngx_http_v2_frame_states ! type) (c\<lparr>vc_length := len, vc_flags := flags, vc_sid := sid\<rparr>) p"
  using assms frame_head_parse [of len type flags sid p] parse_write_head [of len type] parse_write_sid [OF assms(3), of p]
  by (simp add: ngx_http_v2_state_head_def NGX_HTTP_V2_FRAME_HEADER_SIZE_def Let_def frame_head_flags frame_head_sid ngx_http_v2_frame_states_def)

section \<open>Header blocks\<close>

text \<open>A client that reads a header block: a frame of the type it expects, then continuations up to the end flag.\<close>

function read_block :: "nat \<Rightarrow> nat \<Rightarrow> byte list \<Rightarrow> (byte list \<times> byte list) option" where
  "read_block type sid p =
     (let len = ngx_http_v2_parse_length (ngx_http_v2_parse_uint32 p) in
      if length p < 9 + len \<or> ngx_http_v2_parse_type (ngx_http_v2_parse_uint32 p) \<noteq> type \<or> ngx_http_v2_parse_sid (drop 5 p) \<noteq> sid then None
      else if p ! 4 AND 0x04 \<noteq> 0 then Some (take len (drop 9 p), drop (9 + len) p)
      else map_option (\<lambda>(block, q). (take len (drop 9 p) @ block, q)) (read_block 0x9 sid (drop (9 + len) p)))"
  by pat_completeness auto
termination
  by (relation "measure (\<lambda>(type, sid, p). length p)") (auto simp: Let_def)

declare read_block.simps [simp del]

lemma read_block_frame:
  assumes "length payload < 2 ^ 24" "type < 256" "sid < 2 ^ 31"
  shows "read_block type sid (frame_head (length payload) type flags sid @ payload @ p) =
    (if flags AND 0x04 \<noteq> 0 then Some (payload, p) else map_option (\<lambda>(block, q). (payload @ block, q)) (read_block 0x9 sid p))"
  using assms frame_head_parse [of "length payload" type flags sid "payload @ p"] parse_write_head [of "length payload" type]
    parse_write_sid [OF assms(3), of "payload @ p"]
  by (subst read_block.simps) (simp add: Let_def frame_head_flags frame_head_sid)

lemma headers_frames_read:
  "0 < frame_size \<Longrightarrow> frame_size < 2 ^ 24 \<Longrightarrow> type < 256 \<Longrightarrow> sid < 2 ^ 31 \<Longrightarrow> flags AND 0x04 = 0 \<Longrightarrow>
     read_block type sid (fst (headers_frames sid type flags frame_size block) @ p) = Some (block, p) \<and>
     length (fst (headers_frames sid type flags frame_size block)) = 9 + snd (headers_frames sid type flags frame_size block)"
proof (induction sid type flags frame_size block arbitrary: p rule: headers_frames.induct)
  case (1 sid type flags frame_size block)
  show ?case
  proof (cases "length block \<le> frame_size \<or> frame_size = 0")
    case True
    have "(flags OR 0x04) AND 0x04 \<noteq> 0"
      using "1.prems"(5) by (simp add: bit.conj_disj_distrib2)
    then show ?thesis using True "1.prems" read_block_frame [of block type sid "flags OR 0x04" p]
      by (subst (1 2 3) headers_frames.simps) (simp add: frame_head_def)
  next
    case False
    obtain bytes len where h: "headers_frames sid 0x9 0 frame_size (drop frame_size block) = (bytes, len)"
      by (cases "headers_frames sid 0x9 0 frame_size (drop frame_size block)")
    have IH: "read_block 0x9 sid (bytes @ p) = Some (drop frame_size block, p)" "length bytes = 9 + len"
      using "1.IH" [OF False, of p] "1.prems" h by simp_all
    have "headers_frames sid type flags frame_size block =
        (frame_head frame_size type flags sid @ take frame_size block @ bytes, frame_size + (9 + len))"
      using False h by (subst headers_frames.simps) (simp add: frame_head_def NGX_HTTP_V2_FRAME_HEADER_SIZE_def)
    then show ?thesis using IH False "1.prems" read_block_frame [of "take frame_size block" type sid flags "bytes @ p"] by simp
  qed
qed

section \<open>A SETTINGS frame in two pieces\<close>

text \<open>INITIAL_WINDOW_SIZE, then HEADER_TABLE_SIZE.\<close>

definition settings_frame :: "nat \<Rightarrow> byte list" where
  "settings_frame w = frame_head 12 0x4 0 0 @ [0, 4] @ ngx_http_v2_write_uint32 w @ [0, 1] @ ngx_http_v2_write_uint32 4096"

lemma frames_settings:
  "v2_frames env F_head c (frame_head 12 0x4 0 0 @ p) = v2_frames env F_settings_params (c\<lparr>vc_length := 12, vc_flags := 0, vc_sid := 0\<rparr>) p"
proof -
  let ?c = "c\<lparr>vc_length := 12, vc_flags := 0, vc_sid := 0\<rparr>"
  have "v2_fcall env F_head c (frame_head 12 0x4 0 0 @ p) = FCall F_settings ?c p"
    using state_head_reads [of 12 4 0 c 0 p] by (simp add: v2_fcall_def ngx_http_v2_frame_states_def)
  moreover have "v2_fcall env F_settings ?c p = FCall F_settings_params ?c p"
    by (simp add: v2_fcall_def ngx_http_v2_state_settings_def NGX_HTTP_V2_ACK_FLAG_def)
  ultimately show ?thesis by (simp add: v2_frames.simps [of env F_head c] v2_frames.simps [of env F_settings ?c p])
qed

lemma setting_read:
  assumes "vc_length c \<noteq> 0" "v < 2 ^ 32" "i < 256"
  shows "settings_loop env c ([0, word_of_nat i] @ ngx_http_v2_write_uint32 v @ p) delta =
    (case setting env i v (c\<lparr>vc_length := vc_length c - 6\<rparr>) delta of Inl err \<Rightarrow> Inl (FError False err) | Inr (c, delta) \<Rightarrow> settings_loop env c p delta)"
proof -
  have "ngx_http_v2_parse_uint16 ([0, word_of_nat i] @ q) = i" for q
    using assms(3) by (simp add: ngx_http_v2_parse_uint16_def be_value_def unat_byte)
  then show ?thesis using assms parse_write_uint32 [OF assms(2), of p] by (subst settings_loop.simps) (simp split: sum.split prod.split)
qed

lemma get_frame_some:
  assumes "vc_frames c < 10000"
  obtains frame c' where "ngx_http_v2_get_frame c len type flags sid = Some (frame, c')" "vc_total_bytes c' = vc_total_bytes c"
    "vc_payload_bytes c' = vc_payload_bytes c" "vc_out c' = vc_out c" "same_state c c'" "vo_bytes frame = frame_head len type flags sid"
proof -
  have "\<exists>frame c'. ngx_http_v2_get_frame c len type flags sid = Some (frame, c')" using assms by (simp add: ngx_http_v2_get_frame_def Let_def)
  then obtain frame c' where f: "ngx_http_v2_get_frame c len type flags sid = Some (frame, c')" by blast
  then show thesis using that [OF f _ _ _ get_frame_same [OF f]]
    by (auto simp: ngx_http_v2_get_frame_def Let_def frame_head_def split: if_splits)
qed

text \<open>The end of the frame: the acknowledgement, and the change of the window that this call has seen.\<close>

lemma settings_end:
  assumes "settings_loop env c p 0 = Inr (c1, [], delta)" "vc_streams c1 = []" "vc_frames c1 < 10000" "0 \<le> int (vc_init_window c1) + delta"
  obtains c2 where "v2_frames env F_settings_params c p = FNext c2 []" "int (vc_init_window c2) = int (vc_init_window c1) + delta"
    "vc_total_bytes c2 = vc_total_bytes c1" "vc_payload_bytes c2 = vc_payload_bytes c1"
    "map vo_bytes (vc_out c2) = frame_head 0 0x4 NGX_HTTP_V2_ACK_FLAG 0 # map vo_bytes (vc_out c1)"
proof -
  obtain frame c2 where f: "ngx_http_v2_get_frame c1 0 0x4 NGX_HTTP_V2_ACK_FLAG 0 = Some (frame, c2)" "vc_total_bytes c2 = vc_total_bytes c1"
      "vc_payload_bytes c2 = vc_payload_bytes c1" "vc_out c2 = vc_out c1" "same_state c1 c2" "vo_bytes frame = frame_head 0 0x4 NGX_HTTP_V2_ACK_FLAG 0"
    by (rule get_frame_some [OF assms(3)])
  define c3 where "c3 = (let q = ngx_http_v2_queue_ordered_frame frame c2 in
    if delta = 0 then q\<lparr>vc_stream := None\<rparr> else q\<lparr>vc_init_window := nat (int (vc_init_window c2) + delta), vc_stream := None\<rparr>)"
  have "v2_fcall env F_settings_params c p = FNext c3 []"
    using assms(1,2) f(1,5) by (simp add: v2_fcall_def ngx_http_v2_state_settings_params_def ngx_http_v2_state_complete_def
      ngx_http_v2_adjust_windows_def ngx_http_v2_queue_ordered_frame_def same_state_def c3_def Let_def)
  then have "v2_frames env F_settings_params c p = FNext c3 []" by (subst v2_frames.simps) simp
  then show thesis using that [of c3] f(2-6) assms(4) by (simp add: c3_def ngx_http_v2_queue_ordered_frame_def same_state_def Let_def)
qed

lemma settings_split:
  assumes "vc_streams c = []" "vc_frames c < 10000" "vc_total_bytes c < 2 ^ 20" "w \<le> NGX_HTTP_V2_MAX_WINDOW"
  defines "r \<equiv> \<lparr>vr_handler = F_head, vr_conn = c, vr_buffer = []\<rparr>"
  shows "\<exists>r1 r2. ngx_http_v2_read_handler env r [settings_frame w] = VReading r1 \<and> vc_init_window (vr_conn r1) = w \<and>
    ngx_http_v2_read_handler env r [take 15 (settings_frame w), drop 15 (settings_frame w)] = VReading r2 \<and>
    vc_init_window (vr_conn r2) = vc_init_window c \<and>
    map vo_bytes (vc_out (vr_conn r1)) = frame_head 0 0x4 NGX_HTTP_V2_ACK_FLAG 0 # map vo_bytes (vc_out c) \<and>
    map vo_bytes (vc_out (vr_conn r2)) = frame_head 0 0x4 NGX_HTTP_V2_ACK_FLAG 0 # map vo_bytes (vc_out c)"
proof -
  let ?h = "c\<lparr>vc_length := 12, vc_flags := 0, vc_sid := 0\<rparr>" and ?w = "[0, 4] @ ngx_http_v2_write_uint32 w" and ?t = "[0, 1] @ ngx_http_v2_write_uint32 4096"
  have w32: "w < 2 ^ 32" using assms(4) by (simp add: NGX_HTTP_V2_MAX_WINDOW_def)
  have sw: "settings_loop env d (?w @ p) 0 = settings_loop env (d\<lparr>vc_length := vc_length d - 6\<rparr>) p (int w - int (vc_init_window d))"
    if "vc_length d \<noteq> 0" for d p
    using setting_read [OF that w32, of 4 env p 0] assms(4) by (simp add: setting_def)
  have st: "settings_loop env d ?t delta = Inr (d\<lparr>vc_length := 0, vc_table_update := True\<rparr>, [], delta)" if "vc_length d = 6" for d delta
    using setting_read [of d 4096 1 env "[]" delta] that by (simp add: setting_def settings_loop.simps [of env _ "[]"])
  have none: "settings_loop env d [] delta = Inl (FSave F_settings_params d [])" if "vc_length d \<noteq> 0" for d delta
    using that by (subst settings_loop.simps) (simp add: ngx_http_v2_state_save_def)
  have cut: "take 15 (settings_frame w) = frame_head 12 0x4 0 0 @ ?w" "drop 15 (settings_frame w) = ?t"
    "settings_frame w = frame_head 12 0x4 0 0 @ ?w @ ?t" "length (settings_frame w) = 21" by (simp_all add: settings_frame_def)
  let ?d = "?h\<lparr>vc_length := 0, vc_table_update := True\<rparr>"
  have whole: "settings_loop env ?h (?w @ ?t) 0 = Inr (?d, [], int w - int (vc_init_window c))"
    using sw [of ?h ?t] st [of "?h\<lparr>vc_length := 6\<rparr>"] by simp
  obtain c1 where c1: "v2_frames env F_settings_params ?h (?w @ ?t) = FNext c1 []" "vc_init_window c1 = w"
      "vc_total_bytes c1 = vc_total_bytes c" "vc_payload_bytes c1 = vc_payload_bytes c"
      "map vo_bytes (vc_out c1) = frame_head 0 0x4 NGX_HTTP_V2_ACK_FLAG 0 # map vo_bytes (vc_out c)"
    by (rule settings_end [OF whole]) (use assms(1,2) in auto)
  let ?k = "?h\<lparr>vc_length := 6, vc_total_bytes := vc_total_bytes c + 15\<rparr>"
  have first: "v2_frames env F_settings_params ?h ?w = FSave F_settings_params (?h\<lparr>vc_length := 6\<rparr>) []"
    using sw [of ?h "[]"] none by (subst v2_frames.simps) (simp add: v2_fcall_def ngx_http_v2_state_settings_params_def)
  obtain c2 where c2: "v2_frames env F_settings_params ?k ?t = FNext c2 []" "vc_init_window c2 = vc_init_window c"
      "vc_total_bytes c2 = vc_total_bytes c + 15" "vc_payload_bytes c2 = vc_payload_bytes c"
      "map vo_bytes (vc_out c2) = frame_head 0 0x4 NGX_HTTP_V2_ACK_FLAG 0 # map vo_bytes (vc_out c)"
    by (rule settings_end [OF st [of ?k 0]]) (use assms(1,2) in auto)
  have "vc_total_bytes c < 1048576" using assms(3) by simp
  then have flood: "\<not> n + 1048576 < (21 + vc_total_bytes c) div 8" "\<not> n + 1048576 < (vc_total_bytes c + 15) div 8" for n
    by linarith+
  have "ngx_http_v2_read_handler env r [settings_frame w] =
      VReading \<lparr>vr_handler = F_head, vr_conn = c1\<lparr>vc_total_bytes := vc_total_bytes c + 21\<rparr>, vr_buffer = []\<rparr>"
    using c1 assms(3) frames_settings [of env c "?w @ ?t"] by (simp add: r_def cut v2_flood_def)
  moreover have "ngx_http_v2_read_handler env r [take 15 (settings_frame w), drop 15 (settings_frame w)] =
      VReading \<lparr>vr_handler = F_head, vr_conn = c2\<lparr>vc_total_bytes := vc_total_bytes c + 21\<rparr>, vr_buffer = []\<rparr>"
    using c2 first flood frames_settings [of env c ?w] by (simp add: r_def cut v2_flood_def)
  ultimately show ?thesis using c1(2,5) c2(2,5) by simp
qed

section \<open>Properties\<close>

text \<open>
  C24: The header block of a response, however long, comes back whole: a client that reads one HEADERS
  frame and CONTINUATION frames up to the one with the end flag, all of the stream, gets the block
  and is left with the bytes that follow; and the length kept for the frame is that of its bytes less
  the first frame header.
\<close>

theorem v2_headers_frame_roundtrip:
  assumes "0 < vc_frame_size c" "vc_frame_size c \<le> NGX_HTTP_V2_MAX_FRAME_SIZE" "sid < 2 ^ 31"
  shows "read_block 0x1 sid (vo_bytes (ngx_http_v2_create_headers_frame c sid block fin) @ p) = Some (block, p) \<and>
    length (vo_bytes (ngx_http_v2_create_headers_frame c sid block fin)) = 9 + vo_length (ngx_http_v2_create_headers_frame c sid block fin)"
proof -
  have "(if fin then NGX_HTTP_V2_END_STREAM_FLAG else 0) AND 0x04 = 0" by (simp add: NGX_HTTP_V2_END_STREAM_FLAG_def)
  then show ?thesis
    using headers_frames_read [of "vc_frame_size c" 1 sid "if fin then NGX_HTTP_V2_END_STREAM_FLAG else 0" block p] assms
    by (simp add: ngx_http_v2_create_headers_frame_def NGX_HTTP_V2_MAX_FRAME_SIZE_def case_prod_unfold)
qed

theorem v2_headers_frame_roundtrip_witness:
  "read_block 0x1 1 (vo_bytes (ngx_http_v2_create_headers_frame v2_example_conn 1 [0x88] True) @ [0]) = Some ([0x88], [0]) \<and>
   length (vo_bytes (ngx_http_v2_create_headers_frame v2_example_conn 1 [0x88] True)) = 9 + vo_length (ngx_http_v2_create_headers_frame v2_example_conn 1 [0x88] True)"
  by (rule v2_headers_frame_roundtrip) (simp_all add: v2_example_conn_def v2_consts)

text \<open>
  C31: A SETTINGS frame is not handled alike when it arrives in two pieces. A frame that sets
  INITIAL_WINDOW_SIZE to \<open>w\<close> and then HEADER_TABLE_SIZE is acknowledged either way. Read at once, it
  makes \<open>w\<close> the initial window. Read in two pieces that meet between the two settings, it leaves the
  initial window as it was: \<open>window_delta\<close> is a local variable, lost when the state is saved.
\<close>

theorem v2_settings_split:
  assumes "vc_streams c = []" "vc_frames c < 10000" "vc_total_bytes c < 2 ^ 20" "w \<le> NGX_HTTP_V2_MAX_WINDOW"
    "frame = frame_head 12 0x4 0 0 @ [0, 4] @ ngx_http_v2_write_uint32 w @ [0, 1] @ ngx_http_v2_write_uint32 4096"
    "r = \<lparr>vr_handler = F_head, vr_conn = c, vr_buffer = []\<rparr>"
  shows "\<exists>r1 r2. ngx_http_v2_read_handler env r [frame] = VReading r1 \<and> vc_init_window (vr_conn r1) = w \<and>
    ngx_http_v2_read_handler env r [take 15 frame, drop 15 frame] = VReading r2 \<and> vc_init_window (vr_conn r2) = vc_init_window c \<and>
    map vo_bytes (vc_out (vr_conn r1)) = frame_head 0 0x4 NGX_HTTP_V2_ACK_FLAG 0 # map vo_bytes (vc_out c) \<and>
    map vo_bytes (vc_out (vr_conn r2)) = frame_head 0 0x4 NGX_HTTP_V2_ACK_FLAG 0 # map vo_bytes (vc_out c)"
  using settings_split [OF assms(1-4), of env] assms(5,6) by (simp only: settings_frame_def)

theorem v2_settings_split_witness:
  "\<exists>r1 r2. ngx_http_v2_read_handler (v2_requests (\<lambda>c. Sock_sent 1) 8192 (\<lambda>sid c. []) 65536 10)
       \<lparr>vr_handler = F_head, vr_conn = v2_example_conn\<lparr>vc_streams := []\<rparr>, vr_buffer = []\<rparr>
       [frame_head 12 0x4 0 0 @ [0, 4] @ ngx_http_v2_write_uint32 100 @ [0, 1] @ ngx_http_v2_write_uint32 4096] = VReading r1 \<and>
     vc_init_window (vr_conn r1) = 100 \<and>
     ngx_http_v2_read_handler (v2_requests (\<lambda>c. Sock_sent 1) 8192 (\<lambda>sid c. []) 65536 10)
       \<lparr>vr_handler = F_head, vr_conn = v2_example_conn\<lparr>vc_streams := []\<rparr>, vr_buffer = []\<rparr>
       [take 15 (frame_head 12 0x4 0 0 @ [0, 4] @ ngx_http_v2_write_uint32 100 @ [0, 1] @ ngx_http_v2_write_uint32 4096),
        drop 15 (frame_head 12 0x4 0 0 @ [0, 4] @ ngx_http_v2_write_uint32 100 @ [0, 1] @ ngx_http_v2_write_uint32 4096)] = VReading r2 \<and>
     vc_init_window (vr_conn r2) = vc_init_window (v2_example_conn\<lparr>vc_streams := []\<rparr>) \<and>
     map vo_bytes (vc_out (vr_conn r1)) = frame_head 0 0x4 NGX_HTTP_V2_ACK_FLAG 0 # map vo_bytes (vc_out (v2_example_conn\<lparr>vc_streams := []\<rparr>)) \<and>
     map vo_bytes (vc_out (vr_conn r2)) = frame_head 0 0x4 NGX_HTTP_V2_ACK_FLAG 0 # map vo_bytes (vc_out (v2_example_conn\<lparr>vc_streams := []\<rparr>))"
  by (rule v2_settings_split [OF _ _ _ _ refl refl]) (simp_all add: v2_example_conn_def NGX_HTTP_V2_MAX_WINDOW_def)

text \<open>
  C32: The window of the connection can pass 2^31 - 1, and then nothing limits it. When a client has
  filled the window to 2^31 - 1 while a stream has unsent frames and then resets the stream, their
  length comes on top; from then on the unsigned subtraction in the check of a WINDOW_UPDATE wraps
  around, and an increment of any size is taken.
\<close>

theorem v2_conn_window_wraps:
  assumes "get_stream c sid = Some s" "vt_queued s = length (filter (\<lambda>f. vo_stream f = Some sid) (vc_out c))"
    "vc_send_window c = NGX_HTTP_V2_MAX_WINDOW"
    "given = sum_list (map vo_length (filter (\<lambda>f. vo_stream f = Some sid \<and> \<not> vo_blocked f) (vc_out c)))" "0 < given" "given < 2 ^ 62"
    "c1 = (ngx_http_v2_filter_cleanup c sid)\<lparr>vc_length := 4, vc_sid := 0\<rparr>" "0 < n" "n \<le> NGX_HTTP_V2_MAX_WINDOW"
  shows "vc_send_window c1 = NGX_HTTP_V2_MAX_WINDOW + given \<and>
    ngx_http_v2_state_window_update env c1 (ngx_http_v2_write_uint32 n @ p) =
      ngx_http_v2_state_complete (wake_waiting env (length (vc_waiting c1)) (c1\<lparr>vc_send_window := NGX_HTTP_V2_MAX_WINDOW + given + n\<rparr>)) p"
proof -
  have u: "unsent sid = (\<lambda>f. vo_stream f = Some sid \<and> \<not> vo_blocked f)" by (simp add: fun_eq_iff unsent_def)
  have small: "size_t (int m) = m" if "m < 2 ^ 63" for m using that by (simp add: size_t_def)
  have "vc_send_window (ngx_http_v2_filter_cleanup c sid) = size_t (int (NGX_HTTP_V2_MAX_WINDOW + given))"
    using cleanup_exact [of c sid s] assms(1-4) unfolding u queued_ok_def by (simp add: NGX_HTTP_V2_MAX_WINDOW_def)
  then have w: "vc_send_window c1 = NGX_HTTP_V2_MAX_WINDOW + given"
    using assms(6,7) small by (simp add: NGX_HTTP_V2_MAX_WINDOW_def del: of_nat_add)
  have "(- int given) mod 2 ^ 64 = (- int given + 2 ^ 64) mod 2 ^ 64" by (rule mod_add_self2 [symmetric])
  also have "\<dots> = - int given + 2 ^ 64" using assms(5,6) by (intro mod_pos_pos_trivial) simp_all
  finally have "n \<le> size_t (int NGX_HTTP_V2_MAX_WINDOW - int (vc_send_window c1))"
    using assms(6,9) unfolding w size_t_def by (simp add: NGX_HTTP_V2_MAX_WINDOW_def)
  moreover have "ngx_http_v2_parse_window (ngx_http_v2_write_uint32 n @ p) = n"
    using assms(9) parse_write_uint32 [of n p] by (simp add: ngx_http_v2_parse_window_def NGX_HTTP_V2_MAX_WINDOW_def)
  moreover have "size_t (int (vc_send_window c1) + int n) = NGX_HTTP_V2_MAX_WINDOW + given + n"
    using small [of "NGX_HTTP_V2_MAX_WINDOW + given + n"] assms(6,9) w by (simp add: NGX_HTTP_V2_MAX_WINDOW_def)
  ultimately show ?thesis using w assms(6-9)
    by (simp add: ngx_http_v2_state_window_update_def NGX_HTTP_V2_MAX_WINDOW_def Let_def)
qed

theorem v2_conn_window_wraps_witness:
  "vc_send_window ((ngx_http_v2_filter_cleanup (v2_example_queued\<lparr>vc_send_window := NGX_HTTP_V2_MAX_WINDOW\<rparr>) 1)\<lparr>vc_length := 4, vc_sid := 0\<rparr>) =
     NGX_HTTP_V2_MAX_WINDOW + 700 \<and>
   ngx_http_v2_state_window_update (v2_requests (\<lambda>c. Sock_again) 8192 (\<lambda>sid c. []) 65536 10)
     ((ngx_http_v2_filter_cleanup (v2_example_queued\<lparr>vc_send_window := NGX_HTTP_V2_MAX_WINDOW\<rparr>) 1)\<lparr>vc_length := 4, vc_sid := 0\<rparr>)
     (ngx_http_v2_write_uint32 NGX_HTTP_V2_MAX_WINDOW @ []) =
   ngx_http_v2_state_complete (wake_waiting (v2_requests (\<lambda>c. Sock_again) 8192 (\<lambda>sid c. []) 65536 10)
     (length (vc_waiting ((ngx_http_v2_filter_cleanup (v2_example_queued\<lparr>vc_send_window := NGX_HTTP_V2_MAX_WINDOW\<rparr>) 1)\<lparr>vc_length := 4, vc_sid := 0\<rparr>)))
     (((ngx_http_v2_filter_cleanup (v2_example_queued\<lparr>vc_send_window := NGX_HTTP_V2_MAX_WINDOW\<rparr>) 1)\<lparr>vc_length := 4, vc_sid := 0\<rparr>)
       \<lparr>vc_send_window := NGX_HTTP_V2_MAX_WINDOW + 700 + NGX_HTTP_V2_MAX_WINDOW\<rparr>)) []"
  by (rule v2_conn_window_wraps [where s = "v2_example_stream\<lparr>vt_queued := 2\<rparr>", OF _ _ _ _ _ _ refl])
    (simp_all add: v2_example_queued_def v2_example_conn_def get_stream_def NGX_HTTP_V2_MAX_WINDOW_def)

end
