(* ===== verification/Spec2Isabelle.thy ===== *)
theory Spec2Isabelle
  imports Http_Chunked Http_Process_Uri Http_Header_Line Http_Status_Line Http_Unsafe_Uri
    Upstream_Round_Robin Http_Range Ngx_Times Http_Limit_Req Ngx_Codec Location_Lookup Http_V2_Block V2_Wire
begin

text \<open>
  A verification development for the HTTP front end of nginx 1.22.1, the server whose
  sources this repository carries under \<open>src/web/nginx/to_nginx/nginx-1.22.1/src\<close> (paths
  below are relative to that directory). The rest of the repository drives benchmarks
  (shell scripts, Jenkins files, result tables) or holds other projects' tools.

  \<^bold>\<open>How the program is put together.\<close> Bytes read from a client connection go through
  \<open>ngx_http_parse_request_line\<close> and, line by line, through
  \<open>ngx_http_parse_header_line\<close>, both called again with more input after
  \<open>NGX_AGAIN\<close>. The URI of the request line is normalised by
  \<open>ngx_http_process_request_uri\<close>, with the slow parser
  \<open>ngx_http_parse_complex_uri\<close> when the fast one raised a flag. On an HTTP/2 connection
  the header blocks are decoded by the handlers of \<open>http/v2/ngx_http_v2.c\<close> with the tables
  of HPACK, and the request is put together from the headers; the other frames carry data,
  settings and flow control, and responses leave in frames through a queue that the streams
  of the connection share (\<open>http/v2/ngx_http_v2_filter_module.c\<close>). A chunked request body is
  decoded by \<open>ngx_http_parse_chunked\<close>; a chunked response is produced by the chunked
  body filter; a part of a response is cut out by the range filter. The normalised URI is
  looked up among the locations of the server. Before a response is
  produced, the access handlers run; \<open>limit_req\<close> rejects or delays requests by key. For a proxied request
  the load balancer chooses a peer, and the upstream's answer starts with
  \<open>ngx_http_parse_status_line\<close>. URIs that do not come from a request line go through
  \<open>ngx_http_parse_unsafe_uri\<close>. All of them rest on the string routines of
  \<open>core/ngx_string.c\<close> (numeric readers, formatted output, escaping) and on the calendar
  of \<open>core/ngx_times.c\<close>.

  \<^bold>\<open>Theories.\<close>
  \<^item> \<open>Ngx_Prelude\<close>: machine types of the build configuration, return codes, limits,
    characters, character classes, \<open>slice\<close> (the bytes between two pointers).
  \<^item> \<open>Byte_Machine\<close>: the shape all parsers of \<open>http/ngx_http_parse.c\<close> share, a
    \<open>for\<close> loop over the bytes of a buffer with a \<open>switch\<close> on a state. \<open>scan\<close> runs
    a step function from a position to a limit and tells whether the loop ran out of input,
    stopped or failed. Its locales give each parser resumption after \<open>NGX_AGAIN\<close>,
    invariants by induction on the loop and independence of the bytes not yet read; every
    parser interprets them.
  \<^item> \<open>Ngx_Atoi\<close>: \<open>ngx_atoi\<close> .. \<open>ngx_hextoi\<close> of \<open>core/ngx_string.c\<close>, with their
    overflow guards; each is shown to return the value of its digits exactly when it fits.
  \<^item> \<open>Ngx_Sprintf\<close>: \<open>ngx_vslprintf\<close> and its callers and helpers; no write past the
    buffer, round trips with the readers.
  \<^item> \<open>Http_Request_Line\<close>: the request line parser; every accepted line is well formed,
    every rendered line is accepted, input may arrive in pieces.
  \<^item> \<open>Http_Header_Line\<close>: the header line parser and the table element
    \<open>ngx_http_process_request_headers\<close> builds from it.
  \<^item> \<open>Http_Uri\<close>, \<open>Http_Complex_Uri\<close>, \<open>Http_Process_Uri\<close>: the URI checker, the URI
    normaliser with its two-pass specification (decode, then remove dot segments), and the
    caller of both; the normaliser implements the specification, its result has no dot
    segment, it never overruns the buffer the caller allocates, and skipping it on the fast
    path changes nothing.
  \<^item> \<open>Http_Status_Line\<close>: the status line parser of upstream responses.
  \<^item> \<open>Http_Chunked\<close>: the chunked parser, the loop of the request body filter and the
    bytes of the response body filter; what is sent is decoded to the same data.
  \<^item> \<open>Ngx_Escape\<close>: URI escaping and unescaping, HTML and JSON escaping; the counting
    passes are exact, unescaping inverts escaping, the output is clean.
  \<^item> \<open>Ngx_Codec\<close>: hexadecimal dumps, base64 and UTF-8; decoding inverts encoding, the
    lengths callers allocate are enough, and characters are counted and copied whole.
  \<^item> \<open>Http_Unsafe_Uri\<close>: the check of URIs from other sources, with the inputs it
    protects against and those it does not.
  \<^item> \<open>Upstream_Round_Robin\<close>: the default load balancer,
    \<open>http/ngx_http_upstream_round_robin.c\<close>: the groups of peers are the state, requests
    and releases its steps. Weights stay in range in every reachable state, the choice is
    fair, and \<open>NGX_BUSY\<close> means that no peer is left. The fairness argument is a locale
    over any smooth weighted choice, interpreted on the code's definitions.
  \<^item> \<open>Http_Location\<close>, \<open>Location_Lookup\<close>: the \<open>location\<close> directive, the search tree made
    of the locations (\<open>http/ngx_http.c\<close>) and its search (\<open>http/ngx_http_core_module.c\<close>): the
    tree finds what the set of locations promises, the search with regular expressions ends
    and keeps the documented order; and what happens to names that do not fit the length
    field of a node. One level of nested blocks is configured at a time; the compiler and the
    matcher of regular expressions are parameters.
  \<^item> \<open>Http_V2_Hpack\<close>, \<open>Hpack_Table\<close>: prefix coded integers and the tables of HPACK
    (\<open>http/v2/ngx_http_v2_table.c\<close>). The dynamic table is a growing ring of entries whose bytes lie in
    a circular buffer; it implements a list of headers with a size limit, in every
    reachable state.
  \<^item> \<open>Http_V2_Request\<close>: the validation of header names and values, the pseudo headers, the
    cookies and the request they build; the request is clean.
  \<^item> \<open>Http_V2_Headers\<close>, \<open>Http_V2_Block\<close>: the handlers of a header block, which
    may stop anywhere for more input; they end, what they keep fits the buffer for it, and
    they decode every block a sender writes, with raw strings and with strings in the Huffman
    code. The handlers of known headers are a parameter.
  \<^item> \<open>Http_Huffman_Tables\<close>, \<open>Http_Huffman\<close>, \<open>Huffman_Code\<close>, \<open>Huffman_Roundtrip\<close>: the Huffman coder
    (\<open>http/ngx_http_huff_decode.c\<close>, \<open>http/ngx_http_huff_encode.c\<close>) with its tables. All 4096
    entries of the decoder's automaton are compared with the code tree; the decoder accepts
    exactly the strings of codes, the encoder writes exactly the codes, and the round trip holds.
  \<^item> \<open>Http_V2_Frames\<close>, \<open>V2_Flow\<close>: the frames of HTTP/2 other than header blocks and priorities, from
    \<open>ngx_http_v2_state_head\<close> to \<open>ngx_http_v2_state_window_update\<close>, and the loop of \<open>ngx_http_v2_read_handler\<close>, which saves up to 16
    bytes of an incomplete frame. The state is the connection with its streams by identifier. Whatever
    the input and its pieces, the windows stay in range, early data fits its buffer and no
    alert is raised. The read and write events of a request are parameters; \<open>env_ok\<close> states what
    is asked of them.
  \<^item> \<open>Http_V2_Filter\<close>, \<open>V2_Send\<close>: the output side: DATA frames within both windows, the output queue ordered by
    priority, the streams that wait for a window, and the cleanup of a request that ends
    early. Data is accounted for to the byte, frames of a stream keep their order, and the
    events of a request that sends and ends this way meet \<open>env_ok\<close> (the interpretation of the
    locale \<open>v2_events\<close>). What the socket takes is a parameter.
  \<^item> \<open>V2_Wire\<close>: frames as bytes: headers read back, header blocks in several frames, a SETTINGS
    frame that arrives in two pieces, and the window of the connection past its maximum.
  \<^item> \<open>Http_Limit_Req\<close>: the request rate limiter,
    \<open>http/modules/ngx_http_limit_req_module.c\<close>: the rate it enforces on every key, and that
    it gives back every reference it takes, on every path of the handler.
  \<^item> \<open>Http_Range\<close>: the byte range filter, from the header to the bytes sent.
  \<^item> \<open>Ngx_Times\<close>: \<open>ngx_gmtime\<close>, the printers of HTTP dates and their parser, against
    the Gregorian calendar counted day by day.

  \<^bold>\<open>Conventions.\<close> A buffer is a list of bytes and a pointer into it is an index; a
  pointer that may be \<open>NULL\<close> is an option. A parser's locals and the fields of the request
  it writes are records; the state of its \<open>switch\<close> is a datatype with the constructors
  of the C enumeration. Integers that may wrap are words; where the code guards against
  overflow before it computes, the model uses \<open>int\<close> and the guards are part of it. Errors
  are \<open>None\<close> or a return code. Every loop but three is a total function, its
  termination proved from the distance to the end of the buffer or to the end of a list. The
  recursion that follows pointers of the configuration and the loop that cuts a response into
  frames are partial, and shown to return; the loop that wakes the streams that wait for a
  window has as many rounds as the queue is long, and those are shown to be enough.

  \<^bold>\<open>Not modelled.\<close> Memory pools, connections, event loops, file and network input and
  output, logging, configuration, the module machinery, TLS, the
  priority tree, server push and response headers of HTTP/2, the frame around a header block, the upstream state machine, the mail and stream proxies; the code under \<open>NGX_WIN32\<close>; allocation failure;
  floating point conversion in \<open>ngx_vslprintf\<close>. The benchmark tools kept beside nginx
  (wrk, lmbench, STREAM) and the scripts are left out.
\<close>

end
